(* ===== verification/Rust_Prelude.thy ===== *)
theory Rust_Prelude
  imports Main "HOL-Library.Word" "HOL-Library.Char_ord" "HOL-Library.List_Lexorder"
begin

text \<open>
  The parts of the Rust language and its standard library that FractalD's sources use, shared by
  every component theory:
  \<^item> \<open>Result\<close> as a sum type (\<open>Err\<close> is \<open>Inl\<close>, \<open>Ok\<close> is \<open>Inr\<close>) and the \<open>?\<close> operator as \<open>bind_res\<close>;
  \<^item> \<open>str\<close>, \<open>String\<close>, \<open>OsString\<close> and \<open>PathBuf\<close> as byte strings (HOL's \<open>string\<close>, one \<open>char\<close> a byte).
    A Rust \<open>char\<close> is the byte string of its UTF-8 encoding, so \<open>str::chars\<close> is \<open>chars\<close>, a list of
    byte strings, and \<open>char::is_whitespace\<close> and \<open>char::is_control\<close> are tests on such a string;
  \<^item> the integer parsers and printers (\<open>str::parse\<close>, \<open>from_str_radix\<close>, \<open>Display\<close>);
  \<^item> path components.
\<close>

section \<open>Named collections\<close>

named_theorems str_simps \<open>evaluation rules for string operations\<close>

section \<open>Results\<close>

abbreviation Ok :: "'a \<Rightarrow> 'e + 'a" where
  "Ok \<equiv> Inr"

abbreviation Err :: "'e \<Rightarrow> 'e + 'a" where
  "Err \<equiv> Inl"

text \<open>The \<open>?\<close> operator: go on with the value of an \<open>Ok\<close>, return an \<open>Err\<close> as it is.\<close>

definition bind_res :: "'e + 'a \<Rightarrow> ('a \<Rightarrow> 'e + 'b) \<Rightarrow> 'e + 'b" where
  "bind_res r f = (case r of Inl e \<Rightarrow> Inl e | Inr x \<Rightarrow> f x)"

lemma bind_res_simps [simp]:
  "bind_res (Inl e) f = Inl e"
  "bind_res (Inr x) f = f x"
  by (simp_all add: bind_res_def)

lemma bind_res_eq_Inr:
  "bind_res r f = Inr y \<longleftrightarrow> (\<exists>x. r = Inr x \<and> f x = Inr y)"
  by (cases r) auto

lemma bind_res_eq_Inl:
  "bind_res r f = Inl e \<longleftrightarrow> r = Inl e \<or> (\<exists>x. r = Inr x \<and> f x = Inl e)"
  by (cases r) auto

text \<open>\<open>Result::map\<close>, \<open>Option::ok_or\<close> and \<open>Option::map(..).transpose()\<close>.\<close>

definition map_res :: "('a \<Rightarrow> 'b) \<Rightarrow> 'e + 'a \<Rightarrow> 'e + 'b" where
  "map_res f r = bind_res r (\<lambda>x. Inr (f x))"

lemma map_res_simps [simp]:
  "map_res f (Inl e) = Inl e"
  "map_res f (Inr x) = Inr (f x)"
  by (simp_all add: map_res_def)

lemma map_res_eq_Inr: "map_res f r = Inr y \<longleftrightarrow> (\<exists>x. r = Inr x \<and> y = f x)"
  by (cases r) auto

definition ok_or :: "'a option \<Rightarrow> 'e \<Rightarrow> 'e + 'a" where
  "ok_or v e = (case v of None \<Rightarrow> Inl e | Some x \<Rightarrow> Inr x)"

lemma ok_or_simps [simp]:
  "ok_or None e = Inl e"
  "ok_or (Some x) e = Inr x"
  by (simp_all add: ok_or_def)

lemma ok_or_eq_Inr [simp]: "ok_or v e = Inr x \<longleftrightarrow> v = Some x"
  by (cases v) auto

definition transpose_map :: "('a \<Rightarrow> 'e + 'b) \<Rightarrow> 'a option \<Rightarrow> 'e + 'b option" where
  "transpose_map f v = (case v of None \<Rightarrow> Inr None | Some x \<Rightarrow> map_res Some (f x))"

lemma transpose_map_simps [simp]:
  "transpose_map f None = Inr None"
  "transpose_map f (Some x) = map_res Some (f x)"
  by (simp_all add: transpose_map_def)

text \<open>\<open>collect::<Result<Vec<_>, _>>\<close> and a \<open>for\<close> loop whose body may return early.\<close>

fun map_try :: "('a \<Rightarrow> 'e + 'b) \<Rightarrow> 'a list \<Rightarrow> 'e + 'b list" where
  "map_try f [] = Inr []"
| "map_try f (x # xs) = bind_res (f x) (\<lambda>y. bind_res (map_try f xs) (\<lambda>ys. Inr (y # ys)))"

fun fold_try :: "('a \<Rightarrow> 's \<Rightarrow> 'e + 's) \<Rightarrow> 'a list \<Rightarrow> 's \<Rightarrow> 'e + 's" where
  "fold_try f [] s = Inr s"
| "fold_try f (x # xs) s = bind_res (f x s) (fold_try f xs)"

lemma map_try_ok_iff:
  "map_try f xs = Inr ys \<longleftrightarrow> length ys = length xs \<and> (\<forall>i < length xs. f (xs ! i) = Inr (ys ! i))"
proof (induction xs arbitrary: ys)
  case Nil
  then show ?case by auto
next
  case (Cons x xs)
  show ?case
  proof (cases ys)
    case Nil
    then show ?thesis by (simp add: bind_res_eq_Inr)
  next
    case (Cons y ys')
    then show ?thesis
      by (simp add: bind_res_eq_Inr Cons.IH All_less_Suc2)
        (auto simp: Cons.IH)
  qed
qed

lemma map_try_pure: "(\<And>x. x \<in> set xs \<Longrightarrow> f x = Inr (g x)) \<Longrightarrow> map_try f xs = Inr (map g xs)"
  by (induction xs) auto

lemma map_try_cong [fundef_cong]:
  "xs = ys \<Longrightarrow> (\<And>x. x \<in> set ys \<Longrightarrow> f x = g x) \<Longrightarrow> map_try f xs = map_try g ys"
  by (induction xs arbitrary: ys) auto

lemma fold_try_append: "fold_try f (xs @ ys) s = bind_res (fold_try f xs s) (fold_try f ys)"
  by (induction xs arbitrary: s) (auto simp: bind_res_def split: sum.splits)

text \<open>A property kept by every successful step of a loop is kept by the loop.\<close>

lemma fold_try_invariant:
  assumes "fold_try f xs s = Inr s'" and "P s"
    and "\<And>x s s'. x \<in> set xs \<Longrightarrow> P s \<Longrightarrow> f x s = Inr s' \<Longrightarrow> P s'"
  shows "P s'"
  using assms
proof (induction xs arbitrary: s)
  case Nil
  then show ?case by simp
next
  case (Cons x xs)
  from Cons.prems(1) obtain t where t: "f x s = Inr t" "fold_try f xs t = Inr s'"
    by (auto simp: bind_res_eq_Inr)
  have "P t" using Cons.prems(3)[of x s t] Cons.prems(2) t(1) by simp
  then show ?case using Cons.IH[OF t(2)] Cons.prems(3) by (meson list.set_intros(2))
qed

section \<open>Bytes and characters\<close>

type_synonym rchar = string \<comment> \<open>the UTF-8 encoding of one Unicode scalar value\<close>

abbreviation byte_val :: "char \<Rightarrow> nat" where
  "byte_val \<equiv> of_char"

definition is_cont :: "char \<Rightarrow> bool" where
  "is_cont c \<longleftrightarrow> 128 \<le> byte_val c \<and> byte_val c < 192"

text \<open>
  \<open>str::chars\<close>: every byte that is no UTF-8 continuation byte starts a character. On valid UTF-8,
  the only contents a Rust \<open>str\<close> can have, this is the sequence of encoded scalar values.
\<close>

function chars :: "string \<Rightarrow> rchar list" where
  "chars [] = []"
| "chars (c # s) = (c # takeWhile is_cont s) # chars (dropWhile is_cont s)"
  by pat_completeness auto
termination
  by (relation "measure length") (auto simp: le_imp_less_Suc length_dropWhile_le)

lemma concat_chars [simp]: "concat (chars s) = s"
  by (induction s rule: chars.induct) (simp_all add: takeWhile_dropWhile_id)

lemma chars_nonempty: "ch \<in> set (chars s) \<Longrightarrow> ch \<noteq> []"
  by (induction s rule: chars.induct) auto

lemma chars_eq_Nil [simp]: "chars s = [] \<longleftrightarrow> s = []"
  by (cases s) auto

definition utf8_encode :: "nat \<Rightarrow> rchar" where
  "utf8_encode n =
     (if n < 128 then [char_of n]
      else if n < 2048 then [char_of (192 + n div 64), char_of (128 + n mod 64)]
      else if n < 65536 then
        [char_of (224 + n div 4096), char_of (128 + n div 64 mod 64), char_of (128 + n mod 64)]
      else
        [char_of (240 + n div 262144), char_of (128 + n div 4096 mod 64),
         char_of (128 + n div 64 mod 64), char_of (128 + n mod 64)])"

definition is_ascii_byte :: "char \<Rightarrow> bool" where
  "is_ascii_byte c \<longleftrightarrow> byte_val c < 128"

definition is_ascii :: "string \<Rightarrow> bool" where
  "is_ascii s \<longleftrightarrow> list_all is_ascii_byte s"

lemma is_ascii_simps [simp]:
  "is_ascii []"
  "is_ascii (c # s) \<longleftrightarrow> is_ascii_byte c \<and> is_ascii s"
  "is_ascii (s @ t) \<longleftrightarrow> is_ascii s \<and> is_ascii t"
  by (auto simp: is_ascii_def)

lemma ascii_not_cont: "is_ascii_byte c \<Longrightarrow> \<not> is_cont c"
  by (simp add: is_ascii_byte_def is_cont_def)

lemma chars_Cons_ascii_next:
  "(s = [] \<or> \<not> is_cont (hd s)) \<Longrightarrow> chars (c # s) = [c] # chars s"
  by (cases s) auto

lemma chars_ascii: "is_ascii s \<Longrightarrow> chars s = map (\<lambda>c. [c]) s"
proof (induction s)
  case Nil
  then show ?case by simp
next
  case (Cons c s)
  then have "s = [] \<or> \<not> is_cont (hd s)" by (cases s) (auto dest: ascii_not_cont)
  then have "chars (c # s) = [c] # chars s" by (rule chars_Cons_ascii_next)
  with Cons show ?case by (simp del: chars.simps)
qed

text \<open>Unicode \<open>White_Space\<close> and the general category \<open>Cc\<close>, the tables behind the Rust predicates.\<close>

definition whitespace_codes :: "nat list" where
  "whitespace_codes = [9, 10, 11, 12, 13, 32, 133, 160, 5760, 8192, 8193, 8194, 8195, 8196, 8197,
     8198, 8199, 8200, 8201, 8202, 8232, 8233, 8239, 8287, 12288]"

definition char_is_whitespace :: "rchar \<Rightarrow> bool" where
  "char_is_whitespace ch \<longleftrightarrow> ch \<in> set (map utf8_encode whitespace_codes)"

definition char_is_control :: "rchar \<Rightarrow> bool" where
  "char_is_control ch \<longleftrightarrow> (\<exists>n < 160. (n < 32 \<or> 127 \<le> n) \<and> ch = utf8_encode n)"

definition byte_in :: "nat \<Rightarrow> nat \<Rightarrow> char \<Rightarrow> bool" where
  "byte_in lo hi c \<longleftrightarrow> lo \<le> byte_val c \<and> byte_val c \<le> hi"

definition is_ascii_digit :: "char \<Rightarrow> bool" where
  "is_ascii_digit c \<longleftrightarrow> byte_in 48 57 c"

definition is_ascii_uppercase :: "char \<Rightarrow> bool" where
  "is_ascii_uppercase c \<longleftrightarrow> byte_in 65 90 c"

definition is_ascii_lowercase :: "char \<Rightarrow> bool" where
  "is_ascii_lowercase c \<longleftrightarrow> byte_in 97 122 c"

definition is_ascii_alphabetic :: "char \<Rightarrow> bool" where
  "is_ascii_alphabetic c \<longleftrightarrow> is_ascii_uppercase c \<or> is_ascii_lowercase c"

definition is_ascii_alphanumeric :: "char \<Rightarrow> bool" where
  "is_ascii_alphanumeric c \<longleftrightarrow> is_ascii_alphabetic c \<or> is_ascii_digit c"

lemmas byte_class_defs = is_ascii_digit_def is_ascii_uppercase_def is_ascii_lowercase_def
  is_ascii_alphabetic_def is_ascii_alphanumeric_def byte_in_def

lemma alphanumeric_ascii: "is_ascii_alphanumeric c \<Longrightarrow> is_ascii_byte c"
  by (auto simp: byte_class_defs is_ascii_byte_def)

lemma byte_val_eq_iff: "c = d \<longleftrightarrow> byte_val c = byte_val d"
  by (metis char_of_char)

text \<open>A predicate on Rust characters that holds of one-byte characters only.\<close>

definition ascii_char :: "(char \<Rightarrow> bool) \<Rightarrow> rchar \<Rightarrow> bool" where
  "ascii_char P ch \<longleftrightarrow> (case ch of [c] \<Rightarrow> is_ascii_byte c \<and> P c | _ \<Rightarrow> False)"

lemma char_is_whitespace_single:
  "char_is_whitespace [c] \<longleftrightarrow> byte_val c \<in> {9, 10, 11, 12, 13, 32}"
proof -
  have "char_is_whitespace [c] \<longleftrightarrow> c \<in> char_of ` {9::nat, 10, 11, 12, 13, 32}"
    by (simp add: char_is_whitespace_def whitespace_codes_def utf8_encode_def)
  also have "\<dots> \<longleftrightarrow> byte_val c \<in> {9, 10, 11, 12, 13, 32}"
    by (auto simp: byte_val_eq_iff)
  finally show ?thesis .
qed

lemma char_is_control_single:
  "char_is_control [c] \<longleftrightarrow> byte_val c < 32 \<or> byte_val c = 127"
proof -
  have single: "[c] = utf8_encode n \<longleftrightarrow> n < 128 \<and> c = char_of n" for n
    by (simp add: utf8_encode_def)
  show ?thesis
    unfolding char_is_control_def single by (auto simp: byte_val_eq_iff intro: exI[of _ "byte_val c"])
qed

section \<open>Machine integers\<close>

definition checked_add :: "'l::len word \<Rightarrow> 'l word \<Rightarrow> 'l word option" where
  "checked_add a b = (if unat a + unat b < 2 ^ LENGTH('l) then Some (a + b) else None)"

definition checked_mul :: "'l::len word \<Rightarrow> 'l word \<Rightarrow> 'l word option" where
  "checked_mul a b = (if unat a * unat b < 2 ^ LENGTH('l) then Some (a * b) else None)"

lemma checked_add_Some: "checked_add a b = Some c \<Longrightarrow> unat c = unat a + unat b"
  by (auto simp: checked_add_def unat_word_ariths split: if_splits)

lemma checked_mul_Some: "checked_mul a b = Some c \<Longrightarrow> unat c = unat a * unat b"
  by (auto simp: checked_mul_def unat_word_ariths split: if_splits)

text \<open>Adding one below a bound does not wrap.\<close>

lemma unat_add_one: "(a :: 'l::len word) < b \<Longrightarrow> unat (a + 1) = unat a + 1"
proof -
  assume "a < b"
  then have "Suc (unat a) \<le> unat b" by (simp add: word_less_nat_alt)
  also have "unat b < 2 ^ LENGTH('l)" by (rule unsigned_less)
  finally show ?thesis by (simp add: unat_word_ariths)
qed

end
