(* ===== verification/Rust_Str.thy ===== *)
theory Rust_Str
  imports Rust_Prelude
begin

text \<open>
  The methods of Rust's \<open>str\<close> that the sources call: affixes, case folding, trimming, splitting,
  joining, \<open>lines\<close>, and the integer parsers with their printers. The laws proved here (what
  splitting does to a joined list, what parsing does to a printed number) carry the round trips of
  the component theories.
\<close>

section \<open>Affixes and case\<close>

definition starts_with :: "string \<Rightarrow> string \<Rightarrow> bool" where
  "starts_with s p \<longleftrightarrow> take (length p) s = p"

definition strip_prefix :: "string \<Rightarrow> string \<Rightarrow> string option" where
  "strip_prefix p s = (if starts_with s p then Some (drop (length p) s) else None)"

definition ends_with :: "string \<Rightarrow> string \<Rightarrow> bool" where
  "ends_with s p \<longleftrightarrow> length p \<le> length s \<and> drop (length s - length p) s = p"

definition strip_suffix :: "string \<Rightarrow> string \<Rightarrow> string option" where
  "strip_suffix p s = (if ends_with s p then Some (take (length s - length p) s) else None)"

lemma starts_with_append [simp]: "starts_with (p @ s) p"
  by (simp add: starts_with_def)

lemma starts_with_iff: "starts_with s p \<longleftrightarrow> (\<exists>r. s = p @ r)"
  unfolding starts_with_def by (metis append_eq_conv_conj append_take_drop_id)

lemma strip_prefix_Some: "strip_prefix p s = Some r \<longleftrightarrow> s = p @ r"
  by (auto simp: strip_prefix_def starts_with_iff)

lemma strip_prefix_append [simp]: "strip_prefix p (p @ s) = Some s"
  by (simp add: strip_prefix_Some)

lemma ends_with_iff: "ends_with s p \<longleftrightarrow> (\<exists>r. s = r @ p)"
  unfolding ends_with_def
  by (metis append_take_drop_id append_eq_conv_conj diff_add_inverse2 le_add2 length_append)

lemma strip_suffix_Some: "strip_suffix p s = Some r \<longleftrightarrow> s = r @ p"
  by (auto simp: strip_suffix_def ends_with_iff)

lemma strip_suffix_append [simp]: "strip_suffix p (s @ p) = Some s"
  by (simp add: strip_suffix_Some)

lemma strip_suffix_rev: "strip_suffix p s = map_option rev (strip_prefix (rev p) (rev s))"
proof (cases "strip_suffix p s")
  case None
  then have "\<not> (\<exists>r. s = r @ p)" by (metis option.distinct(1) strip_suffix_Some)
  then have "strip_prefix (rev p) (rev s) = None"
    by (metis not_None_eq rev_append rev_rev_ident strip_prefix_Some)
  then show ?thesis using None by simp
next
  case (Some r)
  then have "s = r @ p" by (simp add: strip_suffix_Some)
  then show ?thesis using Some by simp
qed

lemma strip_prefix_Cons: "strip_prefix (c # p) (d # s) = (if c = d then strip_prefix p s else None)"
  by (auto simp: strip_prefix_def starts_with_def)

lemma strip_prefix_Nil [simp]: "strip_prefix [] s = Some s"
  by (simp add: strip_prefix_def starts_with_def)

definition ascii_lower :: "char \<Rightarrow> char" where
  "ascii_lower c = (if is_ascii_uppercase c then char_of (byte_val c + 32) else c)"

definition ascii_upper :: "char \<Rightarrow> char" where
  "ascii_upper c = (if is_ascii_lowercase c then char_of (byte_val c - 32) else c)"

definition to_ascii_lowercase :: "string \<Rightarrow> string" where
  "to_ascii_lowercase s = map ascii_lower s"

definition to_ascii_uppercase :: "string \<Rightarrow> string" where
  "to_ascii_uppercase s = map ascii_upper s"

definition eq_ignore_ascii_case :: "string \<Rightarrow> string \<Rightarrow> bool" where
  "eq_ignore_ascii_case s t \<longleftrightarrow> to_ascii_lowercase s = to_ascii_lowercase t"

lemma ascii_lower_idem [simp]: "ascii_lower (ascii_lower c) = ascii_lower c"
  by (auto simp: ascii_lower_def byte_class_defs)

lemma to_ascii_lowercase_idem [simp]: "to_ascii_lowercase (to_ascii_lowercase s) = to_ascii_lowercase s"
  by (simp add: to_ascii_lowercase_def)

lemma length_to_ascii_lowercase [simp]: "length (to_ascii_lowercase s) = length s"
  by (simp add: to_ascii_lowercase_def)

section \<open>Characters of a concatenation\<close>

definition starts_char :: "string \<Rightarrow> bool" where
  "starts_char s \<longleftrightarrow> s = [] \<or> \<not> is_cont (hd s)"

lemma starts_char_simps [simp]:
  "starts_char []"
  "starts_char (c # s) \<longleftrightarrow> \<not> is_cont c"
  by (simp_all add: starts_char_def)

lemma dropWhile_cont_append:
  "starts_char t \<Longrightarrow> dropWhile is_cont (s @ t) = dropWhile is_cont s @ t"
  by (induction s) (cases t; auto)+

lemma takeWhile_cont_append:
  "starts_char t \<Longrightarrow> takeWhile is_cont (s @ t) = takeWhile is_cont s"
  by (induction s) (cases t; auto)+

lemma chars_append: "starts_char t \<Longrightarrow> chars (s @ t) = chars s @ chars t"
proof (induction s rule: chars.induct)
  case 1
  then show ?case by simp
next
  case (2 c s)
  then show ?case by (simp add: takeWhile_cont_append dropWhile_cont_append)
qed

text \<open>
  The segments of \<open>chars\<close>: every character is one byte followed by continuation bytes, and only the
  first one may start with a continuation byte. Such a list is the character list of its bytes.
\<close>

definition char_shape :: "rchar \<Rightarrow> bool" where
  "char_shape ch \<longleftrightarrow> ch \<noteq> [] \<and> list_all is_cont (tl ch)"

definition char_list :: "rchar list \<Rightarrow> bool" where
  "char_list cs \<longleftrightarrow> list_all char_shape cs \<and> list_all (\<lambda>ch. \<not> is_cont (hd ch)) (tl cs)"

lemma chars_heads: "list_all char_shape (chars s) \<and> (starts_char s \<longrightarrow> list_all (\<lambda>ch. \<not> is_cont (hd ch)) (chars s))"
proof (induction s rule: chars.induct)
  case 1
  then show ?case by simp
next
  case (2 c s)
  have "starts_char (dropWhile is_cont s)" unfolding starts_char_def using hd_dropWhile by blast
  then show ?case using 2 set_takeWhileD[of _ is_cont s] by (auto simp: char_shape_def list_all_iff)
qed

lemma char_list_chars: "char_list (chars s)"
proof (cases s)
  case Nil
  then show ?thesis by (simp add: char_list_def)
next
  case (Cons c t)
  have "starts_char (dropWhile is_cont t)" unfolding starts_char_def using hd_dropWhile by blast
  then show ?thesis using chars_heads[of s] chars_heads[of "dropWhile is_cont t"] Cons
    by (simp add: char_list_def)
qed

lemma char_list_append: "char_list (cs @ ds) \<Longrightarrow> char_list cs \<and> char_list ds"
  by (cases cs; cases ds) (auto simp: char_list_def)

lemma chars_concat: "char_list cs \<Longrightarrow> chars (concat cs) = cs"
proof (induction cs)
  case Nil
  then show ?case by simp
next
  case (Cons ch cs)
  obtain c t where ch: "ch = c # t" "list_all is_cont t"
    using Cons.prems by (cases ch) (auto simp: char_list_def char_shape_def)
  have next_char: "starts_char (concat cs)"
  proof (cases cs)
    case (Cons d ds)
    then show ?thesis using Cons.prems by (cases d) (auto simp: char_list_def char_shape_def)
  qed simp
  have all: "takeWhile is_cont t = t" "dropWhile is_cont t = []"
    using ch(2) by (simp_all add: list_all_iff takeWhile_eq_all_conv dropWhile_eq_Nil_conv)
  have "chars (ch @ concat cs) = chars ch @ chars (concat cs)"
    using next_char by (rule chars_append)
  moreover have "chars (concat cs) = cs"
    using Cons.prems char_list_append[of "[ch]" cs] by (intro Cons.IH) simp
  ultimately show ?case using ch(1) all by simp
qed

section \<open>Trimming and splitting\<close>

definition trim_start :: "string \<Rightarrow> string" where
  "trim_start s = concat (dropWhile char_is_whitespace (chars s))"

definition trim_end :: "string \<Rightarrow> string" where
  "trim_end s = concat (rev (dropWhile char_is_whitespace (rev (chars s))))"

definition trim :: "string \<Rightarrow> string" where
  "trim s = concat (rev (dropWhile char_is_whitespace (rev (dropWhile char_is_whitespace (chars s)))))"

lemma trim_Nil [simp]: "trim [] = []"
  by (simp add: trim_def)

text \<open>A string none of whose characters is white space, and its boundary variant.\<close>

definition no_whitespace :: "string \<Rightarrow> bool" where
  "no_whitespace s \<longleftrightarrow> list_all (\<lambda>ch. \<not> char_is_whitespace ch) (chars s)"

definition trimmed :: "string \<Rightarrow> bool" where
  "trimmed s \<longleftrightarrow> s = [] \<or> \<not> char_is_whitespace (hd (chars s)) \<and> \<not> char_is_whitespace (last (chars s))"

lemma dropWhile_hd_id: "xs = [] \<or> \<not> P (hd xs) \<Longrightarrow> dropWhile P xs = xs"
  by (cases xs) auto

lemma trim_trimmed: "trimmed s \<Longrightarrow> trim s = s"
  by (auto simp: trim_def trimmed_def dropWhile_hd_id hd_rev)

lemma chars_trim:
  "chars (trim s) = rev (dropWhile char_is_whitespace (rev (dropWhile char_is_whitespace (chars s))))"
proof -
  let ?m = "dropWhile char_is_whitespace (chars s)"
  have "char_list (takeWhile char_is_whitespace (chars s) @ ?m)" using char_list_chars[of s] by simp
  then have "char_list ?m" using char_list_append by blast
  moreover have "?m = rev (dropWhile char_is_whitespace (rev ?m)) @ rev (takeWhile char_is_whitespace (rev ?m))"
    by (metis rev_append rev_rev_ident takeWhile_dropWhile_id)
  ultimately have "char_list (rev (dropWhile char_is_whitespace (rev ?m)))"
    by (metis char_list_append)
  then show ?thesis unfolding trim_def by (rule chars_concat)
qed

lemma trimmed_trim: "trimmed (trim s)"
proof (cases "chars (trim s) = []")
  case True
  then show ?thesis by (simp add: trimmed_def)
next
  case False
  let ?m = "dropWhile char_is_whitespace (chars s)"
  let ?t = "dropWhile char_is_whitespace (rev ?m)"
  have ne: "?t \<noteq> []" "chars (trim s) = rev ?t" using False by (simp_all add: chars_trim)
  have "\<not> char_is_whitespace (hd ?t)" using ne(1) by (rule hd_dropWhile)
  moreover have "\<not> char_is_whitespace (last ?t)"
  proof -
    have "?m \<noteq> []" using ne(1) by (metis dropWhile.simps(1) rev.simps(1))
    then have "\<not> char_is_whitespace (hd ?m)" by (rule hd_dropWhile)
    moreover have "last ?t = last (rev ?m)"
      using ne(1) by (metis last_appendR takeWhile_dropWhile_id)
    ultimately show ?thesis using \<open>?m \<noteq> []\<close> by (simp add: last_rev)
  qed
  ultimately show ?thesis using ne by (simp add: trimmed_def hd_rev last_rev)
qed

lemma trim_idem [simp]: "trim (trim s) = trim s"
  by (rule trim_trimmed[OF trimmed_trim])

lemma no_whitespace_trimmed: "no_whitespace s \<Longrightarrow> trimmed s"
  by (cases "chars s = []") (auto simp: no_whitespace_def trimmed_def list_all_iff)

lemma no_whitespace_Nil [simp]: "no_whitespace []"
  by (simp add: no_whitespace_def)

fun split_ws :: "rchar list \<Rightarrow> string \<Rightarrow> string list" where
  "split_ws [] acc = (if acc = [] then [] else [acc])"
| "split_ws (ch # cs) acc =
     (if char_is_whitespace ch
      then (if acc = [] then split_ws cs [] else acc # split_ws cs [])
      else split_ws cs (acc @ ch))"

definition split_whitespace :: "string \<Rightarrow> string list" where
  "split_whitespace s = split_ws (chars s) []"

lemma split_ws_word:
  "list_all (\<lambda>ch. \<not> char_is_whitespace ch) cs \<Longrightarrow> split_ws (cs @ ds) acc = split_ws ds (acc @ concat cs)"
  by (induction cs arbitrary: acc) auto

lemma space_is_whitespace [simp]:
  "char_is_whitespace '' ''"
  "char_is_whitespace [CHR 0x0A]"
  by (simp_all add: char_is_whitespace_single)

lemma not_cont_ascii [simp]:
  "\<not> is_cont (CHR '' '')" "\<not> is_cont (CHR 0x0A)" "\<not> is_cont (CHR 0x0D)" "\<not> is_cont (CHR ''='')"
  by (simp_all add: is_cont_def)

text \<open>One word followed by a separator, the step of every tokenizer round trip.\<close>

lemma split_whitespace_word:
  assumes "no_whitespace w" "w \<noteq> []" "starts_char (c # s)" "char_is_whitespace [c]" "starts_char s"
  shows "split_whitespace (w @ c # s) = w # split_whitespace s"
proof -
  have "chars (w @ c # s) = chars w @ chars (c # s)" by (rule chars_append) (rule assms(3))
  also have "chars (c # s) = [c] # chars s"
    using assms(5) by (intro chars_Cons_ascii_next) (simp add: starts_char_def)
  finally show ?thesis
    using assms(1,2,4) by (simp add: split_whitespace_def no_whitespace_def split_ws_word)
qed

lemma split_whitespace_single:
  "no_whitespace w \<Longrightarrow> w \<noteq> [] \<Longrightarrow> split_whitespace w = [w]"
  using split_ws_word[of "chars w" "[]" "[]"] by (simp add: split_whitespace_def no_whitespace_def)

lemma split_whitespace_Nil [simp]: "split_whitespace [] = []"
  by (simp add: split_whitespace_def)

lemma split_whitespace_newline:
  "no_whitespace w \<Longrightarrow> w \<noteq> [] \<Longrightarrow> split_whitespace (w @ [CHR 0x0A]) = [w]"
  by (subst split_whitespace_word) simp_all

text \<open>Every word a string splits into is non-empty and free of white space.\<close>

lemma split_ws_words:
  assumes "\<And>ch. ch \<in> set cs \<Longrightarrow> ch \<noteq> []"
  shows "w \<in> set (split_ws cs acc) \<Longrightarrow> w \<noteq> []"
  using assms
proof (induction cs arbitrary: acc)
  case Nil
  then show ?case by (simp split: if_splits)
next
  case (Cons ch cs)
  then show ?case by (auto split: if_splits)
qed

lemma split_whitespace_nonempty: "w \<in> set (split_whitespace s) \<Longrightarrow> w \<noteq> []"
  unfolding split_whitespace_def by (rule split_ws_words) (auto dest: chars_nonempty)

fun split_once :: "char \<Rightarrow> string \<Rightarrow> (string \<times> string) option" where
  "split_once c [] = None"
| "split_once c (x # s) =
     (if x = c then Some ([], s)
      else map_option (\<lambda>(a, b). (x # a, b)) (split_once c s))"

lemma split_once_Some:
  "split_once c s = Some (a, b) \<longleftrightarrow> s = a @ c # b \<and> c \<notin> set a"
proof (induction s arbitrary: a)
  case Nil
  then show ?case by simp
next
  case (Cons x s)
  show ?case by (cases a) (auto simp: Cons.IH)
qed

lemma split_once_None: "split_once c s = None \<longleftrightarrow> c \<notin> set s"
  by (induction s) auto

lemma split_once_append [simp]: "c \<notin> set a \<Longrightarrow> split_once c (a @ c # b) = Some (a, b)"
  by (simp add: split_once_Some)

definition rsplit_once :: "char \<Rightarrow> string \<Rightarrow> (string \<times> string) option" where
  "rsplit_once c s = map_option (\<lambda>(b, a). (rev a, rev b)) (split_once c (rev s))"

lemma rsplit_once_Some:
  "rsplit_once c s = Some (a, b) \<longleftrightarrow> s = a @ c # b \<and> c \<notin> set b"
proof -
  have "rsplit_once c s = Some (a, b) \<longleftrightarrow> split_once c (rev s) = Some (rev b, rev a)"
    by (auto simp: rsplit_once_def)
  also have "\<dots> \<longleftrightarrow> rev s = rev (a @ c # b) \<and> c \<notin> set b"
    by (simp add: split_once_Some)
  finally show ?thesis by (simp only: rev_is_rev_conv)
qed

fun split_char :: "char \<Rightarrow> string \<Rightarrow> string list" where
  "split_char c [] = [[]]"
| "split_char c (x # s) =
     (if x = c then [] # split_char c s
      else (case split_char c s of [] \<Rightarrow> [[x]] | p # ps \<Rightarrow> (x # p) # ps))"

lemma split_char_nonempty [simp]: "split_char c s \<noteq> []"
  by (induction s) (auto split: list.splits)

lemma split_char_word: "c \<notin> set w \<Longrightarrow> split_char c w = [w]"
  by (induction w) auto

lemma split_char_append: "c \<notin> set w \<Longrightarrow> split_char c (w @ c # s) = w # split_char c s"
  by (induction w) auto

lemma split_char_no_sep: "p \<in> set (split_char c s) \<Longrightarrow> c \<notin> set p"
  by (induction s arbitrary: p) (auto split: if_splits list.splits)

fun join :: "string \<Rightarrow> string list \<Rightarrow> string" where
  "join sep [] = []"
| "join sep [x] = x"
| "join sep (x # y # xs) = x @ sep @ join sep (y # xs)"

lemma split_char_ascii: "is_ascii s \<Longrightarrow> p \<in> set (split_char c s) \<Longrightarrow> is_ascii p"
  by (induction s arbitrary: p) (fastforce split: if_splits list.splits)+

lemma split_char_join:
  "xs \<noteq> [] \<Longrightarrow> (\<And>x. x \<in> set xs \<Longrightarrow> c \<notin> set x) \<Longrightarrow> split_char c (join [c] xs) = xs"
  by (induction "[c]" xs rule: join.induct) (auto simp: split_char_word split_char_append)

text \<open>\<open>str::lines\<close>: a line ends at \<open>\n\<close> or \<open>\r\n\<close>; a last line needs no terminator.\<close>

definition strip_cr :: "string \<Rightarrow> string" where
  "strip_cr s = (case strip_suffix [CHR 0x0D] s of None \<Rightarrow> s | Some t \<Rightarrow> t)"

fun lines_from :: "string \<Rightarrow> string \<Rightarrow> string list" where
  "lines_from acc [] = (if acc = [] then [] else [acc])"
| "lines_from acc (c # s) =
     (if c = CHR 0x0A then strip_cr acc # lines_from [] s else lines_from (acc @ [c]) s)"

definition lines :: "string \<Rightarrow> string list" where
  "lines s = lines_from [] s"

lemma lines_from_line:
  "CHR 0x0A \<notin> set l \<Longrightarrow> lines_from acc (l @ CHR 0x0A # s) = strip_cr (acc @ l) # lines_from [] s"
  by (induction l arbitrary: acc) auto

section \<open>Tokens\<close>

text \<open>A token is what \<open>split_whitespace\<close> returns: a non-empty string of characters that are not white space.\<close>

definition token :: "string \<Rightarrow> bool" where
  "token w \<longleftrightarrow> w \<noteq> [] \<and> no_whitespace w \<and> starts_char w"

lemma starts_char_append: "w \<noteq> [] \<Longrightarrow> starts_char (w @ s) \<longleftrightarrow> starts_char w"
  by (simp add: starts_char_def)

lemma no_whitespace_append: "starts_char v \<Longrightarrow> no_whitespace (u @ v) \<longleftrightarrow> no_whitespace u \<and> no_whitespace v"
  by (simp add: no_whitespace_def chars_append)

lemma starts_char_join: "(\<And>w. w \<in> set ws \<Longrightarrow> token w) \<Longrightarrow> starts_char (join '' '' ws)"
  by (induction "'' ''" ws rule: join.induct) (auto simp: token_def starts_char_append)

lemma join_two:
  assumes "starts_char (join '' '' (v # ws))"
  shows "chars (join '' '' (w # v # ws)) = chars w @ '' '' # chars (join '' '' (v # ws))"
proof -
  have "chars (w @ '' '' @ join '' '' (v # ws)) = chars w @ chars ('' '' @ join '' '' (v # ws))"
    by (rule chars_append) simp
  also have "chars ('' '' @ join '' '' (v # ws)) = '' '' # chars (join '' '' (v # ws))"
    using assms chars_Cons_ascii_next[of "join '' '' (v # ws)" "CHR '' ''"] by (simp add: starts_char_def)
  finally show ?thesis by simp
qed

lemma chars_join_ends:
  "ws \<noteq> [] \<Longrightarrow> (\<And>w. w \<in> set ws \<Longrightarrow> token w) \<Longrightarrow>
     chars (join '' '' ws) \<noteq> [] \<and> hd (chars (join '' '' ws)) = hd (chars (hd ws)) \<and>
     last (chars (join '' '' ws)) = last (chars (last ws))"
proof (induction "'' ''" ws rule: join.induct)
  case (3 w v ws)
  have "starts_char (join '' '' (v # ws))" using 3 by (intro starts_char_join) auto
  note ch = join_two[OF this, of w]
  have "w \<noteq> []" using 3 by (simp add: token_def)
  then show ?case using 3 unfolding ch by (auto simp: hd_append)
qed (auto simp: token_def)

lemma trimmed_join:
  assumes "ws \<noteq> []" and "\<And>w. w \<in> set ws \<Longrightarrow> token w"
  shows "trimmed (join '' '' ws)"
proof -
  have "token (hd ws)" "token (last ws)" using assms by simp_all
  then have "\<not> char_is_whitespace (hd (chars (hd ws)))" "\<not> char_is_whitespace (last (chars (last ws)))"
    by (auto simp: token_def no_whitespace_def list_all_iff)
  then show ?thesis using chars_join_ends[OF assms] by (simp add: trimmed_def)
qed

lemma trim_newline: "trimmed s \<Longrightarrow> trim (s @ [CHR 0x0A]) = s"
  by (cases "s = []") (auto simp: trim_def chars_append trimmed_def dropWhile_hd_id hd_rev)

lemma split_whitespace_join:
  "(\<And>w. w \<in> set ws \<Longrightarrow> token w) \<Longrightarrow> split_whitespace (join '' '' ws) = ws"
proof (induction "'' ''" ws rule: join.induct)
  case (3 w v ws)
  have "starts_char (join '' '' (v # ws))" using 3 by (intro starts_char_join) auto
  then have "split_whitespace (w @ CHR '' '' # join '' '' (v # ws)) = w # split_whitespace (join '' '' (v # ws))"
    using 3 by (intro split_whitespace_word) (auto simp: token_def char_is_whitespace_single)
  then show ?case using 3 by simp
qed (auto simp: token_def split_whitespace_single)

lemma split_ws_trailing: "char_is_whitespace ch \<Longrightarrow> split_ws (cs @ [ch]) acc = split_ws cs acc"
  by (induction cs arbitrary: acc) auto

lemma split_whitespace_line: "split_whitespace (s @ [CHR 0x0A]) = split_whitespace s"
  by (simp add: split_whitespace_def chars_append split_ws_trailing)

section \<open>Integers\<close>

text \<open>\<open>char::to_digit\<close> for a radix of at most 16, and the digit loop of \<open>from_str_radix\<close>.\<close>

definition to_digit :: "nat \<Rightarrow> char \<Rightarrow> nat option" where
  "to_digit radix c =
     (let v = (if is_ascii_digit c then Some (byte_val c - 48)
               else if byte_in 97 102 c then Some (byte_val c - 87)
               else if byte_in 65 70 c then Some (byte_val c - 55)
               else None)
      in (case v of None \<Rightarrow> None | Some d \<Rightarrow> if d < radix then Some d else None))"

fun digits_value :: "nat \<Rightarrow> nat \<Rightarrow> string \<Rightarrow> nat option" where
  "digits_value radix acc [] = Some acc"
| "digits_value radix acc (c # s) =
     (case to_digit radix c of None \<Rightarrow> None | Some d \<Rightarrow> digits_value radix (acc * radix + d) s)"

text \<open>
  \<open>uN::from_str_radix\<close>: an optional \<open>+\<close>, then at least one digit; \<open>None\<close> for every error, the
  overflow of \<open>max\<close> included. \<open>iN::from_str_radix\<close> also takes a \<open>-\<close>.
\<close>

definition parse_unsigned :: "nat \<Rightarrow> nat \<Rightarrow> string \<Rightarrow> nat option" where
  "parse_unsigned radix bits s =
     (let t = (case s of c # r \<Rightarrow> if c = CHR ''+'' then r else s | [] \<Rightarrow> [])
      in if t = [] then None
         else (case digits_value radix 0 t of
                 None \<Rightarrow> None
               | Some n \<Rightarrow> if n < 2 ^ bits then Some n else None))"

definition parse_i32 :: "string \<Rightarrow> int option" where
  "parse_i32 s =
     (case s of
        [] \<Rightarrow> None
      | c # r \<Rightarrow>
          if c = CHR ''-'' then
            (if r = [] then None
             else (case digits_value 10 0 r of
                     None \<Rightarrow> None
                   | Some n \<Rightarrow> if n \<le> 2 ^ 31 then Some (- int n) else None))
          else map_option int (parse_unsigned 10 31 s))"

definition parse_u64 :: "string \<Rightarrow> 64 word option" where
  "parse_u64 s = map_option of_nat (parse_unsigned 10 64 s)"

definition parse_u32 :: "string \<Rightarrow> 32 word option" where
  "parse_u32 s = map_option of_nat (parse_unsigned 10 32 s)"

definition digit_char :: "nat \<Rightarrow> char" where
  "digit_char d = char_of (48 + d)"

fun show_nat :: "nat \<Rightarrow> string" where
  "show_nat n = (if n < 10 then [digit_char n] else show_nat (n div 10) @ [digit_char (n mod 10)])"

declare show_nat.simps [simp del]

lemma byte_val_digit_char: "d < 10 \<Longrightarrow> byte_val (digit_char d) = 48 + d"
  by (simp add: digit_char_def)

lemma to_digit_digit_char: "d < 10 \<Longrightarrow> to_digit 10 (digit_char d) = Some d"
  by (simp add: to_digit_def byte_class_defs byte_val_digit_char)

lemma digits_value_append:
  "digits_value radix acc (s @ t) =
     (case digits_value radix acc s of None \<Rightarrow> None | Some v \<Rightarrow> digits_value radix v t)"
  by (induction s arbitrary: acc) (auto split: option.splits)

lemma digit_char_eval:
  "digit_char 0 = CHR ''0''" "digit_char 1 = CHR ''1''" "digit_char (Suc 0) = CHR ''1''" "digit_char 2 = CHR ''2''"
  "digit_char 3 = CHR ''3''" "digit_char 4 = CHR ''4''" "digit_char 5 = CHR ''5''" "digit_char 6 = CHR ''6''"
  "digit_char 7 = CHR ''7''" "digit_char 8 = CHR ''8''" "digit_char 9 = CHR ''9''"
  by (simp_all add: digit_char_def char_of_def bit_0)

lemma digits_value_show_nat: "digits_value 10 0 (show_nat n) = Some n"
proof (induction n rule: show_nat.induct)
  case (1 n)
  show ?case
  proof (cases "n < 10")
    case True
    then show ?thesis by (simp add: show_nat.simps[of n] to_digit_digit_char)
  next
    case False
    then have "digits_value 10 0 (show_nat n) = Some (n div 10 * 10 + n mod 10)"
      using "1.IH" by (simp add: show_nat.simps[of n] digits_value_append to_digit_digit_char)
    then show ?thesis by (simp add: mult.commute)
  qed
qed

lemma show_nat_digits: "c \<in> set (show_nat n) \<Longrightarrow> is_ascii_digit c"
proof (induction n rule: show_nat.induct)
  case (1 n)
  then show ?case
    by (auto simp: show_nat.simps[of n] byte_class_defs byte_val_digit_char split: if_splits)
qed

lemma show_nat_nonempty [simp]: "show_nat n \<noteq> []"
  by (subst show_nat.simps) simp

lemma digit_not_special:
  "is_ascii_digit c \<Longrightarrow> c \<noteq> CHR ''+'' \<and> c \<noteq> CHR ''-'' \<and> c \<noteq> CHR ''='' \<and> c \<noteq> CHR '' ''"
  by (auto simp: byte_class_defs)

lemma parse_unsigned_show_nat: "n < 2 ^ bits \<Longrightarrow> parse_unsigned 10 bits (show_nat n) = Some n"
proof -
  assume n: "n < 2 ^ bits"
  obtain c r where s: "show_nat n = c # r" by (cases "show_nat n") auto
  then have "is_ascii_digit c" using show_nat_digits[of c n] by simp
  then have "c \<noteq> CHR ''+''" by (simp add: digit_not_special)
  then show ?thesis
    using s n digits_value_show_nat[of n] by (simp add: parse_unsigned_def)
qed

lemma parse_u64_show [simp]: "parse_u64 (show_nat (unat (w :: 64 word))) = Some w"
  using parse_unsigned_show_nat[of "unat w" 64] unsigned_less[of w, where ?'a = nat]
  by (simp add: parse_u64_def)

lemma parse_u32_show [simp]: "parse_u32 (show_nat (unat (w :: 32 word))) = Some w"
  using parse_unsigned_show_nat[of "unat w" 32] unsigned_less[of w, where ?'a = nat]
  by (simp add: parse_u32_def)

lemma digit_ascii: "is_ascii_digit c \<Longrightarrow> is_ascii_byte c"
  by (simp add: byte_class_defs is_ascii_byte_def)

lemma no_whitespace_ascii:
  "is_ascii s \<Longrightarrow> no_whitespace s \<longleftrightarrow> (\<forall>c \<in> set s. byte_val c \<notin> {9, 10, 11, 12, 13, 32})"
  by (simp add: no_whitespace_def chars_ascii list_all_iff char_is_whitespace_single)

lemma show_nat_no_whitespace: "no_whitespace (show_nat n)"
proof -
  have "is_ascii (show_nat n)"
    using show_nat_digits[of _ n] by (auto simp: is_ascii_def list_all_iff intro: digit_ascii)
  moreover have "byte_val c \<notin> {9, 10, 11, 12, 13, 32}" if "c \<in> set (show_nat n)" for c
    using show_nat_digits[OF that] by (auto simp: byte_class_defs)
  ultimately show ?thesis by (simp add: no_whitespace_ascii)
qed

lemma parse_unsigned_bound: "parse_unsigned radix bits s = Some n \<Longrightarrow> n < 2 ^ bits"
  by (auto simp: parse_unsigned_def Let_def split: option.splits if_splits list.splits)

lemma parse_i32_bound: "parse_i32 s = Some i \<Longrightarrow> - (2 ^ 31) \<le> i \<and> i < 2 ^ 31"
  using parse_unsigned_bound[of 10 31 s]
  by (fastforce simp: parse_i32_def split: option.splits if_splits list.splits)

lemma digits_value_all: "digits_value base acc s = Some n \<Longrightarrow> c \<in> set s \<Longrightarrow> to_digit base c \<noteq> None"
  by (induction base acc s rule: digits_value.induct) (auto split: option.splits)

lemma parse_i32_nondigit:
  assumes "c \<in> set s" "to_digit 10 c = None" "c \<noteq> CHR ''-''" "c \<noteq> CHR ''+''"
  shows "parse_i32 s = None"
proof -
  have "digits_value 10 0 t = None" if "c \<in> set t" for t
    using digits_value_all[of 10 0 t _ c] assms(2) that by (cases "digits_value 10 0 t") auto
  then show ?thesis using assms
    by (cases s) (auto simp: parse_i32_def parse_unsigned_def Let_def simp del: digits_value.simps)
qed

lemma show_nat_token: "token (show_nat n)"
proof -
  have "starts_char (show_nat n)"
    using show_nat_digits[of "hd (show_nat n)" n] by (auto simp: starts_char_def is_cont_def byte_class_defs)
  then show ?thesis by (simp add: token_def show_nat_no_whitespace)
qed

end
