(* ===== verification/Rust_Path.thy ===== *)
theory Rust_Path
  imports Rust_Str
begin

text \<open>
  \<open>std::path\<close> on Unix: the components of a path, which \<open>Path\<close>'s equality and \<open>starts_with\<close>
  compare, and the tests on them that the sources make.
\<close>

datatype path_component = RootDir | CurDir | ParentDir | Normal string

definition is_absolute :: "string \<Rightarrow> bool" where
  "is_absolute p \<longleftrightarrow> starts_with p ''/''"

definition body_component :: "string \<Rightarrow> path_component list" where
  "body_component p =
     (if p = [] \<or> p = ''.'' then [] else if p = ''..'' then [ParentDir] else [Normal p])"

text \<open>
  \<open>Path::components\<close>: a leading slash is the root, repeated and trailing slashes and inner \<open>.\<close>
  vanish, a leading \<open>.\<close> of a relative path stays.
\<close>

definition path_components :: "string \<Rightarrow> path_component list" where
  "path_components p =
     (let parts = split_char CHR ''/'' p
      in if is_absolute p then RootDir # concat (map body_component parts)
         else if hd parts = ''.'' then CurDir # concat (map body_component (tl parts))
         else concat (map body_component parts))"

definition has_parent_dir :: "string \<Rightarrow> bool" where
  "has_parent_dir p \<longleftrightarrow> ParentDir \<in> set (path_components p)"

definition path_starts_with :: "path_component list \<Rightarrow> path_component list \<Rightarrow> bool" where
  "path_starts_with p base \<longleftrightarrow> take (length base) p = base"

definition path_eq :: "string \<Rightarrow> string \<Rightarrow> bool" where
  "path_eq p q \<longleftrightarrow> path_components p = path_components q"

lemma path_starts_with_refl [simp]: "path_starts_with p p"
  by (simp add: path_starts_with_def)

lemma path_starts_with_iff: "path_starts_with p base \<longleftrightarrow> (\<exists>r. p = base @ r)"
  unfolding path_starts_with_def by (metis append_eq_conv_conj append_take_drop_id)

lemma path_starts_with_trans:
  "path_starts_with p q \<Longrightarrow> path_starts_with q r \<Longrightarrow> path_starts_with p r"
  by (auto simp: path_starts_with_iff)

lemma body_component_no_root: "RootDir \<notin> set (body_component p)" "CurDir \<notin> set (body_component p)"
  by (auto simp: body_component_def)

lemma absolute_components: "is_absolute p \<Longrightarrow> \<exists>cs. path_components p = RootDir # cs"
  by (simp add: path_components_def Let_def)

text \<open>\<open>PathBuf::join\<close>\<close>

definition path_join :: "string \<Rightarrow> string \<Rightarrow> string" where
  "path_join base path =
     (if starts_with path ''/'' then path
      else if base = [] \<or> ends_with base ''/'' then base @ path
      else base @ ''/'' @ path)"

text \<open>\<open>Path::file_name\<close> and \<open>Path::extension\<close>\<close>

definition path_file_name :: "string \<Rightarrow> string option" where
  "path_file_name p = (case rev (path_components p) of Normal name # _ \<Rightarrow> Some name | _ \<Rightarrow> None)"

definition path_extension :: "string \<Rightarrow> string option" where
  "path_extension p =
     (case Option.bind (path_file_name p) (rsplit_once CHR ''.'') of
        Some (before, after) \<Rightarrow> if before = [] then None else Some after
      | None \<Rightarrow> None)"

text \<open>
  \<open>path.strip_prefix("/").unwrap_or(path)\<close>: the rest of the text, without slashes and lonely dots at its
  ends; and \<open>root_path\<close>, which several tools define: the same path below another root.
\<close>

definition strip_root :: "string \<Rightarrow> string" where
  "strip_root p =
     (let strip = dropWhile (\<lambda>part. part = [] \<or> part = ''.'')
      in if is_absolute p then join ''/'' (rev (strip (rev (strip (split_char CHR ''/'' p))))) else p)"

definition root_path :: "string \<Rightarrow> string \<Rightarrow> string" where
  "root_path root p = (if path_eq root ''/'' then p else path_join root (strip_root p))"

end
