(* ===== verification/BTree.thy ===== *)
theory BTree
  imports Rust_Prelude
begin

text \<open>
  \<open>BTreeSet\<close> and \<open>BTreeMap\<close> of Rust's standard library. A set is its elements in iteration order,
  a strictly ascending list; a map is its entries in iteration order, an association list with
  strictly ascending keys. The two locales are the contracts the components use the containers
  through; the interpretations at the end discharge them for the list representations.
\<close>

section \<open>Interfaces\<close>

locale btree_set =
  fixes empty :: "'s"
    and insert :: "'a::linorder \<Rightarrow> 's \<Rightarrow> 's"
    and elems :: "'s \<Rightarrow> 'a list"
    and inv :: "'s \<Rightarrow> bool"
  assumes inv_empty: "inv empty"
    and inv_insert: "inv s \<Longrightarrow> inv (insert x s)"
    and elems_empty: "elems empty = []"
    and set_insert: "inv s \<Longrightarrow> set (elems (insert x s)) = Set.insert x (set (elems s))"
    and elems_ascending: "inv s \<Longrightarrow> sorted_wrt (<) (elems s)"
begin

definition extend :: "'a list \<Rightarrow> 's \<Rightarrow> 's" where
  "extend xs s = fold insert xs s"

lemma inv_extend: "inv s \<Longrightarrow> inv (extend xs s)"
  unfolding extend_def by (induction xs arbitrary: s) (auto intro: inv_insert)

lemma set_extend: "inv s \<Longrightarrow> set (elems (extend xs s)) = set xs \<union> set (elems s)"
  unfolding extend_def by (induction xs arbitrary: s) (auto simp: set_insert inv_insert)

text \<open>The iteration order depends on the elements only, not on the insertions that built the set.\<close>

lemma elems_unique: "inv s \<Longrightarrow> inv t \<Longrightarrow> set (elems s) = set (elems t) \<Longrightarrow> elems s = elems t"
  using elems_ascending strict_sorted_equal by blast

lemma elems_extend: "inv s \<Longrightarrow> elems (extend xs s) = sorted_list_of_set (set xs \<union> set (elems s))"
  by (rule strict_sorted_equal)
    (simp_all add: elems_ascending inv_extend set_extend)

end

locale btree_map =
  fixes empty :: "'m"
    and insert :: "'k::linorder \<Rightarrow> 'v \<Rightarrow> 'm \<Rightarrow> 'm"
    and get :: "'m \<Rightarrow> 'k \<Rightarrow> 'v option"
    and keys :: "'m \<Rightarrow> 'k list"
    and inv :: "'m \<Rightarrow> bool"
  assumes inv_empty: "inv empty"
    and inv_insert: "inv m \<Longrightarrow> inv (insert k v m)"
    and get_empty: "get empty k = None"
    and get_insert: "inv m \<Longrightarrow> get (insert k v m) k' = (if k' = k then Some v else get m k')"
    and set_keys: "inv m \<Longrightarrow> set (keys m) = {k. get m k \<noteq> None}"
    and keys_ascending: "inv m \<Longrightarrow> sorted_wrt (<) (keys m)"
begin

definition insert_all :: "('k \<times> 'v) list \<Rightarrow> 'm \<Rightarrow> 'm" where
  "insert_all kvs m = fold (\<lambda>(k, v). insert k v) kvs m"

lemma inv_insert_all: "inv m \<Longrightarrow> inv (insert_all kvs m)"
  unfolding insert_all_def by (induction kvs arbitrary: m) (auto intro: inv_insert)

text \<open>Collecting entries into a map keeps the last value given for a key.\<close>

lemma get_insert_all:
  "inv m \<Longrightarrow> get (insert_all kvs m) k =
     (case map_of (rev kvs) k of None \<Rightarrow> get m k | Some v \<Rightarrow> Some v)"
  unfolding insert_all_def
proof (induction kvs rule: rev_induct)
  case Nil
  then show ?case by simp
next
  case (snoc kv kvs)
  have "inv (fold (\<lambda>(k, v). insert k v) kvs m)"
    using inv_insert_all[OF snoc.prems] by (simp add: insert_all_def)
  then show ?case using snoc by (cases kv) (simp add: get_insert)
qed

lemma keys_insert_new:
  "inv m \<Longrightarrow> get m k = None \<Longrightarrow> length (keys (insert k v m)) = Suc (length (keys m))"
proof -
  assume m: "inv m" "get m k = None"
  have d: "distinct (keys m)" "distinct (keys (insert k v m))"
    using keys_ascending[OF m(1)] keys_ascending[OF inv_insert[OF m(1)]]
    by (auto simp: strict_sorted_iff)
  have s: "set (keys (insert k v m)) = Set.insert k (set (keys m))" "k \<notin> set (keys m)"
    using m by (auto simp: set_keys inv_insert get_insert)
  have "length (keys (insert k v m)) = card (Set.insert k (set (keys m)))"
    using d(2) s(1) by (metis distinct_card)
  also have "\<dots> = Suc (card (set (keys m)))" using s(2) by simp
  finally show ?thesis using d(1) by (simp add: distinct_card)
qed

end

section \<open>Sets as ascending lists\<close>

definition bset_inv :: "'a::linorder list \<Rightarrow> bool" where
  "bset_inv s \<longleftrightarrow> sorted_wrt (<) s"

fun bset_insert :: "'a::linorder \<Rightarrow> 'a list \<Rightarrow> 'a list" where
  "bset_insert x [] = [x]"
| "bset_insert x (y # ys) =
     (if x < y then x # y # ys else if x = y then y # ys else y # bset_insert x ys)"

definition bset_extend :: "'a::linorder list \<Rightarrow> 'a list \<Rightarrow> 'a list" where
  "bset_extend xs s = fold bset_insert xs s"

definition bset_remove :: "'a::linorder \<Rightarrow> 'a list \<Rightarrow> 'a list" where
  "bset_remove x s = filter (\<lambda>y. y \<noteq> x) s"

definition bset_of :: "'a::linorder list \<Rightarrow> 'a list" where
  "bset_of xs = bset_extend xs []"

lemma set_bset_insert [simp]: "set (bset_insert x s) = insert x (set s)"
  by (induction s) auto

lemma bset_inv_insert [simp, intro]: "bset_inv s \<Longrightarrow> bset_inv (bset_insert x s)"
  unfolding bset_inv_def by (induction s) auto

lemma bset_inv_Nil [simp]: "bset_inv []"
  by (simp add: bset_inv_def)

lemma bset_inv_Cons [simp]: "bset_inv (x # s) \<longleftrightarrow> (\<forall>y \<in> set s. x < y) \<and> bset_inv s"
  by (auto simp: bset_inv_def)

lemma bset_inv_distinct: "bset_inv s \<Longrightarrow> distinct s"
  by (simp add: bset_inv_def strict_sorted_iff)

lemma bset_inv_sorted: "bset_inv s \<Longrightarrow> sorted s"
  by (simp add: bset_inv_def strict_sorted_iff)

lemma bset_inv_remove [simp]: "bset_inv s \<Longrightarrow> bset_inv (bset_remove x s)"
  by (simp add: bset_inv_def bset_remove_def sorted_wrt_filter)

lemma bset_inv_filter [simp]: "bset_inv s \<Longrightarrow> bset_inv (filter P s)"
  by (simp add: bset_inv_def sorted_wrt_filter)

lemma set_bset_remove [simp]: "set (bset_remove x s) = set s - {x}"
  by (auto simp: bset_remove_def)

lemma length_bset_insert: "length (bset_insert x s) \<le> Suc (length s)"
  by (induction s) auto

lemma length_bset_insert_new: "bset_inv s \<Longrightarrow> x \<notin> set s \<Longrightarrow> length (bset_insert x s) = Suc (length s)"
  using bset_inv_distinct[of s] bset_inv_distinct[OF bset_inv_insert, of s x]
  by (metis card_insert_disjoint distinct_card finite_set set_bset_insert)

interpretation bset: btree_set "[]" bset_insert "\<lambda>s. s" bset_inv
  by unfold_locales (auto simp: bset_inv_def[symmetric])

lemma bset_extend_eq: "bset_extend xs s = bset.extend xs s"
  by (simp add: bset_extend_def bset.extend_def)

lemma set_bset_extend [simp]: "set (bset_extend xs s) = set xs \<union> set s"
  unfolding bset_extend_def by (induction xs arbitrary: s) auto

lemma bset_inv_extend [simp]: "bset_inv s \<Longrightarrow> bset_inv (bset_extend xs s)"
  unfolding bset_extend_eq by (rule bset.inv_extend)

lemma bset_of_simps [simp]:
  "set (bset_of xs) = set xs"
  "bset_inv (bset_of xs)"
  by (simp_all add: bset_of_def)

lemma bset_eqI: "bset_inv s \<Longrightarrow> bset_inv t \<Longrightarrow> set s = set t \<Longrightarrow> s = t"
  by (rule bset.elems_unique)

section \<open>Maps as association lists with ascending keys\<close>

type_synonym ('k, 'v) bmap = "('k \<times> 'v) list"

definition bmap_inv :: "('k::linorder, 'v) bmap \<Rightarrow> bool" where
  "bmap_inv m \<longleftrightarrow> sorted_wrt (<) (map fst m)"

fun bmap_insert :: "'k::linorder \<Rightarrow> 'v \<Rightarrow> ('k, 'v) bmap \<Rightarrow> ('k, 'v) bmap" where
  "bmap_insert k v [] = [(k, v)]"
| "bmap_insert k v ((k', v') # m) =
     (if k < k' then (k, v) # (k', v') # m
      else if k = k' then (k, v) # m
      else (k', v') # bmap_insert k v m)"

definition bmap_keys :: "('k, 'v) bmap \<Rightarrow> 'k list" where
  "bmap_keys m = map fst m"

lemma map_of_bmap_insert [simp]: "map_of (bmap_insert k v m) = (map_of m)(k \<mapsto> v)"
  by (induction k v m rule: bmap_insert.induct) auto

lemma keys_bmap_insert [simp]: "map fst (bmap_insert k v m) = bset_insert k (map fst m)"
  by (induction k v m rule: bmap_insert.induct) auto

lemma bmap_inv_insert [simp]: "bmap_inv m \<Longrightarrow> bmap_inv (bmap_insert k v m)"
  by (simp add: bmap_inv_def bset_inv_def[symmetric] bset_inv_insert)

lemma bmap_inv_Nil [simp]: "bmap_inv []"
  by (simp add: bmap_inv_def)

definition bmap_remove :: "'k \<Rightarrow> ('k, 'v) bmap \<Rightarrow> ('k, 'v) bmap" where
  "bmap_remove k m = filter (\<lambda>(k', v). k' \<noteq> k) m"

lemma map_of_bmap_remove [simp]: "map_of (bmap_remove k m) = (map_of m)(k := None)"
  unfolding bmap_remove_def by (induction m) auto

lemma bmap_inv_remove [simp]: "bmap_inv m \<Longrightarrow> bmap_inv (bmap_remove k m)"
  unfolding bmap_inv_def bmap_remove_def by (induction m) auto

lemma set_bmap_remove: "set (bmap_remove k m) \<subseteq> set m"
  by (simp add: bmap_remove_def)

lemma set_bmap_keys: "set (bmap_keys m) = {k. map_of m k \<noteq> None}"
  unfolding bmap_keys_def map_of_eq_None_iff by simp

lemma bset_inv_keys [simp]: "bmap_inv m \<Longrightarrow> bset_inv (bmap_keys m)"
  by (simp add: bmap_inv_def bset_inv_def bmap_keys_def)

interpretation bmap: btree_map "[]" bmap_insert map_of bmap_keys bmap_inv
  by unfold_locales (simp_all add: set_bmap_keys bset_inv_def[symmetric])

lemma bmap_keys_distinct: "bmap_inv m \<Longrightarrow> distinct (map fst m)"
  by (simp add: bmap_inv_def strict_sorted_iff)

lemma bmap_entry: "bmap_inv m \<Longrightarrow> (k, v) \<in> set m \<longleftrightarrow> map_of m k = Some v"
  using bmap_keys_distinct[of m] map_of_is_SomeI map_of_SomeD by fast

lemma map_of_map_const: "map_of (map (\<lambda>k. (k, c)) ks) k = (if k \<in> set ks then Some c else None)"
  by (induction ks) auto

lemma bmap_inv_map_const: "bset_inv ks \<Longrightarrow> bmap_inv (map (\<lambda>k. (k, c)) ks)"
  by (simp add: bmap_inv_def bset_inv_def comp_def)

end
