(* ===== verification/Service_Spec.thy ===== *)
theory Service_Spec
  imports Rust_Path BTree
begin

text \<open>
  The service data model of \<open>crates/fractald-core/src/lib.rs\<close>: the enumerations and structs a
  descriptor is made of, \<open>ServiceSpec\<close> with its defaults, \<open>ServiceSpec::validate\<close> and the mount path
  specifiers. Record fields carry a prefix (\<open>sp_\<close> for \<open>ServiceSpec\<close>, \<open>dep_\<close> for \<open>DependencySet\<close>,
  \<open>cmd_\<close> for \<open>CommandSpec\<close>, and so on) because Isabelle field names are global. A \<open>Duration\<close> is a
  number of nanoseconds, an \<open>i32\<close> an \<open>int\<close>, a \<open>u32\<close> or \<open>u64\<close> a word of that width, a \<open>BTreeSet\<close> an
  ascending list and a \<open>BTreeMap\<close> an association list with ascending keys.
\<close>

section \<open>Enumerations and structs\<close>

type_synonym duration = nat \<comment> \<open>nanoseconds\<close>

definition duration_max :: duration where
  "duration_max = (2 ^ 64 - 1) * 1000000000 + 999999999"

definition from_secs :: "nat \<Rightarrow> duration" where
  "from_secs n = n * 1000000000"

definition from_millis :: "nat \<Rightarrow> duration" where
  "from_millis n = n * 1000000"

definition SIGKILL :: int where "SIGKILL = 9"
definition SIGABRT :: int where "SIGABRT = 6"
definition SIGHUP :: int where "SIGHUP = 1"
definition SIGPIPE :: int where "SIGPIPE = 13"
definition SIGTERM :: int where "SIGTERM = 15"

datatype limit_value = LimitMax | LimitValue "64 word"

record limit_range =
  lr_soft :: limit_value
  lr_hard :: limit_value

record cpu_quota =
  cq_quota_usec :: "64 word"
  cq_period_usec :: "64 word"

record resource_limits =
  rl_memory_max :: "limit_value option"
  rl_memory_high :: "limit_value option"
  rl_memory_min :: "limit_value option"
  rl_memory_low :: "limit_value option"
  rl_memory_swap_max :: "limit_value option"
  rl_cpu_weight :: "64 word option"
  rl_cpu_quota :: "cpu_quota option"
  rl_io_weight :: "64 word option"
  rl_tasks_max :: "limit_value option"

definition resource_limits_default :: resource_limits where
  "resource_limits_default = \<lparr>rl_memory_max = None, rl_memory_high = None, rl_memory_min = None,
     rl_memory_low = None, rl_memory_swap_max = None, rl_cpu_weight = None, rl_cpu_quota = None,
     rl_io_weight = None, rl_tasks_max = None\<rparr>"

definition resource_limits_is_empty :: "resource_limits \<Rightarrow> bool" where
  "resource_limits_is_empty r \<longleftrightarrow>
     rl_memory_max r = None \<and> rl_memory_high r = None \<and> rl_memory_min r = None \<and>
     rl_memory_low r = None \<and> rl_memory_swap_max r = None \<and> rl_cpu_weight r = None \<and>
     rl_cpu_quota r = None \<and> rl_io_weight r = None \<and> rl_tasks_max r = None"

record dependency_set =
  dep_requires :: "string list"
  dep_wants :: "string list"
  dep_after :: "string list"
  dep_before :: "string list"
  dep_conflicts :: "string list"
  dep_part_of :: "string list"
  dep_binds_to :: "string list"
  dep_requisite :: "string list"
  dep_on_success :: "string list"
  dep_on_failure :: "string list"

definition dependency_set_default :: dependency_set where
  "dependency_set_default = \<lparr>dep_requires = [], dep_wants = [], dep_after = [], dep_before = [],
     dep_conflicts = [], dep_part_of = [], dep_binds_to = [], dep_requisite = [],
     dep_on_success = [], dep_on_failure = []\<rparr>"

datatype exit_reason = Exited int | Signaled int | CoreDumped int

fun is_success :: "exit_reason \<Rightarrow> bool" where
  "is_success (Exited code) \<longleftrightarrow> code = 0"
| "is_success _ \<longleftrightarrow> False"

definition is_failure :: "exit_reason \<Rightarrow> bool" where
  "is_failure reason \<longleftrightarrow> \<not> is_success reason"

fun is_signaled :: "exit_reason \<Rightarrow> bool" where
  "is_signaled (Signaled _) \<longleftrightarrow> True"
| "is_signaled (CoreDumped _) \<longleftrightarrow> True"
| "is_signaled _ \<longleftrightarrow> False"

fun is_core_dumped :: "exit_reason \<Rightarrow> bool" where
  "is_core_dumped (CoreDumped _) \<longleftrightarrow> True"
| "is_core_dumped _ \<longleftrightarrow> False"

datatype restart_policy =
  RestartNever | RestartOnSuccess | RestartOnFailure | RestartOnAbnormal | RestartOnAbort
| RestartAlways

fun should_restart :: "restart_policy \<Rightarrow> exit_reason \<Rightarrow> bool" where
  "should_restart RestartNever reason \<longleftrightarrow> False"
| "should_restart RestartOnSuccess reason \<longleftrightarrow> is_success reason"
| "should_restart RestartOnFailure reason \<longleftrightarrow> is_failure reason"
| "should_restart RestartOnAbnormal reason \<longleftrightarrow> is_signaled reason"
| "should_restart RestartOnAbort reason \<longleftrightarrow> is_core_dumped reason"
| "should_restart RestartAlways reason \<longleftrightarrow> True"

datatype oom_policy = OomContinue | OomStop | OomKill

datatype manager_action =
  ActionNone | ActionExit | ActionHalt | ActionHaltForce | ActionPoweroff | ActionPoweroffForce
| ActionReboot | ActionRebootForce | ActionKexec | ActionKexecForce | ActionSoftReboot
| ActionSoftRebootForce

datatype service_type =
  TypeSimple | TypeForking | TypeOneshot | TypeNotify | TypeDbus | TypeIdle | TypeSocket
| TypeTimer | TypePath | TypeMount | TypeSwap

datatype kill_mode = KillControlGroup | KillProcess | KillMixed | KillNone

datatype device_policy = DeviceAuto | DeviceClosed | DeviceStrict

record device_access_rule =
  dar_device :: string
  dar_access :: "8 word"

datatype delegate_mode = DelegateNo | DelegateAll | DelegateControllers "string list"

datatype private_users_mode =
  PrivateUsersNo | PrivateUsersSelfMapping | PrivateUsersIdentity | PrivateUsersFull

datatype notify_access = NotifyNone | NotifyMain | NotifyExec | NotifyAll

record command_spec =
  cmd_program :: string
  cmd_args :: "string list"
  cmd_ignore_failure :: bool
  cmd_argv0 :: "string option"
  cmd_expand_environment :: bool

definition command_spec_new :: "string \<Rightarrow> command_spec" where
  "command_spec_new program = \<lparr>cmd_program = program, cmd_args = [], cmd_ignore_failure = False,
     cmd_argv0 = None, cmd_expand_environment = True\<rparr>"

record environment_file_spec =
  ef_path :: string
  ef_optional :: bool

datatype credential_source =
  CredentialFile string | CredentialStore string | CredentialValue string

record credential_spec =
  cr_name :: string
  cr_source :: credential_source

record credential_import_spec =
  ci_pattern :: string
  ci_rename :: "string option"

datatype output_mode =
  OutputJournal | OutputNull | OutputInherit | OutputTty | OutputSocket | OutputFile string bool

datatype input_mode = InputNull | InputInherit | InputTty | InputFile string | InputSocket

datatype private_tmp_mode = PrivateTmpNo | PrivateTmpYes | PrivateTmpDisconnected

datatype protect_system_mode =
  ProtectSystemNo | ProtectSystemYes | ProtectSystemFull | ProtectSystemStrict

datatype protect_home_mode =
  ProtectHomeNo | ProtectHomeYes | ProtectHomeReadOnly | ProtectHomeTmpfs

datatype protect_proc_mode =
  ProtectProcDefault | ProtectProcNoAccess | ProtectProcInvisible | ProtectProcPtraceable

datatype proc_subset_mode = ProcSubsetAll | ProcSubsetPid

datatype system_call_rule_action = CallAllow | CallDeny | CallDenyWithErrno int

record system_call_rule =
  scr_name :: string
  scr_action :: system_call_rule_action

record system_call_filter =
  scf_default_allow :: bool
  scf_rules :: "system_call_rule list"

datatype system_call_architectures = ArchNative | ArchX86_64 | ArchAll

text \<open>Every condition but \<open>Any\<close> ends with its \<open>negate\<close> flag.\<close>

datatype condition =
  CondAny "condition list"
| PathExists string bool
| PathExistsGlob string bool
| DirectoryNotEmpty string bool
| FileIsExecutable string bool
| PathIsReadWrite string bool
| PathIsDirectory string bool
| FileNotEmpty string bool
| PathIsMountPoint string bool
| PathIsSymbolicLink string bool
| KernelCommandLine string bool
| Virtualization string bool
| Security string bool
| ACPower bool bool
| Capability string bool
| KernelModuleLoaded string bool
| Firmware string bool
| FirstBoot bool bool
| CondCredential string bool
| ControlGroupController string bool
| CondEnvironment string "string option" bool
| NeedsUpdate string bool

datatype listener_kind =
  ListenStream | ListenDatagram | ListenSequentialPacket | ListenFifo | ListenNetlink
| ListenSpecial

record listener_spec =
  ls_kind :: listener_kind
  ls_address :: string

datatype path_watch =
  WatchChanged string | WatchModified string | WatchExists string | WatchExistsGlob string
| WatchDirectoryNotEmpty string

text \<open>
  \<open>TriggerSpec::Timer\<close> has the fields service, on_boot, on_unit_active, on_unit_inactive,
  on_calendar, persistent, randomized_delay and accuracy, in this order.
\<close>

datatype trigger_spec =
  TriggerTimer string "duration option" "duration option" "duration option" "string list" bool
    "duration option" "duration option"
| TriggerPath string "path_watch list"

datatype directory_kind =
  DirConfiguration | DirRuntime | DirState | DirCache | DirLogs

record directory_spec =
  ds_kind :: directory_kind
  ds_path :: string
  ds_mode :: "32 word"
  ds_preserve :: bool

section \<open>ServiceSpec\<close>

record service_spec =
  sp_name :: "string"
  sp_aliases :: "string list"
  sp_profiles :: "string list"
  sp_default_dependencies :: "bool"
  sp_allow_isolate :: "bool"
  sp_ignore_on_isolate :: "bool"
  sp_refuse_manual_start :: "bool"
  sp_refuse_manual_stop :: "bool"
  sp_program :: "string"
  sp_args :: "string list"
  sp_main_ignore_failure :: "bool"
  sp_main_argv0 :: "string option"
  sp_main_expand_environment :: "bool"
  sp_environment :: "(string, string) bmap"
  sp_unset_environment :: "string list"
  sp_environment_files :: "environment_file_spec list"
  sp_credentials :: "credential_spec list"
  sp_credential_imports :: "credential_import_spec list"
  sp_exec_conditions :: "command_spec list"
  sp_directories :: "directory_spec list"
  sp_conditions :: "condition list"
  sp_assertions :: "condition list"
  sp_listeners :: "listener_spec list"
  sp_file_descriptor_name :: "string option"
  sp_socket_service :: "string option"
  sp_socket_accept :: "bool"
  sp_socket_mode :: "32 word"
  sp_socket_user :: "string option"
  sp_socket_group :: "string option"
  sp_remove_on_stop :: "bool"
  sp_trigger :: "trigger_spec option"
  sp_success_exit_status :: "int list"
  sp_restart_prevent_exit_status :: "int list"
  sp_restart :: "restart_policy"
  sp_restart_limit :: "32 word"
  sp_start_limit_interval :: "duration option"
  sp_start_limit_burst :: "32 word option"
  sp_start_timeout :: "duration"
  sp_stop_timeout :: "duration"
  sp_job_timeout :: "duration option"
  sp_job_timeout_action :: "manager_action"
  sp_runtime_max :: "duration option"
  sp_restart_backoff :: "duration"
  sp_kill_signal :: "int"
  sp_restart_kill_signal :: "int option"
  sp_failure_action :: "manager_action"
  sp_success_action :: "manager_action"
  sp_send_sighup :: "bool"
  sp_ignore_sigpipe :: "bool"
  sp_kill_mode :: "kill_mode"
  sp_dependencies :: "dependency_set"
  sp_stop_when_unneeded :: "bool"
  sp_requires_mounts_for :: "string list"
  sp_wants_mounts_for :: "string list"
  sp_mount_where :: "string option"
  sp_mount_filesystem :: "string option"
  sp_device_path :: "string option"
  sp_service_type :: "service_type"
  sp_bus_names :: "string list"
  sp_working_directory :: "string option"
  sp_pid_file :: "string option"
  sp_dynamic_user :: "bool"
  sp_user :: "string option"
  sp_group :: "string option"
  sp_supplementary_groups :: "string list option"
  sp_capability_bounding_set :: "64 word option"
  sp_ambient_capabilities :: "64 word option"
  sp_restrict_address_families :: "64 word option"
  sp_system_call_filter :: "system_call_filter option"
  sp_system_call_architectures :: "system_call_architectures option"
  sp_system_call_error_number :: "int option"
  sp_no_new_privileges :: "bool"
  sp_memory_deny_write_execute :: "bool"
  sp_restrict_realtime :: "bool"
  sp_restrict_suid_sgid :: "bool"
  sp_protect_control_groups :: "bool"
  sp_protect_kernel_modules :: "bool"
  sp_protect_kernel_tunables :: "bool"
  sp_protect_kernel_logs :: "bool"
  sp_protect_clock :: "bool"
  sp_protect_hostname :: "bool"
  sp_lock_personality :: "bool"
  sp_umask :: "32 word option"
  sp_nice :: "int option"
  sp_oom_score_adjust :: "int option"
  sp_oom_policy :: "oom_policy"
  sp_nofile :: "limit_range option"
  sp_memlock :: "limit_range option"
  sp_nproc :: "limit_range option"
  sp_watchdog :: "duration option"
  sp_notify_access :: "notify_access"
  sp_private_tmp :: "private_tmp_mode"
  sp_private_devices :: "bool"
  sp_device_policy :: "device_policy"
  sp_device_allow :: "device_access_rule list"
  sp_delegate :: "delegate_mode"
  sp_private_users :: "private_users_mode"
  sp_private_mounts :: "bool"
  sp_private_ipc :: "bool"
  sp_private_network :: "bool"
  sp_restrict_namespaces :: "32 word option"
  sp_protect_system :: "protect_system_mode"
  sp_protect_home :: "protect_home_mode"
  sp_protect_proc :: "protect_proc_mode"
  sp_proc_subset :: "proc_subset_mode"
  sp_read_write_paths :: "string list"
  sp_read_only_paths :: "string list"
  sp_inaccessible_paths :: "string list"
  sp_standard_input :: "input_mode"
  sp_tty_path :: "string option"
  sp_stdout :: "output_mode"
  sp_stderr :: "output_mode"
  sp_remain_after_exit :: "bool"
  sp_stop :: "command_spec option"
  sp_reload :: "command_spec option"
  sp_start_pre :: "command_spec list"
  sp_start_post :: "command_spec list"
  sp_stop_post :: "command_spec list"
  sp_cgroup_slice :: "string option"
  sp_resources :: "resource_limits"

definition service_spec_new :: "string \<Rightarrow> string \<Rightarrow> service_spec" where
  "service_spec_new name program = \<lparr>
     sp_name = name,
     sp_aliases = [],
     sp_profiles = [],
     sp_default_dependencies = True,
     sp_allow_isolate = False,
     sp_ignore_on_isolate = False,
     sp_refuse_manual_start = False,
     sp_refuse_manual_stop = False,
     sp_program = program,
     sp_args = [],
     sp_main_ignore_failure = False,
     sp_main_argv0 = None,
     sp_main_expand_environment = True,
     sp_environment = [],
     sp_unset_environment = [],
     sp_environment_files = [],
     sp_credentials = [],
     sp_credential_imports = [],
     sp_exec_conditions = [],
     sp_directories = [],
     sp_conditions = [],
     sp_assertions = [],
     sp_listeners = [],
     sp_file_descriptor_name = None,
     sp_socket_service = None,
     sp_socket_accept = False,
     sp_socket_mode = 438,
     sp_socket_user = None,
     sp_socket_group = None,
     sp_remove_on_stop = False,
     sp_trigger = None,
     sp_success_exit_status = [],
     sp_restart_prevent_exit_status = [],
     sp_restart = RestartNever,
     sp_restart_limit = 5,
     sp_start_limit_interval = None,
     sp_start_limit_burst = None,
     sp_start_timeout = from_secs 30,
     sp_stop_timeout = from_secs 5,
     sp_job_timeout = None,
     sp_job_timeout_action = ActionNone,
     sp_runtime_max = None,
     sp_restart_backoff = from_millis 250,
     sp_kill_signal = SIGTERM,
     sp_restart_kill_signal = None,
     sp_failure_action = ActionNone,
     sp_success_action = ActionNone,
     sp_send_sighup = False,
     sp_ignore_sigpipe = True,
     sp_kill_mode = KillControlGroup,
     sp_dependencies = dependency_set_default,
     sp_stop_when_unneeded = False,
     sp_requires_mounts_for = [],
     sp_wants_mounts_for = [],
     sp_mount_where = None,
     sp_mount_filesystem = None,
     sp_device_path = None,
     sp_service_type = TypeSimple,
     sp_bus_names = [],
     sp_working_directory = None,
     sp_pid_file = None,
     sp_dynamic_user = False,
     sp_user = None,
     sp_group = None,
     sp_supplementary_groups = None,
     sp_capability_bounding_set = None,
     sp_ambient_capabilities = None,
     sp_restrict_address_families = None,
     sp_system_call_filter = None,
     sp_system_call_architectures = None,
     sp_system_call_error_number = None,
     sp_no_new_privileges = False,
     sp_memory_deny_write_execute = False,
     sp_restrict_realtime = False,
     sp_restrict_suid_sgid = False,
     sp_protect_control_groups = False,
     sp_protect_kernel_modules = False,
     sp_protect_kernel_tunables = False,
     sp_protect_kernel_logs = False,
     sp_protect_clock = False,
     sp_protect_hostname = False,
     sp_lock_personality = False,
     sp_umask = None,
     sp_nice = None,
     sp_oom_score_adjust = None,
     sp_oom_policy = OomContinue,
     sp_nofile = None,
     sp_memlock = None,
     sp_nproc = None,
     sp_watchdog = None,
     sp_notify_access = NotifyNone,
     sp_private_tmp = PrivateTmpNo,
     sp_private_devices = False,
     sp_device_policy = DeviceAuto,
     sp_device_allow = [],
     sp_delegate = DelegateNo,
     sp_private_users = PrivateUsersNo,
     sp_private_mounts = False,
     sp_private_ipc = False,
     sp_private_network = False,
     sp_restrict_namespaces = None,
     sp_protect_system = ProtectSystemNo,
     sp_protect_home = ProtectHomeNo,
     sp_protect_proc = ProtectProcDefault,
     sp_proc_subset = ProcSubsetAll,
     sp_read_write_paths = [],
     sp_read_only_paths = [],
     sp_inaccessible_paths = [],
     sp_standard_input = InputNull,
     sp_tty_path = None,
     sp_stdout = OutputJournal,
     sp_stderr = OutputJournal,
     sp_remain_after_exit = False,
     sp_stop = None,
     sp_reload = None,
     sp_start_pre = [],
     sp_start_post = [],
     sp_stop_post = [],
     sp_cgroup_slice = None,
     sp_resources = resource_limits_default\<rparr>"

section \<open>Validation\<close>

datatype spec_error =
  EmptyName
| InvalidName string
| EmptyProgram
| ZeroStartTimeout
| ZeroStopTimeout
| InvalidKillSignal int
| InvalidReadWritePath string
| InvalidReadOnlyPath string
| InvalidInaccessiblePath string
| InvalidDevicePath string
| InvalidAlias string
| InvalidSlice string
| InvalidFileDescriptorName string
| InvalidCredential string

definition has_space_or_control :: "string \<Rightarrow> bool" where
  "has_space_or_control s \<longleftrightarrow> list_ex (\<lambda>ch. char_is_whitespace ch \<or> char_is_control ch) (chars s)"

definition valid_slice_name :: "string \<Rightarrow> bool" where
  "valid_slice_name value \<longleftrightarrow>
     value = ''-.slice'' \<or>
     (ends_with value ''.slice'' \<and> length ''.slice'' < length value \<and>
      take (length value - length ''.slice'') value \<noteq> [] \<and>
      CHR ''/'' \<notin> set value \<and> CHR 0x00 \<notin> set value \<and> \<not> has_space_or_control value)"

definition valid_file_descriptor_name :: "string \<Rightarrow> bool" where
  "valid_file_descriptor_name value \<longleftrightarrow>
     value \<noteq> [] \<and> length value \<le> 255 \<and> is_ascii value \<and> CHR '':'' \<notin> set value \<and>
     \<not> list_ex char_is_control (chars value)"

definition credential_byte :: "char \<Rightarrow> bool" where
  "credential_byte c \<longleftrightarrow> is_ascii_alphanumeric c \<or> c \<in> set ''_-.''"

definition reserved_credential_name :: "string \<Rightarrow> bool" where
  "reserved_credential_name value \<longleftrightarrow> value = '''' \<or> value = ''.'' \<or> value = ''..'' \<or> value = ''.fractald-owner''"

definition valid_credential_name :: "string \<Rightarrow> bool" where
  "valid_credential_name value \<longleftrightarrow>
     \<not> reserved_credential_name value \<and> list_all credential_byte value"

fun credential_template_chars :: "rchar list \<Rightarrow> bool" where
  "credential_template_chars [] \<longleftrightarrow> True"
| "credential_template_chars (ch # cs) \<longleftrightarrow>
     (if ch = ''%'' then
        (case cs of
           [] \<Rightarrow> False
         | sp # rest \<Rightarrow>
             sp \<in> set [''%'', ''n'', ''N'', ''p'', ''P'', ''i'', ''I'', ''f'', ''u'', ''U'', ''v'', ''b'', ''m'', ''H''] \<and>
             credential_template_chars rest)
      else ascii_char credential_byte ch \<and> credential_template_chars cs)"

definition valid_credential_name_template :: "string \<Rightarrow> bool" where
  "valid_credential_name_template value \<longleftrightarrow>
     \<not> reserved_credential_name value \<and> credential_template_chars (chars value)"

definition valid_credential_import_pattern :: "string \<Rightarrow> bool" where
  "valid_credential_import_pattern value \<longleftrightarrow>
     (let wildcard_count = length (filter (\<lambda>c. c = CHR ''*'') value)
      in if 1 < wildcard_count \<or> list_ex (\<lambda>c. c \<in> set ''?[]'') value then False
         else (case strip_suffix ''*'' value of
                 Some prefix \<Rightarrow> prefix = [] \<or> valid_credential_name_template prefix
               | None \<Rightarrow> wildcard_count = 0 \<and> valid_credential_name_template value))"

definition valid_credential_import_rename :: "string \<Rightarrow> bool" where
  "valid_credential_import_rename value \<longleftrightarrow>
     valid_credential_name_template value \<and> CHR ''*'' \<notin> set value"

definition invalid_alias :: "string \<Rightarrow> bool" where
  "invalid_alias alias \<longleftrightarrow>
     trim alias = [] \<or> has_space_or_control alias \<or> CHR ''/'' \<in> set alias \<or>
     alias = ''.'' \<or> alias = ''..''"

definition unsafe_path :: "string \<Rightarrow> bool" where
  "unsafe_path p \<longleftrightarrow> \<not> is_absolute p \<or> has_parent_dir p"

definition validate_name_field :: "service_spec \<Rightarrow> spec_error + unit" where
  "validate_name_field spec =
     (if trim (sp_name spec) = [] then Err EmptyName
      else if has_space_or_control (sp_name spec) \<or> CHR ''/'' \<in> set (sp_name spec) \<or>
              sp_name spec = ''.'' \<or> sp_name spec = ''..''
      then Err (InvalidName (sp_name spec))
      else if sp_program spec = [] then Err EmptyProgram
      else Ok ())"

definition validate_alias_field :: "service_spec \<Rightarrow> spec_error + unit" where
  "validate_alias_field spec =
     (case List.find invalid_alias (sp_aliases spec) of
        Some alias \<Rightarrow> Err (InvalidAlias alias)
      | None \<Rightarrow> Ok ())"

definition validate_slice_fd :: "service_spec \<Rightarrow> spec_error + unit" where
  "validate_slice_fd spec =
     bind_res
       (case sp_cgroup_slice spec of
          Some sl \<Rightarrow> if \<not> valid_slice_name sl then Err (InvalidSlice sl) else Ok ()
        | None \<Rightarrow> Ok ())
       (\<lambda>_. case sp_file_descriptor_name spec of
          Some name \<Rightarrow>
            if \<not> valid_file_descriptor_name name then Err (InvalidFileDescriptorName name) else Ok ()
        | None \<Rightarrow> Ok ())"

definition validate_credential :: "credential_spec \<Rightarrow> string list \<Rightarrow> spec_error + string list" where
  "validate_credential credential names =
     (if \<not> valid_credential_name (cr_name credential) \<or>
         (case cr_source credential of
            CredentialFile path \<Rightarrow> path = []
          | CredentialStore name \<Rightarrow> \<not> valid_credential_name_template name
          | CredentialValue _ \<Rightarrow> False) \<or>
         cr_name credential \<in> set names
      then Err (InvalidCredential (cr_name credential))
      else Ok (bset_insert (cr_name credential) names))"

definition validate_import :: "credential_import_spec \<Rightarrow> unit \<Rightarrow> spec_error + unit" where
  "validate_import imp _ =
     (if \<not> valid_credential_import_pattern (ci_pattern imp) \<or>
         (case ci_rename imp of None \<Rightarrow> False | Some r \<Rightarrow> \<not> valid_credential_import_rename r)
      then Err (InvalidCredential (ci_pattern imp))
      else Ok ())"

definition find_unsafe :: "(string \<Rightarrow> spec_error) \<Rightarrow> string list \<Rightarrow> spec_error + unit" where
  "find_unsafe mk ps =
     (case List.find unsafe_path ps of Some p \<Rightarrow> Err (mk p) | None \<Rightarrow> Ok ())"

definition validate_paths :: "service_spec \<Rightarrow> spec_error + unit" where
  "validate_paths spec =
     bind_res (find_unsafe InvalidReadWritePath (sp_read_write_paths spec)) (\<lambda>_.
     bind_res (find_unsafe InvalidReadOnlyPath (sp_read_only_paths spec)) (\<lambda>_.
     bind_res (find_unsafe InvalidInaccessiblePath (sp_inaccessible_paths spec)) (\<lambda>_.
     case sp_device_path spec of
       Some p \<Rightarrow> if unsafe_path p then Err (InvalidDevicePath p) else Ok ()
     | None \<Rightarrow> Ok ())))"

definition validate_signals :: "service_spec \<Rightarrow> spec_error + unit" where
  "validate_signals spec =
     (if sp_kill_signal spec \<le> 0 then Err (InvalidKillSignal (sp_kill_signal spec))
      else (case sp_restart_kill_signal spec of
              Some signal \<Rightarrow> if signal \<le> 0 then Err (InvalidKillSignal signal) else Ok ()
            | None \<Rightarrow> Ok ()))"

text \<open>\<open>ServiceSpec::validate\<close>: the checks in the order of the source, the first failure returned.\<close>

definition validate :: "service_spec \<Rightarrow> spec_error + unit" where
  "validate spec =
     bind_res (validate_name_field spec) (\<lambda>_.
     bind_res (validate_alias_field spec) (\<lambda>_.
     bind_res (validate_slice_fd spec) (\<lambda>_.
     bind_res (fold_try validate_credential (sp_credentials spec) []) (\<lambda>_.
     bind_res (fold_try validate_import (sp_credential_imports spec) ()) (\<lambda>_.
     bind_res (validate_paths spec) (\<lambda>_.
     validate_signals spec))))))"

section \<open>Mount path specifiers\<close>

type_synonym environment = "string \<rightharpoonup> string" \<comment> \<open>the process environment read by \<open>env::var_os\<close>\<close>

definition env_or :: "environment \<Rightarrow> string list \<Rightarrow> string \<Rightarrow> string" where
  "env_or env names fallback =
     (case List.find (\<lambda>n. env n \<noteq> None) names of Some n \<Rightarrow> the (env n) | None \<Rightarrow> fallback)"

definition service_stem :: "string \<Rightarrow> string" where
  "service_stem name = (case strip_suffix ''.svc'' name of Some s \<Rightarrow> s | None \<Rightarrow> name)"

definition mount_specifier :: "environment \<Rightarrow> string \<Rightarrow> rchar \<Rightarrow> string option" where
  "mount_specifier env name specifier =
     (let stem = service_stem name;
          (prefix, inst) = (case rsplit_once CHR ''@'' stem of
                              Some (p, i) \<Rightarrow> (p, Some i) | None \<Rightarrow> (stem, None))
      in if specifier = ''n'' then Some name
         else if specifier = ''N'' then Some stem
         else if specifier \<in> {''p'', ''P''} then Some prefix
         else if specifier \<in> {''i'', ''I'', ''f''} then Some (case inst of Some i \<Rightarrow> i | None \<Rightarrow> [])
         else if specifier = ''t'' then
           Some (env_or env [''FRACTALD_RUNTIME_DIR'', ''XDG_RUNTIME_DIR''] ''/run'')
         else if specifier = ''S'' then
           Some (env_or env [''FRACTALD_STATE_DIR'', ''XDG_STATE_HOME''] ''/var/lib/fractald'')
         else if specifier = ''h'' then Some (env_or env [''HOME''] ''/root'')
         else None)"

fun expand_mount_chars :: "(rchar \<Rightarrow> string option) \<Rightarrow> rchar list \<Rightarrow> string" where
  "expand_mount_chars repl [] = []"
| "expand_mount_chars repl (ch # cs) =
     (if ch \<noteq> ''%'' then ch @ expand_mount_chars repl cs
      else (case cs of
              [] \<Rightarrow> ''%''
            | sp # rest \<Rightarrow>
                if sp = ''%'' then ''%'' @ expand_mount_chars repl rest
                else (case repl sp of
                        Some r \<Rightarrow> r @ expand_mount_chars repl rest
                      | None \<Rightarrow> ''%'' @ sp @ expand_mount_chars repl rest)))"

definition expand_mount_path :: "environment \<Rightarrow> string \<Rightarrow> service_spec \<Rightarrow> string" where
  "expand_mount_path env path spec =
     expand_mount_chars (mount_specifier env (sp_name spec)) (chars path)"

definition expanded_requires_mounts_for :: "environment \<Rightarrow> service_spec \<Rightarrow> string list" where
  "expanded_requires_mounts_for env spec =
     map (\<lambda>path. expand_mount_path env path spec) (sp_requires_mounts_for spec)"

definition expanded_wants_mounts_for :: "environment \<Rightarrow> service_spec \<Rightarrow> string list" where
  "expanded_wants_mounts_for env spec =
     map (\<lambda>path. expand_mount_path env path spec) (sp_wants_mounts_for spec)"

section \<open>What validation guarantees\<close>

definition safe_name :: "string \<Rightarrow> bool" where
  "safe_name n \<longleftrightarrow> n \<noteq> [] \<and> \<not> has_space_or_control n \<and> CHR ''/'' \<notin> set n \<and> n \<noteq> ''.'' \<and> n \<noteq> ''..''"

lemma trim_no_space_or_control: "\<not> has_space_or_control s \<Longrightarrow> trim s = s"
  by (rule trim_trimmed, rule no_whitespace_trimmed)
    (auto simp: has_space_or_control_def no_whitespace_def list_ex_iff list_all_iff)

lemma validate_name_field_ok:
  "validate_name_field spec = Inr () \<longleftrightarrow> safe_name (sp_name spec) \<and> sp_program spec \<noteq> []"
  by (auto simp: validate_name_field_def safe_name_def trim_no_space_or_control)

lemma find_none_iff: "(case List.find P xs of Some x \<Rightarrow> Inl (f x) | None \<Rightarrow> Inr ()) = Inr () \<longleftrightarrow> (\<forall>x \<in> set xs. \<not> P x)"
  by (auto simp: find_None_iff find_Some_iff split: option.splits)

lemma invalid_alias_iff: "invalid_alias a \<longleftrightarrow> \<not> safe_name a"
  by (auto simp: invalid_alias_def safe_name_def trim_no_space_or_control)

lemma validate_alias_field_ok:
  "validate_alias_field spec = Inr () \<longleftrightarrow> (\<forall>a \<in> set (sp_aliases spec). safe_name a)"
  unfolding validate_alias_field_def find_none_iff by (simp add: invalid_alias_iff)

lemma validate_paths_ok:
  "validate_paths spec = Inr () \<longleftrightarrow>
     (\<forall>p \<in> set (sp_read_write_paths spec @ sp_read_only_paths spec @ sp_inaccessible_paths spec).
        \<not> unsafe_path p) \<and>
     (\<forall>p. sp_device_path spec = Some p \<longrightarrow> \<not> unsafe_path p)"
  by (auto simp: validate_paths_def find_unsafe_def bind_res_eq_Inr find_none_iff
      split: option.splits)

lemma validate_signals_ok:
  "validate_signals spec = Inr () \<longleftrightarrow>
     0 < sp_kill_signal spec \<and> (\<forall>s. sp_restart_kill_signal spec = Some s \<longrightarrow> 0 < s)"
  by (auto simp: validate_signals_def split: option.splits)

lemma validate_slice_fd_ok:
  "validate_slice_fd spec = Inr () \<longleftrightarrow>
     (\<forall>s. sp_cgroup_slice spec = Some s \<longrightarrow> valid_slice_name s) \<and>
     (\<forall>n. sp_file_descriptor_name spec = Some n \<longrightarrow> valid_file_descriptor_name n)"
  by (auto simp: validate_slice_fd_def bind_res_eq_Inr split: option.splits)

definition credential_ok :: "credential_spec \<Rightarrow> bool" where
  "credential_ok c \<longleftrightarrow>
     valid_credential_name (cr_name c) \<and>
     (case cr_source c of
        CredentialFile path \<Rightarrow> path \<noteq> []
      | CredentialStore name \<Rightarrow> valid_credential_name_template name
      | CredentialValue _ \<Rightarrow> True)"

lemma validate_credential_ok:
  "validate_credential c names = Inr names' \<longleftrightarrow>
     credential_ok c \<and> cr_name c \<notin> set names \<and> names' = bset_insert (cr_name c) names"
  by (auto simp: validate_credential_def credential_ok_def split: credential_source.splits if_splits)

lemma validate_credentials_ok:
  "(\<exists>r. fold_try validate_credential cs names = Inr r) \<longleftrightarrow>
     (\<forall>c \<in> set cs. credential_ok c) \<and> distinct (map cr_name cs) \<and>
     (\<forall>c \<in> set cs. cr_name c \<notin> set names)"
proof (induction cs arbitrary: names)
  case Nil
  then show ?case by simp
next
  case (Cons c cs)
  have "(\<exists>r. fold_try validate_credential (c # cs) names = Inr r) \<longleftrightarrow>
     credential_ok c \<and> cr_name c \<notin> set names \<and>
     (\<exists>r. fold_try validate_credential cs (bset_insert (cr_name c) names) = Inr r)"
    by (auto simp: bind_res_eq_Inr validate_credential_ok)
  then show ?case unfolding Cons.IH by (auto simp: image_iff)
qed

definition import_ok :: "credential_import_spec \<Rightarrow> bool" where
  "import_ok imp \<longleftrightarrow>
     valid_credential_import_pattern (ci_pattern imp) \<and>
     (\<forall>r. ci_rename imp = Some r \<longrightarrow> valid_credential_import_rename r)"

lemma validate_imports_ok:
  "fold_try validate_import is () = Inr () \<longleftrightarrow> (\<forall>imp \<in> set is. import_ok imp)"
  by (induction "is") (auto simp: bind_res_eq_Inr validate_import_def import_ok_def split: option.splits)

lemmas validate_ok_simps = validate_name_field_ok validate_alias_field_ok validate_slice_fd_ok
  validate_imports_ok validate_paths_ok validate_signals_ok

text \<open>The contract of validation, check by check.\<close>

definition spec_wf :: "service_spec \<Rightarrow> bool" where
  "spec_wf spec \<longleftrightarrow>
     safe_name (sp_name spec) \<and> sp_program spec \<noteq> [] \<and>
     (\<forall>a \<in> set (sp_aliases spec). safe_name a) \<and>
     (\<forall>s. sp_cgroup_slice spec = Some s \<longrightarrow> valid_slice_name s) \<and>
     (\<forall>n. sp_file_descriptor_name spec = Some n \<longrightarrow> valid_file_descriptor_name n) \<and>
     (\<forall>c \<in> set (sp_credentials spec). credential_ok c) \<and>
     distinct (map cr_name (sp_credentials spec)) \<and>
     (\<forall>imp \<in> set (sp_credential_imports spec). import_ok imp) \<and>
     (\<forall>p \<in> set (sp_read_write_paths spec @ sp_read_only_paths spec @ sp_inaccessible_paths spec).
        is_absolute p \<and> \<not> has_parent_dir p) \<and>
     (\<forall>p. sp_device_path spec = Some p \<longrightarrow> is_absolute p \<and> \<not> has_parent_dir p) \<and>
     0 < sp_kill_signal spec \<and> (\<forall>s. sp_restart_kill_signal spec = Some s \<longrightarrow> 0 < s)"

lemma validate_iff_spec_wf: "validate spec = Inr () \<longleftrightarrow> spec_wf spec"
proof -
  have "validate spec = Inr () \<longleftrightarrow>
     validate_name_field spec = Inr () \<and> validate_alias_field spec = Inr () \<and>
     validate_slice_fd spec = Inr () \<and>
     (\<exists>r. fold_try validate_credential (sp_credentials spec) [] = Inr r) \<and>
     fold_try validate_import (sp_credential_imports spec) () = Inr () \<and>
     validate_paths spec = Inr () \<and> validate_signals spec = Inr ()"
    by (auto simp: validate_def bind_res_eq_Inr)
  then show ?thesis
    unfolding validate_ok_simps validate_credentials_ok spec_wf_def unsafe_path_def
    by (simp add: conj_assoc)
qed

text \<open>Expanding a path without a percent sign leaves it alone; \<open>%%\<close> is a literal percent sign.\<close>

lemma expand_mount_chars_plain:
  "''%'' \<notin> set cs \<Longrightarrow> expand_mount_chars repl cs = concat cs"
  by (induction cs) auto

lemma percent_char: "CHR ''%'' \<notin> set s \<Longrightarrow> ''%'' \<notin> set (chars s)"
  by (metis concat_chars list.set_intros(1) set_concat UN_I)

lemma expand_mount_path_plain: "CHR ''%'' \<notin> set path \<Longrightarrow> expand_mount_path env path spec = path"
  by (simp add: expand_mount_path_def expand_mount_chars_plain percent_char)

end
