(* ===== verification/Kahn.thy ===== *)
theory Kahn
  imports BTree
begin

text \<open>
  The graph algorithms inside \<open>crates/fractald-core/src/graph.rs\<close>, over any ordered node type: edge
  insertion with in-degree counting (\<open>add_edge\<close>), the decrement loop over the dependents of a node,
  the loop of \<open>topological_order\<close>, and the cycle breaking loop of \<open>plan_all_stop_best_effort\<close>. Where
  the source calls \<open>expect\<close>, indexes a map or decrements a counter, the model returns \<open>None\<close> for the
  panic; the lemmas show that it never does. The locale \<open>worklist\<close> is the contract shared by the
  two closure loops of the source.
\<close>

section \<open>Definitions\<close>

type_synonym 'a edge_map = "('a, 'a list) bmap"
type_synonym 'a degree_map = "('a, nat) bmap"

definition add_edge ::
    "'a::linorder \<Rightarrow> 'a \<Rightarrow> 'a edge_map \<times> 'a degree_map \<Rightarrow> ('a edge_map \<times> 'a degree_map) option" where
  "add_edge src dst = (\<lambda>(edges, indegree).
     case map_of edges src of
       None \<Rightarrow> None
     | Some dsts \<Rightarrow>
         if dst \<in> set dsts then Some (edges, indegree)
         else (case map_of indegree dst of
                 None \<Rightarrow> None
               | Some d \<Rightarrow>
                   Some (bmap_insert src (bset_insert dst dsts) edges, bmap_insert dst (d + 1) indegree)))"

primrec add_edges ::
    "('a::linorder \<times> 'a) list \<Rightarrow> 'a edge_map \<times> 'a degree_map \<Rightarrow> ('a edge_map \<times> 'a degree_map) option" where
  "add_edges [] st = Some st"
| "add_edges (e # es) st =
     (case add_edge (fst e) (snd e) st of None \<Rightarrow> None | Some st' \<Rightarrow> add_edges es st')"

text \<open>The loop over the dependents of a node: count each down, and queue it when it reaches zero.\<close>

fun relax :: "'a::linorder list \<Rightarrow> 'a degree_map \<Rightarrow> 'a list \<Rightarrow> ('a degree_map \<times> 'a list) option" where
  "relax [] indegree ready = Some (indegree, ready)"
| "relax (v # vs) indegree ready =
     (case map_of indegree v of
        None \<Rightarrow> None
      | Some 0 \<Rightarrow> None
      | Some (Suc d) \<Rightarrow>
          relax vs (bmap_insert v d indegree) (if d = 0 then bset_insert v ready else ready))"

definition zero_degree :: "'a::linorder degree_map \<Rightarrow> 'a list" where
  "zero_degree indegree = bset_of (map fst (filter (\<lambda>(_, d). d = 0) indegree))"

text \<open>Termination of the main loop: queued nodes plus nodes with a positive in-degree.\<close>

definition positive :: "'a degree_map \<Rightarrow> 'a set" where
  "positive indegree = {v. \<exists>d. map_of indegree v = Some (Suc d)}"

lemma finite_positive [simp]: "finite (positive indegree)"
proof (rule finite_subset)
  show "positive indegree \<subseteq> dom (map_of indegree)" by (auto simp: positive_def)
  show "finite (dom (map_of indegree))" by (rule finite_dom_map_of)
qed

lemma relax_measure:
  "relax vs indegree ready = Some (indegree', ready') \<Longrightarrow>
     length ready' + card (positive indegree') \<le> length ready + card (positive indegree)"
proof (induction vs indegree ready rule: relax.induct)
  case (1 indegree ready)
  then show ?case by simp
next
  case (2 v vs indegree ready)
  from "2.prems" obtain d where d: "map_of indegree v = Some (Suc d)"
    by (auto split: option.splits nat.splits)
  let ?i = "bmap_insert v d indegree" and ?r = "if d = 0 then bset_insert v ready else ready"
  have v: "v \<in> positive indegree" using d by (simp add: positive_def)
  have "length ?r + card (positive ?i) \<le> length ready + card (positive indegree)"
  proof (cases d)
    case 0
    then have "positive ?i = positive indegree - {v}" by (auto simp: positive_def split: if_splits)
    then have "Suc (card (positive ?i)) = card (positive indegree)"
      using v card_Suc_Diff1[OF finite_positive v] by simp
    then show ?thesis using 0 length_bset_insert[of v ready] by simp
  next
    case (Suc k)
    then have "positive ?i = positive indegree" using d by (auto simp: positive_def split: if_splits)
    then show ?thesis using Suc by simp
  qed
  moreover have "relax vs ?i ?r = Some (indegree', ready')" using "2.prems" d by simp
  ultimately show ?case using "2.IH"[OF d refl] by simp
qed

function kahn_loop ::
    "'a::linorder edge_map \<Rightarrow> 'a degree_map \<Rightarrow> 'a list \<Rightarrow> 'a list \<Rightarrow> ('a list \<times> 'a degree_map) option" where
  "kahn_loop edges indegree [] order = Some (order, indegree)"
| "kahn_loop edges indegree (n # ready) order =
     (case map_of edges n of
        None \<Rightarrow> None
      | Some dependents \<Rightarrow>
          (case relax dependents indegree ready of
             None \<Rightarrow> None
           | Some (indegree', ready') \<Rightarrow> kahn_loop edges indegree' ready' (order @ [n])))"
  by pat_completeness auto
termination
  by (relation "measure (\<lambda>(edges, indegree, ready, order). length ready + card (positive indegree))")
    (auto dest: relax_measure)

text \<open>
  Breaking a cycle: the last node whose in-degree is not zero loses its incoming edges, one by one,
  and is taken out of the queue it is put into.
\<close>

primrec drop_incoming ::
    "'a::linorder \<Rightarrow> 'a list \<Rightarrow> 'a edge_map \<times> 'a degree_map \<Rightarrow> ('a edge_map \<times> 'a degree_map) option" where
  "drop_incoming n [] st = Some st"
| "drop_incoming n (p # ps) st =
     (case map_of (fst st) p of
        None \<Rightarrow> None
      | Some dependents \<Rightarrow>
          if n \<in> set dependents then
            (case map_of (snd st) n of
               None \<Rightarrow> None
             | Some 0 \<Rightarrow> None
             | Some (Suc d) \<Rightarrow>
                 drop_incoming n ps
                   (bmap_insert p (bset_remove n dependents) (fst st), bmap_insert n d (snd st)))
          else drop_incoming n ps st)"

definition break_cycle ::
    "'a::linorder edge_map \<Rightarrow> 'a degree_map \<Rightarrow> ('a \<times> 'a list \<times> 'a edge_map \<times> 'a degree_map) option" where
  "break_cycle edges indegree =
     (case rev (map fst (filter (\<lambda>(_, d). 0 < d) indegree)) of
        [] \<Rightarrow> None
      | n # _ \<Rightarrow>
          (case drop_incoming n (map fst (filter (\<lambda>(_, dsts). n \<in> set dsts) edges)) (edges, indegree) of
             None \<Rightarrow> None
           | Some (edges', indegree') \<Rightarrow> Some (n, [], edges', indegree')))"

function best_effort_loop ::
    "nat \<Rightarrow> 'a::linorder edge_map \<Rightarrow> 'a degree_map \<Rightarrow> 'a list \<Rightarrow> 'a list \<Rightarrow> 'a list option" where
  "best_effort_loop count edges indegree ready order =
     (if length order < count then
        (case (case ready of
                 n # ready1 \<Rightarrow> Some (n, ready1, edges, indegree)
               | [] \<Rightarrow> break_cycle edges indegree) of
           None \<Rightarrow> None
         | Some (n, ready1, edges1, indegree1) \<Rightarrow>
             (case map_of edges1 n of
                None \<Rightarrow> None
              | Some dependents \<Rightarrow>
                  (case relax dependents indegree1 ready1 of
                     None \<Rightarrow> None
                   | Some (indegree', ready') \<Rightarrow>
                       best_effort_loop count (bmap_insert n [] edges1) indegree' ready' (order @ [n]))))
      else Some order)"
  by pat_completeness auto
termination
  by (relation "measure (\<lambda>(count, edges, indegree, ready, order). count - length order)") auto

declare best_effort_loop.simps [simp del]

section \<open>The worklist contract\<close>

text \<open>
  A closure loop pops a node, skips it when it was seen, and otherwise marks it and appends its
  successors, or stops with the error of a node that has none. \<open>univ\<close> bounds the nodes.
\<close>

locale worklist =
  fixes loop :: "'a::linorder list \<Rightarrow> 'a list \<Rightarrow> 'r"
    and wrap :: "'e + 'a list \<Rightarrow> 'r"
    and succs :: "'a \<Rightarrow> 'e + 'a list"
    and univ :: "'a set"
  assumes finite_univ: "finite univ"
    and wrap_inject: "wrap x = wrap y \<Longrightarrow> x = y"
    and loop_done: "loop sel [] = wrap (Inr sel)"
    and loop_seen: "n \<in> set sel \<Longrightarrow> loop sel (n # pending) = loop sel pending"
    and loop_error: "n \<notin> set sel \<Longrightarrow> n \<in> univ \<Longrightarrow> succs n = Inl e \<Longrightarrow>
        loop sel (n # pending) = wrap (Inl e)"
    and loop_next: "n \<notin> set sel \<Longrightarrow> n \<in> univ \<Longrightarrow> succs n = Inr ys \<Longrightarrow>
        loop sel (n # pending) = loop (bset_insert n sel) (pending @ ys)"
    and succs_univ: "n \<in> univ \<Longrightarrow> succs n = Inr ys \<Longrightarrow> set ys \<subseteq> univ"
begin

definition succ_rel :: "('a \<times> 'a) set" where
  "succ_rel = {(x, y). \<exists>ys. succs x = Inr ys \<and> y \<in> set ys}"

definition closed_up_to :: "'a set \<Rightarrow> 'a set \<Rightarrow> bool" where
  "closed_up_to S T \<longleftrightarrow> (\<forall>x \<in> S. \<exists>ys. succs x = Inr ys \<and> set ys \<subseteq> S \<union> T)"

definition loop_goal :: "'a set \<Rightarrow> 'r \<Rightarrow> bool" where
  "loop_goal S r \<longleftrightarrow>
     (\<exists>sel. r = wrap (Inr sel) \<and> bset_inv sel \<and> S \<subseteq> set sel \<and> closed_up_to (set sel) {} \<and>
            set sel \<subseteq> succ_rel\<^sup>* `` S) \<or>
     (\<exists>e x. r = wrap (Inl e) \<and> x \<in> succ_rel\<^sup>* `` S \<and> succs x = Inl e)"

lemma loop_goal_mono:
  "loop_goal S r \<Longrightarrow> S' \<subseteq> S \<Longrightarrow> S \<subseteq> succ_rel\<^sup>* `` S' \<Longrightarrow> loop_goal S' r"
proof -
  assume a: "loop_goal S r" "S' \<subseteq> S" "S \<subseteq> succ_rel\<^sup>* `` S'"
  have "succ_rel\<^sup>* `` S \<subseteq> succ_rel\<^sup>* `` (succ_rel\<^sup>* `` S')" using a(3) by blast
  then have "succ_rel\<^sup>* `` S \<subseteq> succ_rel\<^sup>* `` S'" by (auto intro: rtrancl_trans)
  note sub = this
  from a(1) consider
    (ok) sel where "r = wrap (Inr sel)" "bset_inv sel" "S \<subseteq> set sel" "closed_up_to (set sel) {}"
      "set sel \<subseteq> succ_rel\<^sup>* `` S"
  | (err) e x where "r = wrap (Inl e)" "x \<in> succ_rel\<^sup>* `` S" "succs x = Inl e"
    unfolding loop_goal_def by blast
  then show ?thesis
  proof cases
    case ok
    then have "S' \<subseteq> set sel" "set sel \<subseteq> succ_rel\<^sup>* `` S'" using a(2) sub by (meson order_trans)+
    with ok show ?thesis unfolding loop_goal_def by blast
  next
    case err
    with sub show ?thesis unfolding loop_goal_def by blast
  qed
qed

lemma closed_up_to_next:
  assumes "closed_up_to S (insert n P)" and "succs n = Inr ys"
  shows "closed_up_to (insert n S) (P \<union> set ys)"
  unfolding closed_up_to_def
proof
  fix x assume "x \<in> insert n S"
  then obtain zs where "succs x = Inr zs" "set zs \<subseteq> insert n S \<union> (P \<union> set ys)"
  proof
    assume "x = n" then show thesis using assms(2) that by blast
  next
    assume "x \<in> S" then show thesis using assms(1) that unfolding closed_up_to_def by blast
  qed
  then show "\<exists>zs. succs x = Inr zs \<and> set zs \<subseteq> insert n S \<union> (P \<union> set ys)" by blast
qed

lemma loop_reaches_goal:
  "bset_inv sel \<Longrightarrow> set sel \<subseteq> univ \<Longrightarrow> set pending \<subseteq> univ \<Longrightarrow> closed_up_to (set sel) (set pending) \<Longrightarrow>
     loop_goal (set sel \<union> set pending) (loop sel pending)"
proof (induction "(sel, pending)" arbitrary: sel pending
    rule: wf_induct_rule[OF wf_measures, of "[\<lambda>(s, p). card (univ - set s), \<lambda>(s, p). length p]"])
  case (1 sel pending)
  show ?case
  proof (cases pending)
    case Nil
    then show ?thesis using "1.prems" by (auto simp: loop_goal_def loop_done)
  next
    case (Cons n p)
    show ?thesis
    proof (cases "n \<in> set sel")
      case True
      then have "loop_goal (set sel \<union> set p) (loop sel p)"
        using "1.prems" Cons by (intro "1.hyps") (auto simp: closed_up_to_def insert_absorb)
      then show ?thesis using True Cons by (simp add: loop_seen insert_absorb)
    next
      case False
      have n: "n \<in> univ" using "1.prems" Cons by simp
      show ?thesis
      proof (cases "succs n")
        case (Inl e)
        then have "loop sel pending = wrap (Inl e)" using False n Cons by (simp add: loop_error)
        then show ?thesis using Inl Cons unfolding loop_goal_def by auto
      next
        case (Inr ys)
        have fewer: "card (univ - set (bset_insert n sel)) < card (univ - set sel)"
          using False n by (intro psubset_card_mono) (auto simp: finite_univ)
        have "loop_goal (set (bset_insert n sel) \<union> set (p @ ys)) (loop (bset_insert n sel) (p @ ys))"
          using "1.prems" Cons n succs_univ[OF n Inr] fewer
            closed_up_to_next[OF _ Inr, of "set sel" "set p"]
          by (intro "1.hyps") auto
        then have "loop_goal (set sel \<union> set pending) (loop (bset_insert n sel) (p @ ys))"
        proof (rule loop_goal_mono)
          show "set sel \<union> set pending \<subseteq> set (bset_insert n sel) \<union> set (p @ ys)"
            using Cons by auto
          have "set ys \<subseteq> succ_rel `` {n}" using Inr by (auto simp: succ_rel_def)
          then show "set (bset_insert n sel) \<union> set (p @ ys) \<subseteq> succ_rel\<^sup>* `` (set sel \<union> set pending)"
            using Cons by (auto intro: r_into_rtrancl rtrancl_refl)
        qed
        then show ?thesis using False n Inr Cons by (simp add: loop_next)
      qed
    qed
  qed
qed

lemma closed_reach: "closed_up_to S {} \<Longrightarrow> x \<in> S \<Longrightarrow> (x, y) \<in> succ_rel\<^sup>* \<Longrightarrow> y \<in> S"
  by (rotate_tac 2, induction rule: rtrancl_induct) (fastforce simp: closed_up_to_def succ_rel_def)+

text \<open>The loop computes the reachable nodes, in ascending order, or fails at a reachable node.\<close>

lemma loop_root_goal: "root \<in> univ \<Longrightarrow> loop_goal {root} (loop [] [root])"
  using loop_reaches_goal[of "[]" "[root]"] by (simp add: closed_up_to_def)

lemma loop_ok:
  assumes "root \<in> univ" and "loop [] [root] = wrap (Inr sel)"
  shows "bset_inv sel \<and> set sel = succ_rel\<^sup>* `` {root} \<and> (\<forall>x \<in> set sel. \<exists>ys. succs x = Inr ys)"
proof -
  from loop_root_goal[OF assms(1)] assms(2)
  have g: "bset_inv sel" "root \<in> set sel" "closed_up_to (set sel) {}" "set sel \<subseteq> succ_rel\<^sup>* `` {root}"
    unfolding loop_goal_def by (auto dest: wrap_inject)
  then show ?thesis using closed_reach[OF g(3,2)] by (auto simp: closed_up_to_def)
qed

lemma loop_err:
  assumes "root \<in> univ" and "loop [] [root] = wrap (Inl e)"
  shows "\<exists>x \<in> succ_rel\<^sup>* `` {root}. succs x = Inl e"
  using loop_root_goal[OF assms(1)] assms(2) unfolding loop_goal_def by (auto dest: wrap_inject)

lemma loop_returns:
  assumes "root \<in> univ"
  shows "\<exists>r. loop [] [root] = wrap r"
  using loop_root_goal[OF assms] unfolding loop_goal_def by auto

end

section \<open>Building the edge maps\<close>

definition graph_rep ::
    "'a::linorder set \<Rightarrow> ('a \<times> 'a) set \<Rightarrow> 'a edge_map \<times> 'a degree_map \<Rightarrow> bool" where
  "graph_rep S E st \<longleftrightarrow>
     finite S \<and> E \<subseteq> S \<times> S \<and> bmap_inv (fst st) \<and> bmap_inv (snd st) \<and>
     (\<forall>u. map_of (fst st) u = None \<longleftrightarrow> u \<notin> S) \<and>
     (\<forall>u dsts. map_of (fst st) u = Some dsts \<longrightarrow> bset_inv dsts \<and> set dsts = E `` {u}) \<and>
     (\<forall>v. map_of (snd st) v = (if v \<in> S then Some (card (E\<inverse> `` {v})) else None))"

lemma graph_rep_init:
  "bset_inv sel \<Longrightarrow> graph_rep (set sel) {} (map (\<lambda>n. (n, [])) sel, map (\<lambda>n. (n, 0)) sel)"
  by (auto simp: graph_rep_def map_of_map_const bmap_inv_map_const)

lemma graph_rep_finite: "graph_rep S E st \<Longrightarrow> finite E"
  unfolding graph_rep_def by (meson finite_SigmaI finite_subset)

lemma add_edge_rep:
  assumes rep: "graph_rep S E st" and uv: "u \<in> S" "v \<in> S"
  shows "\<exists>st'. add_edge u v st = Some st' \<and> graph_rep S (insert (u, v) E) st'"
proof -
  obtain edges indegree where st: "st = (edges, indegree)" by (cases st)
  from rep uv st obtain dsts where d: "map_of edges u = Some dsts" "bset_inv dsts" "set dsts = E `` {u}"
    unfolding graph_rep_def by (metis fst_conv option.exhaust)
  show ?thesis
  proof (cases "v \<in> set dsts")
    case True
    then have "insert (u, v) E = E" using d(3) by auto
    then show ?thesis using rep st d(1) True by (simp add: add_edge_def)
  next
    case False
    let ?e = "bmap_insert u (bset_insert v dsts) edges"
    let ?i = "bmap_insert v (card (E\<inverse> `` {v}) + 1) indegree"
    have iv: "map_of indegree v = Some (card (E\<inverse> `` {v}))" using rep uv st by (simp add: graph_rep_def)
    have "add_edge u v st = Some (?e, ?i)" using st d(1) False iv by (simp add: add_edge_def)
    moreover have "graph_rep S (insert (u, v) E) (?e, ?i)"
    proof -
      have new: "(insert (u, v) E)\<inverse> `` {v} = insert u (E\<inverse> `` {v})" by auto
      have old: "(insert (u, v) E)\<inverse> `` {w} = E\<inverse> `` {w}" if "w \<noteq> v" for w using that by auto
      have "u \<notin> E\<inverse> `` {v}" using False d(3) by auto
      moreover have "finite (E\<inverse> `` {v})"
        using graph_rep_finite[OF rep] by (simp add: finite_Image)
      ultimately have "card ((insert (u, v) E)\<inverse> `` {v}) = card (E\<inverse> `` {v}) + 1"
        by (simp add: new)
      then show ?thesis
        using rep st d uv old unfolding graph_rep_def by (auto split: if_splits)
    qed
    ultimately show ?thesis by blast
  qed
qed

lemma add_edges_rep:
  "graph_rep S E st \<Longrightarrow> set es \<subseteq> S \<times> S \<Longrightarrow>
     \<exists>st'. add_edges es st = Some st' \<and> graph_rep S (E \<union> set es) st'"
proof (induction es arbitrary: E st)
  case Nil
  then show ?case by simp
next
  case (Cons e es)
  obtain u v where e: "e = (u, v)" by (cases e)
  then obtain st1 where 1: "add_edge u v st = Some st1" "graph_rep S (insert (u, v) E) st1"
    using add_edge_rep[OF Cons.prems(1), of u v] Cons.prems(2) by auto
  then obtain st2 where "add_edges es st1 = Some st2" "graph_rep S (insert (u, v) E \<union> set es) st2"
    using Cons.IH[OF 1(2)] Cons.prems(2) by auto
  then show ?case using 1(1) e by (simp add: insert_commute)
qed

section \<open>Taking a source node\<close>

text \<open>
  The state between two iterations: \<open>E\<close> is the set of edges not yet consumed. All of them run between
  nodes not yet ordered, the counters are the in-degrees in \<open>E\<close>, and the edge map is read only at
  nodes not yet ordered.
\<close>

definition edge_state ::
    "'a::linorder set \<Rightarrow> ('a \<times> 'a) set \<Rightarrow> 'a edge_map \<Rightarrow> 'a degree_map \<Rightarrow> 'a list \<Rightarrow> bool" where
  "edge_state S E edges indegree order \<longleftrightarrow>
     finite S \<and> E \<subseteq> (S - set order) \<times> (S - set order) \<and> distinct order \<and> set order \<subseteq> S \<and>
     bmap_inv edges \<and> bmap_inv indegree \<and>
     (\<forall>u. map_of edges u = None \<longleftrightarrow> u \<notin> S) \<and>
     (\<forall>u dsts. u \<notin> set order \<longrightarrow> map_of edges u = Some dsts \<longrightarrow> bset_inv dsts \<and> set dsts = E `` {u}) \<and>
     (\<forall>v. map_of indegree v = (if v \<in> S then Some (card (E\<inverse> `` {v})) else None))"

definition sources :: "'a set \<Rightarrow> ('a \<times> 'a) set \<Rightarrow> 'a list \<Rightarrow> 'a set" where
  "sources S E order = {v \<in> S - set order. E\<inverse> `` {v} = {}}"

lemma edge_state_finite: "edge_state S E edges indegree order \<Longrightarrow> finite E"
  unfolding edge_state_def by (meson finite_Diff finite_SigmaI finite_subset)

lemma graph_rep_edge_state: "graph_rep S E (edges, indegree) \<Longrightarrow> edge_state S E edges indegree []"
  by (simp add: graph_rep_def edge_state_def)

lemma relax_spec:
  "distinct vs \<Longrightarrow> (\<And>v. v \<in> set vs \<Longrightarrow> \<exists>d. map_of indegree v = Some (Suc d)) \<Longrightarrow>
   bset_inv ready \<Longrightarrow> bmap_inv indegree \<Longrightarrow>
   \<exists>indegree' ready'. relax vs indegree ready = Some (indegree', ready') \<and>
     bmap_inv indegree' \<and> bset_inv ready' \<and>
     (\<forall>v. map_of indegree' v =
        (if v \<in> set vs then map_option (\<lambda>d. d - 1) (map_of indegree v) else map_of indegree v)) \<and>
     set ready' = set ready \<union> {v \<in> set vs. map_of indegree v = Some 1}"
proof (induction vs arbitrary: indegree ready)
  case Nil
  then show ?case by simp
next
  case (Cons v vs)
  obtain d where d: "map_of indegree v = Some (Suc d)" using Cons.prems(2) by auto
  let ?i = "bmap_insert v d indegree" and ?r = "if d = 0 then bset_insert v ready else ready"
  have "\<exists>indegree' ready'. relax vs ?i ?r = Some (indegree', ready') \<and>
     bmap_inv indegree' \<and> bset_inv ready' \<and>
     (\<forall>w. map_of indegree' w =
        (if w \<in> set vs then map_option (\<lambda>d. d - 1) (map_of ?i w) else map_of ?i w)) \<and>
     set ready' = set ?r \<union> {w \<in> set vs. map_of ?i w = Some 1}"
    using Cons.prems by (intro Cons.IH) auto
  then obtain i' r' where ir: "relax vs ?i ?r = Some (i', r')" "bmap_inv i'" "bset_inv r'"
    "\<forall>w. map_of i' w = (if w \<in> set vs then map_option (\<lambda>d. d - 1) (map_of ?i w) else map_of ?i w)"
    "set r' = set ?r \<union> {w \<in> set vs. map_of ?i w = Some 1}" by blast
  have "relax (v # vs) indegree ready = Some (i', r')" using d ir(1) by simp
  moreover have "set r' = set ready \<union> {w \<in> set (v # vs). map_of indegree w = Some 1}"
    using ir(5) d Cons.prems(1) by auto
  moreover have "\<forall>w. map_of i' w =
      (if w \<in> set (v # vs) then map_option (\<lambda>d. d - 1) (map_of indegree w) else map_of indegree w)"
    using ir(4) d Cons.prems(1) by auto
  ultimately show ?case using ir(2,3) by blast
qed

lemma take_source:
  assumes st: "edge_state S E edges indegree order"
    and n: "n \<in> sources S E order"
    and ready: "bset_inv ready" "set ready = sources S E order - {n}"
  shows "\<exists>dsts indegree' ready'. map_of edges n = Some dsts \<and>
     relax dsts indegree ready = Some (indegree', ready') \<and>
     edge_state S (E - {n} \<times> UNIV) edges indegree' (order @ [n]) \<and>
     bset_inv ready' \<and> set ready' = sources S (E - {n} \<times> UNIV) (order @ [n])"
proof -
  have nS: "n \<in> S" "n \<notin> set order" "E\<inverse> `` {n} = {}" using n by (auto simp: sources_def)
  then obtain dsts where d: "map_of edges n = Some dsts" "bset_inv dsts" "set dsts = E `` {n}"
    using st unfolding edge_state_def by (metis option.exhaust)
  have fin: "finite (E\<inverse> `` {v})" for v
    using edge_state_finite[OF st] by (simp add: finite_Image)
  have cards: "card ((E - {n} \<times> UNIV)\<inverse> `` {v}) = card (E\<inverse> `` {v}) - (if v \<in> set dsts then 1 else 0)" for v
  proof -
    have "(E - {n} \<times> UNIV)\<inverse> `` {v} = E\<inverse> `` {v} - {n}" by auto
    then show ?thesis using d(3) fin by (simp add: card_Diff_singleton_if)
  qed
  have pos: "\<exists>k. map_of indegree v = Some (Suc k)" if "v \<in> set dsts" for v
  proof -
    have "v \<in> S" "E\<inverse> `` {v} \<noteq> {}" using that d(3) st by (auto simp: edge_state_def)
    then have "map_of indegree v = Some (card (E\<inverse> `` {v}))" "card (E\<inverse> `` {v}) \<noteq> 0"
      using st fin by (simp_all add: edge_state_def)
    then show ?thesis by (metis not0_implies_Suc)
  qed
  from relax_spec[OF bset_inv_distinct[OF d(2)] pos ready(1)] st
  obtain i' r' where r: "relax dsts indegree ready = Some (i', r')" "bmap_inv i'" "bset_inv r'"
    "\<And>v. map_of i' v = (if v \<in> set dsts then map_option (\<lambda>d. d - 1) (map_of indegree v)
                            else map_of indegree v)"
    "set r' = set ready \<union> {v \<in> set dsts. map_of indegree v = Some 1}"
    unfolding edge_state_def by metis
  have "edge_state S (E - {n} \<times> UNIV) edges i' (order @ [n])"
    unfolding edge_state_def
  proof (intro conjI allI impI)
    show "finite S" "distinct (order @ [n])" "set (order @ [n]) \<subseteq> S" "bmap_inv edges" "bmap_inv i'"
      using st nS r(2) by (simp_all add: edge_state_def)
    show "E - {n} \<times> UNIV \<subseteq> (S - set (order @ [n])) \<times> (S - set (order @ [n]))"
      using st nS(3) by (auto simp: edge_state_def)
    show "(map_of edges u = None) = (u \<notin> S)" for u using st by (simp add: edge_state_def)
    show "map_of i' v = (if v \<in> S then Some (card ((E - {n} \<times> UNIV)\<inverse> `` {v})) else None)" for v
      using st d(3) unfolding r(4) cards by (auto simp: edge_state_def)
    fix u ds assume u: "u \<notin> set (order @ [n])" "map_of edges u = Some ds"
    then have "u \<notin> set order" by simp
    with u(2) have "bset_inv ds \<and> set ds = E `` {u}" using st unfolding edge_state_def by blast
    then show "bset_inv ds" "set ds = (E - {n} \<times> UNIV) `` {u}" using u(1) by auto
  qed
  moreover have "set r' = sources S (E - {n} \<times> UNIV) (order @ [n])"
  proof -
    have zero: "(E - {n} \<times> UNIV)\<inverse> `` {v} = {} \<longleftrightarrow>
        E\<inverse> `` {v} = {} \<or> (v \<in> set dsts \<and> card (E\<inverse> `` {v}) = 1)" for v
    proof -
      have "(E - {n} \<times> UNIV)\<inverse> `` {v} = E\<inverse> `` {v} - {n}" by auto
      moreover have "A - {n} = {} \<longleftrightarrow> A = {} \<or> (n \<in> A \<and> card A = 1)" for A :: "'a set"
        by (auto simp: card_1_singleton_iff)
      moreover have "v \<in> set dsts \<longleftrightarrow> n \<in> E\<inverse> `` {v}" using d(3) by auto
      ultimately show ?thesis by presburger
    qed
    have dS: "v \<in> S \<and> v \<notin> set order \<and> v \<noteq> n" if "v \<in> set dsts" for v
      using that d(3) st nS by (auto simp: edge_state_def)
    have one: "map_of indegree v = Some 1 \<longleftrightarrow> card (E\<inverse> `` {v}) = 1" if "v \<in> set dsts" for v
      using dS[OF that] st by (simp add: edge_state_def)
    have "v \<in> set r' \<longleftrightarrow> (v \<in> sources S E order \<and> v \<noteq> n) \<or> (v \<in> set dsts \<and> card (E\<inverse> `` {v}) = 1)" for v
      using one[of v] unfolding r(5) ready(2) by blast
    moreover have "v \<in> sources S (E - {n} \<times> UNIV) (order @ [n]) \<longleftrightarrow>
        (v \<in> sources S E order \<and> v \<noteq> n) \<or> (v \<in> set dsts \<and> card (E\<inverse> `` {v}) = 1)" for v
      using dS[of v] unfolding sources_def zero by auto
    ultimately show ?thesis by blast
  qed
  ultimately show ?thesis using d(1) r(1,3) by blast
qed

section \<open>The topological loop\<close>

text \<open>Every node of the order comes after all of its predecessors.\<close>

definition preds_before :: "('a \<times> 'a) set \<Rightarrow> 'a list \<Rightarrow> bool" where
  "preds_before E order \<longleftrightarrow>
     (\<forall>ys v zs. order = ys @ v # zs \<longrightarrow> E\<inverse> `` {v} \<subseteq> set ys)"

lemma preds_before_Nil [simp]: "preds_before E []"
  by (simp add: preds_before_def)

lemma preds_before_snoc:
  "preds_before E order \<Longrightarrow> E\<inverse> `` {n} \<subseteq> set order \<Longrightarrow> preds_before E (order @ [n])"
  unfolding preds_before_def by (metis append1_eq_conv append_assoc append_Cons rev_exhaust append.right_neutral)

lemma preds_before_rtrancl:
  assumes "preds_before E order" and "(u, v) \<in> E\<^sup>*" and "v \<in> set order"
  shows "u \<in> set order"
  using assms(2,3)
proof (induction rule: converse_rtrancl_induct)
  case base
  then show ?case .
next
  case (step y z)
  then obtain ys zs where "order = ys @ z # zs" by (meson split_list)
  then have "y \<in> set ys" using step assms(1) unfolding preds_before_def by blast
  then show ?case using \<open>order = ys @ z # zs\<close> by simp
qed

lemma kahn_loop_spec:
  "edge_state S (E \<inter> (S - set order) \<times> UNIV) edges indegree order \<Longrightarrow>
   bset_inv ready \<Longrightarrow> set ready = sources S (E \<inter> (S - set order) \<times> UNIV) order \<Longrightarrow>
   E \<subseteq> S \<times> S \<Longrightarrow> preds_before E order \<Longrightarrow>
   \<exists>order' indegree'. kahn_loop edges indegree ready order = Some (order', indegree') \<and>
     edge_state S (E \<inter> (S - set order') \<times> UNIV) edges indegree' order' \<and>
     sources S (E \<inter> (S - set order') \<times> UNIV) order' = {} \<and> preds_before E order'"
proof (induction edges indegree ready order rule: kahn_loop.induct)
  case (1 edges indegree order)
  then show ?case by auto
next
  case (2 edges indegree n ready order)
  let ?E = "E \<inter> (S - set order) \<times> UNIV"
  have n: "n \<in> sources S ?E order" using "2.prems"(3) by auto
  have ready: "bset_inv ready" "set ready = sources S ?E order - {n}"
    using "2.prems"(2,3) by auto
  from take_source[OF "2.prems"(1) n ready] obtain dsts i' r' where
    t: "map_of edges n = Some dsts" "relax dsts indegree ready = Some (i', r')"
      "edge_state S (?E - {n} \<times> UNIV) edges i' (order @ [n])" "bset_inv r'"
      "set r' = sources S (?E - {n} \<times> UNIV) (order @ [n])" by blast
  have E': "?E - {n} \<times> UNIV = E \<inter> (S - set (order @ [n])) \<times> UNIV" by auto
  have "E\<inverse> `` {n} \<subseteq> set order" using n "2.prems"(4) by (auto simp: sources_def)
  then have "preds_before E (order @ [n])" using "2.prems"(5) by (simp add: preds_before_snoc)
  with t "2.prems"(4) have "\<exists>order' indegree'. kahn_loop edges i' r' (order @ [n]) = Some (order', indegree') \<and>
     edge_state S (E \<inter> (S - set order') \<times> UNIV) edges indegree' order' \<and>
     sources S (E \<inter> (S - set order') \<times> UNIV) order' = {} \<and> preds_before E order'"
    unfolding E' by (intro "2.IH"[OF t(1,2) refl]) auto
  then show ?case using t(1,2) by simp
qed

lemma preds_before_trancl:
  assumes "preds_before E order" and "(u, v) \<in> E\<^sup>+" and "order = ys @ v # zs"
  shows "u \<in> set ys"
  using assms(2,3)
proof (induction arbitrary: ys zs rule: trancl_induct)
  case (base v)
  then show ?case using assms(1) unfolding preds_before_def by blast
next
  case (step w v)
  then have "w \<in> set ys" using assms(1) unfolding preds_before_def by blast
  then obtain as bs where "ys = as @ w # bs" by (meson split_list)
  then show ?case using step.IH[of as "bs @ v # zs"] step.prems by simp
qed

text \<open>The nodes no topological order can contain: those downstream of a cycle.\<close>

definition cyclic_nodes :: "'a set \<Rightarrow> ('a \<times> 'a) set \<Rightarrow> 'a set" where
  "cyclic_nodes S E = {v \<in> S. \<exists>c. (c, c) \<in> E\<^sup>+ \<and> (c, v) \<in> E\<^sup>*}"

lemma cyclic_nodes_empty: "E \<subseteq> S \<times> S \<Longrightarrow> cyclic_nodes S E = {} \<longleftrightarrow> acyclic E"
proof -
  assume E: "E \<subseteq> S \<times> S"
  have "c \<in> S" if "(c, c) \<in> E\<^sup>+" for c
    using that E trancl_subset_Sigma[OF E] by blast
  then show ?thesis unfolding cyclic_nodes_def acyclic_def by blast
qed

lemma finite_no_source_cycle:
  assumes "finite Y" "Y \<noteq> {}" and "\<And>y. y \<in> Y \<Longrightarrow> \<exists>x \<in> Y. (x, y) \<in> R"
  shows "\<exists>c \<in> Y. (c, c) \<in> R\<^sup>+"
proof (rule ccontr)
  assume a: "\<not> ?thesis"
  let ?R = "R \<inter> Y \<times> Y"
  have "acyclic ?R"
  proof (rule acyclicI, rule allI, rule notI)
    fix c assume c: "(c, c) \<in> ?R\<^sup>+"
    then have "c \<in> Y" using trancl_subset_Sigma[of ?R Y] by blast
    moreover have "(c, c) \<in> R\<^sup>+" using c trancl_mono[of "(c, c)" ?R R] by blast
    ultimately show False using a by blast
  qed
  then have "wf ?R" using assms(1) by (intro finite_acyclic_wf) auto
  then obtain y where "y \<in> Y" "\<And>x. (x, y) \<in> ?R \<Longrightarrow> x \<notin> Y"
    using assms(2) by (metis wfE_min ex_in_conv)
  then show False using assms(3)[of y] by blast
qed

lemma unordered_cyclic:
  assumes "edge_state S (E \<inter> (S - set order) \<times> UNIV) edges indegree order"
    and "sources S (E \<inter> (S - set order) \<times> UNIV) order = {}"
    and "E \<subseteq> S \<times> S" and "preds_before E order"
  shows "S - set order = cyclic_nodes S E"
proof (intro subset_antisym subsetI)
  fix v assume v: "v \<in> S - set order"
  let ?Y = "{u \<in> S - set order. (u, v) \<in> E\<^sup>*}"
  have pred: "\<exists>x \<in> ?Y. (x, y) \<in> E" if "y \<in> ?Y" for y
  proof -
    from that assms(2) obtain x where "(x, y) \<in> E" "x \<in> S - set order"
      unfolding sources_def by blast
    then show ?thesis using that converse_rtrancl_into_rtrancl[of x y E v] by blast
  qed
  have "finite ?Y" using assms(1) by (simp add: edge_state_def)
  moreover have "?Y \<noteq> {}" using v by blast
  ultimately have "\<exists>c \<in> ?Y. (c, c) \<in> E\<^sup>+" using pred by (intro finite_no_source_cycle) auto
  then show "v \<in> cyclic_nodes S E" using v by (auto simp: cyclic_nodes_def)
next
  fix v assume "v \<in> cyclic_nodes S E"
  then obtain c where c: "v \<in> S" "(c, c) \<in> E\<^sup>+" "(c, v) \<in> E\<^sup>*" by (auto simp: cyclic_nodes_def)
  have "c \<notin> set order"
  proof
    assume "c \<in> set order"
    then obtain ys zs where o: "order = ys @ c # zs" by (meson split_list)
    then have "c \<in> set ys" using preds_before_trancl[OF assms(4) c(2)] by blast
    then show False using o assms(1) by (simp add: edge_state_def)
  qed
  then have "v \<notin> set order" using preds_before_rtrancl[OF assms(4) c(3)] by blast
  then show "v \<in> S - set order" using c(1) by simp
qed

section \<open>The cycle breaking loop\<close>

definition consumed :: "'a edge_map \<Rightarrow> 'a list \<Rightarrow> bool" where
  "consumed edges order \<longleftrightarrow> (\<forall>u \<in> set order. map_of edges u = Some [])"

lemma drop_incoming_spec:
  "distinct ps \<Longrightarrow> bmap_inv (fst st) \<Longrightarrow> bmap_inv (snd st) \<Longrightarrow>
   (\<And>p. p \<in> set ps \<Longrightarrow> \<exists>dsts. map_of (fst st) p = Some dsts \<and> n \<in> set dsts) \<Longrightarrow>
   map_of (snd st) n = Some (length ps + k) \<Longrightarrow>
   \<exists>edges' indegree'. drop_incoming n ps st = Some (edges', indegree') \<and>
     bmap_inv edges' \<and> bmap_inv indegree' \<and> map_of indegree' = (map_of (snd st))(n \<mapsto> k) \<and>
     (\<forall>u. map_of edges' u =
        (if u \<in> set ps then map_option (bset_remove n) (map_of (fst st) u) else map_of (fst st) u))"
proof (induction ps arbitrary: st)
  case Nil
  then show ?case by (cases st) auto
next
  case (Cons p ps)
  obtain dsts where d: "map_of (fst st) p = Some dsts" "n \<in> set dsts" using Cons.prems(4) by auto
  let ?st = "(bmap_insert p (bset_remove n dsts) (fst st), bmap_insert n (length ps + k) (snd st))"
  have "\<exists>edges' indegree'. drop_incoming n ps ?st = Some (edges', indegree') \<and>
     bmap_inv edges' \<and> bmap_inv indegree' \<and> map_of indegree' = (map_of (snd ?st))(n \<mapsto> k) \<and>
     (\<forall>u. map_of edges' u =
        (if u \<in> set ps then map_option (bset_remove n) (map_of (fst ?st) u) else map_of (fst ?st) u))"
    using Cons.prems by (intro Cons.IH) auto
  moreover have "drop_incoming n (p # ps) st = drop_incoming n ps ?st"
    using d Cons.prems(5) by simp
  ultimately show ?case using d Cons.prems(1) by fastforce
qed

lemma filter_keys_iff:
  "bmap_inv m \<Longrightarrow> k \<in> set (map fst (filter (\<lambda>(_, v). P v) m)) \<longleftrightarrow> (\<exists>v. map_of m k = Some v \<and> P v)"
  by (auto simp: bmap_entry[symmetric] image_iff)

lemma edge_state_dests:
  "edge_state S E edges indegree order \<Longrightarrow> u \<notin> set order \<Longrightarrow> map_of edges u = Some ds \<Longrightarrow>
     bset_inv ds \<and> set ds = E `` {u}"
  unfolding edge_state_def by blast

lemma drop_incoming_state:
  assumes st: "edge_state S E edges indegree order" and cons: "consumed edges order"
    and n: "n \<in> S - set order"
  shows "\<exists>edges' indegree'.
     drop_incoming n (map fst (filter (\<lambda>(_, dsts). n \<in> set dsts) edges)) (edges, indegree) =
       Some (edges', indegree') \<and>
     edge_state S (E - UNIV \<times> {n}) edges' indegree' order \<and> consumed edges' order"
proof -
  have inv: "bmap_inv edges" "bmap_inv indegree"
    and dom: "\<And>u. map_of edges u = None \<longleftrightarrow> u \<notin> S"
    and sub: "E \<subseteq> (S - set order) \<times> (S - set order)"
    using st unfolding edge_state_def by blast+
  have deg: "map_of indegree v = (if v \<in> S then Some (card (E\<inverse> `` {v})) else None)" for v
    using st by (simp add: edge_state_def)
  let ?ps = "map fst (filter (\<lambda>(_, dsts). n \<in> set dsts) edges)"
  have ps: "p \<in> set ?ps \<longleftrightarrow> (\<exists>ds. map_of edges p = Some ds \<and> n \<in> set ds)" for p
    by (rule filter_keys_iff[OF inv(1)])
  have pred: "set ?ps = E\<inverse> `` {n}"
  proof (rule set_eqI)
    fix p
    show "p \<in> set ?ps \<longleftrightarrow> p \<in> E\<inverse> `` {n}"
    proof (cases "p \<in> set order")
      case True
      then have "p \<notin> E\<inverse> `` {n}" using sub by blast
      then show ?thesis using True cons unfolding ps consumed_def by auto
    next
      case False
      then show ?thesis
        using dom[of p] sub edge_state_dests[OF st False] unfolding ps
        by (cases "map_of edges p") auto
    qed
  qed
  have dist: "distinct ?ps"
    using distinct_map_filter[OF bmap_keys_distinct[OF inv(1)]] .
  have "map_of indegree n = Some (length ?ps + 0)"
    using n deg[of n] distinct_card[OF dist] unfolding pred by simp
  then have "\<exists>edges' indegree'. drop_incoming n ?ps (edges, indegree) = Some (edges', indegree') \<and>
     bmap_inv edges' \<and> bmap_inv indegree' \<and> map_of indegree' = (map_of (snd (edges, indegree)))(n \<mapsto> 0) \<and>
     (\<forall>u. map_of edges' u = (if u \<in> set ?ps then map_option (bset_remove n) (map_of (fst (edges, indegree)) u)
                              else map_of (fst (edges, indegree)) u))"
    by (intro drop_incoming_spec[OF dist]) (simp_all only: fst_conv snd_conv inv ps)
  then obtain edges' indegree' where d:
      "drop_incoming n ?ps (edges, indegree) = Some (edges', indegree')"
      "bmap_inv edges'" "bmap_inv indegree'" "map_of indegree' = (map_of indegree)(n \<mapsto> 0)"
      "\<And>u. map_of edges' u =
        (if u \<in> set ?ps then map_option (bset_remove n) (map_of edges u) else map_of edges u)"
    unfolding fst_conv snd_conv by blast
  have "edge_state S (E - UNIV \<times> {n}) edges' indegree' order"
    unfolding edge_state_def
  proof (intro conjI allI impI)
    show "finite S" "distinct order" "set order \<subseteq> S" "bmap_inv edges'" "bmap_inv indegree'"
      using st d(2,3) by (simp_all add: edge_state_def)
    show "E - UNIV \<times> {n} \<subseteq> (S - set order) \<times> (S - set order)" using sub by blast
    show "(map_of edges' u = None) = (u \<notin> S)" for u unfolding d(5) using dom[of u] by auto
    show "map_of indegree' v = (if v \<in> S then Some (card ((E - UNIV \<times> {n})\<inverse> `` {v})) else None)" for v
    proof -
      have "(E - UNIV \<times> {n})\<inverse> `` {v} = (if v = n then {} else E\<inverse> `` {v})" by auto
      then show ?thesis using n by (simp add: d(4) deg)
    qed
    fix u ds assume u: "u \<notin> set order" "map_of edges' u = Some ds"
    then obtain ds0 where ds0: "map_of edges u = Some ds0" "ds = (if u \<in> set ?ps then bset_remove n ds0 else ds0)"
      unfolding d(5) by (cases "map_of edges u") (auto split: if_splits)
    with edge_state_dests[OF st u(1)] have e: "bset_inv ds0" "set ds0 = E `` {u}" by auto
    then show "bset_inv ds" using ds0(2) by simp
    show "set ds = (E - UNIV \<times> {n}) `` {u}"
      using e(2) ds0(2) unfolding pred by (cases "u \<in> E\<inverse> `` {n}") auto
  qed
  moreover have "consumed edges' order"
    using cons sub unfolding consumed_def d(5) pred by auto
  ultimately show ?thesis using d(1) by blast
qed

lemma break_cycle_spec:
  assumes st: "edge_state S E edges indegree order" and cons: "consumed edges order"
    and stuck: "sources S E order = {}" and left: "set order \<subset> S"
  shows "\<exists>n edges' indegree'. break_cycle edges indegree = Some (n, [], edges', indegree') \<and>
     sources S (E - UNIV \<times> {n}) order = {n} \<and>
     edge_state S (E - UNIV \<times> {n}) edges' indegree' order \<and> consumed edges' order"
proof -
  have inv: "bmap_inv indegree"
    and sub: "E \<subseteq> (S - set order) \<times> (S - set order)"
    using st unfolding edge_state_def by blast+
  have deg: "map_of indegree v = (if v \<in> S then Some (card (E\<inverse> `` {v})) else None)" for v
    using st by (simp add: edge_state_def)
  have fin: "finite (E\<inverse> `` {v})" for v
    using edge_state_finite[OF st] by (simp add: finite_Image)
  let ?pos = "map fst (filter (\<lambda>(_, d). 0 < d) indegree)"
  have pos: "v \<in> set ?pos \<longleftrightarrow> v \<in> S - set order" for v
  proof -
    have "v \<in> set ?pos \<longleftrightarrow> v \<in> S \<and> E\<inverse> `` {v} \<noteq> {}"
      unfolding filter_keys_iff[OF inv] deg using fin[of v] by (auto simp: card_gt_0_iff)
    also have "\<dots> \<longleftrightarrow> v \<in> S - set order" using stuck sub by (auto simp: sources_def)
    finally show ?thesis .
  qed
  obtain n rest where n: "rev ?pos = n # rest"
  proof (cases "rev ?pos")
    case Nil
    then have "v \<notin> set ?pos" for v by (metis empty_iff rev_is_Nil_conv set_empty)
    then show thesis using left unfolding pos by blast
  next
    case (Cons n rest)
    then show thesis by (rule that)
  qed
  have nS: "n \<in> S - set order" using n pos[of n] by (metis list.set_intros(1) set_rev)
  moreover have "sources S (E - UNIV \<times> {n}) order = {n}"
    using stuck nS by (auto simp: sources_def)
  ultimately show ?thesis
    using drop_incoming_state[OF st cons nS] n unfolding break_cycle_def by auto
qed

text \<open>The source clears the dependents of the node it takes (\<open>std::mem::take\<close>).\<close>

lemma edge_state_clear:
  assumes "edge_state S E edges indegree order" and "n \<in> set order"
  shows "edge_state S E (bmap_insert n [] edges) indegree order"
  using assms unfolding edge_state_def by (auto split: if_splits)

lemma best_effort_take:
  assumes st: "edge_state S E edges indegree order" and cons: "consumed edges order"
    and n: "n \<in> sources S E order"
    and ready: "bset_inv ready" "set ready = sources S E order - {n}"
  shows "\<exists>dsts indegree' ready'. map_of edges n = Some dsts \<and>
     relax dsts indegree ready = Some (indegree', ready') \<and>
     edge_state S (E - {n} \<times> UNIV) (bmap_insert n [] edges) indegree' (order @ [n]) \<and>
     consumed (bmap_insert n [] edges) (order @ [n]) \<and>
     bset_inv ready' \<and> set ready' = sources S (E - {n} \<times> UNIV) (order @ [n])"
proof -
  from take_source[OF st n ready] obtain dsts i' r' where
    t: "map_of edges n = Some dsts" "relax dsts indegree ready = Some (i', r')"
      "edge_state S (E - {n} \<times> UNIV) edges i' (order @ [n])" "bset_inv r'"
      "set r' = sources S (E - {n} \<times> UNIV) (order @ [n])" by blast
  moreover have "consumed (bmap_insert n [] edges) (order @ [n])"
    using cons by (auto simp: consumed_def)
  ultimately show ?thesis using edge_state_clear[OF t(3), of n] by auto
qed

lemma best_effort_loop_spec:
  "edge_state S E edges indegree order \<Longrightarrow> consumed edges order \<Longrightarrow>
   bset_inv ready \<Longrightarrow> set ready = sources S E order \<Longrightarrow> count = card S \<Longrightarrow>
   \<exists>order'. best_effort_loop count edges indegree ready order = Some order' \<and>
     distinct order' \<and> set order' = S"
proof (induction "count - length order" arbitrary: E edges indegree ready order)
  case 0
  have d: "finite S" "distinct order" "set order \<subseteq> S" using "0.prems"(1) by (simp_all add: edge_state_def)
  then have "card (set order) = length order" by (simp add: distinct_card)
  then have "set order = S" using 0 d card_mono[OF d(1,3)] by (intro card_subset_eq) auto
  then show ?case using d 0 by (subst best_effort_loop.simps) auto
next
  case (Suc k)
  have d: "finite S" "distinct order" "set order \<subseteq> S" using Suc.prems(1) by (simp_all add: edge_state_def)
  have less: "length order < count" using Suc.hyps(2) by simp
  then have left: "set order \<subset> S" using d Suc.prems(5) distinct_card[OF d(2)] by auto
  obtain n ready1 edges1 indegree1 E1 where step:
      "(case ready of n # ready1 \<Rightarrow> Some (n, ready1, edges, indegree) | [] \<Rightarrow> break_cycle edges indegree) =
         Some (n, ready1, edges1, indegree1)"
      "edge_state S E1 edges1 indegree1 order" "consumed edges1 order" "n \<in> sources S E1 order"
      "bset_inv ready1" "set ready1 = sources S E1 order - {n}"
  proof (cases ready)
    case Nil
    then have "sources S E order = {}" using Suc.prems(4) by simp
    from break_cycle_spec[OF Suc.prems(1,2) this left] obtain n edges' indegree' where
      b: "break_cycle edges indegree = Some (n, [], edges', indegree')"
         "sources S (E - UNIV \<times> {n}) order = {n}"
         "edge_state S (E - UNIV \<times> {n}) edges' indegree' order" "consumed edges' order" by blast
    show thesis by (rule that[of n "[]" edges' indegree' "E - UNIV \<times> {n}"]) (use b Nil in auto)
  next
    case (Cons n r)
    then show thesis using Suc.prems by (intro that[of n r edges indegree E]) auto
  qed
  from best_effort_take[OF step(2-6)] obtain dsts i' r' where
    t: "map_of edges1 n = Some dsts" "relax dsts indegree1 ready1 = Some (i', r')"
      "edge_state S (E1 - {n} \<times> UNIV) (bmap_insert n [] edges1) i' (order @ [n])"
      "consumed (bmap_insert n [] edges1) (order @ [n])" "bset_inv r'"
      "set r' = sources S (E1 - {n} \<times> UNIV) (order @ [n])" by blast
  have "\<exists>order'. best_effort_loop count (bmap_insert n [] edges1) i' r' (order @ [n]) = Some order' \<and>
     distinct order' \<and> set order' = S"
    using Suc.hyps(2) Suc.prems(5) t by (intro Suc.hyps(1)) auto
  then show ?case using less step(1) t(1,2) by (subst best_effort_loop.simps) simp
qed

text \<open>Without cycles to break, the loop takes the same nodes in the same order as the topological one.\<close>

lemma kahn_loop_extends:
  "kahn_loop edges indegree ready order = Some (order', indegree') \<Longrightarrow> \<exists>rest. order' = order @ rest"
proof (induction edges indegree ready order rule: kahn_loop.induct)
  case (1 edges indegree order)
  then show ?case by simp
next
  case (2 edges indegree n ready order)
  from "2.prems" obtain ds i' r' where r: "map_of edges n = Some ds" "relax ds indegree ready = Some (i', r')"
    "kahn_loop edges i' r' (order @ [n]) = Some (order', indegree')"
    by (auto split: option.splits)
  then show ?case using "2.IH"[OF r(1,2) refl r(3)] by auto
qed

lemma best_effort_loop_kahn:
  "kahn_loop edges indegree ready order = Some (order', indegree') \<Longrightarrow> length order' = count \<Longrightarrow>
   distinct order' \<Longrightarrow> (\<And>u. u \<notin> set order \<Longrightarrow> map_of edges1 u = map_of edges u) \<Longrightarrow>
   best_effort_loop count edges1 indegree ready order = Some order'"
proof (induction edges indegree ready order arbitrary: edges1 rule: kahn_loop.induct)
  case (1 edges indegree order)
  then show ?case by (subst best_effort_loop.simps) simp
next
  case (2 edges indegree n ready order)
  from "2.prems"(1) obtain ds i' r' where r: "map_of edges n = Some ds"
    "relax ds indegree ready = Some (i', r')"
    "kahn_loop edges i' r' (order @ [n]) = Some (order', indegree')"
    by (auto split: option.splits)
  from kahn_loop_extends[OF r(3)] obtain rest where o: "order' = (order @ [n]) @ rest" ..
  then have n: "n \<notin> set order" "length order < count" using "2.prems"(2,3) by auto
  have "best_effort_loop count (bmap_insert n [] edges1) i' r' (order @ [n]) = Some order'"
    using "2.prems"(4) by (intro "2.IH"[OF r(1,2) refl r(3) "2.prems"(2,3)]) auto
  then show ?case using r(1,2) n "2.prems"(4)[OF n(1)] by (subst best_effort_loop.simps) simp
qed

end
