(* ===== verification/Dep_Graph.thy ===== *)
theory Dep_Graph
  imports Service_Spec Kahn
begin

text \<open>
  \<open>DependencyGraph\<close> of \<open>crates/fractald-core/src/graph.rs\<close>: the registry of services, the derived
  dependency sets, the start closure, the ordering graph and the start and stop plans. The
  environment of the process is a parameter because mount paths expand it. A Rust panic (an
  \<open>expect\<close> or a missing map key) is \<open>None\<close>; the theorems show that no plan of a registered
  service has it.
\<close>

section \<open>Data\<close>

record dependency_graph =
  dg_services :: "(string, service_spec) bmap"

datatype graph_error =
    DuplicateService string
  | EmptyRoot
  | MissingRoot string
  | MissingRequired string string
  | Cycle "string list"

definition graph_default :: dependency_graph where
  "graph_default = \<lparr>dg_services = []\<rparr>"

definition graph_add :: "service_spec \<Rightarrow> dependency_graph \<Rightarrow> graph_error + dependency_graph" where
  "graph_add spec g =
     (if map_of (dg_services g) (sp_name spec) \<noteq> None then Err (DuplicateService (sp_name spec))
      else Ok (g\<lparr>dg_services := bmap_insert (sp_name spec) spec (dg_services g)\<rparr>))"

definition graph_get :: "string \<Rightarrow> dependency_graph \<Rightarrow> service_spec option" where
  "graph_get name g = map_of (dg_services g) name"

definition graph_len :: "dependency_graph \<Rightarrow> nat" where
  "graph_len g = length (dg_services g)"

definition graph_is_empty :: "dependency_graph \<Rightarrow> bool" where
  "graph_is_empty g \<longleftrightarrow> dg_services g = []"

definition registered :: "dependency_graph \<Rightarrow> string \<Rightarrow> bool" where
  "registered g name \<longleftrightarrow> map_of (dg_services g) name \<noteq> None"

section \<open>Paths and derived dependencies\<close>

text \<open>The normalised path is kept as its components; \<open>PathBuf::pop\<close> leaves the root alone.\<close>

definition push_normalized :: "path_component list \<Rightarrow> path_component \<Rightarrow> path_component list" where
  "push_normalized normalized c =
     (case c of
        RootDir \<Rightarrow> normalized
      | CurDir \<Rightarrow> normalized
      | Normal v \<Rightarrow> normalized @ [Normal v]
      | ParentDir \<Rightarrow> (if normalized = [RootDir] then normalized else butlast normalized))"

definition normalize_absolute_path :: "string \<Rightarrow> path_component list option" where
  "normalize_absolute_path p =
     (if is_absolute p then Some (foldl push_normalized [RootDir] (path_components p)) else None)"

definition default_required_dependencies :: "dependency_graph \<Rightarrow> string \<Rightarrow> string list" where
  "default_required_dependencies g name = []"

definition default_after_dependencies :: "dependency_graph \<Rightarrow> string \<Rightarrow> string list" where
  "default_after_dependencies g name = []"

definition default_before_dependencies :: "dependency_graph \<Rightarrow> string \<Rightarrow> string list" where
  "default_before_dependencies g name = []"

definition default_conflict_dependencies :: "dependency_graph \<Rightarrow> string \<Rightarrow> string list" where
  "default_conflict_dependencies g name = []"

definition mount_point :: "service_spec \<Rightarrow> path_component list option" where
  "mount_point s = Option.bind (sp_mount_where s) normalize_absolute_path"

text \<open>The mounts, other than the service itself, whose mount point is above a requested path.\<close>

definition covering_mounts ::
    "dependency_graph \<Rightarrow> string \<Rightarrow> path_component list list \<Rightarrow> string list" where
  "covering_mounts g name requested_paths =
     (if requested_paths = [] then []
      else bset_of (map fst (filter (\<lambda>(mount_name, mount).
             mount_name \<noteq> name \<and> sp_service_type mount = TypeMount \<and>
             (case mount_point mount of
                None \<Rightarrow> False
              | Some point \<Rightarrow> list_ex (\<lambda>path. path_starts_with path point) requested_paths))
           (dg_services g))))"

definition mount_dependencies :: "environment \<Rightarrow> dependency_graph \<Rightarrow> string \<Rightarrow> string list" where
  "mount_dependencies env g name =
     (case map_of (dg_services g) name of
        None \<Rightarrow> []
      | Some service \<Rightarrow>
          covering_mounts g name
            (List.map_filter normalize_absolute_path (expanded_requires_mounts_for env service) @
             (if sp_service_type service = TypeMount then
                (case mount_point service of None \<Rightarrow> [] | Some path \<Rightarrow> [path])
              else [])))"

definition wanted_mount_dependencies :: "environment \<Rightarrow> dependency_graph \<Rightarrow> string \<Rightarrow> string list" where
  "wanted_mount_dependencies env g name =
     (case map_of (dg_services g) name of
        None \<Rightarrow> []
      | Some service \<Rightarrow>
          covering_mounts g name
            (List.map_filter normalize_absolute_path (expanded_wants_mounts_for env service)))"

definition declared :: "dependency_graph \<Rightarrow> string \<Rightarrow> (dependency_set \<Rightarrow> string list) \<Rightarrow> string list" where
  "declared g name field =
     (case map_of (dg_services g) name of None \<Rightarrow> [] | Some s \<Rightarrow> field (sp_dependencies s))"

definition required_dependencies :: "environment \<Rightarrow> dependency_graph \<Rightarrow> string \<Rightarrow> string list" where
  "required_dependencies env g name =
     bset_extend (mount_dependencies env g name)
       (bset_extend (declared g name dep_binds_to)
         (bset_extend (default_required_dependencies g name)
           (declared g name dep_requires)))"

definition conflict_dependencies :: "dependency_graph \<Rightarrow> string \<Rightarrow> string list" where
  "conflict_dependencies g name =
     bset_extend (default_conflict_dependencies g name) (declared g name dep_conflicts)"

definition wanted_dependencies :: "environment \<Rightarrow> dependency_graph \<Rightarrow> string \<Rightarrow> string list" where
  "wanted_dependencies env g name =
     bset_extend (wanted_mount_dependencies env g name) (declared g name dep_wants)"

section \<open>Closures\<close>

definition push_required ::
    "environment \<Rightarrow> dependency_graph \<Rightarrow> string \<Rightarrow> graph_error + string list" where
  "push_required env g name =
     (let dependencies = required_dependencies env g name
      in case List.find (\<lambda>d. \<not> registered g d) dependencies of
           Some d \<Rightarrow> Err (MissingRequired name d)
         | None \<Rightarrow> Ok dependencies)"

lemma push_required_registered: "push_required env g name = Inr ys \<Longrightarrow> y \<in> set ys \<Longrightarrow> registered g y"
  by (auto simp: push_required_def Let_def find_None_iff split: option.splits)

definition pending_left :: "dependency_graph \<Rightarrow> string list \<Rightarrow> string list \<Rightarrow> nat" where
  "pending_left g sel pending = card ((Collect (registered g) \<union> set pending) - set sel)"

lemma finite_registered [simp]: "finite (Collect (registered g))"
proof -
  have "Collect (registered g) = dom (map_of (dg_services g))" by (auto simp: registered_def)
  then show ?thesis by (simp add: finite_dom_map_of)
qed

lemma pending_left_skip: "pending_left g sel pending \<le> pending_left g sel (n # pending)"
  unfolding pending_left_def by (intro card_mono) auto

lemma pending_left_next:
  assumes "n \<notin> set sel" and "\<And>y. y \<in> set ys \<Longrightarrow> registered g y"
  shows "pending_left g (bset_insert n sel) (pending @ ys) < pending_left g sel (n # pending)"
  unfolding pending_left_def by (intro psubset_card_mono) (use assms in auto)

function required_loop ::
    "environment \<Rightarrow> dependency_graph \<Rightarrow> string list \<Rightarrow> string list \<Rightarrow> graph_error + string list" where
  "required_loop env g required [] = Ok required"
| "required_loop env g required (name # pending) =
     (if name \<in> set required then required_loop env g required pending
      else (case push_required env g name of
              Err e \<Rightarrow> Err e
            | Ok ds \<Rightarrow> required_loop env g (bset_insert name required) (pending @ ds)))"
  by pat_completeness auto
termination
proof (relation "measures [\<lambda>(env, g, sel, p). pending_left g sel p, \<lambda>(env, g, sel, p). length p]")
  show "wf (measures [\<lambda>(env, g, sel, p). pending_left g sel p, \<lambda>(env, g, sel, p). length p])"
    by (rule wf_measures)
  show "((env, g, sel, p), env, g, sel, n # p) \<in>
      measures [\<lambda>(env, g, sel, p). pending_left g sel p, \<lambda>(env, g, sel, p). length p]"
    for env :: environment and g sel n p
    using pending_left_skip[of g sel p n] by auto
  show "((env, g, bset_insert n sel, p @ ys), env, g, sel, n # p) \<in>
      measures [\<lambda>(env, g, sel, p). pending_left g sel p, \<lambda>(env, g, sel, p). length p]"
    if "n \<notin> set sel" "push_required env g n = Inr ys" for env :: environment and g sel n p ys
    using pending_left_next[OF that(1) push_required_registered[OF that(2)]] by simp
qed

definition check_root :: "dependency_graph \<Rightarrow> string \<Rightarrow> graph_error + unit" where
  "check_root g root =
     (if root = [] then Err EmptyRoot
      else if \<not> registered g root then Err (MissingRoot root) else Ok ())"

definition required_closure :: "environment \<Rightarrow> dependency_graph \<Rightarrow> string \<Rightarrow> graph_error + string list" where
  "required_closure env g root =
     (case check_root g root of Err e \<Rightarrow> Err e | Ok _ \<Rightarrow> required_loop env g [] [root])"

text \<open>What \<open>select_start_closure\<close> pushes for a node: required, then wanted, then wanted mounts.\<close>

definition push_start ::
    "environment \<Rightarrow> dependency_graph \<Rightarrow> service_spec \<Rightarrow> string \<Rightarrow> graph_error + string list" where
  "push_start env g spec name =
     (case push_required env g name of
        Err e \<Rightarrow> Err e
      | Ok ds \<Rightarrow> Ok (ds @ filter (registered g) (dep_wants (sp_dependencies spec)) @
                      wanted_mount_dependencies env g name))"

lemma covering_mounts_registered: "y \<in> set (covering_mounts g name paths) \<Longrightarrow> registered g y"
  by (auto simp: covering_mounts_def registered_def map_of_eq_None_iff split: if_splits)

lemma wanted_mounts_registered: "y \<in> set (wanted_mount_dependencies env g name) \<Longrightarrow> registered g y"
  by (auto simp: wanted_mount_dependencies_def dest: covering_mounts_registered split: option.splits)

lemma push_start_registered: "push_start env g spec name = Inr ys \<Longrightarrow> y \<in> set ys \<Longrightarrow> registered g y"
  by (auto simp: push_start_def dest: push_required_registered wanted_mounts_registered split: sum.splits)

function start_loop ::
    "environment \<Rightarrow> dependency_graph \<Rightarrow> string list \<Rightarrow> string list \<Rightarrow> (graph_error + string list) option" where
  "start_loop env g selected [] = Some (Ok selected)"
| "start_loop env g selected (name # pending) =
     (if name \<in> set selected then start_loop env g selected pending
      else (case map_of (dg_services g) name of
              None \<Rightarrow> None
            | Some spec \<Rightarrow>
                (case push_start env g spec name of
                   Err e \<Rightarrow> Some (Err e)
                 | Ok ds \<Rightarrow> start_loop env g (bset_insert name selected) (pending @ ds))))"
  by pat_completeness auto
termination
proof (relation "measures [\<lambda>(env, g, sel, p). pending_left g sel p, \<lambda>(env, g, sel, p). length p]")
  show "wf (measures [\<lambda>(env, g, sel, p). pending_left g sel p, \<lambda>(env, g, sel, p). length p])"
    by (rule wf_measures)
  show "((env, g, sel, p), env, g, sel, n # p) \<in>
      measures [\<lambda>(env, g, sel, p). pending_left g sel p, \<lambda>(env, g, sel, p). length p]"
    for env :: environment and g sel n p
    using pending_left_skip[of g sel p n] by auto
  show "((env, g, bset_insert n sel, p @ ys), env, g, sel, n # p) \<in>
      measures [\<lambda>(env, g, sel, p). pending_left g sel p, \<lambda>(env, g, sel, p). length p]"
    if "n \<notin> set sel" "push_start env g s n = Inr ys" for env :: environment and g sel n p ys s
    using pending_left_next[OF that(1) push_start_registered[OF that(2)]] by simp
qed

definition select_start_closure ::
    "environment \<Rightarrow> dependency_graph \<Rightarrow> string \<Rightarrow> (graph_error + string list) option" where
  "select_start_closure env g root =
     (case check_root g root of Err e \<Rightarrow> Some (Err e) | Ok _ \<Rightarrow> start_loop env g [] [root])"

section \<open>Ordering\<close>

definition ordering_edges ::
    "environment \<Rightarrow> dependency_graph \<Rightarrow> string list \<Rightarrow> string \<Rightarrow> (string \<times> string) list option" where
  "ordering_edges env g selected name =
     (case map_of (dg_services g) name of
        None \<Rightarrow> None
      | Some spec \<Rightarrow>
          (let deps = sp_dependencies spec;
               inside = filter (\<lambda>d. d \<in> set selected);
               before_me = map (\<lambda>d. (d, name));
               after_me = map (\<lambda>d. (name, d))
           in Some (
             before_me (inside (required_dependencies env g name)) @
             before_me (inside (wanted_dependencies env g name)) @
             before_me (inside (default_after_dependencies g name)) @
             after_me (inside (default_before_dependencies g name)) @
             before_me (inside (dep_after deps)) @
             after_me (inside (dep_before deps)) @
             before_me (inside (dep_requisite deps)))))"

definition ordering_graph ::
    "environment \<Rightarrow> dependency_graph \<Rightarrow> string list \<Rightarrow> (string edge_map \<times> string degree_map) option" where
  "ordering_graph env g selected =
     Option.bind (those (map (ordering_edges env g selected) selected))
       (\<lambda>es. add_edges (concat es) (map (\<lambda>n. (n, [])) selected, map (\<lambda>n. (n, 0)) selected))"

definition topological_order ::
    "environment \<Rightarrow> dependency_graph \<Rightarrow> string list \<Rightarrow> (graph_error + string list) option" where
  "topological_order env g selected =
     Option.bind (ordering_graph env g selected) (\<lambda>(edges, indegree).
       Option.bind (kahn_loop edges indegree (zero_degree indegree) []) (\<lambda>(order, indegree').
         if length order \<noteq> length selected then
           map_option (\<lambda>degrees. Err (Cycle (map fst (filter (\<lambda>(_, d). d \<noteq> 0) degrees))))
             (those (map (\<lambda>n. map_option (Pair n) (map_of indegree' n)) selected))
         else Some (Ok order)))"

definition plan_start :: "environment \<Rightarrow> dependency_graph \<Rightarrow> string \<Rightarrow> (graph_error + string list) option" where
  "plan_start env g root =
     Option.bind (select_start_closure env g root) (\<lambda>r.
       case r of Err e \<Rightarrow> Some (Err e) | Ok selected \<Rightarrow> topological_order env g selected)"

definition plan_stop :: "environment \<Rightarrow> dependency_graph \<Rightarrow> string \<Rightarrow> (graph_error + string list) option" where
  "plan_stop env g root = map_option (map_res rev) (plan_start env g root)"

definition plan_all_start :: "environment \<Rightarrow> dependency_graph \<Rightarrow> (graph_error + string list) option" where
  "plan_all_start env g = topological_order env g (bmap_keys (dg_services g))"

definition plan_all_stop :: "environment \<Rightarrow> dependency_graph \<Rightarrow> (graph_error + string list) option" where
  "plan_all_stop env g = map_option (map_res rev) (plan_all_start env g)"

definition plan_all_stop_best_effort :: "environment \<Rightarrow> dependency_graph \<Rightarrow> string list option" where
  "plan_all_stop_best_effort env g =
     (let selected = bmap_keys (dg_services g)
      in Option.bind (ordering_graph env g selected) (\<lambda>(edges, indegree).
           map_option rev (best_effort_loop (length selected) edges indegree (zero_degree indegree) [])))"

section \<open>Specification\<close>

text \<open>
  \<open>start_dep\<close>: starting the first service pulls in the second. \<open>ordered_before\<close>: the first service
  is to be started before the second.
\<close>

definition start_dep :: "environment \<Rightarrow> dependency_graph \<Rightarrow> string \<Rightarrow> string \<Rightarrow> bool" where
  "start_dep env g x y \<longleftrightarrow> registered g y \<and>
     (y \<in> set (required_dependencies env g x) \<or> y \<in> set (declared g x dep_wants) \<or>
      y \<in> set (wanted_mount_dependencies env g x))"

definition start_closure :: "environment \<Rightarrow> dependency_graph \<Rightarrow> string \<Rightarrow> string set" where
  "start_closure env g root = {y. (start_dep env g)\<^sup>*\<^sup>* root y}"

definition missing_required :: "environment \<Rightarrow> dependency_graph \<Rightarrow> string \<Rightarrow> string \<Rightarrow> bool" where
  "missing_required env g x d \<longleftrightarrow> d \<in> set (required_dependencies env g x) \<and> \<not> registered g d"

definition ordered_before :: "environment \<Rightarrow> dependency_graph \<Rightarrow> string \<Rightarrow> string \<Rightarrow> bool" where
  "ordered_before env g u v \<longleftrightarrow>
     u \<in> set (required_dependencies env g v) \<or> u \<in> set (wanted_dependencies env g v) \<or>
     u \<in> set (declared g v dep_after) \<or> u \<in> set (declared g v dep_requisite) \<or>
     v \<in> set (declared g u dep_before)"

definition ordering_rel :: "environment \<Rightarrow> dependency_graph \<Rightarrow> string set \<Rightarrow> (string \<times> string) set" where
  "ordering_rel env g S = {(u, v). u \<in> S \<and> v \<in> S \<and> ordered_before env g u v}"

section \<open>The closure loops meet the worklist contract\<close>

definition start_succs :: "environment \<Rightarrow> dependency_graph \<Rightarrow> string \<Rightarrow> graph_error + string list" where
  "start_succs env g name =
     (case map_of (dg_services g) name of None \<Rightarrow> Ok [] | Some spec \<Rightarrow> push_start env g spec name)"

lemma registeredE: "registered g n \<Longrightarrow> (\<And>spec. map_of (dg_services g) n = Some spec \<Longrightarrow> P) \<Longrightarrow> P"
  by (auto simp: registered_def)

interpretation req_work: worklist "required_loop env g" "\<lambda>r. r" "push_required env g" "Collect (registered g)"
  for env g
  by unfold_locales (auto dest: push_required_registered)

interpretation start_work: worklist "start_loop env g" Some "start_succs env g" "Collect (registered g)"
  for env g
  by unfold_locales
    (auto simp: start_succs_def elim!: registeredE dest: push_start_registered split: option.splits)

lemma push_required_ok:
  "push_required env g x = Inr ys \<longleftrightarrow>
     ys = required_dependencies env g x \<and> (\<forall>d \<in> set ys. registered g d)"
  by (auto simp: push_required_def Let_def find_None_iff find_Some_iff split: option.splits)

lemma push_required_err:
  "push_required env g x = Inl e \<Longrightarrow> \<exists>d. e = MissingRequired x d \<and> missing_required env g x d"
  by (auto simp: push_required_def Let_def find_Some_iff missing_required_def split: option.splits)

lemma start_succs_ok:
  assumes "start_succs env g x = Inr ys" and "registered g x"
  shows "y \<in> set ys \<longleftrightarrow> start_dep env g x y" "\<not> missing_required env g x d"
proof -
  from assms(2) obtain spec where spec: "map_of (dg_services g) x = Some spec" by (rule registeredE)
  with assms(1) obtain ds where ds: "push_required env g x = Inr ds"
      "ys = ds @ filter (registered g) (dep_wants (sp_dependencies spec)) @ wanted_mount_dependencies env g x"
    by (auto simp: start_succs_def push_start_def split: sum.splits)
  then have req: "ds = required_dependencies env g x" "\<And>d. d \<in> set ds \<Longrightarrow> registered g d"
    by (simp_all add: push_required_ok)
  have decl: "declared g x dep_wants = dep_wants (sp_dependencies spec)" using spec by (simp add: declared_def)
  show "y \<in> set ys \<longleftrightarrow> start_dep env g x y"
    using req wanted_mounts_registered[of y env g x] unfolding ds(2) start_dep_def decl by auto
  show "\<not> missing_required env g x d" using req by (auto simp: missing_required_def)
qed

lemma start_succs_err:
  "start_succs env g x = Inl e \<Longrightarrow> \<exists>d. e = MissingRequired x d \<and> missing_required env g x d"
  by (auto simp: start_succs_def push_start_def dest: push_required_err split: option.splits sum.splits)

lemma start_succ_rel: "registered g x \<Longrightarrow> (x, y) \<in> start_work.succ_rel env g \<Longrightarrow> start_dep env g x y"
  by (auto simp: start_work.succ_rel_def start_succs_ok)

lemma start_succ_reach:
  assumes "(root, y) \<in> (start_work.succ_rel env g)\<^sup>*" and "registered g root"
  shows "(start_dep env g)\<^sup>*\<^sup>* root y \<and> registered g y"
  using assms
proof (induction rule: rtrancl_induct)
  case base
  then show ?case by simp
next
  case (step y z)
  then have "start_dep env g y z" by (blast intro: start_succ_rel)
  then show ?case using step by (auto simp: start_dep_def intro: rtranclp.rtrancl_into_rtrancl)
qed

lemma start_reach_succ:
  assumes "(start_dep env g)\<^sup>*\<^sup>* root y" and "registered g root"
    and "\<And>x. x \<in> (start_work.succ_rel env g)\<^sup>* `` {root} \<Longrightarrow> \<exists>ys. start_succs env g x = Inr ys"
  shows "(root, y) \<in> (start_work.succ_rel env g)\<^sup>*"
  using assms(1)
proof (induction rule: rtranclp_induct)
  case base
  then show ?case by simp
next
  case (step y z)
  then obtain ys where ys: "start_succs env g y = Inr ys" using assms(3) by blast
  moreover have "registered g y" using start_succ_reach[OF step.IH assms(2)] by simp
  ultimately have "(y, z) \<in> start_work.succ_rel env g"
    using step.hyps start_succs_ok[OF ys] by (auto simp: start_work.succ_rel_def)
  then show ?case using step.IH by simp
qed

lemma start_loop_ok:
  assumes "registered g root" and "start_loop env g [] [root] = Some (Inr sel)"
  shows "bset_inv sel" "set sel = start_closure env g root"
    and "\<And>x d. x \<in> start_closure env g root \<Longrightarrow> \<not> missing_required env g x d"
    and "\<And>x. x \<in> start_closure env g root \<Longrightarrow> registered g x"
proof -
  have w: "bset_inv sel" "set sel = (start_work.succ_rel env g)\<^sup>* `` {root}"
      "\<And>x. x \<in> set sel \<Longrightarrow> \<exists>ys. start_succs env g x = Inr ys"
    using start_work.loop_ok[of root g env sel] assms by auto
  show "bset_inv sel" by (rule w(1))
  have sub: "x \<in> set sel \<longleftrightarrow> x \<in> start_closure env g root" for x
    using start_succ_reach[of root x env g] start_reach_succ[of env g root x] assms(1) w(2,3)
    by (auto simp: start_closure_def)
  then show "set sel = start_closure env g root" by blast
  show reg: "registered g x" if "x \<in> start_closure env g root" for x
    using that assms(1) start_succ_reach[of root x env g] unfolding sub[symmetric] w(2) by blast
  show "\<not> missing_required env g x d" if "x \<in> start_closure env g root" for x d
    using w(3)[of x] that reg[OF that] start_succs_ok(2)[of env g x] unfolding sub by blast
qed

lemma start_loop_err:
  assumes "registered g root" and "start_loop env g [] [root] = Some (Inl e)"
  shows "\<exists>x d. x \<in> start_closure env g root \<and> e = MissingRequired x d \<and> missing_required env g x d"
proof -
  obtain x where x: "(root, x) \<in> (start_work.succ_rel env g)\<^sup>*" "start_succs env g x = Inl e"
    using start_work.loop_err[of root g env e] assms by auto
  then show ?thesis using start_succ_reach[OF x(1) assms(1)] start_succs_err[OF x(2)]
    by (auto simp: start_closure_def)
qed

lemma start_loop_returns: "registered g root \<Longrightarrow> \<exists>r. start_loop env g [] [root] = Some r"
  using start_work.loop_returns[of root g env] by simp

section \<open>The ordering graph and its topological order\<close>

lemma those_map_Some: "(\<And>x. x \<in> set xs \<Longrightarrow> f x = Some (h x)) \<Longrightarrow> those (map f xs) = Some (map h xs)"
  by (induction xs) auto

definition edges_of :: "environment \<Rightarrow> dependency_graph \<Rightarrow> string list \<Rightarrow> string \<Rightarrow> (string \<times> string) list" where
  "edges_of env g sel name = the (ordering_edges env g sel name)"

lemma ordering_edges_registered:
  "registered g name \<Longrightarrow> ordering_edges env g sel name = Some (edges_of env g sel name)"
  by (auto simp: edges_of_def ordering_edges_def Let_def elim!: registeredE)

lemma set_edges_of:
  assumes "registered g n"
  shows "set (edges_of env g sel n) =
     {(d, n) | d. d \<in> set sel \<and> (d \<in> set (required_dependencies env g n) \<or>
        d \<in> set (wanted_dependencies env g n) \<or> d \<in> set (declared g n dep_after) \<or>
        d \<in> set (declared g n dep_requisite))} \<union>
     {(n, d) | d. d \<in> set sel \<and> d \<in> set (declared g n dep_before)}"
proof -
  from assms obtain spec where "map_of (dg_services g) n = Some spec" by (rule registeredE)
  then show ?thesis
    by (auto simp: edges_of_def ordering_edges_def Let_def declared_def default_after_dependencies_def
        default_before_dependencies_def)
qed

lemma ordering_graph_rep:
  assumes "bset_inv sel" and reg: "\<And>n. n \<in> set sel \<Longrightarrow> registered g n"
  shows "\<exists>st. ordering_graph env g sel = Some st \<and>
     graph_rep (set sel) (ordering_rel env g (set sel)) st"
proof -
  let ?es = "concat (map (edges_of env g sel) sel)"
  have es: "set ?es = ordering_rel env g (set sel)"
  proof (rule set_eqI, clarify)
    fix u v
    show "(u, v) \<in> set ?es \<longleftrightarrow> (u, v) \<in> ordering_rel env g (set sel)"
      using set_edges_of[OF reg] by (auto simp: ordering_rel_def ordered_before_def)
  qed
  have "those (map (ordering_edges env g sel) sel) = Some (map (edges_of env g sel) sel)"
    using reg by (intro those_map_Some ordering_edges_registered)
  moreover have "set ?es \<subseteq> set sel \<times> set sel" unfolding es by (auto simp: ordering_rel_def)
  ultimately show ?thesis
    using add_edges_rep[OF graph_rep_init[OF assms(1)], of ?es] es
    by (simp add: ordering_graph_def)
qed

lemma zero_degree_sources:
  assumes "edge_state S E edges indegree []"
  shows "bset_inv (zero_degree indegree)" "set (zero_degree indegree) = sources S E []"
proof -
  show "bset_inv (zero_degree indegree)" by (simp add: zero_degree_def bset_of_def)
  have inv: "bmap_inv indegree" and fin: "finite E"
    using assms edge_state_finite[OF assms] by (simp_all add: edge_state_def)
  have deg: "map_of indegree v = (if v \<in> S then Some (card (E\<inverse> `` {v})) else None)" for v
    using assms by (simp add: edge_state_def)
  have "v \<in> set (zero_degree indegree) \<longleftrightarrow> (\<exists>d. map_of indegree v = Some d \<and> d = 0)" for v
    unfolding filter_keys_iff[OF inv, symmetric] zero_degree_def by (simp add: bset_of_def)
  then have "v \<in> set (zero_degree indegree) \<longleftrightarrow> v \<in> sources S E []" for v
    using fin by (auto simp: deg sources_def finite_Image)
  then show "set (zero_degree indegree) = sources S E []" by blast
qed

lemma degrees_at_end:
  assumes st: "edge_state S E edges indegree order" and "sources S E order = {}" and v: "v \<in> S"
  shows "\<exists>d. map_of indegree v = Some d \<and> (d \<noteq> 0 \<longleftrightarrow> v \<notin> set order)"
proof -
  have "map_of indegree v = Some (card (E\<inverse> `` {v}))" "finite (E\<inverse> `` {v})"
    using st v edge_state_finite[OF st] by (simp_all add: edge_state_def finite_Image)
  moreover have "E\<inverse> `` {v} = {} \<longleftrightarrow> v \<in> set order"
    using assms by (auto simp: sources_def edge_state_def)
  ultimately show ?thesis by (simp add: card_gt_0_iff)
qed

lemma kahn_on_graph:
  assumes rep: "graph_rep S E (edges, indegree)"
  shows "\<exists>order indegree'. kahn_loop edges indegree (zero_degree indegree) [] = Some (order, indegree') \<and>
     distinct order \<and> set order = S - cyclic_nodes S E \<and> preds_before E order \<and>
     (\<forall>v \<in> S. \<exists>d. map_of indegree' v = Some d \<and> (d \<noteq> 0 \<longleftrightarrow> v \<in> cyclic_nodes S E))"
proof -
  have ES: "E \<subseteq> S \<times> S" and E: "E \<inter> (S - set []) \<times> UNIV = E" using rep by (auto simp: graph_rep_def)
  have st: "edge_state S E edges indegree []" using rep by (rule graph_rep_edge_state)
  from kahn_loop_spec[of S E "[]", unfolded E, OF st zero_degree_sources[OF st] ES preds_before_Nil]
  obtain order i' where k: "kahn_loop edges indegree (zero_degree indegree) [] = Some (order, i')"
      "edge_state S (E \<inter> (S - set order) \<times> UNIV) edges i' order"
      "sources S (E \<inter> (S - set order) \<times> UNIV) order = {}" "preds_before E order"
    by blast
  have cyc: "S - set order = cyclic_nodes S E" by (rule unordered_cyclic[OF k(2,3) ES k(4)])
  have o: "distinct order" "set order \<subseteq> S" using k(2) by (simp_all add: edge_state_def)
  have "\<exists>d. map_of i' v = Some d \<and> (d \<noteq> 0 \<longleftrightarrow> v \<in> cyclic_nodes S E)" if "v \<in> S" for v
    using degrees_at_end[OF k(2,3) that] that unfolding cyc[symmetric] by simp
  then show ?thesis using k(1,4) o cyc by blast
qed

lemma topological_order_spec:
  fixes env :: environment
  assumes sel: "bset_inv sel" and reg: "\<And>n. n \<in> set sel \<Longrightarrow> registered g n"
  defines "R \<equiv> ordering_rel env g (set sel)"
  shows "(if acyclic R
          then \<exists>order. topological_order env g sel = Some (Ok order) \<and> distinct order \<and>
                 set order = set sel \<and> preds_before R order
          else topological_order env g sel =
                 Some (Err (Cycle (filter (\<lambda>n. n \<in> cyclic_nodes (set sel) R) sel))))"
proof -
  from ordering_graph_rep[of sel g env] sel reg obtain edges indegree where
    st: "ordering_graph env g sel = Some (edges, indegree)" "graph_rep (set sel) R (edges, indegree)"
    unfolding R_def by fastforce
  from kahn_on_graph[OF st(2)] obtain order i' where
    k: "kahn_loop edges indegree (zero_degree indegree) [] = Some (order, i')" "distinct order"
       "set order = set sel - cyclic_nodes (set sel) R" "preds_before R order"
       "\<forall>v \<in> set sel. \<exists>d. map_of i' v = Some d \<and> (d \<noteq> 0 \<longleftrightarrow> v \<in> cyclic_nodes (set sel) R)" by blast
  have R: "R \<subseteq> set sel \<times> set sel" by (auto simp: R_def ordering_rel_def)
  have "length order = length sel \<longleftrightarrow> set order = set sel"
    using distinct_card[OF k(2)] distinct_card[OF bset_inv_distinct[OF sel]] k(3)
    by (metis Diff_subset List.finite_set card_subset_eq)
  also have "\<dots> \<longleftrightarrow> cyclic_nodes (set sel) R = {}"
    using k(3) by (auto simp: cyclic_nodes_def)
  finally have len: "length order = length sel \<longleftrightarrow> acyclic R"
    using cyclic_nodes_empty[OF R] by simp
  have deg: "those (map (\<lambda>n. map_option (Pair n) (map_of i' n)) sel) = Some (map (\<lambda>n. (n, the (map_of i' n))) sel)"
    using k(5) by (intro those_map_Some) force
  have "map fst (filter (\<lambda>(_, d). d \<noteq> 0) (map (\<lambda>n. (n, the (map_of i' n))) sel)) =
      filter (\<lambda>n. n \<in> cyclic_nodes (set sel) R) sel"
    using k(5) by (auto simp: filter_map comp_def intro!: filter_cong)
  then have "topological_order env g sel =
      (if acyclic R then Some (Ok order)
       else Some (Err (Cycle (filter (\<lambda>n. n \<in> cyclic_nodes (set sel) R) sel))))"
    using st(1) k(1) len deg by (simp add: topological_order_def)
  then show ?thesis using k(2-4) cyclic_nodes_empty[OF R] by auto
qed

section \<open>The plans\<close>

definition in_order :: "environment \<Rightarrow> dependency_graph \<Rightarrow> string list \<Rightarrow> bool" where
  "in_order env g order \<longleftrightarrow>
     (\<forall>i < length order. \<forall>j < length order. ordered_before env g (order ! i) (order ! j) \<longrightarrow> i < j)"

lemma preds_before_in_order:
  assumes "preds_before (ordering_rel env g (set order)) order" and "distinct order"
  shows "in_order env g order"
  unfolding in_order_def
proof (intro allI impI)
  fix i j assume ij: "i < length order" "j < length order" and b: "ordered_before env g (order ! i) (order ! j)"
  have "order = take j order @ order ! j # drop (Suc j) order" using ij(2) by (rule id_take_nth_drop)
  moreover have "order ! i \<in> (ordering_rel env g (set order))\<inverse> `` {order ! j}"
    using ij b by (simp add: ordering_rel_def)
  ultimately have "order ! i \<in> set (take j order)" using assms(1) unfolding preds_before_def by blast
  then obtain k where "k < j" "k < length order" "order ! k = order ! i" by (auto simp: in_set_conv_nth)
  then show "i < j" using ij(1) assms(2) by (metis nth_eq_iff_index_eq)
qed

lemma in_order_rev:
  assumes "in_order env g order" and "i < length order" "j < length order"
    and "ordered_before env g (rev order ! i) (rev order ! j)"
  shows "j < i"
proof -
  have "length order - Suc i < length order - Suc j"
    using assms unfolding in_order_def by (simp add: rev_nth)
  then show ?thesis by linarith
qed

text \<open>All the ways a plan ends: errors at the root, a missing requirement, a cycle, an order.\<close>

lemma plan_start_cases:
  obtains (empty) "root = []" "plan_start env g root = Some (Err EmptyRoot)"
  | (unknown) "root \<noteq> []" "\<not> registered g root" "plan_start env g root = Some (Err (MissingRoot root))"
  | (missing) x d where "root \<noteq> []" "registered g root" "x \<in> start_closure env g root" "missing_required env g x d"
      "plan_start env g root = Some (Err (MissingRequired x d))"
  | (cycle) ns where "root \<noteq> []" "registered g root" "\<And>x d. x \<in> start_closure env g root \<Longrightarrow> \<not> missing_required env g x d"
      "\<not> acyclic (ordering_rel env g (start_closure env g root))" "sorted ns" "distinct ns"
      "set ns = cyclic_nodes (start_closure env g root) (ordering_rel env g (start_closure env g root))"
      "plan_start env g root = Some (Err (Cycle ns))"
  | (ordered) order where "root \<noteq> []" "registered g root" "\<And>x d. x \<in> start_closure env g root \<Longrightarrow> \<not> missing_required env g x d"
      "acyclic (ordering_rel env g (start_closure env g root))" "distinct order"
      "set order = start_closure env g root" "in_order env g order"
      "plan_start env g root = Some (Ok order)"
proof (cases "root = [] \<or> \<not> registered g root")
  case True
  then show thesis using that(1,2) by (cases "root = []") (auto simp: plan_start_def select_start_closure_def check_root_def)
next
  case False
  then have root: "root \<noteq> []" "registered g root" by auto
  have plan: "plan_start env g root = Option.bind (start_loop env g [] [root])
      (\<lambda>r. case r of Err e \<Rightarrow> Some (Err e) | Ok selected \<Rightarrow> topological_order env g selected)"
    using root by (simp add: plan_start_def select_start_closure_def check_root_def)
  from start_loop_returns[OF root(2), of env] consider
    e where "start_loop env g [] [root] = Some (Inl e)" | sel where "start_loop env g [] [root] = Some (Inr sel)"
    by (metis sum.exhaust)
  then show thesis
  proof cases
    case 1
    from start_loop_err[OF root(2) this] show thesis using that(3)[OF root] plan 1 by auto
  next
    case 2
    note l = start_loop_ok[OF root(2) 2]
    let ?R = "ordering_rel env g (start_closure env g root)"
    have reg: "registered g n" if "n \<in> set sel" for n using that l(2,4) by simp
    have p: "plan_start env g root = topological_order env g sel" using plan 2 by simp
    have t: "if acyclic ?R
          then \<exists>order. plan_start env g root = Some (Ok order) \<and> distinct order \<and>
                 set order = start_closure env g root \<and> preds_before ?R order
          else plan_start env g root = Some (Err (Cycle (filter (\<lambda>n. n \<in> cyclic_nodes (start_closure env g root) ?R) sel)))"
      using topological_order_spec[OF l(1) reg, of env] unfolding p l(2) .
    show thesis
    proof (cases "acyclic ?R")
      case True
      with t obtain order where o: "plan_start env g root = Some (Ok order)" "distinct order"
          "set order = start_closure env g root" "preds_before ?R order" by auto
      then have "in_order env g order" using preds_before_in_order[of env g order] by simp
      then show thesis using that(5)[OF root l(3) True o(2,3)] o(1) by simp
    next
      case False
      let ?ns = "filter (\<lambda>n. n \<in> cyclic_nodes (start_closure env g root) ?R) sel"
      have "sorted ?ns" "distinct ?ns" using l(1) by (simp_all add: bset_inv_sorted bset_inv_distinct sorted_wrt_filter)
      moreover have "set ?ns = cyclic_nodes (start_closure env g root) ?R" using l(2) by (auto simp: cyclic_nodes_def)
      ultimately show thesis using that(4)[OF root l(3) False] False t by simp
    qed
  qed
qed

definition graph_inv :: "dependency_graph \<Rightarrow> bool" where
  "graph_inv g \<longleftrightarrow> bmap_inv (dg_services g) \<and> (\<forall>(k, s) \<in> set (dg_services g). sp_name s = k)"

lemma keys_registered: "set (bmap_keys (dg_services g)) = Collect (registered g)"
  by (auto simp: set_bmap_keys registered_def)

lemma all_services_graph:
  assumes "graph_inv g"
  shows "\<exists>edges indegree. ordering_graph env g (bmap_keys (dg_services g)) = Some (edges, indegree) \<and>
     graph_rep (Collect (registered g)) (ordering_rel env g (Collect (registered g))) (edges, indegree)"
  using ordering_graph_rep[of "bmap_keys (dg_services g)" g env] assms
  unfolding keys_registered graph_inv_def by auto

lemma all_services_count: "graph_inv g \<Longrightarrow> length (bmap_keys (dg_services g)) = card (Collect (registered g))"
  unfolding keys_registered[symmetric] graph_inv_def by (simp add: distinct_card bset_inv_distinct)

text \<open>A concrete registry: a web server that needs its database, which comes after the network.\<close>

definition demo_service :: "string \<Rightarrow> string list \<Rightarrow> string list \<Rightarrow> service_spec" where
  "demo_service name requires after = (service_spec_new name ''/bin/true'')
     \<lparr>sp_dependencies := dependency_set_default\<lparr>dep_requires := requires, dep_after := after\<rparr>\<rparr>"

definition demo_graph :: dependency_graph where
  "demo_graph = \<lparr>dg_services =
     [(''db'', demo_service ''db'' [] [''net'']),
      (''net'', demo_service ''net'' [] []),
      (''web'', demo_service ''web'' [''db''] [''net''])]\<rparr>"

lemma demo_service_fields [simp]:
  "sp_name (demo_service n r a) = n"
  "sp_dependencies (demo_service n r a) = dependency_set_default\<lparr>dep_requires := r, dep_after := a\<rparr>"
  "sp_requires_mounts_for (demo_service n r a) = []"
  "sp_wants_mounts_for (demo_service n r a) = []"
  "sp_service_type (demo_service n r a) = TypeSimple"
  by (simp_all add: demo_service_def service_spec_new_def)

lemma demo_graph_map: "map_of (dg_services demo_graph) = [''web'' \<mapsto> demo_service ''web'' [''db''] [''net''],
   ''net'' \<mapsto> demo_service ''net'' [] [], ''db'' \<mapsto> demo_service ''db'' [] [''net'']]"
  by (auto simp: demo_graph_def)

lemmas graph_eval = demo_graph_map declared_def dependency_set_default_def required_dependencies_def
  wanted_dependencies_def wanted_mount_dependencies_def mount_dependencies_def covering_mounts_def
  expanded_requires_mounts_for_def expanded_wants_mounts_for_def default_required_dependencies_def
  default_after_dependencies_def default_before_dependencies_def registered_def bset_extend_def
  push_required_def push_start_def Let_def List.map_filter_simps
  plan_start_def select_start_closure_def check_root_def topological_order_def ordering_graph_def
  ordering_edges_def add_edge_def zero_degree_def bmap_keys_def bset_of_def

lemma demo_plan: "plan_start env demo_graph ''web'' = Some (Ok [''db'', ''web''])"
  by (simp add: graph_eval)

lemma demo_graph_services:
  "registered demo_graph ''web''" "graph_inv demo_graph"
  by (simp_all add: graph_eval graph_inv_def demo_graph_def bmap_inv_def)

text \<open>
  C3: an order returned by \<open>plan_start\<close> contains each service of the start closure of the root
  (the registered services reached through requirements, wants and mount paths) exactly once and
  nothing else, and every service stands after all the services it is to be ordered after.
\<close>

theorem plan_start_sound:
  assumes "plan_start env g root = Some (Ok order)"
  shows "distinct order \<and> set order = start_closure env g root \<and> root \<in> set order \<and> in_order env g order"
  using assms by (cases rule: plan_start_cases[of root env g]) (auto simp: start_closure_def)

theorem plan_start_sound_witness:
  "distinct [''db'', ''web''] \<and> set [''db'', ''web''] = start_closure (\<lambda>_. None) demo_graph ''web'' \<and>
   ''web'' \<in> set [''db'', ''web''] \<and> in_order (\<lambda>_. None) demo_graph [''db'', ''web'']"
  by (rule plan_start_sound[OF demo_plan])

text \<open>
  C6: planning the start of a registered service succeeds exactly when no service of the start
  closure requires an unregistered one and the ordering relation on the closure has no cycle.
\<close>

theorem plan_start_succeeds_iff:
  assumes "registered g root" and "root \<noteq> []"
  shows "(\<exists>order. plan_start env g root = Some (Ok order)) \<longleftrightarrow>
     (\<forall>x d. x \<in> start_closure env g root \<longrightarrow> \<not> missing_required env g x d) \<and>
     acyclic (ordering_rel env g (start_closure env g root))"
  using assms by (cases rule: plan_start_cases[of root env g]) auto

theorem plan_start_succeeds_iff_witness:
  "acyclic (ordering_rel (\<lambda>_. None) demo_graph (start_closure (\<lambda>_. None) demo_graph ''web''))"
  using plan_start_succeeds_iff[OF demo_graph_services(1), of "\<lambda>_. None"] demo_plan by blast

text \<open>
  C13: every error of \<open>plan_start\<close> is accurate. The root errors are reported for an empty and for an
  unregistered root, a missing requirement is one of a service of the closure, and a cycle report
  lists exactly the services of the closure on or downstream of a cycle, in ascending order; it is
  never empty.
\<close>

theorem plan_start_errors_accurate:
  assumes "plan_start env g root = Some (Err e)"
  shows "(case e of
            EmptyRoot \<Rightarrow> root = []
          | MissingRoot r \<Rightarrow> r = root \<and> \<not> registered g root
          | MissingRequired x d \<Rightarrow> x \<in> start_closure env g root \<and> missing_required env g x d
          | Cycle ns \<Rightarrow> sorted ns \<and> distinct ns \<and> ns \<noteq> [] \<and> set ns =
              cyclic_nodes (start_closure env g root) (ordering_rel env g (start_closure env g root))
          | DuplicateService _ \<Rightarrow> False)"
proof (cases rule: plan_start_cases[of root env g])
  case (cycle ns)
  have "ordering_rel env g (start_closure env g root) \<subseteq> start_closure env g root \<times> start_closure env g root"
    by (auto simp: ordering_rel_def)
  then have "set ns \<noteq> {}" using cycle(4,7) cyclic_nodes_empty by metis
  then show ?thesis using assms cycle by auto
qed (use assms in auto)

theorem plan_start_errors_accurate_witness:
  "\<not> registered demo_graph ''mail''"
  using plan_start_errors_accurate[of "\<lambda>_. None" demo_graph "''mail''" "MissingRoot ''mail''"]
  by (simp add: graph_eval)

text \<open>
  Planning never panics: for every registry, environment and root, no map lookup and no
  counter decrement of the closure, the edge construction and the sorting loop can fail.
\<close>

theorem plan_start_never_panics: "plan_start env g root \<noteq> None"
  by (cases rule: plan_start_cases[of root env g]) auto

text \<open>
  \<open>plan_stop\<close> fails exactly as \<open>plan_start\<close> does and otherwise stops the same services, every
  service before the services it was started after.
\<close>

theorem plan_stop_reverses:
  "(plan_stop env g root = Some (Err e) \<longleftrightarrow> plan_start env g root = Some (Err e)) \<and>
   (plan_stop env g root = Some (Ok order) \<longrightarrow>
      set order = start_closure env g root \<and> distinct order \<and>
      (\<forall>i < length order. \<forall>j < length order.
         ordered_before env g (order ! i) (order ! j) \<longrightarrow> j < i))"
proof (cases rule: plan_start_cases[of root env g])
  case (ordered o')
  then show ?thesis using in_order_rev[of env g o'] by (auto simp: plan_stop_def)
qed (auto simp: plan_stop_def)

theorem plan_stop_reverses_witness:
  "set [''web'', ''db''] = start_closure (\<lambda>_. None) demo_graph ''web''"
  using plan_stop_reverses[of "\<lambda>_. None" demo_graph "''web''" EmptyRoot "[''web'', ''db'']"]
  by (simp add: plan_stop_def demo_plan)

lemma best_effort_order:
  assumes "graph_inv g"
  shows "\<exists>order. plan_all_stop_best_effort env g = Some order \<and> distinct order \<and>
     set order = Collect (registered g)"
proof -
  from all_services_graph[OF assms, of env] obtain edges indegree where
    og: "ordering_graph env g (bmap_keys (dg_services g)) = Some (edges, indegree)"
      "graph_rep (Collect (registered g)) (ordering_rel env g (Collect (registered g))) (edges, indegree)"
    by blast
  note st = graph_rep_edge_state[OF og(2)]
  from best_effort_loop_spec[OF st _ zero_degree_sources[OF st] all_services_count[OF assms]]
  obtain order where "best_effort_loop (length (bmap_keys (dg_services g))) edges indegree (zero_degree indegree) [] =
      Some order" "distinct order" "set order = Collect (registered g)"
    by (auto simp: consumed_def)
  then show ?thesis using og(1) by (simp add: plan_all_stop_best_effort_def Let_def)
qed

lemma best_effort_exact:
  assumes "graph_inv g" and "plan_all_stop env g = Some (Ok order)"
  shows "plan_all_stop_best_effort env g = Some order"
proof -
  let ?S = "bmap_keys (dg_services g)"
  from all_services_graph[OF assms(1), of env] obtain edges indegree where
    og: "ordering_graph env g ?S = Some (edges, indegree)"
      "graph_rep (Collect (registered g)) (ordering_rel env g (Collect (registered g))) (edges, indegree)"
    by blast
  from kahn_on_graph[OF og(2)] obtain o' i' where
    k: "kahn_loop edges indegree (zero_degree indegree) [] = Some (o', i')" "distinct o'" by blast
  from assms(2) have "topological_order env g ?S = Some (Ok (rev order))"
    by (cases "topological_order env g ?S"; cases "the (topological_order env g ?S)")
      (auto simp: plan_all_stop_def plan_all_start_def)
  then have "o' = rev order" "length o' = length ?S"
    using og(1) k(1) by (auto simp: topological_order_def split: if_splits)
  then show ?thesis
    using og(1) best_effort_loop_kahn[OF k(1) _ k(2), of "length ?S" edges]
    by (simp add: plan_all_stop_best_effort_def Let_def)
qed

text \<open>The shutdown plan lists every registered service, or reports a cycle; planning never panics.\<close>

lemma all_stop_cases:
  assumes "graph_inv g"
  obtains (ordered) order where "plan_all_stop env g = Some (Ok order)" "set order = Collect (registered g)"
  | (cycle) ns where "plan_all_stop env g = Some (Err (Cycle ns))"
proof -
  let ?S = "bmap_keys (dg_services g)"
  have sel: "bset_inv ?S" using assms by (simp add: graph_inv_def)
  have keys: "set ?S = Collect (registered g)" by (auto simp: registered_def set_bmap_keys)
  then have "registered g n" if "n \<in> set ?S" for n using that by simp
  from topological_order_spec[OF sel this, of env] keys
  have "(\<exists>order. topological_order env g ?S = Some (Ok order) \<and> set order = Collect (registered g)) \<or>
      (\<exists>ns. topological_order env g ?S = Some (Err (Cycle ns)))"
    by (auto split: if_splits)
  then show thesis
    using that by (auto simp: plan_all_stop_def plan_all_start_def)
qed

text \<open>
  C25: the shutdown plan always exists: whatever cycles the ordering has, the cycle breaking loop
  ends without a panic and lists every registered service exactly once.
\<close>

theorem best_effort_stop_is_complete:
  assumes "graph_inv g"
  shows "\<exists>order. plan_all_stop_best_effort env g = Some order \<and> distinct order \<and>
     set order = Collect (registered g)"
  by (rule best_effort_order[OF assms])

theorem best_effort_stop_is_complete_witness:
  "\<exists>order. plan_all_stop_best_effort (\<lambda>_. None) demo_graph = Some order \<and> distinct order \<and>
     set order = Collect (registered demo_graph)"
  by (rule best_effort_stop_is_complete[OF demo_graph_services(2)])

text \<open>
  When the ordering has no cycle, the best effort shutdown plan is the exact reverse
  topological order that \<open>plan_all_stop\<close> returns.
\<close>

theorem best_effort_refines_stop:
  assumes "graph_inv g" and "plan_all_stop env g = Some (Ok order)"
  shows "plan_all_stop_best_effort env g = Some order"
  by (rule best_effort_exact[OF assms])

theorem best_effort_refines_stop_witness:
  "plan_all_stop_best_effort (\<lambda>_. None) demo_graph = Some [''web'', ''db'', ''net'']"
proof (rule best_effort_refines_stop[OF demo_graph_services(2)])
  show "plan_all_stop (\<lambda>_. None) demo_graph = Some (Ok [''web'', ''db'', ''net''])"
    by (simp add: plan_all_stop_def plan_all_start_def graph_eval demo_graph_def)
qed

section \<open>The registry, required services and mounts\<close>

text \<open>
  \<open>add\<close> refuses exactly the names already registered; otherwise the new service is found under
  its name, every other service is as before, the count grows by one, and the registry stays an
  ordered map whose keys are the services' names.
\<close>

theorem graph_add_registers:
  assumes "graph_inv g"
  shows "(case graph_add spec g of
            Err e \<Rightarrow> e = DuplicateService (sp_name spec) \<and> graph_get (sp_name spec) g \<noteq> None
          | Ok g' \<Rightarrow> graph_inv g' \<and> graph_get (sp_name spec) g = None \<and>
              graph_get (sp_name spec) g' = Some spec \<and>
              (\<forall>n. n \<noteq> sp_name spec \<longrightarrow> graph_get n g' = graph_get n g) \<and>
              graph_len g' = graph_len g + 1)"
proof (cases "map_of (dg_services g) (sp_name spec)")
  case None
  have inv: "bmap_inv (dg_services g)" "\<And>k s. map_of (dg_services g) k = Some s \<Longrightarrow> sp_name s = k"
    using assms by (auto simp: graph_inv_def dest: map_of_SomeD)
  let ?m = "bmap_insert (sp_name spec) spec (dg_services g)"
  have "sp_name s = k" if "(k, s) \<in> set ?m" for k s
  proof -
    have "map_of ?m k = Some s" using that inv(1) by (simp add: bmap_entry)
    then show ?thesis using inv(2)[of k s] by (cases "k = sp_name spec") auto
  qed
  moreover have "length ?m = length (dg_services g) + 1"
  proof -
    have "sp_name spec \<notin> set (map fst (dg_services g))" using None by (simp add: map_of_eq_None_iff)
    then have "length (map fst ?m) = Suc (length (map fst (dg_services g)))"
      using inv(1) unfolding keys_bmap_insert
      by (intro length_bset_insert_new) (simp_all add: bmap_inv_def bset_inv_def)
    then show ?thesis by (metis Suc_eq_plus1 length_map)
  qed
  ultimately have "graph_inv (g\<lparr>dg_services := ?m\<rparr>)" "graph_len (g\<lparr>dg_services := ?m\<rparr>) = graph_len g + 1"
    using inv(1) by (auto simp: graph_inv_def graph_len_def)
  then show ?thesis using None by (simp add: graph_add_def graph_get_def)
next
  case (Some s)
  then show ?thesis by (simp add: graph_add_def graph_get_def)
qed

theorem graph_add_registers_witness:
  "\<exists>g. graph_add (demo_service ''log'' [] []) demo_graph = Ok g \<and> graph_len g = 4"
  using graph_add_registers[OF demo_graph_services(2), of "demo_service ''log'' [] []"]
  by (simp add: graph_add_def demo_graph_map graph_len_def demo_graph_def)

text \<open>
  \<open>required_closure\<close> is the set of services reached from the root through requirements
  (\<open>Requires=\<close>, \<open>BindsTo=\<close> and required mounts), all of them registered, and each of them is in the
  start plan of the root whenever there is one.
\<close>

theorem required_closure_in_plan:
  assumes "required_closure env g root = Ok required"
  shows "set required = {y. (\<lambda>x y. y \<in> set (required_dependencies env g x))\<^sup>*\<^sup>* root y} \<and>
    (\<forall>y \<in> set required. registered g y) \<and>
    (\<forall>order. plan_start env g root = Some (Ok order) \<longrightarrow> set required \<subseteq> set order)"
proof -
  let ?D = "\<lambda>x y. y \<in> set (required_dependencies env g x)"
  have root: "registered g root" and loop: "required_loop env g [] [root] = Inr required"
    using assms by (auto simp: required_closure_def check_root_def split: if_splits)
  have w: "set required = (req_work.succ_rel env g)\<^sup>* `` {root}"
      "\<And>x. x \<in> set required \<Longrightarrow> \<exists>ys. push_required env g x = Inr ys"
    using req_work.loop_ok[of root g env required] root loop by auto
  have step: "(x, y) \<in> req_work.succ_rel env g \<longleftrightarrow> ?D x y" if "x \<in> set required" for x y
    using w(2)[OF that] by (auto simp: req_work.succ_rel_def push_required_ok)
  have reg: "registered g y" if "x \<in> set required" "?D x y" for x y
    using w(2)[OF that(1)] that(2) by (auto simp: push_required_ok)
  have to: "?D\<^sup>*\<^sup>* root y \<and> registered g y \<and> y \<in> start_closure env g root"
    if "(root, y) \<in> (req_work.succ_rel env g)\<^sup>*" for y
    using that
  proof (induction rule: rtrancl_induct)
    case base
    then show ?case using root by (simp add: start_closure_def)
  next
    case (step y z)
    then have "y \<in> set required" by (simp add: w(1))
    then have yz: "?D y z" "registered g z" using step.hyps(2) \<open>y \<in> set required\<close>
      \<open>\<And>x y. x \<in> set required \<Longrightarrow> ((x, y) \<in> req_work.succ_rel env g) = ?D x y\<close> reg by blast+
    then have "start_dep env g y z" by (simp add: start_dep_def)
    then show ?case using step.IH yz
      by (auto simp: start_closure_def intro: rtranclp.rtrancl_into_rtrancl)
  qed
  have from_D: "y \<in> set required" if "?D\<^sup>*\<^sup>* root y" for y
    using that
  proof (induction rule: rtranclp_induct)
    case base
    then show ?case by (simp add: w(1))
  next
    case (step y z)
    then show ?case using \<open>\<And>x y. x \<in> set required \<Longrightarrow> ((x, y) \<in> req_work.succ_rel env g) = ?D x y\<close>
      unfolding w(1) by (blast intro: rtrancl_into_rtrancl)
  qed
  have "set required \<subseteq> set order" if "plan_start env g root = Some (Ok order)" for order
    using that to by (cases rule: plan_start_cases[of root env g]) (auto simp: w(1))
  then show ?thesis using from_D to by (auto simp: w(1))
qed

theorem required_closure_in_plan_witness:
  "set [''db'', ''web''] \<subseteq> set [''db'', ''web''] \<and> registered demo_graph ''db''"
proof -
  have "required_closure (\<lambda>_. None) demo_graph ''web'' = Ok [''db'', ''web'']"
    by (simp add: required_closure_def graph_eval)
  from required_closure_in_plan[OF this] show ?thesis using demo_plan by simp
qed

text \<open>
  A mount unit whose mount point lies above a path a service needs (\<open>RequiresMountsFor=\<close>) is in
  every start plan that contains the service, and it comes before the service.
\<close>

theorem required_mounts_start_first:
  assumes plan: "plan_start env g root = Some (Ok order)" and i: "i < length order"
    and s: "map_of (dg_services g) (order ! i) = Some s"
    and path: "path \<in> set (sp_requires_mounts_for s)"
      "normalize_absolute_path (expand_mount_path env path s) = Some p"
    and m: "map_of (dg_services g) m = Some ms" "m \<noteq> order ! i" "sp_service_type ms = TypeMount"
      "mount_point ms = Some q" "path_starts_with p q"
  shows "\<exists>j < i. order ! j = m"
proof -
  from plan have o: "set order = start_closure env g root" "in_order env g order"
    by (cases rule: plan_start_cases[of root env g]; auto)+
  have p: "p \<in> set (List.map_filter normalize_absolute_path (expanded_requires_mounts_for env s))"
    using path by (force simp: List.map_filter_def expanded_requires_mounts_for_def image_iff)
  have cover: "m \<in> set (covering_mounts g (order ! i) paths)" if "p \<in> set paths" for paths
  proof -
    have "(m, ms) \<in> set (filter (\<lambda>(mount_name, mount). mount_name \<noteq> order ! i \<and> sp_service_type mount = TypeMount \<and>
             (case mount_point mount of None \<Rightarrow> False
              | Some point \<Rightarrow> list_ex (\<lambda>path. path_starts_with path point) paths)) (dg_services g))"
      using that m map_of_SomeD[OF m(1)] by (auto simp: list_ex_iff)
    then show ?thesis using that unfolding covering_mounts_def bset_of_def
      by (auto simp: image_iff intro: rev_bexI)
  qed
  have "m \<in> set (mount_dependencies env g (order ! i))"
    unfolding mount_dependencies_def using s p by (auto intro!: cover)
  then have req: "m \<in> set (required_dependencies env g (order ! i))"
    by (simp add: required_dependencies_def)
  have "start_dep env g (order ! i) m" using req m(1) by (simp add: start_dep_def registered_def)
  moreover have "order ! i \<in> start_closure env g root" using i o(1) nth_mem by blast
  ultimately have "m \<in> set order"
    unfolding o(1) by (auto simp: start_closure_def intro: rtranclp.rtrancl_into_rtrancl)
  then obtain j where j: "j < length order" "order ! j = m" by (auto simp: in_set_conv_nth)
  moreover have "ordered_before env g (order ! j) (order ! i)" using req j(2) by (simp add: ordered_before_def)
  ultimately show ?thesis using o(2) i unfolding in_order_def by blast
qed

definition demo_mount_graph :: dependency_graph where
  "demo_mount_graph = \<lparr>dg_services =
     [(''db'', (service_spec_new ''db'' ''/bin/db'')\<lparr>sp_requires_mounts_for := [''/var/lib/db'']\<rparr>),
      (''var'', (service_spec_new ''var'' ''/bin/true'')\<lparr>sp_service_type := TypeMount, sp_mount_where := Some ''/var''\<rparr>)]\<rparr>"

lemma demo_mount_paths:
  "normalize_absolute_path ''/var/lib/db'' = Some [RootDir, Normal ''var'', Normal ''lib'', Normal ''db'']"
  "normalize_absolute_path ''/var'' = Some [RootDir, Normal ''var'']"
  by (simp_all add: normalize_absolute_path_def is_absolute_def path_components_def body_component_def push_normalized_def
      starts_with_def Let_def)

lemma demo_mount_above:
  "path_starts_with [RootDir, Normal ''var'', Normal ''lib'', Normal ''db''] [RootDir, Normal ''var'']"
  "\<not> path_starts_with [RootDir, Normal ''var''] [RootDir, Normal ''var'', Normal ''lib'', Normal ''db'']"
  by (simp_all add: path_starts_with_iff)

lemma demo_mount_plan: "plan_start (\<lambda>_. None) demo_mount_graph ''db'' = Some (Ok [''var'', ''db''])"
  by (simp add: demo_mount_graph_def demo_mount_paths expand_mount_path_plain service_spec_new_def
      mount_point_def demo_mount_above graph_eval)

theorem required_mounts_start_first_witness: "\<exists>j < 1. [''var'', ''db''] ! j = ''var''"
proof (rule required_mounts_start_first[OF demo_mount_plan, where path = "''/var/lib/db''" and m = "''var''"
      and p = "[RootDir, Normal ''var'', Normal ''lib'', Normal ''db'']" and q = "[RootDir, Normal ''var'']"])
  show "map_of (dg_services demo_mount_graph) ([''var'', ''db''] ! 1) =
      Some ((service_spec_new ''db'' ''/bin/db'')\<lparr>sp_requires_mounts_for := [''/var/lib/db'']\<rparr>)"
    by (simp add: demo_mount_graph_def)
  show "map_of (dg_services demo_mount_graph) ''var'' =
      Some ((service_spec_new ''var'' ''/bin/true'')\<lparr>sp_service_type := TypeMount, sp_mount_where := Some ''/var''\<rparr>)"
    by (simp add: demo_mount_graph_def)
qed (simp_all add: expand_mount_path_plain demo_mount_paths mount_point_def demo_mount_above)

end
