(* ===== verification/Native_Config.thy ===== *)
theory Native_Config
  imports Service_Spec
begin

text \<open>
  The native service file of \<open>crates/fractald-config/src/lib.rs\<close>: \<open>Directive\<close>, \<open>NativeFile\<close>, the line
  parser with its continuations, comments and section headers, the schema, and the lookups with
  the reset rule. An error carries its line and its message; the two messages the source renders
  with the \<open>Debug\<close> format keep the value instead of the rendering.
\<close>

section \<open>Data\<close>

datatype message = Text string | InvalidServiceName string | InvalidSpecification spec_error

record config_error =
  ce_line :: "nat option"
  ce_message :: message

definition config_error_at :: "nat \<Rightarrow> string \<Rightarrow> config_error" where
  "config_error_at line message = \<lparr>ce_line = Some line, ce_message = Text message\<rparr>"

definition config_error_message :: "string \<Rightarrow> config_error" where
  "config_error_message message = \<lparr>ce_line = None, ce_message = Text message\<rparr>"

record directive =
  dr_section :: string
  dr_key :: string
  dr_value :: string
  dr_line :: nat

record native_file =
  nf_sections :: "(string, directive list) bmap"

definition native_file_default :: native_file where
  "native_file_default = \<lparr>nf_sections = []\<rparr>"

section \<open>The schema\<close>

definition keys_service :: "string list" where
  "keys_service =
     [''description'', ''kind'', ''exec'', ''exec_pre'', ''exec_post'', ''exec_stop_post'',
      ''exec_condition'', ''stop'', ''reload'', ''restart'', ''restart_delay'', ''start_timeout'',
      ''stop_timeout'', ''runtime_limit'', ''kill_signal'', ''restart_kill_signal'',
      ''send_sighup'', ''ignore_sigpipe'', ''remain_after_exit'', ''refuse_manual_start'',
      ''refuse_manual_stop'', ''stop_when_unneeded'', ''default_dependencies'', ''allow_isolate'',
      ''ignore_on_isolate'', ''working_directory'', ''pid_file'', ''user'', ''group'',
      ''dynamic_user'', ''supplementary_groups'', ''cgroup_slice'', ''environment'',
      ''environment_file'', ''unset_environment'', ''stdout'', ''stderr'', ''stdin'', ''tty'',
      ''watchdog'', ''notify_access'', ''success_exit_status'', ''restart_prevent_exit_status'',
      ''bus_name'']"

definition keys_dependencies :: "string list" where
  "keys_dependencies =
     [''requires'', ''wants'', ''after'', ''before'', ''conflicts'', ''part_of'', ''binds_to'',
      ''requisite'', ''on_success'', ''on_failure'', ''requires_mount'', ''wants_mount'',
      ''default_dependencies'', ''allow_isolate'', ''ignore_on_isolate'', ''stop_when_unneeded'']"

definition keys_install :: "string list" where
  "keys_install =
     [''alias'', ''profile'', ''profiles'', ''default_dependencies'', ''allow_isolate'',
      ''ignore_on_isolate'', ''stop_when_unneeded'']"

definition keys_paths :: "string list" where
  "keys_paths =
     [''configuration'', ''configuration_mode'', ''configuration_preserve'', ''runtime'',
      ''runtime_mode'', ''runtime_preserve'', ''state'', ''state_mode'', ''state_preserve'',
      ''cache'', ''cache_mode'', ''cache_preserve'', ''logs'', ''logs_mode'', ''logs_preserve'']"

definition keys_credentials :: "string list" where
  "keys_credentials =
     [''file'', ''value'', ''store'', ''import'']"

definition keys_conditions :: "string list" where
  "keys_conditions =
     [''path_exists'', ''path_exists_glob'', ''directory_not_empty'', ''executable'',
      ''read_write'', ''directory'', ''file_not_empty'', ''mount_point'', ''symlink'',
      ''kernel_command_line'', ''virtualization'', ''security'', ''ac_power'', ''capability'',
      ''kernel_module'', ''firmware'', ''first_boot'', ''credential'', ''cgroup_controller'',
      ''environment'', ''needs_update'']"

definition keys_security :: "string list" where
  "keys_security =
     [''no_new_privileges'', ''memory_deny_write_execute'', ''restrict_realtime'',
      ''restrict_suid_sgid'', ''protect_control_groups'', ''protect_kernel_modules'',
      ''protect_kernel_tunables'', ''protect_kernel_logs'', ''protect_clock'',
      ''protect_hostname'', ''lock_personality'', ''umask'', ''nice'', ''oom_score_adjust'',
      ''oom_policy'', ''private_tmp'', ''private_devices'', ''private_mounts'', ''private_ipc'',
      ''private_network'', ''device_policy'', ''device_allow'', ''delegate'', ''private_users'',
      ''restrict_namespaces'', ''protect_system'', ''protect_home'', ''protect_proc'',
      ''proc_subset'', ''read_write'', ''read_only'', ''inaccessible'',
      ''capability_bounding_set'', ''ambient_capabilities'', ''address_families'',
      ''syscall_architectures'', ''syscall_error_number'', ''syscall_filter'']"

definition keys_resources :: "string list" where
  "keys_resources =
     [''memory_max'', ''memory_high'', ''memory_min'', ''memory_low'', ''memory_swap_max'',
      ''tasks_max'', ''cpu_weight'', ''io_weight'', ''cpu_quota'', ''cpu_quota_period'',
      ''nofile'', ''memlock'', ''nproc'', ''start_limit_interval'', ''start_limit_burst'']"

definition keys_manager :: "string list" where
  "keys_manager =
     [''failure_action'', ''success_action'', ''job_timeout'', ''job_timeout_action'']"

definition keys_listen :: "string list" where
  "keys_listen =
     [''accept'', ''service'', ''fd_name'', ''remove_on_stop'', ''mode'', ''user'', ''group'',
      ''stream'', ''datagram'', ''sequential_packet'', ''fifo'', ''netlink'', ''special'']"

definition keys_timer :: "string list" where
  "keys_timer =
     [''service'', ''on_boot'', ''on_active'', ''on_inactive'', ''calendar'', ''persistent'',
      ''random_delay'', ''accuracy'']"

definition keys_watch :: "string list" where
  "keys_watch =
     [''service'', ''changed'', ''modified'', ''exists'', ''exists_glob'', ''directory_not_empty'']"

definition keys_mount :: "string list" where
  "keys_mount =
     [''what'', ''where'', ''type'', ''options'', ''directory_mode'', ''lazy'', ''force'',
      ''timeout'']"

definition keys_swap :: "string list" where
  "keys_swap =
     [''what'', ''options'', ''priority'', ''timeout'']"

definition keys_device :: "string list" where
  "keys_device =
     [''path'']"

definition schema :: "(string \<times> string list) list" where
  "schema =
     [(''service'', keys_service), (''dependencies'', keys_dependencies),
      (''install'', keys_install), (''paths'', keys_paths), (''credentials'', keys_credentials),
      (''conditions'', keys_conditions), (''assertions'', keys_conditions),
      (''security'', keys_security), (''resources'', keys_resources), (''manager'', keys_manager),
      (''listen'', keys_listen), (''timer'', keys_timer), (''watch'', keys_watch),
      (''mount'', keys_mount), (''swap'', keys_swap), (''device'', keys_device)]"

definition allowed_keys :: "string \<Rightarrow> string list option" where
  "allowed_keys section = map_of schema section"

definition validate_directive :: "string \<Rightarrow> string list \<Rightarrow> directive \<Rightarrow> unit \<Rightarrow> config_error + unit" where
  "validate_directive section allowed d _ =
     (if dr_key d \<notin> set allowed
      then Err (config_error_at (dr_line d)
                 (''unsupported native directive '' @ section @ ''.'' @ dr_key d))
      else Ok ())"

definition validate_section :: "string \<times> directive list \<Rightarrow> unit \<Rightarrow> config_error + unit" where
  "validate_section entry _ =
     (case allowed_keys (fst entry) of
        None \<Rightarrow> Err (config_error_message (''unsupported native section ['' @ fst entry @ '']''))
      | Some allowed \<Rightarrow> fold_try (validate_directive (fst entry) allowed) (snd entry) ())"

definition validate_schema :: "native_file \<Rightarrow> config_error + unit" where
  "validate_schema file = fold_try validate_section (nf_sections file) ()"

definition reset_keys :: "(string \<times> string) list" where
  "reset_keys =
     [(''service'', ''exec''), (''service'', ''exec_pre''), (''service'', ''exec_post''),
      (''service'', ''exec_stop_post''), (''service'', ''exec_condition''),
      (''service'', ''environment''), (''service'', ''environment_file''),
      (''service'', ''unset_environment''), (''service'', ''success_exit_status''),
      (''service'', ''restart_prevent_exit_status''), (''service'', ''bus_name''),
      (''dependencies'', ''requires''), (''dependencies'', ''wants''),
      (''dependencies'', ''after''), (''dependencies'', ''before''),
      (''dependencies'', ''conflicts''), (''dependencies'', ''part_of''),
      (''dependencies'', ''binds_to''), (''dependencies'', ''requisite''),
      (''dependencies'', ''on_success''), (''dependencies'', ''on_failure''),
      (''dependencies'', ''requires_mount''), (''dependencies'', ''wants_mount''),
      (''credentials'', ''file''), (''credentials'', ''value''), (''credentials'', ''store''),
      (''credentials'', ''import'')]"

definition is_reset_key :: "string \<Rightarrow> string \<Rightarrow> bool" where
  "is_reset_key section key \<longleftrightarrow> (to_ascii_lowercase section, to_ascii_lowercase key) \<in> set reset_keys"

section \<open>Parsing\<close>

definition has_continuation :: "string \<Rightarrow> bool" where
  "has_continuation value \<longleftrightarrow> odd (length (takeWhile (\<lambda>c. c = CHR 0x5C) (rev value)))"

definition section_directives :: "native_file \<Rightarrow> string \<Rightarrow> directive list" where
  "section_directives file section =
     (case map_of (nf_sections file) section of None \<Rightarrow> [] | Some ds \<Rightarrow> ds)"

text \<open>\<open>sections.entry(section).or_default().extend(ds)\<close>.\<close>

definition extend_section :: "string \<Rightarrow> directive list \<Rightarrow> native_file \<Rightarrow> native_file" where
  "extend_section section ds file =
     file\<lparr>nf_sections := bmap_insert section (section_directives file section @ ds) (nf_sections file)\<rparr>"

record parse_state =
  ps_file :: native_file
  ps_section :: "string option"
  ps_logical :: string
  ps_logical_line :: nat

definition section_header :: "nat \<Rightarrow> string \<Rightarrow> config_error + string" where
  "section_header line_no line =
     (if \<not> ends_with line '']'' then
        Err (config_error_at line_no ''section header is missing its closing bracket'')
      else
        (let name = trim (drop 1 (take (length line - 1) line))
         in if name = [] \<or> list_ex (\<lambda>c. c \<in> set ''[]'') name \<or>
               \<not> list_all (\<lambda>c. is_ascii_alphanumeric c \<or> c = CHR ''_'') name
            then Err (config_error_at line_no ''invalid section name'')
            else Ok (to_ascii_lowercase name)))"

definition parse_directive :: "nat \<Rightarrow> string option \<Rightarrow> string \<Rightarrow> config_error + directive" where
  "parse_directive line_no section line =
     bind_res (ok_or section (config_error_at line_no ''directive appears before a section header'')) (\<lambda>section_name.
     bind_res (ok_or (split_once CHR ''='' line)
                (config_error_at line_no (''directive is missing '' @ [CHR 0x27, CHR ''='', CHR 0x27]))) (\<lambda>(key, value).
       let key = trim key
       in if key = [] \<or> \<not> list_all (\<lambda>c. is_ascii_alphanumeric c \<or> c \<in> set ''_-'') key
          then Err (config_error_at line_no ''invalid directive name'')
          else Ok \<lparr>dr_section = section_name, dr_key = to_ascii_lowercase key,
                   dr_value = trim value, dr_line = line_no\<rparr>))"

text \<open>One complete logical line.\<close>

definition parse_logical :: "parse_state \<Rightarrow> config_error + parse_state" where
  "parse_logical st =
     (let line = trim (ps_logical st); cleared = st\<lparr>ps_logical := []\<rparr>
      in if line = [] \<or> starts_with line ''#'' \<or> starts_with line '';'' then Ok cleared
         else if starts_with line ''['' then
           bind_res (section_header (ps_logical_line st) line) (\<lambda>name.
             Ok (cleared\<lparr>ps_section := Some name, ps_file := extend_section name [] (ps_file st)\<rparr>))
         else
           bind_res (parse_directive (ps_logical_line st) (ps_section st) line) (\<lambda>d.
             Ok (cleared\<lparr>ps_file := extend_section (dr_section d) [d] (ps_file st)\<rparr>)))"

text \<open>One physical line, with its number.\<close>

definition parse_line :: "nat \<times> string \<Rightarrow> parse_state \<Rightarrow> config_error + parse_state" where
  "parse_line numbered st =
     (let physical = strip_cr (snd numbered);
          st1 = (if ps_logical st = [] then st\<lparr>ps_logical_line := fst numbered\<rparr> else st)
      in if has_continuation physical then
           Ok (st1\<lparr>ps_logical := ps_logical st1 @ trim_end (take (length physical - 1) physical) @ '' ''\<rparr>)
         else parse_logical (st1\<lparr>ps_logical := ps_logical st1 @ physical\<rparr>))"

definition parse_start :: parse_state where
  "parse_start = \<lparr>ps_file = native_file_default, ps_section = None, ps_logical = [], ps_logical_line = 0\<rparr>"

definition native_parse :: "string \<Rightarrow> config_error + native_file" where
  "native_parse source =
     bind_res (fold_try parse_line (List.enumerate 1 (lines source)) parse_start) (\<lambda>st.
       if ps_logical st \<noteq> [] then
         Err (config_error_at (ps_logical_line st) ''unterminated line continuation'')
       else bind_res (validate_schema (ps_file st)) (\<lambda>_. Ok (ps_file st)))"

section \<open>Lookups\<close>

definition directives :: "native_file \<Rightarrow> string \<Rightarrow> string \<Rightarrow> directive list" where
  "directives file section key =
     filter (\<lambda>d. dr_key d = to_ascii_lowercase key)
       (section_directives file (to_ascii_lowercase section))"

fun keep_effective :: "bool \<Rightarrow> directive list \<Rightarrow> directive list \<Rightarrow> directive list" where
  "keep_effective reset acc [] = acc"
| "keep_effective reset acc (d # ds) =
     (if dr_value d = [] \<and> reset then keep_effective reset [] ds
      else keep_effective reset (acc @ [d]) ds)"

definition effective_directives :: "native_file \<Rightarrow> string \<Rightarrow> string \<Rightarrow> directive list" where
  "effective_directives file section key =
     keep_effective (is_reset_key section key) [] (directives file section key)"

definition has_section :: "native_file \<Rightarrow> string \<Rightarrow> bool" where
  "has_section file section \<longleftrightarrow> map_of (nf_sections file) (to_ascii_lowercase section) \<noteq> None"

definition merge_file :: "native_file \<Rightarrow> native_file \<Rightarrow> native_file" where
  "merge_file file overlay =
     fold (\<lambda>(section, ds). extend_section section ds) (nf_sections overlay) file"

definition value_of :: "native_file \<Rightarrow> string \<Rightarrow> string \<Rightarrow> string option" where
  "value_of file section key =
     (case rev (effective_directives file section key) of
        [] \<Rightarrow> None
      | d # _ \<Rightarrow> if dr_value d \<noteq> [] then Some (dr_value d) else None)"

section \<open>What a parsed file satisfies\<close>

lemma fold_try_unit_iff: "fold_try f xs () = Inr () \<longleftrightarrow> (\<forall>x \<in> set xs. f x () = Inr ())"
  by (induction xs) (auto simp: bind_res_eq_Inr)

lemma validate_schema_iff:
  "validate_schema file = Inr () \<longleftrightarrow>
     (\<forall>(s, ds) \<in> set (nf_sections file). \<exists>ks. allowed_keys s = Some ks \<and> (\<forall>d \<in> set ds. dr_key d \<in> set ks))"
  by (auto simp: validate_schema_def fold_try_unit_iff validate_section_def validate_directive_def
      split: option.splits)

definition directive_wf :: "string \<Rightarrow> nat \<Rightarrow> directive \<Rightarrow> bool" where
  "directive_wf s n d \<longleftrightarrow>
     dr_section d = s \<and> dr_key d \<noteq> [] \<and> to_ascii_lowercase (dr_key d) = dr_key d \<and>
     trimmed (dr_value d) \<and> 1 \<le> dr_line d \<and> dr_line d \<le> n"

definition file_wf :: "nat \<Rightarrow> native_file \<Rightarrow> bool" where
  "file_wf n file \<longleftrightarrow> bmap_inv (nf_sections file) \<and>
     (\<forall>s. \<forall>d \<in> set (section_directives file s). directive_wf s n d) \<and>
     (\<forall>s. sorted_wrt (<) (map dr_line (section_directives file s)))"

definition state_wf :: "nat \<Rightarrow> parse_state \<Rightarrow> bool" where
  "state_wf n st \<longleftrightarrow> file_wf n (ps_file st) \<and>
     (ps_logical st \<noteq> [] \<longrightarrow> 1 \<le> ps_logical_line st \<and> ps_logical_line st \<le> n \<and>
        (\<forall>s. \<forall>d \<in> set (section_directives (ps_file st) s). dr_line d < ps_logical_line st))"

lemma section_directives_extend:
  "section_directives (extend_section s ds file) t =
     (if t = s then section_directives file s @ ds else section_directives file t)"
  by (simp add: section_directives_def extend_section_def)

lemma bmap_inv_extend [simp]: "bmap_inv (nf_sections file) \<Longrightarrow> bmap_inv (nf_sections (extend_section s ds file))"
  by (simp add: extend_section_def)

lemma file_wf_mono: "file_wf n file \<Longrightarrow> n \<le> m \<Longrightarrow> file_wf m file"
  unfolding file_wf_def directive_wf_def by fastforce

lemma file_wf_header: "file_wf n file \<Longrightarrow> file_wf n (extend_section s [] file)"
  by (simp add: file_wf_def section_directives_extend)

lemma file_wf_push:
  assumes "file_wf n file" and "directive_wf s n d"
    and "\<forall>t. \<forall>d' \<in> set (section_directives file t). dr_line d' < dr_line d"
  shows "file_wf n (extend_section s [d] file)"
  using assms by (auto simp: file_wf_def section_directives_extend sorted_wrt_append)

lemma parse_directive_wf:
  assumes "parse_directive n sec line = Inr d" and "1 \<le> n" "n \<le> m"
  shows "directive_wf (dr_section d) m d \<and> dr_line d = n"
  using assms
  by (auto simp: parse_directive_def bind_res_eq_Inr Let_def directive_wf_def trimmed_trim
      split: if_splits) (simp_all add: to_ascii_lowercase_def)

lemma parse_logical_wf:
  assumes "parse_logical st = Inr st'" and "state_wf n st"
  shows "state_wf n st' \<and> ps_logical st' = []"
proof (cases "ps_logical st = []")
  case True
  then show ?thesis using assms by (auto simp: parse_logical_def state_wf_def Let_def)
next
  case False
  then have line: "1 \<le> ps_logical_line st" "ps_logical_line st \<le> n"
    and old: "\<forall>s. \<forall>d \<in> set (section_directives (ps_file st) s). dr_line d < ps_logical_line st"
    and wf: "file_wf n (ps_file st)"
    using assms(2) by (simp_all add: state_wf_def)
  show ?thesis
    using assms(1) wf old parse_directive_wf[OF _ line]
    by (auto simp: parse_logical_def Let_def bind_res_eq_Inr state_wf_def
        intro!: file_wf_header file_wf_push split: if_splits)
qed

lemma parse_line_wf:
  assumes "parse_line (n, physical) st = Inr st'" and "state_wf (n - 1) st" and "1 \<le> n"
  shows "state_wf n st'"
proof -
  let ?st1 = "if ps_logical st = [] then st\<lparr>ps_logical_line := n\<rparr> else st"
  have old: "dr_line d < n" if "d \<in> set (section_directives (ps_file st) s)" for s d
    using that assms(2,3) by (fastforce simp: state_wf_def file_wf_def directive_wf_def)
  have "file_wf n (ps_file st)"
    using assms(2) by (auto simp: state_wf_def intro: file_wf_mono[of "n - 1"])
  moreover have "1 \<le> ps_logical_line ?st1 \<and> ps_logical_line ?st1 \<le> n \<and>
      (\<forall>s. \<forall>d \<in> set (section_directives (ps_file st) s). dr_line d < ps_logical_line ?st1)"
  proof (cases "ps_logical st = []")
    case True
    then show ?thesis using old assms(3) by simp
  next
    case False
    then have "1 \<le> ps_logical_line st" "ps_logical_line st \<le> n - 1"
        "\<forall>s. \<forall>d \<in> set (section_directives (ps_file st) s). dr_line d < ps_logical_line st"
      using assms(2) by (simp_all add: state_wf_def)
    then show ?thesis using False by simp
  qed
  ultimately have wf: "state_wf n (?st1\<lparr>ps_logical := l\<rparr>)" for l
    by (cases "ps_logical st = []") (simp_all add: state_wf_def)
  show ?thesis
  proof (cases "has_continuation (strip_cr physical)")
    case True
    let ?p = "strip_cr physical"
    have "st' = ?st1\<lparr>ps_logical := ps_logical ?st1 @ trim_end (take (length ?p - 1) ?p) @ '' ''\<rparr>"
      using assms(1) True by (simp only: parse_line_def Let_def fst_conv snd_conv if_True sum.inject)
    then show ?thesis using wf by simp
  next
    case False
    then have "parse_logical (?st1\<lparr>ps_logical := ps_logical ?st1 @ strip_cr physical\<rparr>) = Inr st'"
      using assms(1) by (simp only: parse_line_def Let_def fst_conv snd_conv if_False)
    from parse_logical_wf[OF this wf] show ?thesis by simp
  qed
qed

lemma parse_lines_wf:
  "fold_try parse_line (List.enumerate (Suc n) ls) st = Inr st' \<Longrightarrow> state_wf n st \<Longrightarrow> state_wf (n + length ls) st'"
proof (induction ls arbitrary: n st)
  case Nil
  then show ?case by simp
next
  case (Cons l ls)
  then obtain st1 where 1: "parse_line (Suc n, l) st = Inr st1"
      "fold_try parse_line (List.enumerate (Suc (Suc n)) ls) st1 = Inr st'"
    by (auto simp: bind_res_eq_Inr)
  have "state_wf (Suc n) st1" using parse_line_wf[OF 1(1)] Cons.prems(2) by simp
  then show ?case using Cons.IH[OF 1(2)] by simp
qed


section \<open>Resets and overlays\<close>

lemma keep_effective_plain: "keep_effective False acc ds = acc @ ds"
  by (induction ds arbitrary: acc) auto

lemma keep_effective_snoc:
  "keep_effective reset acc (ds @ [d]) =
     (if dr_value d = [] \<and> reset then [] else keep_effective reset acc ds @ [d])"
  by (induction ds arbitrary: acc) auto

lemma keep_effective_reset: "keep_effective True [] ds = rev (takeWhile (\<lambda>d. dr_value d \<noteq> []) (rev ds))"
  by (induction ds rule: rev_induct) (auto simp: keep_effective_snoc)

lemma effective_reset:
  "is_reset_key s k \<Longrightarrow> effective_directives file s k = rev (takeWhile (\<lambda>d. dr_value d \<noteq> []) (rev (directives file s k)))"
  by (simp add: effective_directives_def keep_effective_reset)

text \<open>
  An empty assignment of a list-valued key discards everything before it: the effective
  directives of a reset key are those after its last empty assignment, for any other key they are
  all directives of the key, in file order.
\<close>

theorem effective_directives_after_reset:
  "effective_directives file s k =
     (if is_reset_key s k then rev (takeWhile (\<lambda>d. dr_value d \<noteq> []) (rev (directives file s k)))
      else directives file s k)"
  by (simp add: effective_reset) (simp add: effective_directives_def keep_effective_plain)

lemma section_directives_merge_list:
  "distinct (map fst secs) \<Longrightarrow>
   section_directives (fold (\<lambda>(s, ds). extend_section s ds) secs f0) t =
     section_directives f0 t @ (case map_of secs t of None \<Rightarrow> [] | Some ds \<Rightarrow> ds)"
proof (induction secs arbitrary: f0)
  case Nil
  then show ?case by simp
next
  case (Cons e secs)
  obtain s ds where e: "e = (s, ds)" by (cases e)
  have "map_of secs s = None" using Cons.prems e by (simp add: map_of_eq_None_iff)
  then show ?case using Cons e by (simp add: section_directives_extend)
qed

lemma directives_merge:
  "bmap_inv (nf_sections overlay) \<Longrightarrow>
     directives (merge_file file overlay) s k = directives file s k @ directives overlay s k"
  by (simp add: directives_def merge_file_def section_directives_merge_list bmap_keys_distinct)
    (simp add: section_directives_def)

lemma value_of_append:
  assumes "directives merged s k = directives file s k @ directives overlay s k"
    and "value_of overlay s k = Some v"
  shows "value_of merged s k = Some v"
proof (cases "is_reset_key s k")
  case True
  let ?P = "\<lambda>d. dr_value d \<noteq> []"
  have last: "rev (effective_directives f s k) = takeWhile ?P (rev (directives f s k))" for f
    using True by (simp add: effective_reset)
  obtain d r where d: "takeWhile ?P (rev (directives overlay s k)) = d # r" "dr_value d = v" "v \<noteq> []"
    using assms(2) unfolding value_of_def last by (auto split: list.splits if_splits)
  then obtain q where "rev (directives overlay s k) = d # q"
    by (cases "rev (directives overlay s k)") (auto split: if_splits)
  then have "takeWhile ?P (rev (directives merged s k)) \<noteq> [] \<and> hd (takeWhile ?P (rev (directives merged s k))) = d"
    using d assms(1) by auto
  then show ?thesis unfolding value_of_def last using d(2,3)
    by (cases "takeWhile ?P (rev (directives merged s k))") auto
next
  case False
  then have "effective_directives f s k = directives f s k" for f
    by (simp add: effective_directives_def keep_effective_plain)
  then show ?thesis using assms unfolding value_of_def
    by (cases "rev (directives overlay s k)") (auto split: if_splits)
qed

text \<open>
  An overlay file is appended to the base: \<open>merge\<close> concatenates the directives of every key,
  base first, keeps the sections of both, and a value the overlay sets is the merged value.
\<close>

theorem merge_appends_overlay:
  assumes "bmap_inv (nf_sections overlay)"
  shows "directives (merge_file file overlay) s k = directives file s k @ directives overlay s k \<and>
    (value_of overlay s k \<noteq> None \<longrightarrow> value_of (merge_file file overlay) s k = value_of overlay s k)"
  using directives_merge[OF assms] value_of_append[OF directives_merge[OF assms]] by auto

section \<open>Printing and parsing\<close>

text \<open>
  A canonical rendering of a file, one line per header and directive, and the values it can carry:
  trimmed, on one line, and without a dangling continuation.
\<close>

definition directive_text :: "directive \<Rightarrow> string" where
  "directive_text d = dr_key d @ ''='' @ dr_value d"

definition section_lines :: "string \<times> directive list \<Rightarrow> string list" where
  "section_lines e = (''['' @ fst e @ '']'') # map directive_text (snd e)"

definition render_file :: "native_file \<Rightarrow> string" where
  "render_file file = concat (map (\<lambda>l. l @ [CHR 0x0A]) (concat (map section_lines (nf_sections file))))"

definition printable_value :: "string \<Rightarrow> bool" where
  "printable_value v \<longleftrightarrow> trimmed v \<and> starts_char v \<and> CHR 0x0A \<notin> set v \<and> \<not> has_continuation v"

definition printable_entry :: "string \<times> directive list \<Rightarrow> bool" where
  "printable_entry e \<longleftrightarrow> (\<exists>ks. allowed_keys (fst e) = Some ks \<and>
     (\<forall>d \<in> set (snd e). dr_section d = fst e \<and> dr_key d \<in> set ks \<and> printable_value (dr_value d)))"

definition directive_view :: "directive \<Rightarrow> string \<times> string \<times> string" where
  "directive_view d = (dr_section d, dr_key d, dr_value d)"

definition file_view :: "native_file \<Rightarrow> string \<Rightarrow> (string \<times> string \<times> string) list option" where
  "file_view file s = map_option (map directive_view) (map_of (nf_sections file) s)"

definition key_char :: "char \<Rightarrow> bool" where
  "key_char c \<longleftrightarrow> is_ascii_lowercase c \<or> c = CHR ''_''"

definition key_word :: "string \<Rightarrow> bool" where
  "key_word k \<longleftrightarrow> k \<noteq> [] \<and> list_all key_char k"

lemma key_chars:
  "key_char CHR ''a''" "key_char CHR ''b''" "key_char CHR ''c''" "key_char CHR ''d''" "key_char CHR ''e''" "key_char CHR ''f''" "key_char CHR ''g''" "key_char CHR ''h''" "key_char CHR ''i''"
  "key_char CHR ''j''" "key_char CHR ''k''" "key_char CHR ''l''" "key_char CHR ''m''" "key_char CHR ''n''" "key_char CHR ''o''" "key_char CHR ''p''" "key_char CHR ''q''" "key_char CHR ''r''"
  "key_char CHR ''s''" "key_char CHR ''t''" "key_char CHR ''u''" "key_char CHR ''v''" "key_char CHR ''w''" "key_char CHR ''x''" "key_char CHR ''y''" "key_char CHR ''z''" "key_char CHR ''_''"
  by (simp_all add: key_char_def byte_class_defs)

lemma schema_words: "list_all (\<lambda>(s, ks). key_word s \<and> list_all key_word ks) schema"
  unfolding schema_def keys_service_def keys_dependencies_def keys_install_def keys_paths_def
    keys_credentials_def keys_conditions_def keys_security_def keys_resources_def keys_manager_def
    keys_listen_def keys_timer_def keys_watch_def keys_mount_def keys_swap_def keys_device_def key_word_def
  by (simp add: key_chars)

lemma allowed_key_words: "allowed_keys s = Some ks \<Longrightarrow> key_word s \<and> list_all key_word ks"
  using schema_words map_of_SomeD[of schema s ks] unfolding allowed_keys_def list_all_iff by blast

lemma lines_unlines:
  "(\<And>l. l \<in> set ls \<Longrightarrow> CHR 0x0A \<notin> set l \<and> strip_cr l = l) \<Longrightarrow> lines (concat (map (\<lambda>l. l @ [CHR 0x0A]) ls)) = ls"
  unfolding lines_def by (induction ls) (simp_all add: lines_from_line)

lemma key_word_facts:
  assumes "key_word k"
  shows "is_ascii k" "no_whitespace k" "to_ascii_lowercase k = k" "CHR ''='' \<notin> set k" "k \<noteq> []"
    "list_all (\<lambda>c. is_ascii_alphanumeric c \<or> c = CHR ''_'') k" "CHR 0x0A \<notin> set k" "CHR 0x5C \<notin> set k"
    "hd k \<notin> set ''#;[''"
proof -
  have kc: "key_char c" if "c \<in> set k" for c using assms that by (simp add: key_word_def list_all_iff)
  have c: "97 \<le> byte_val c \<and> byte_val c \<le> 122 \<or> byte_val c = 95" if "c \<in> set k" for c
    using kc[OF that] by (auto simp: key_char_def byte_class_defs)
  have special: "d \<notin> set k" if "byte_val d < 95" for d using c[of d] that by auto
  show ne: "k \<noteq> []" using assms by (simp add: key_word_def)
  have "is_ascii_byte c" if "c \<in> set k" for c using c[OF that] by (auto simp: is_ascii_byte_def)
  then show "is_ascii k" by (simp add: is_ascii_def list_all_iff)
  then show "no_whitespace k" using c by (auto simp: no_whitespace_ascii dest!: c)
  have "ascii_lower c = c" if "c \<in> set k" for c
    using c[OF that] by (auto simp: ascii_lower_def byte_class_defs)
  then show "to_ascii_lowercase k = k" by (simp add: to_ascii_lowercase_def map_idI)
  have "is_ascii_alphanumeric c \<or> c = CHR ''_''" if "c \<in> set k" for c
    using kc[OF that] by (auto simp: key_char_def is_ascii_alphanumeric_def is_ascii_alphabetic_def)
  then show "list_all (\<lambda>c. is_ascii_alphanumeric c \<or> c = CHR ''_'') k" by (simp add: list_all_iff)
  show "CHR ''='' \<notin> set k" "CHR 0x0A \<notin> set k" "CHR 0x5C \<notin> set k" by (simp_all add: special)
  have "byte_val (hd k) \<ge> 95" using c[OF hd_in_set[OF ne]] by auto
  then show "hd k \<notin> set ''#;[''" by auto
qed

lemma takeWhile_stop: "\<not> P y \<Longrightarrow> takeWhile P (xs @ y # ys) = takeWhile P xs"
  by (induction xs) auto

lemma has_continuation_suffix: "c \<noteq> CHR 0x5C \<Longrightarrow> has_continuation (a @ c # v) \<longleftrightarrow> has_continuation v"
proof -
  assume c: "c \<noteq> CHR 0x5C"
  have "takeWhile (\<lambda>c. c = CHR 0x5C) (rev v @ c # rev a) = takeWhile (\<lambda>c. c = CHR 0x5C) (rev v)"
    using c by (intro takeWhile_stop)
  then show ?thesis by (simp add: has_continuation_def)
qed

lemma strip_cr_trimmed:
  assumes "trimmed v"
  shows "strip_cr v = v"
proof -
  have False if "v = w @ [CHR 0x0D]" for w
  proof -
    have "chars v = chars w @ [[CHR 0x0D]]" using that by (simp add: chars_append)
    then show False using assms that by (simp add: trimmed_def char_is_whitespace_single)
  qed
  then show ?thesis by (auto simp: strip_cr_def strip_suffix_Some split: option.splits)
qed

definition plain_line :: "string \<Rightarrow> bool" where
  "plain_line l \<longleftrightarrow> trimmed l \<and> l \<noteq> [] \<and> CHR 0x0A \<notin> set l \<and> \<not> has_continuation l \<and> hd l \<notin> set ''#;''"

lemma directive_line_plain:
  assumes "key_word k" and "printable_value v"
  shows "plain_line (k @ CHR ''='' # v)"
proof -
  note k = key_word_facts[OF assms(1)]
  have v: "trimmed v" "starts_char v" "CHR 0x0A \<notin> set v" "\<not> has_continuation v"
    using assms(2) by (simp_all add: printable_value_def)
  have "chars (k @ CHR ''='' # v) = chars k @ chars (CHR ''='' # v)" by (rule chars_append) simp
  also have "chars (CHR ''='' # v) = [CHR ''=''] # chars v"
    using v(2) by (intro chars_Cons_ascii_next) (simp add: starts_char_def)
  finally have ch: "chars (k @ CHR ''='' # v) = chars k @ [CHR ''=''] # chars v" .
  have "\<not> char_is_whitespace (hd (chars k))"
    using k(2,5) by (cases "chars k") (auto simp: no_whitespace_def)
  moreover have "\<not> char_is_whitespace (last ([CHR ''=''] # chars v))"
    using v(1) by (cases "v = []") (auto simp: trimmed_def char_is_whitespace_single)
  ultimately have "trimmed (k @ CHR ''='' # v)" using k(5) by (simp add: trimmed_def ch)
  moreover have "\<not> has_continuation (k @ CHR ''='' # v)" using v(4) by (simp add: has_continuation_suffix)
  ultimately show ?thesis using k v(3) by (simp add: plain_line_def)
qed

lemma header_line_plain: "key_word k \<Longrightarrow> plain_line (CHR ''['' # k @ '']'')"
proof -
  assume "key_word k"
  note k = key_word_facts[OF this]
  have "is_ascii (CHR ''['' # k @ '']'')" using k(1) by (simp add: is_ascii_byte_def)
  then have "chars (CHR ''['' # k @ '']'') = map (\<lambda>c. [c]) (CHR ''['' # k @ '']'')" by (rule chars_ascii)
  then have "trimmed (CHR ''['' # k @ '']'')" by (simp add: trimmed_def char_is_whitespace_single)
  moreover have "\<not> has_continuation (CHR ''['' # k @ '']'')" by (simp add: has_continuation_def)
  ultimately show ?thesis using k(7) by (simp add: plain_line_def)
qed

lemma parse_line_plain:
  assumes "plain_line l" and "ps_logical st = []"
  shows "parse_line (n, l) st = parse_logical (st\<lparr>ps_logical_line := n, ps_logical := l\<rparr>)"
proof -
  have "strip_cr l = l" "\<not> has_continuation l" using assms(1) by (simp_all add: plain_line_def strip_cr_trimmed)
  then show ?thesis using assms(2) by (simp add: parse_line_def Let_def)
qed

lemma file_view_extend:
  "file_view (extend_section s ds f0) t =
     (if t = s then Some ((case file_view f0 s of None \<Rightarrow> [] | Some x \<Rightarrow> x) @ map directive_view ds)
      else file_view f0 t)"
  by (cases "map_of (nf_sections f0) s") (auto simp: file_view_def extend_section_def section_directives_def)

lemma starts_with_hd: "starts_with (c # s) [d] \<longleftrightarrow> c = d"
  by (simp add: starts_with_def)

lemma parse_line_header:
  assumes k: "key_word s" and st: "ps_logical st = []"
  shows "\<exists>st'. parse_line (n, CHR ''['' # s @ '']'') st = Inr st' \<and> ps_logical st' = [] \<and> ps_section st' = Some s \<and>
    ps_file st' = extend_section s [] (ps_file st)"
proof -
  note p = header_line_plain[OF k] and facts = key_word_facts[OF k]
  have trim: "trim (CHR ''['' # s @ '']'') = CHR ''['' # s @ '']''" "trim s = s"
    using p no_whitespace_trimmed[OF facts(2)] by (simp_all add: plain_line_def trim_trimmed)
  have "\<not> list_ex (\<lambda>c. c \<in> set ''[]'') s"
  proof -
    have "c \<notin> set ''[]''" if "c \<in> set s" for c
    proof
      assume "c \<in> set ''[]''"
      then have "key_char c" "c = CHR ''['' \<or> c = CHR '']''" using k that by (auto simp: key_word_def list_all_iff)
      then show False by (auto simp: key_char_def byte_class_defs)
    qed
    then show ?thesis by (auto simp: list_ex_iff)
  qed
  then have "section_header n (CHR ''['' # s @ '']'') = Inr s"
    using facts trim(2) by (simp add: section_header_def ends_with_iff Let_def)
  then show ?thesis
    unfolding parse_line_plain[OF p st] by (simp add: parse_logical_def Let_def trim(1) starts_with_hd)
qed

lemma parse_line_directive:
  assumes k: "key_word (dr_key d)" and v: "printable_value (dr_value d)" and s: "dr_section d = s"
    and st: "ps_logical st = []" "ps_section st = Some s"
  shows "\<exists>st' d'. parse_line (n, directive_text d) st = Inr st' \<and> ps_logical st' = [] \<and> ps_section st' = Some s \<and>
    ps_file st' = extend_section s [d'] (ps_file st) \<and> directive_view d' = directive_view d"
proof -
  let ?l = "dr_key d @ CHR ''='' # dr_value d"
  note p = directive_line_plain[OF k v] and facts = key_word_facts[OF k]
  obtain c r where l: "?l = c # r" "c = hd (dr_key d)" using facts(5) by (cases "dr_key d") auto
  have trim: "trim ?l = ?l" "trim (dr_key d) = dr_key d" "trim (dr_value d) = dr_value d"
    using p v no_whitespace_trimmed[OF facts(2)] by (simp_all add: plain_line_def printable_value_def trim_trimmed)
  have "list_all (\<lambda>c. is_ascii_alphanumeric c \<or> c \<in> set ''_-'') (dr_key d)"
    using facts(6) by (auto simp: list_all_iff)
  then have d: "parse_directive n (Some s) ?l = Inr \<lparr>dr_section = s, dr_key = dr_key d, dr_value = dr_value d, dr_line = n\<rparr>"
    using facts trim by (simp add: parse_directive_def Let_def)
  have "parse_line (n, ?l) st = Inr (st\<lparr>ps_logical_line := n, ps_logical := [],
      ps_file := extend_section s [\<lparr>dr_section = s, dr_key = dr_key d, dr_value = dr_value d, dr_line = n\<rparr>] (ps_file st)\<rparr>)"
    unfolding parse_line_plain[OF p st(1)]
    using facts(9) l(2) d trim(1) st(2) unfolding l(1) by (simp add: parse_logical_def Let_def starts_with_hd)
  then show ?thesis using s st(2) unfolding directive_text_def
    by (intro exI[of _ "st\<lparr>ps_logical_line := n, ps_logical := [],
          ps_file := extend_section s [\<lparr>dr_section = s, dr_key = dr_key d, dr_value = dr_value d, dr_line = n\<rparr>] (ps_file st)\<rparr>"]
        exI[of _ "\<lparr>dr_section = s, dr_key = dr_key d, dr_value = dr_value d, dr_line = n\<rparr>"])
      (simp add: directive_view_def)
qed

lemma parse_directives_view:
  "(\<And>d. d \<in> set ds \<Longrightarrow> key_word (dr_key d) \<and> printable_value (dr_value d) \<and> dr_section d = s) \<Longrightarrow>
   ps_logical st = [] \<Longrightarrow> ps_section st = Some s \<Longrightarrow> file_view (ps_file st) s = Some before \<Longrightarrow> bmap_inv (nf_sections (ps_file st)) \<Longrightarrow>
   \<exists>st'. fold_try parse_line (List.enumerate n (map directive_text ds)) st = Inr st' \<and> ps_logical st' = [] \<and>
     bmap_inv (nf_sections (ps_file st')) \<and>
     file_view (ps_file st') = (file_view (ps_file st))(s \<mapsto> before @ map directive_view ds)"
proof (induction ds arbitrary: n st before)
  case Nil
  then show ?case by auto
next
  case (Cons d ds)
  from parse_line_directive[of d s st n] Cons.prems obtain st1 d' where
    1: "parse_line (n, directive_text d) st = Inr st1" "ps_logical st1 = []" "ps_section st1 = Some s"
      "ps_file st1 = extend_section s [d'] (ps_file st)" "directive_view d' = directive_view d"
    by auto
  have view: "file_view (ps_file st1) = (file_view (ps_file st))(s \<mapsto> before @ [directive_view d])"
    using Cons.prems(4) 1(5) by (auto simp: 1(4) file_view_extend)
  have "\<exists>st'. fold_try parse_line (List.enumerate (Suc n) (map directive_text ds)) st1 = Inr st' \<and> ps_logical st' = [] \<and>
     bmap_inv (nf_sections (ps_file st')) \<and>
     file_view (ps_file st') = (file_view (ps_file st1))(s \<mapsto> (before @ [directive_view d]) @ map directive_view ds)"
    using Cons.prems 1(2,3) view by (intro Cons.IH) (simp_all add: 1(4))
  moreover have "(file_view (ps_file st1))(s \<mapsto> (before @ [directive_view d]) @ map directive_view ds) =
      (file_view (ps_file st))(s \<mapsto> before @ map directive_view (d # ds))"
    unfolding view by simp
  moreover have "fold_try parse_line (List.enumerate n (map directive_text (d # ds))) st =
      fold_try parse_line (List.enumerate (Suc n) (map directive_text ds)) st1"
    using 1(1) by simp
  ultimately show ?case by metis
qed

lemma parse_section_view:
  assumes e: "printable_entry (s, ds)" and st: "ps_logical st = []" "bmap_inv (nf_sections (ps_file st))"
    and new: "file_view (ps_file st) s = None"
  shows "\<exists>st'. fold_try parse_line (List.enumerate n (section_lines (s, ds))) st = Inr st' \<and> ps_logical st' = [] \<and>
     bmap_inv (nf_sections (ps_file st')) \<and>
     file_view (ps_file st') = (file_view (ps_file st))(s \<mapsto> map directive_view ds)"
proof -
  from e obtain ks where ks: "allowed_keys s = Some ks"
    "\<And>d. d \<in> set ds \<Longrightarrow> dr_section d = s \<and> dr_key d \<in> set ks \<and> printable_value (dr_value d)"
    by (auto simp: printable_entry_def)
  have words: "key_word s" "\<And>k. k \<in> set ks \<Longrightarrow> key_word k"
    using allowed_key_words[OF ks(1)] by (auto simp: list_all_iff)
  from parse_line_header[OF words(1) st(1)] obtain st1 where
    h: "parse_line (n, CHR ''['' # s @ '']'') st = Inr st1" "ps_logical st1 = []" "ps_section st1 = Some s"
      "ps_file st1 = extend_section s [] (ps_file st)" by blast
  have view: "file_view (ps_file st1) = (file_view (ps_file st))(s \<mapsto> [])"
    using new by (auto simp: h(4) file_view_extend)
  have "\<exists>st'. fold_try parse_line (List.enumerate (Suc n) (map directive_text ds)) st1 = Inr st' \<and> ps_logical st' = [] \<and>
     bmap_inv (nf_sections (ps_file st')) \<and>
     file_view (ps_file st') = (file_view (ps_file st1))(s \<mapsto> [] @ map directive_view ds)"
    using ks(2) words(2) h(2,3) st(2) view by (intro parse_directives_view) (simp_all add: h(4))
  then show ?thesis using h(1) view by (simp add: section_lines_def)
qed

lemma enumerate_append: "List.enumerate n (xs @ ys) = List.enumerate n xs @ List.enumerate (n + length xs) ys"
  by (induction xs arbitrary: n) auto

lemma parse_sections_view:
  "(\<And>e. e \<in> set secs \<Longrightarrow> printable_entry e) \<Longrightarrow> distinct (map fst secs) \<Longrightarrow>
   ps_logical st = [] \<Longrightarrow> bmap_inv (nf_sections (ps_file st)) \<Longrightarrow>
   (\<And>e. e \<in> set secs \<Longrightarrow> file_view (ps_file st) (fst e) = None) \<Longrightarrow>
   \<exists>st'. fold_try parse_line (List.enumerate n (concat (map section_lines secs))) st = Inr st' \<and> ps_logical st' = [] \<and>
     bmap_inv (nf_sections (ps_file st')) \<and>
     (\<forall>t. file_view (ps_file st') t =
        (case map_of secs t of None \<Rightarrow> file_view (ps_file st) t | Some ds \<Rightarrow> Some (map directive_view ds)))"
proof (induction secs arbitrary: n st)
  case Nil
  then show ?case by simp
next
  case (Cons e secs)
  obtain s ds where e: "e = (s, ds)" by (cases e)
  have "printable_entry (s, ds)" "file_view (ps_file st) s = None" using Cons.prems(1,5)[of e] e by simp_all
  from parse_section_view[OF this(1) Cons.prems(3,4) this(2), of n] obtain st1 where
    1: "fold_try parse_line (List.enumerate n (section_lines (s, ds))) st = Inr st1" "ps_logical st1 = []"
      "bmap_inv (nf_sections (ps_file st1))"
      "file_view (ps_file st1) = (file_view (ps_file st))(s \<mapsto> map directive_view ds)" by blast
  have fresh: "file_view (ps_file st1) (fst e') = None" if "e' \<in> set secs" for e'
    using Cons.prems(2,5) that e by (auto simp: 1(4) image_iff)
  let ?n = "n + length (section_lines (s, ds))"
  obtain st' where 2: "fold_try parse_line (List.enumerate ?n (concat (map section_lines secs))) st1 = Inr st'"
      "ps_logical st' = []" "bmap_inv (nf_sections (ps_file st'))"
      "\<forall>t. file_view (ps_file st') t =
        (case map_of secs t of None \<Rightarrow> file_view (ps_file st1) t | Some ds \<Rightarrow> Some (map directive_view ds))"
    using Cons.IH[of st1 ?n] Cons.prems(1,2) 1(2,3) fresh by auto
  have "map_of secs s = None" using Cons.prems(2) e by (simp add: map_of_eq_None_iff)
  then have "file_view (ps_file st') t =
      (case map_of (e # secs) t of None \<Rightarrow> file_view (ps_file st) t | Some ds \<Rightarrow> Some (map directive_view ds))" for t
    using 2(4) e by (cases "map_of secs t") (auto simp: 1(4))
  then show ?case using 1(1) 2(1-3) e by (simp add: enumerate_append fold_try_append del: fold_try.simps)
qed

definition printable_file :: "native_file \<Rightarrow> bool" where
  "printable_file file \<longleftrightarrow> bmap_inv (nf_sections file) \<and> list_all printable_entry (nf_sections file)"

lemma rendered_line_plain:
  assumes "printable_entry e" and "l \<in> set (section_lines e)"
  shows "plain_line l"
proof -
  from assms(1) obtain ks where ks: "allowed_keys (fst e) = Some ks"
    "\<And>d. d \<in> set (snd e) \<Longrightarrow> dr_key d \<in> set ks \<and> printable_value (dr_value d)"
    by (auto simp: printable_entry_def)
  then show ?thesis using assms(2) allowed_key_words[OF ks(1)] header_line_plain[of "fst e"]
    by (auto simp: section_lines_def directive_text_def list_all_iff intro!: directive_line_plain)
qed

lemma view_schema:
  assumes "bmap_inv (nf_sections f1)" and "file_view f1 = file_view f0" and "validate_schema f0 = Inr ()"
    and "bmap_inv (nf_sections f0)"
  shows "validate_schema f1 = Inr ()"
  unfolding validate_schema_iff
proof (clarify)
  fix s ds assume "(s, ds) \<in> set (nf_sections f1)"
  then have "file_view f1 s = Some (map directive_view ds)" using assms(1) by (simp add: file_view_def bmap_entry)
  then obtain ds0 where ds0: "map_of (nf_sections f0) s = Some ds0" "map directive_view ds0 = map directive_view ds"
    using assms(2) by (auto simp: file_view_def)
  then have "(s, ds0) \<in> set (nf_sections f0)" using assms(4) by (simp add: bmap_entry)
  then obtain ks where ks: "allowed_keys s = Some ks" "\<forall>d \<in> set ds0. dr_key d \<in> set ks"
    using assms(3)[unfolded validate_schema_iff] by blast
  have "map dr_key ds = map dr_key ds0"
    using arg_cong[OF ds0(2), of "map (\<lambda>(_, k, _). k)"] by (simp add: directive_view_def comp_def)
  then have "set (map dr_key ds) = set (map dr_key ds0)" by simp
  then have "set (map dr_key ds) \<subseteq> set ks" using ks(2) by auto
  then show "\<exists>ks. allowed_keys s = Some ks \<and> (\<forall>d \<in> set ds. dr_key d \<in> set ks)" using ks(1) by auto
qed

lemma printable_schema: "printable_file f0 \<Longrightarrow> validate_schema f0 = Inr ()"
  unfolding validate_schema_iff printable_file_def list_all_iff printable_entry_def by fastforce

lemma view_printable:
  "(case map_of secs t of None \<Rightarrow> None | Some ds \<Rightarrow> Some (map directive_view ds)) =
     map_option (map directive_view) (map_of secs t)"
  by (cases "map_of secs t") simp_all

text \<open>
  C12: writing a file out and parsing it gives the file back: for every file whose sections and keys
  the schema knows and whose values can be written on one line, parsing its rendering succeeds and
  returns the same sections with the same keys and values in the same order.
\<close>

theorem native_parse_render:
  assumes "printable_file file"
  shows "\<exists>parsed. native_parse (render_file file) = Ok parsed \<and> file_view parsed = file_view file"
proof -
  let ?ls = "concat (map section_lines (nf_sections file))"
  have inv: "bmap_inv (nf_sections file)" "\<And>e. e \<in> set (nf_sections file) \<Longrightarrow> printable_entry e"
    using assms by (auto simp: printable_file_def list_all_iff)
  have lines: "lines (render_file file) = ?ls"
    unfolding render_file_def
    by (rule lines_unlines) (auto simp: plain_line_def strip_cr_trimmed dest!: inv(2) rendered_line_plain)
  have start: "file_view (ps_file parse_start) t = None" for t
    by (simp add: file_view_def parse_start_def native_file_default_def)
  have "\<exists>st'. fold_try parse_line (List.enumerate 1 ?ls) parse_start = Inr st' \<and> ps_logical st' = [] \<and>
     bmap_inv (nf_sections (ps_file st')) \<and>
     (\<forall>t. file_view (ps_file st') t =
        (case map_of (nf_sections file) t of None \<Rightarrow> file_view (ps_file parse_start) t
         | Some ds \<Rightarrow> Some (map directive_view ds)))"
    by (rule parse_sections_view[OF inv(2) bmap_keys_distinct[OF inv(1)]])
      (simp_all add: start, simp_all add: parse_start_def native_file_default_def)
  then obtain st' where st: "fold_try parse_line (List.enumerate 1 ?ls) parse_start = Inr st'"
      "ps_logical st' = []" "bmap_inv (nf_sections (ps_file st'))"
      "\<And>t. file_view (ps_file st') t = map_option (map directive_view) (map_of (nf_sections file) t)"
    unfolding start view_printable by blast
  have view: "file_view (ps_file st') = file_view file" using st(4) by (auto simp: file_view_def)
  then have "validate_schema (ps_file st') = Inr ()"
    using view_schema[OF st(3) _ printable_schema[OF assms] inv(1)] by simp
  then have "native_parse (render_file file) = Ok (ps_file st')"
    using st(1,2) unfolding native_parse_def lines by simp
  then show ?thesis using view by blast
qed

definition demo_file :: native_file where
  "demo_file = \<lparr>nf_sections =
     [(''dependencies'', [\<lparr>dr_section = ''dependencies'', dr_key = ''requires'', dr_value = ''db net'', dr_line = 5\<rparr>]),
      (''service'', [\<lparr>dr_section = ''service'', dr_key = ''exec'', dr_value = ''/bin/web'', dr_line = 2\<rparr>])]\<rparr>"

lemma demo_file_printable: "printable_file demo_file"
  by (simp add: printable_file_def demo_file_def bmap_inv_def printable_entry_def allowed_keys_def schema_def
      keys_service_def keys_dependencies_def printable_value_def trimmed_def is_cont_def has_continuation_def
      char_is_whitespace_single)

theorem native_parse_render_witness:
  "\<exists>parsed. native_parse (render_file demo_file) = Ok parsed \<and> file_view parsed = file_view demo_file"
  by (rule native_parse_render[OF demo_file_printable])


theorem merge_appends_overlay_witness:
  "value_of (merge_file native_file_default demo_file) ''service'' ''exec'' = Some ''/bin/web''"
proof -
  have "bmap_inv (nf_sections demo_file)" using demo_file_printable by (simp add: printable_file_def)
  moreover have "value_of demo_file ''service'' ''exec'' = Some ''/bin/web''"
    by (simp add: value_of_def effective_directives_def directives_def section_directives_def demo_file_def
        to_ascii_lowercase_def ascii_lower_def byte_class_defs)
  ultimately show ?thesis using merge_appends_overlay[of demo_file native_file_default] by simp
qed

end
