(* ===== verification/Config_Values.thy ===== *)
theory Config_Values
  imports Native_Config
begin

unbundle bit_operations_syntax

text \<open>
  The value parsers of \<open>crates/fractald-config/src/lib.rs\<close>: the word splitter, keywords, modes,
  limits, signals, exit statuses, capability, namespace and address family sets, device access,
  conditions. The tables are the source's match arms in its order; integers keep their width.
\<close>

section \<open>Words\<close>

definition hex_value :: "rchar \<Rightarrow> nat option" where
  "hex_value ch = (case ch of [c] \<Rightarrow> to_digit 16 c | _ \<Rightarrow> None)"

definition escape_char :: "rchar \<Rightarrow> rchar" where
  "escape_char ch =
     (if ch = ''n'' then [CHR 0x0A] else if ch = ''r'' then [CHR 0x0D]
      else if ch = ''t'' then [CHR 0x09] else ch)"

text \<open>
  The loop of \<open>split_words\<close>: its arguments after the characters are the locals \<open>escaped\<close>, \<open>quote\<close>,
  \<open>started\<close>, \<open>current\<close> and \<open>words\<close>. An \<open>\x\<close> escape consumes the two characters after it.
\<close>

fun split_words_loop ::
    "nat \<Rightarrow> rchar list \<Rightarrow> bool \<Rightarrow> rchar option \<Rightarrow> bool \<Rightarrow> string \<Rightarrow> string list \<Rightarrow> config_error + string list" where
  "split_words_loop line [] escaped quote started current words =
     (if escaped then Err (config_error_at line ''value ends with an escape'')
      else if quote \<noteq> None then Err (config_error_at line ''value has an unterminated quote'')
      else Ok (if started then words @ [current] else words))"
| "split_words_loop line (ch # cs) escaped quote started current words =
     (if escaped then
        (if ch = ''x'' then
           (case cs of
              high # low # rest \<Rightarrow>
                (case (hex_value high, hex_value low) of
                   (Some h, Some l) \<Rightarrow>
                     split_words_loop line rest False quote True (current @ utf8_encode (h * 16 + l)) words
                 | _ \<Rightarrow> Err (config_error_at line ''invalid hexadecimal escape''))
            | _ \<Rightarrow> Err (config_error_at line ''invalid hexadecimal escape''))
         else split_words_loop line cs False quote True (current @ escape_char ch) words)
      else if ch = [CHR 0x5C] then split_words_loop line cs True quote True current words
      else (case quote of
              Some active \<Rightarrow>
                if ch = active then split_words_loop line cs False None True current words
                else split_words_loop line cs False quote True (current @ ch) words
            | None \<Rightarrow>
                if ch = [CHR 0x27] \<or> ch = [CHR 0x22] then
                  split_words_loop line cs False (Some ch) True current words
                else if char_is_whitespace ch then
                  (if started then split_words_loop line cs False None False [] (words @ [current])
                   else split_words_loop line cs False None False current words)
                else split_words_loop line cs False None True (current @ ch) words))"

definition split_words :: "string \<Rightarrow> nat \<Rightarrow> config_error + string list" where
  "split_words value line = split_words_loop line (chars value) False None False [] []"

definition parse_command :: "string \<Rightarrow> nat \<Rightarrow> config_error + command_spec" where
  "parse_command value line =
     bind_res (split_words value line) (\<lambda>words.
       case words of
         [] \<Rightarrow> Err (config_error_at line ''command is empty'')
       | program # args \<Rightarrow> Ok ((command_spec_new program)\<lparr>cmd_args := args\<rparr>))"

section \<open>Conditions\<close>

fun condition_prefix_loop :: "bool \<Rightarrow> bool \<Rightarrow> string \<Rightarrow> bool \<times> bool \<times> string" where
  "condition_prefix_loop alternative negate [] = (alternative, negate, [])"
| "condition_prefix_loop alternative negate (c # rest) =
     (if c = CHR ''|'' then condition_prefix_loop True negate rest
      else if c = CHR ''!'' then condition_prefix_loop alternative (\<not> negate) rest
      else (alternative, negate, c # rest))"

definition condition_prefix :: "string \<Rightarrow> bool \<times> bool \<times> string" where
  "condition_prefix value = condition_prefix_loop False False value"

definition push_condition :: "condition list \<Rightarrow> condition \<Rightarrow> bool \<Rightarrow> condition list" where
  "push_condition destination cond alternative =
     (if \<not> alternative then destination @ [cond]
      else (case rev destination of
              CondAny values # front \<Rightarrow> rev front @ [CondAny (values @ [cond])]
            | previous # front \<Rightarrow> rev front @ [CondAny [previous, cond]]
            | [] \<Rightarrow> [cond]))"

definition valid_environment_name :: "string \<Rightarrow> bool" where
  "valid_environment_name value \<longleftrightarrow>
     (case chars value of
        [] \<Rightarrow> False
      | ch # cs \<Rightarrow> ascii_char (\<lambda>c. is_ascii_alphabetic c \<or> c = CHR ''_'') ch \<and>
          list_all (ascii_char (\<lambda>c. is_ascii_alphanumeric c \<or> c = CHR ''_'')) cs)"

definition parse_environment_condition ::
    "string \<Rightarrow> string \<Rightarrow> config_error + string \<times> string option" where
  "parse_environment_condition value key =
     (let (name, expected) = (case split_once CHR ''='' value of
                                None \<Rightarrow> (value, None) | Some (n, e) \<Rightarrow> (n, Some e))
      in if \<not> valid_environment_name name
         then Err (config_error_message (''invalid '' @ key @ '' environment name '' @ name))
         else Ok (name, expected))"

definition parse_needs_update_path :: "string \<Rightarrow> string \<Rightarrow> config_error + string" where
  "parse_needs_update_path value key =
     (if value = ''/etc'' \<or> value = ''/var'' then Ok value
      else Err (config_error_message (key @ '' must be /etc or /var'')))"

section \<open>Keywords\<close>

definition invalid :: "string \<Rightarrow> string \<Rightarrow> config_error" where
  "invalid key value = config_error_message (''invalid '' @ key @ ''='' @ value)"

definition parse_keyword :: "(string \<times> 'a) list \<Rightarrow> string \<Rightarrow> string \<Rightarrow> config_error + 'a" where
  "parse_keyword table key value =
     (case map_of table value of Some x \<Rightarrow> Ok x | None \<Rightarrow> Err (invalid key value))"

definition bool_table :: "(string \<times> bool) list" where
  "bool_table =
     [(''y'', True), (''yes'', True), (''true'', True), (''on'', True), (''1'', True),
      (''n'', False), (''no'', False), (''false'', False), (''off'', False), (''0'', False)]"

definition parse_bool :: "string \<Rightarrow> string \<Rightarrow> config_error + bool" where
  "parse_bool value key = parse_keyword bool_table key (to_ascii_lowercase (trim value))"

definition restart_table :: "(string \<times> restart_policy) list" where
  "restart_table =
     [(''never'', RestartNever), (''no'', RestartNever), (''on_success'', RestartOnSuccess),
      (''on_failure'', RestartOnFailure), (''on_abnormal'', RestartOnAbnormal),
      (''on_abort'', RestartOnAbort), (''always'', RestartAlways)]"

definition parse_restart :: "string \<Rightarrow> config_error + restart_policy" where
  "parse_restart value = parse_keyword restart_table ''restart'' (map (\<lambda>c. if c = CHR ''-'' then CHR ''_'' else c) (to_ascii_lowercase (trim value)))"

definition manager_action_table :: "(string \<times> manager_action) list" where
  "manager_action_table =
     [(''none'', ActionNone), (''exit'', ActionExit), (''halt'', ActionHalt),
      (''halt_force'', ActionHaltForce), (''poweroff'', ActionPoweroff),
      (''poweroff_force'', ActionPoweroffForce), (''reboot'', ActionReboot),
      (''reboot_force'', ActionRebootForce), (''kexec'', ActionKexec),
      (''kexec_force'', ActionKexecForce), (''soft_reboot'', ActionSoftReboot),
      (''soft_reboot_force'', ActionSoftRebootForce)]"

definition parse_manager_action :: "string \<Rightarrow> string \<Rightarrow> config_error + manager_action" where
  "parse_manager_action value key = parse_keyword manager_action_table key (to_ascii_lowercase (trim value))"

definition notify_access_table :: "(string \<times> notify_access) list" where
  "notify_access_table =
     [(''none'', NotifyNone), (''main'', NotifyMain), (''exec'', NotifyExec), (''all'', NotifyAll)]"

definition parse_notify_access :: "string \<Rightarrow> config_error + notify_access" where
  "parse_notify_access value = parse_keyword notify_access_table ''notify_access'' (to_ascii_lowercase (trim value))"

definition private_tmp_table :: "(string \<times> private_tmp_mode) list" where
  "private_tmp_table =
     [(''yes'', PrivateTmpYes), (''true'', PrivateTmpYes), (''on'', PrivateTmpYes),
      (''1'', PrivateTmpYes), (''no'', PrivateTmpNo), (''false'', PrivateTmpNo),
      (''off'', PrivateTmpNo), (''0'', PrivateTmpNo), (''disconnected'', PrivateTmpDisconnected)]"

definition parse_private_tmp :: "string \<Rightarrow> config_error + private_tmp_mode" where
  "parse_private_tmp value = parse_keyword private_tmp_table ''private_tmp'' (to_ascii_lowercase (trim value))"

definition protect_system_table :: "(string \<times> protect_system_mode) list" where
  "protect_system_table =
     [(''no'', ProtectSystemNo), (''false'', ProtectSystemNo), (''off'', ProtectSystemNo),
      (''0'', ProtectSystemNo), (''yes'', ProtectSystemYes), (''true'', ProtectSystemYes),
      (''on'', ProtectSystemYes), (''1'', ProtectSystemYes), (''full'', ProtectSystemFull),
      (''strict'', ProtectSystemStrict)]"

definition parse_protect_system :: "string \<Rightarrow> config_error + protect_system_mode" where
  "parse_protect_system value = parse_keyword protect_system_table ''protect_system'' (to_ascii_lowercase (trim value))"

definition protect_home_table :: "(string \<times> protect_home_mode) list" where
  "protect_home_table =
     [(''no'', ProtectHomeNo), (''false'', ProtectHomeNo), (''off'', ProtectHomeNo),
      (''0'', ProtectHomeNo), (''yes'', ProtectHomeYes), (''true'', ProtectHomeYes),
      (''on'', ProtectHomeYes), (''1'', ProtectHomeYes), (''read_only'', ProtectHomeReadOnly),
      (''tmpfs'', ProtectHomeTmpfs)]"

definition parse_protect_home :: "string \<Rightarrow> config_error + protect_home_mode" where
  "parse_protect_home value = parse_keyword protect_home_table ''protect_home'' (to_ascii_lowercase (trim value))"

definition protect_proc_table :: "(string \<times> protect_proc_mode) list" where
  "protect_proc_table =
     [(''default'', ProtectProcDefault), (''no_access'', ProtectProcNoAccess),
      (''invisible'', ProtectProcInvisible), (''ptraceable'', ProtectProcPtraceable)]"

definition parse_protect_proc :: "string \<Rightarrow> config_error + protect_proc_mode" where
  "parse_protect_proc value = parse_keyword protect_proc_table ''protect_proc'' (to_ascii_lowercase (trim value))"

definition proc_subset_table :: "(string \<times> proc_subset_mode) list" where
  "proc_subset_table =
     [(''all'', ProcSubsetAll), (''pid'', ProcSubsetPid)]"

definition parse_proc_subset :: "string \<Rightarrow> config_error + proc_subset_mode" where
  "parse_proc_subset value = parse_keyword proc_subset_table ''proc_subset'' (to_ascii_lowercase (trim value))"

definition device_policy_table :: "(string \<times> device_policy) list" where
  "device_policy_table =
     [(''auto'', DeviceAuto), (''closed'', DeviceClosed), (''strict'', DeviceStrict)]"

definition parse_device_policy :: "string \<Rightarrow> config_error + device_policy" where
  "parse_device_policy value = parse_keyword device_policy_table ''device_policy'' (to_ascii_lowercase (trim value))"

definition private_users_table :: "(string \<times> private_users_mode) list" where
  "private_users_table =
     [(''yes'', PrivateUsersSelfMapping), (''true'', PrivateUsersSelfMapping),
      (''self'', PrivateUsersSelfMapping), (''identity'', PrivateUsersIdentity),
      (''full'', PrivateUsersFull), (''no'', PrivateUsersNo), (''false'', PrivateUsersNo)]"

definition parse_private_users :: "string \<Rightarrow> config_error + private_users_mode" where
  "parse_private_users value = parse_keyword private_users_table ''private_users'' (to_ascii_lowercase (trim value))"

definition parse_output_mode :: "string \<Rightarrow> string \<Rightarrow> config_error + output_mode" where
  "parse_output_mode value key =
     (if value = ''journal'' then Ok OutputJournal
      else if value = ''null'' then Ok OutputNull
      else if value = ''inherit'' then Ok OutputInherit
      else if value = ''tty'' then Ok OutputTty
      else if value = ''socket'' then Ok OutputSocket
      else if starts_with value ''file:'' \<or> starts_with value ''append:'' then
        (let append = starts_with value ''append:'';
             path = (case split_once CHR '':'' value of None \<Rightarrow> [] | Some (_, p) \<Rightarrow> p)
         in if \<not> starts_with path ''/'' then Err (invalid key value)
            else Ok (OutputFile path append))
      else Err (invalid key value))"

definition parse_input_mode :: "string \<Rightarrow> string \<Rightarrow> config_error + input_mode" where
  "parse_input_mode value key =
     (if value = ''null'' then Ok InputNull
      else if value = ''inherit'' then Ok InputInherit
      else if value = ''tty'' then Ok InputTty
      else if value = ''socket'' then Ok InputSocket
      else (case strip_prefix ''file:'' value of
              Some path \<Rightarrow>
                if \<not> starts_with path ''/'' then Err (invalid key value) else Ok (InputFile path)
            | None \<Rightarrow> Err (invalid key value)))"

section \<open>Numbers\<close>

definition parse_mode :: "string \<Rightarrow> string \<Rightarrow> config_error + 32 word" where
  "parse_mode value key =
     (let digits = (case strip_prefix ''0o'' (trim value) of Some r \<Rightarrow> r | None \<Rightarrow> trim value)
      in case parse_unsigned 8 32 digits of
           None \<Rightarrow> Err (invalid key digits)
         | Some mode \<Rightarrow> if 4095 < mode then Err (invalid key digits) else Ok (of_nat mode))"

definition byte_suffixes :: "(string \<times> 64 word) list" where
  "byte_suffixes =
     [(''KiB'', push_bit 10 1), (''MiB'', push_bit 20 1), (''GiB'', push_bit 30 1), (''TiB'', push_bit 40 1),
      (''KB'', 1000), (''MB'', 1000000), (''GB'', 1000000000), (''TB'', 1000000000000)]"

fun find_suffix :: "(string \<times> 'm) list \<Rightarrow> string \<Rightarrow> (string \<times> 'm) option" where
  "find_suffix [] value = None"
| "find_suffix ((suffix, m) # rest) value =
     (case strip_suffix suffix value of Some number \<Rightarrow> Some (number, m) | None \<Rightarrow> find_suffix rest value)"

definition parse_limit :: "string \<Rightarrow> string \<Rightarrow> bool \<Rightarrow> config_error + limit_value" where
  "parse_limit raw key bytes =
     (let value = trim raw
      in if eq_ignore_ascii_case value ''max'' \<or> eq_ignore_ascii_case value ''infinity'' then Ok LimitMax
         else
           (let (number, multiplier) =
              (if bytes then
                 (case find_suffix byte_suffixes value of Some r \<Rightarrow> r | None \<Rightarrow> (value, 1))
               else (value, 1))
            in case parse_u64 number of
                 None \<Rightarrow> Err (invalid key value)
               | Some n \<Rightarrow>
                   (case checked_mul n multiplier of
                      None \<Rightarrow> Err (invalid key value)
                    | Some w \<Rightarrow> Ok (LimitValue w))))"

definition limit_range_invalid :: "limit_value \<Rightarrow> limit_value \<Rightarrow> bool" where
  "limit_range_invalid soft hard \<longleftrightarrow>
     (case (soft, hard) of
        (LimitMax, LimitValue _) \<Rightarrow> True
      | (LimitValue l, LimitValue r) \<Rightarrow> r < l
      | _ \<Rightarrow> False)"

definition parse_limit_range :: "string \<Rightarrow> string \<Rightarrow> bool \<Rightarrow> config_error + limit_range" where
  "parse_limit_range value key bytes =
     (let (soft, hard) = (case split_once CHR '':'' value of None \<Rightarrow> (value, value) | Some p \<Rightarrow> p)
      in bind_res (parse_limit soft key bytes) (\<lambda>soft.
         bind_res (parse_limit hard key bytes) (\<lambda>hard.
           if limit_range_invalid soft hard then Err (invalid key value)
           else Ok \<lparr>lr_soft = soft, lr_hard = hard\<rparr>)))"

definition signal_table :: "(string \<times> int) list" where
  "signal_table =
     [(''HUP'', 1), (''INT'', 2), (''QUIT'', 3), (''ILL'', 4), (''TRAP'', 5), (''ABRT'', 6),
      (''BUS'', 7), (''FPE'', 8), (''KILL'', 9), (''USR1'', 10), (''SEGV'', 11), (''USR2'', 12),
      (''PIPE'', 13), (''ALRM'', 14), (''TERM'', 15), (''CHLD'', 17), (''CONT'', 18),
      (''STOP'', 19), (''TSTP'', 20), (''TTIN'', 21), (''TTOU'', 22), (''URG'', 23),
      (''XCPU'', 24), (''XFSZ'', 25), (''VTALRM'', 26), (''PROF'', 27), (''WINCH'', 28),
      (''IO'', 29), (''PWR'', 30), (''SYS'', 31)]"

definition parse_signal :: "string \<Rightarrow> config_error + int" where
  "parse_signal raw =
     (let value = trim raw;
          normalized = (case strip_prefix ''SIG'' value of Some r \<Rightarrow> r | None \<Rightarrow> value)
      in bind_res
           (case map_of signal_table (to_ascii_uppercase normalized) of
              Some signal \<Rightarrow> Ok signal
            | None \<Rightarrow> ok_or (parse_i32 value) (invalid ''signal'' value))
           (\<lambda>signal. if signal \<le> 0 then Err (invalid ''signal'' value) else Ok signal))"

definition exit_table :: "(string \<times> int) list" where
  "exit_table =
     [(''OK'', 0), (''USAGE'', 64), (''DATAERR'', 65), (''NOINPUT'', 66), (''NOUSER'', 67),
      (''NOHOST'', 68), (''UNAVAILABLE'', 69), (''SOFTWARE'', 70), (''OSERR'', 71),
      (''OSFILE'', 72), (''CANTCREAT'', 73), (''IOERR'', 74), (''TEMPFAIL'', 75),
      (''PROTOCOL'', 76), (''NOPERM'', 77), (''CONFIG'', 78)]"

definition parse_exit_status :: "string \<Rightarrow> string \<Rightarrow> config_error + int" where
  "parse_exit_status value key =
     (if list_all (ascii_char (\<lambda>c. is_ascii_alphabetic c \<or> c = CHR ''_'')) (chars value) then
        (case parse_signal value of
           Ok signal \<Rightarrow> Ok signal
         | Err _ \<Rightarrow>
             (let name = (case strip_prefix ''EX_'' value of Some r \<Rightarrow> r | None \<Rightarrow> value)
              in ok_or (map_of exit_table name) (invalid key name)))
      else
        bind_res (ok_or (parse_i32 value) (invalid key value)) (\<lambda>status.
          if \<not> (0 \<le> status \<and> status \<le> 255) then Err (invalid key value) else Ok status))"

definition errno_table :: "(string \<times> int) list" where
  "errno_table =
     [(''KILL'', 0), (''EPERM'', 1), (''ENOENT'', 2), (''ESRCH'', 3), (''EINTR'', 4), (''EIO'', 5),
      (''E2BIG'', 7), (''EACCES'', 13), (''EFAULT'', 14), (''EBUSY'', 16), (''EEXIST'', 17),
      (''ENODEV'', 19), (''EINVAL'', 22), (''ENOSYS'', 38), (''ENOTEMPTY'', 39), (''ELOOP'', 40),
      (''EPIPE'', 32), (''ECANCELED'', 125)]"

definition parse_errno :: "string \<Rightarrow> string \<Rightarrow> config_error + int" where
  "parse_errno value key =
     (case map_of errno_table (to_ascii_uppercase value) of
        Some errno \<Rightarrow> Ok errno
      | None \<Rightarrow>
          (case parse_i32 value of
             Some n \<Rightarrow> if 1 \<le> n \<and> n \<le> 4095 then Ok n else Err (invalid key value)
           | None \<Rightarrow> Err (invalid key value)))"

section \<open>Sets as bit masks\<close>

definition all_linux_capabilities :: "64 word" where
  "all_linux_capabilities = push_bit 41 1 - 1"

definition all_linux_address_families :: "64 word" where
  "all_linux_address_families = push_bit 45 1 - 1"

definition capability_table :: "(string \<times> nat) list" where
  "capability_table =
     [(''CAP_CHOWN'', 0), (''CAP_DAC_OVERRIDE'', 1), (''CAP_DAC_READ_SEARCH'', 2),
      (''CAP_FOWNER'', 3), (''CAP_FSETID'', 4), (''CAP_KILL'', 5), (''CAP_SETGID'', 6),
      (''CAP_SETUID'', 7), (''CAP_SETPCAP'', 8), (''CAP_LINUX_IMMUTABLE'', 9),
      (''CAP_NET_BIND_SERVICE'', 10), (''CAP_NET_BROADCAST'', 11), (''CAP_NET_ADMIN'', 12),
      (''CAP_NET_RAW'', 13), (''CAP_IPC_LOCK'', 14), (''CAP_IPC_OWNER'', 15),
      (''CAP_SYS_MODULE'', 16), (''CAP_SYS_RAWIO'', 17), (''CAP_SYS_CHROOT'', 18),
      (''CAP_SYS_PTRACE'', 19), (''CAP_SYS_PACCT'', 20), (''CAP_SYS_ADMIN'', 21),
      (''CAP_SYS_BOOT'', 22), (''CAP_SYS_NICE'', 23), (''CAP_SYS_RESOURCE'', 24),
      (''CAP_SYS_TIME'', 25), (''CAP_SYS_TTY_CONFIG'', 26), (''CAP_MKNOD'', 27),
      (''CAP_LEASE'', 28), (''CAP_AUDIT_WRITE'', 29), (''CAP_AUDIT_CONTROL'', 30),
      (''CAP_SETFCAP'', 31), (''CAP_MAC_OVERRIDE'', 32), (''CAP_MAC_ADMIN'', 33),
      (''CAP_SYSLOG'', 34), (''CAP_WAKE_ALARM'', 35), (''CAP_BLOCK_SUSPEND'', 36),
      (''CAP_AUDIT_READ'', 37), (''CAP_PERFMON'', 38), (''CAP_BPF'', 39),
      (''CAP_CHECKPOINT_RESTORE'', 40)]"

definition address_family_table :: "(string \<times> nat) list" where
  "address_family_table =
     [(''AF_UNIX'', 1), (''AF_LOCAL'', 1), (''AF_INET'', 2), (''AF_INET6'', 10),
      (''AF_PACKET'', 17), (''AF_NETLINK'', 16), (''AF_ALG'', 38), (''AF_VSOCK'', 40),
      (''AF_QIPCRTR'', 42)]"

definition namespace_table :: "(string \<times> 32 word) list" where
  "namespace_table =
     [(''cgroup'', 0x02000000), (''ipc'', 0x08000000), (''net'', 0x40000000),
      (''mnt'', 0x00020000), (''pid'', 0x20000000), (''time'', 0x00000080), (''user'', 0x10000000),
      (''uts'', 0x04000000)]"

text \<open>The loops of \<open>parse_capabilities\<close> and \<open>parse_address_families\<close>: \<open>ALL\<close> returns at once.\<close>

fun bit_set_loop :: "(string \<times> nat) list \<Rightarrow> 64 word \<Rightarrow> string \<Rightarrow> string list \<Rightarrow> 64 word \<Rightarrow> config_error + 64 word" where
  "bit_set_loop table everything what [] result = Ok result"
| "bit_set_loop table everything what (name # names) result =
     (case map_of table (to_ascii_uppercase name) of
        Some b \<Rightarrow> bit_set_loop table everything what names (result OR push_bit b 1)
      | None \<Rightarrow>
          if to_ascii_uppercase name = ''ALL'' then Ok everything
          else Err (config_error_message (''invalid '' @ what @ '' '' @ to_ascii_uppercase name)))"

definition parse_capabilities :: "string \<Rightarrow> config_error + 64 word" where
  "parse_capabilities value =
     bind_res (split_words value 0) (\<lambda>names.
       bit_set_loop capability_table all_linux_capabilities ''capability'' names 0)"

definition parse_address_families :: "string \<Rightarrow> config_error + 64 word" where
  "parse_address_families value =
     bind_res (split_words value 0) (\<lambda>names.
       bit_set_loop address_family_table all_linux_address_families ''address family'' names 0)"

definition add_namespace :: "string \<Rightarrow> 32 word \<Rightarrow> config_error + 32 word" where
  "add_namespace name flags =
     (case map_of namespace_table name of
        Some f \<Rightarrow> Ok (flags OR f)
      | None \<Rightarrow> Err (config_error_message (''invalid namespace '' @ name)))"

definition parse_namespace_list :: "string \<Rightarrow> config_error + 32 word" where
  "parse_namespace_list value =
     bind_res (split_words value 0) (\<lambda>names. fold_try add_namespace names 0)"

definition parse_architectures :: "string \<Rightarrow> config_error + system_call_architectures" where
  "parse_architectures value =
     bind_res (split_words value 0) (\<lambda>values.
       if ''all'' \<in> set values then Ok ArchAll
       else (case values of
               first # _ \<Rightarrow>
                 if first = ''native'' then Ok ArchNative
                 else if first = ''x86_64'' \<or> first = ''x86-64'' then Ok ArchX86_64
                 else Err (invalid ''syscall_architectures'' value)
             | [] \<Rightarrow> Err (invalid ''syscall_architectures'' value)))"

definition delegate_controllers :: "string list" where
  "delegate_controllers = [''cpu'', ''cpuset'', ''io'', ''memory'', ''pids'', ''hugetlb'', ''rdma'', ''misc'', ''dmem'']"

definition add_controller :: "string \<Rightarrow> string list \<Rightarrow> config_error + string list" where
  "add_controller controller controllers =
     (if controller \<notin> set delegate_controllers
      then Err (config_error_message (''invalid delegate controller '' @ controller))
      else Ok (bset_insert controller controllers))"

definition parse_delegate :: "string \<Rightarrow> config_error + delegate_mode" where
  "parse_delegate raw =
     (let value = trim raw
      in if value \<in> {''yes'', ''true'', ''all''} then Ok DelegateAll
         else if value \<in> {''no'', ''false'', ''none''} then Ok DelegateNo
         else bind_res (split_words value 0) (\<lambda>words.
                map_res DelegateControllers (fold_try add_controller words [])))"

definition device_access_bit :: "rchar \<Rightarrow> 8 word option" where
  "device_access_bit ch =
     (if ch = ''r'' then Some 2 else if ch = ''w'' then Some 4 else if ch = ''m'' then Some 1 else None)"

definition add_device_access :: "string \<Rightarrow> nat \<Rightarrow> rchar \<Rightarrow> 8 word \<Rightarrow> config_error + 8 word" where
  "add_device_access value line ch access =
     (case device_access_bit ch of
        None \<Rightarrow> Err (config_error_at line (''invalid device access '' @ value))
      | Some b \<Rightarrow>
          if access AND b \<noteq> 0 then Err (config_error_at line (''duplicate device access '' @ value))
          else Ok (access OR b))"

definition parse_device_access :: "string \<Rightarrow> nat \<Rightarrow> config_error + 8 word" where
  "parse_device_access value line =
     bind_res (fold_try (add_device_access value line) (chars value) 0) (\<lambda>access.
       if access = 0 then Err (config_error_at line ''device access is empty'') else Ok access)"

definition canonical_filesystem_type :: "string \<Rightarrow> string" where
  "canonical_filesystem_type value =
     (let lower = to_ascii_lowercase value
      in if lower = ''fat'' \<or> lower = ''msdos'' then ''vfat''
         else if lower = ''ext'' then ''ext4'' else lower)"

definition normalize_listener_address :: "string \<Rightarrow> string" where
  "normalize_listener_address value =
     (case parse_unsigned 10 16 value of
        None \<Rightarrow> value
      | Some port \<Rightarrow> ''0.0.0.0:'' @ show_nat port)"

section \<open>Typed lookups\<close>

definition required :: "native_file \<Rightarrow> string \<Rightarrow> string \<Rightarrow> config_error + string" where
  "required file section key =
     (case value_of file section key of
        Some v \<Rightarrow> if trim v \<noteq> [] then Ok v
                   else Err (config_error_message (''['' @ section @ ''] has no '' @ key))
      | None \<Rightarrow> Err (config_error_message (''['' @ section @ ''] has no '' @ key)))"

definition line_of :: "native_file \<Rightarrow> string \<Rightarrow> string \<Rightarrow> nat" where
  "line_of file section key =
     (case rev (directives file section key) of [] \<Rightarrow> 0 | d # _ \<Rightarrow> dr_line d)"

definition list_values :: "native_file \<Rightarrow> string \<Rightarrow> string \<Rightarrow> config_error + string list" where
  "list_values file section key =
     fold_try (\<lambda>d values. map_res (\<lambda>ws. values @ ws) (split_words (dr_value d) (dr_line d)))
       (effective_directives file section key) []"

definition list_values_optional :: "native_file \<Rightarrow> string \<Rightarrow> string \<Rightarrow> config_error + string list option" where
  "list_values_optional file section key =
     (if effective_directives file section key = [] then Ok None
      else map_res Some (list_values file section key))"

definition values_as_strings :: "native_file \<Rightarrow> string \<Rightarrow> string \<Rightarrow> string list" where
  "values_as_strings file section key =
     filter (\<lambda>v. v \<noteq> []) (map dr_value (effective_directives file section key))"

definition bool_value :: "native_file \<Rightarrow> string \<Rightarrow> string \<Rightarrow> config_error + bool option" where
  "bool_value file section key = transpose_map (\<lambda>v. parse_bool v key) (value_of file section key)"

definition number_value :: "native_file \<Rightarrow> string \<Rightarrow> config_error + 64 word option" where
  "number_value file key =
     transpose_map (\<lambda>v. ok_or (parse_u64 v) (invalid key v)) (value_of file ''resources'' key)"

definition limit_value_of :: "native_file \<Rightarrow> string \<Rightarrow> bool \<Rightarrow> config_error + limit_value option" where
  "limit_value_of file key bytes =
     transpose_map (\<lambda>v. parse_limit v key bytes) (value_of file ''resources'' key)"

definition check_path :: "string \<Rightarrow> string \<Rightarrow> string \<Rightarrow> unit \<Rightarrow> config_error + unit" where
  "check_path section key value _ =
     (if unsafe_path value
      then Err (config_error_message (section @ ''.'' @ key @ '' path is unsafe: '' @ value))
      else Ok ())"

definition paths :: "native_file \<Rightarrow> string \<Rightarrow> string \<Rightarrow> config_error + string list" where
  "paths file section key =
     bind_res (list_values file section key) (\<lambda>values.
     bind_res (fold_try (check_path section key) values ()) (\<lambda>_. Ok values))"

definition validate_name :: "string \<Rightarrow> config_error + unit" where
  "validate_name value =
     (if value = [] \<or> value = ''.'' \<or> value = ''..'' \<or> CHR ''/'' \<in> set value \<or> has_space_or_control value
      then Err \<lparr>ce_line = None, ce_message = InvalidServiceName value\<rparr>
      else Ok ())"

definition validate_credential_name :: "string \<Rightarrow> nat \<Rightarrow> config_error + unit" where
  "validate_credential_name value line =
     (if value = [] \<or> value = ''.'' \<or> value = ''..'' \<or> value = ''.fractald-owner'' \<or>
         \<not> list_all (\<lambda>c. is_ascii_alphanumeric c \<or> c \<in> set ''_-.'') value
      then Err (config_error_at line (''invalid credential name '' @ value))
      else Ok ())"

definition validate_credential_name_template :: "string \<Rightarrow> bool" where
  "validate_credential_name_template value \<longleftrightarrow>
     value \<noteq> [] \<and> list_all (\<lambda>c. is_ascii_alphanumeric c \<or> c \<in> set ''_-.*'') value"

section \<open>Word splitting\<close>

text \<open>
  A way to write any word: in double quotes, with backslash and double quote escaped. On
  characters, so that the words may hold any text.
\<close>

definition quote_chars :: "rchar list \<Rightarrow> rchar list" where
  "quote_chars cs =
     [[CHR 0x22]] @ concat (map (\<lambda>ch. if ch = [CHR 0x5C] \<or> ch = [CHR 0x22] then [[CHR 0x5C], ch] else [ch]) cs) @ [[CHR 0x22]]"

fun quote_all :: "string list \<Rightarrow> rchar list" where
  "quote_all [] = []"
| "quote_all [w] = quote_chars (chars w)"
| "quote_all (w # v # ws) = quote_chars (chars w) @ [CHR '' ''] # quote_all (v # ws)"

definition quote_words :: "string list \<Rightarrow> string" where
  "quote_words ws = concat (quote_all ws)"

lemma quoted_body:
  "(\<And>ch. ch \<in> set cs \<Longrightarrow> ch \<noteq> []) \<Longrightarrow>
   split_words_loop line (concat (map (\<lambda>ch. if ch = [CHR 0x5C] \<or> ch = [CHR 0x22] then [[CHR 0x5C], ch] else [ch]) cs) @ rest)
      False (Some [CHR 0x22]) True current words =
     split_words_loop line rest False (Some [CHR 0x22]) True (current @ concat cs) words"
proof (induction cs arbitrary: current)
  case Nil
  then show ?case by simp
next
  case (Cons ch cs)
  have IH: "split_words_loop line (concat (map (\<lambda>ch. if ch = [CHR 0x5C] \<or> ch = [CHR 0x22] then [[CHR 0x5C], ch] else [ch]) cs) @ rest)
      False (Some [CHR 0x22]) True c words =
     split_words_loop line rest False (Some [CHR 0x22]) True (c @ concat cs) words" for c
    using Cons by simp
  show ?case by (cases "ch = [CHR 0x5C]"; cases "ch = [CHR 0x22]") (simp_all add: IH escape_char_def)
qed

lemma quoted_word:
  assumes "\<And>ch. ch \<in> set cs \<Longrightarrow> ch \<noteq> []"
  shows "split_words_loop line (quote_chars cs @ rest) False None False [] words =
     split_words_loop line rest False None True (concat cs) words"
  using quoted_body[where cs = cs and line = line and rest = "[CHR 0x22] # rest" and current = "[]" and words = words] assms
  by (simp add: quote_chars_def)

lemma quote_all_split:
  "split_words_loop line (quote_all ws) False None False [] words = Inr (words @ ws)"
proof (induction ws arbitrary: words rule: quote_all.induct)
  case 1
  then show ?case by simp
next
  case (2 w)
  then show ?case using quoted_word[where cs = "chars w" and line = line and rest = "[]" and words = words] by (simp add: chars_nonempty)
next
  case (3 w v ws)
  then show ?case using quoted_word[where cs = "chars w" and line = line and rest = "[CHR '' ''] # quote_all (v # ws)" and words = words]
    by (simp add: chars_nonempty)
qed

lemma quote_all_shape:
  "(\<And>w. w \<in> set ws \<Longrightarrow> starts_char w) \<Longrightarrow> list_all (\<lambda>ch. char_shape ch \<and> \<not> is_cont (hd ch)) (quote_all ws)"
proof (induction ws rule: quote_all.induct)
  case (2 w)
  then show ?case using chars_heads[of w]
    by (auto simp: quote_chars_def list_all_iff char_shape_def is_cont_def)
next
  case (3 w v ws)
  have "list_all (\<lambda>ch. char_shape ch \<and> \<not> is_cont (hd ch)) (quote_chars (chars w))"
    using 3 chars_heads[of w] by (auto simp: quote_chars_def list_all_iff char_shape_def is_cont_def)
  then show ?case using 3 by (simp add: char_shape_def)
qed simp

text \<open>
  C29: every list of words can be written in a configuration value: splitting the quoted words,
  separated by spaces, returns exactly the words, empty ones and ones with blanks, quotes and
  backslashes included.
\<close>

theorem split_words_quoted:
  assumes "\<And>w. w \<in> set ws \<Longrightarrow> starts_char w"
  shows "split_words (quote_words ws) line = Ok ws"
proof -
  have "char_list (quote_all ws)"
    using quote_all_shape[of ws] assms unfolding char_list_def list_all_iff by (cases "quote_all ws") auto
  then have "chars (quote_words ws) = quote_all ws" unfolding quote_words_def by (rule chars_concat)
  then show ?thesis by (simp add: split_words_def quote_all_split)
qed

theorem split_words_quoted_witness:
  "split_words (quote_words [''a b'', [], [CHR 0x22, CHR 0x5C]]) 7 = Ok [''a b'', [], [CHR 0x22, CHR 0x5C]]"
  by (rule split_words_quoted) (auto simp: is_cont_def)

text \<open>Words without quotes, backslashes and blanks need no quoting.\<close>

definition plain_char :: "rchar \<Rightarrow> bool" where
  "plain_char ch \<longleftrightarrow> \<not> char_is_whitespace ch \<and> ch \<noteq> [CHR 0x5C] \<and> ch \<noteq> [CHR 0x22] \<and> ch \<noteq> [CHR 0x27]"

definition plain_word :: "string \<Rightarrow> bool" where
  "plain_word w \<longleftrightarrow> w \<noteq> [] \<and> starts_char w \<and> list_all plain_char (chars w)"

lemma plain_chars_split:
  "list_all plain_char cs \<Longrightarrow> cs \<noteq> [] \<or> started \<Longrightarrow>
   split_words_loop line (cs @ rest) False None started current words =
     split_words_loop line rest False None True (current @ concat cs) words"
  by (induction cs arbitrary: current started) (auto simp: plain_char_def)

lemma plain_words_split:
  "(\<And>w. w \<in> set ws \<Longrightarrow> plain_word w) \<Longrightarrow>
   split_words_loop line (chars (join '' '' ws)) False None False [] words = Inr (words @ ws)"
proof (induction "'' ''" ws arbitrary: words rule: join.induct)
  case 1
  then show ?case by simp
next
  case (2 w)
  then show ?case using plain_chars_split[of "chars w" False line "[]" "[]" words] by (simp add: plain_word_def)
next
  case (3 w v ws)
  have next_char: "starts_char (join '' '' (v # ws))"
  proof -
    have "v \<noteq> []" "starts_char v" using 3 by (simp_all add: plain_word_def)
    then show ?thesis by (cases ws) (auto simp: starts_char_def)
  qed
  have "chars (w @ '' '' @ join '' '' (v # ws)) = chars w @ chars ('' '' @ join '' '' (v # ws))"
    by (rule chars_append) simp
  also have "chars ('' '' @ join '' '' (v # ws)) = '' '' # chars (join '' '' (v # ws))"
    using next_char chars_Cons_ascii_next[of "join '' '' (v # ws)" "CHR '' ''"] by (simp add: starts_char_def)
  finally have ch: "chars (join '' '' (w # v # ws)) = chars w @ '' '' # chars (join '' '' (v # ws))" by simp
  have "plain_word w" using 3 by simp
  then show ?case unfolding ch
    using plain_chars_split[of "chars w" False line "'' '' # chars (join '' '' (v # ws))" "[]" words] 3
    by (simp add: plain_word_def)
qed

lemma split_words_plain: "(\<And>w. w \<in> set ws \<Longrightarrow> plain_word w) \<Longrightarrow> split_words (join '' '' ws) line = Ok ws"
  using plain_words_split[of ws line "[]"] by (simp add: split_words_def)

section \<open>Conditions\<close>

text \<open>
  What a list of conditions means, given the truth of the simple ones: all of them hold, and an
  alternative group holds when one of its members does.
\<close>

fun condition_holds :: "(condition \<Rightarrow> bool) \<Rightarrow> condition \<Rightarrow> bool" where
  "condition_holds atom (CondAny cs) \<longleftrightarrow> (\<exists>c \<in> set cs. condition_holds atom c)"
| "condition_holds atom c \<longleftrightarrow> atom c"

definition all_hold :: "(condition \<Rightarrow> bool) \<Rightarrow> condition list \<Rightarrow> bool" where
  "all_hold atom cs \<longleftrightarrow> (\<forall>c \<in> set cs. condition_holds atom c)"

lemma all_hold_append: "all_hold atom (cs @ ds) \<longleftrightarrow> all_hold atom cs \<and> all_hold atom ds"
  by (auto simp: all_hold_def)

text \<open>
  Pushing a condition means what its prefix says: a plain condition is required in addition to
  the list, an alternative one (\<open>|\<close>) may hold in place of the last entry of the list.
\<close>

theorem push_condition_meaning:
  "all_hold atom (push_condition conds cond alternative) \<longleftrightarrow>
     (if alternative \<and> conds \<noteq> []
      then all_hold atom (butlast conds) \<and> (condition_holds atom (last conds) \<or> condition_holds atom cond)
      else all_hold atom conds \<and> condition_holds atom cond)"
proof (cases "alternative \<and> conds \<noteq> []")
  case True
  then obtain front c where conds: "conds = front @ [c]" by (metis append_butlast_last_id)
  then show ?thesis using True
    by (cases c) (auto simp: push_condition_def all_hold_append all_hold_def)
next
  case False
  then show ?thesis by (cases alternative) (auto simp: push_condition_def all_hold_append all_hold_def)
qed

section \<open>Bit sets\<close>

lemma bit_or_push: "bit (w OR 2 ^ b) n \<longleftrightarrow> bit w n \<or> n = b \<and> b < 64" for w :: "64 word"
  by (auto simp: bit_or_iff bit_exp_iff)

lemma bit_set_loop_ok:
  assumes "bit_set_loop table everything what names result = Inr w"
  shows "w = everything \<or>
     (\<forall>n. bit w n \<longleftrightarrow> bit result n \<or>
       (n < 64 \<and> (\<exists>name \<in> set names. map_of table (to_ascii_uppercase name) = Some n)))"
  using assms
proof (induction names arbitrary: result)
  case Nil
  then show ?case by simp
next
  case (Cons name names)
  show ?case
  proof (cases "map_of table (to_ascii_uppercase name)")
    case None
    then show ?thesis using Cons.prems by (auto split: if_splits)
  next
    case (Some b)
    then have "bit_set_loop table everything what names (result OR 2 ^ b) = Inr w" using Cons.prems by simp
    from Cons.IH[OF this] show ?thesis using Some by (auto simp: bit_or_push)
  qed
qed

lemma capability_bits: "map_of capability_table name = Some n \<Longrightarrow> n < 41"
proof -
  have "list_all (\<lambda>(_, n). n < 41) capability_table" by (simp add: capability_table_def)
  then show "map_of capability_table name = Some n \<Longrightarrow> n < 41"
    using map_of_SomeD[of capability_table name n] by (auto simp: list_all_iff)
qed

lemma all_capabilities_bits: "bit all_linux_capabilities n \<longleftrightarrow> n < 41"
proof -
  have "all_linux_capabilities = (mask 41 :: 64 word)"
    by (simp add: all_linux_capabilities_def mask_eq_exp_minus_1)
  then have "bit all_linux_capabilities n \<longleftrightarrow> bit (mask 41 :: 64 word) n" by (simp only:)
  then show ?thesis unfolding bit_mask_iff by (auto simp: possible_bit_def)
qed

lemma parse_capabilities_known:
  assumes "parse_capabilities value = Inr w" "bit w n"
  shows "n < 41"
proof -
  from assms(1)[unfolded parse_capabilities_def bind_res_eq_Inr] obtain names where
    "bit_set_loop capability_table all_linux_capabilities ''capability'' names 0 = Inr w" by blast
  from bit_set_loop_ok[OF this] show ?thesis
    using assms(2) capability_bits by (auto simp: all_capabilities_bits)
qed

text \<open>
  A capability set holds exactly the listed capabilities: an accepted list without \<open>ALL\<close> sets
  bit \<open>n\<close> if and only if it names capability \<open>n\<close>, and no accepted value sets a bit beyond the 41 known
  capabilities.
\<close>

theorem parse_capabilities_bits:
  assumes "parse_capabilities value = Ok w"
  shows "(\<forall>n. bit w n \<longrightarrow> n < 41) \<and>
    (w = all_linux_capabilities \<or>
     (\<exists>names. split_words value 0 = Ok names \<and>
       (\<forall>n. bit w n \<longleftrightarrow> (\<exists>name \<in> set names. map_of capability_table (to_ascii_uppercase name) = Some n))))"
proof -
  from assms[unfolded parse_capabilities_def bind_res_eq_Inr] obtain names where
    n: "split_words value 0 = Inr names"
       "bit_set_loop capability_table all_linux_capabilities ''capability'' names 0 = Inr w" by blast
  from bit_set_loop_ok[OF n(2)] consider "w = all_linux_capabilities"
    | "\<And>n. bit w n \<longleftrightarrow> n < 64 \<and> (\<exists>name \<in> set names. map_of capability_table (to_ascii_uppercase name) = Some n)"
    by auto
  then show ?thesis
  proof cases
    case 1
    then show ?thesis by (simp add: all_capabilities_bits)
  next
    case 2
    have "n < 64" if "map_of capability_table x = Some n" for x n using capability_bits[OF that] by simp
    then show ?thesis using 2 n(1) capability_bits by fastforce
  qed
qed

lemma demo_capability_words: "split_words ''CAP_KILL CAP_CHOWN'' 0 = Ok [''CAP_KILL'', ''CAP_CHOWN'']"
proof -
  have "split_words (join '' '' [''CAP_KILL'', ''CAP_CHOWN'']) 0 = Ok [''CAP_KILL'', ''CAP_CHOWN'']"
    by (rule split_words_plain) (auto simp: plain_word_def plain_char_def is_cont_def char_is_whitespace_single)
  then show ?thesis by simp
qed

theorem parse_capabilities_bits_witness:
  "parse_capabilities ''CAP_KILL CAP_CHOWN'' = Ok 33 \<and> \<not> bit (33 :: 64 word) 41"
proof -
  have "parse_capabilities ''CAP_KILL CAP_CHOWN'' = Ok 33"
    by (simp add: parse_capabilities_def demo_capability_words capability_table_def to_ascii_uppercase_def
        ascii_upper_def byte_class_defs push_bit_eq_mult)
  then show ?thesis using parse_capabilities_bits[of "''CAP_KILL CAP_CHOWN''" 33] by fastforce
qed

section \<open>Sizes\<close>

text \<open>The suffix table is searched in order and no entry hides a later one.\<close>

lemma find_byte_suffix: "(suffix, m) \<in> set byte_suffixes \<Longrightarrow> find_suffix byte_suffixes (x @ suffix) = Some (x, m)"
  by (auto simp: byte_suffixes_def strip_suffix_rev strip_prefix_Cons)

lemma byte_suffix_letters:
  "(suffix, m) \<in> set byte_suffixes \<Longrightarrow> \<forall>c \<in> set suffix. 33 \<le> byte_val c \<and> byte_val c < 128"
  by (auto simp: byte_suffixes_def)

lemma number_trimmed:
  assumes "\<forall>c \<in> set suffix. 33 \<le> byte_val c \<and> byte_val c < 128"
  shows "trim (show_nat n @ suffix) = show_nat n @ suffix"
proof -
  have b: "33 \<le> byte_val c \<and> byte_val c < 128" if c: "c \<in> set (show_nat n @ suffix)" for c
  proof (cases "c \<in> set suffix")
    case True
    then show ?thesis using assms by blast
  next
    case False
    then have "is_ascii_digit c" using c show_nat_digits[of c n] by simp
    then show ?thesis by (simp add: byte_class_defs)
  qed
  then have ascii: "is_ascii (show_nat n @ suffix)" unfolding is_ascii_def list_all_iff is_ascii_byte_def by blast
  have "byte_val c \<notin> {9, 10, 11, 12, 13, 32}" if "c \<in> set (show_nat n @ suffix)" for c using b[OF that] by auto
  then have "no_whitespace (show_nat n @ suffix)" unfolding no_whitespace_ascii[OF ascii] by blast
  then show ?thesis by (simp add: trim_trimmed no_whitespace_trimmed)
qed

lemma number_not_keyword:
  "\<not> eq_ignore_ascii_case (show_nat n @ s) ''max''" "\<not> eq_ignore_ascii_case (show_nat n @ s) ''infinity''"
proof -
  obtain c r where cr: "show_nat n = c # r" by (cases "show_nat n") auto
  then have "is_ascii_digit c" using show_nat_digits[of c n] by simp
  then have "ascii_lower c \<noteq> ascii_lower CHR ''m''" "ascii_lower c \<noteq> ascii_lower CHR ''i''"
    by (auto simp: ascii_lower_def byte_class_defs)
  then show "\<not> eq_ignore_ascii_case (show_nat n @ s) ''max''" "\<not> eq_ignore_ascii_case (show_nat n @ s) ''infinity''"
    using cr by (simp_all add: eq_ignore_ascii_case_def to_ascii_lowercase_def)
qed

lemma parse_u64_number: "parse_u64 (show_nat n) = (if n < 2 ^ 64 then Some (of_nat n) else None)"
proof -
  obtain c r where s: "show_nat n = c # r" by (cases "show_nat n") auto
  then have "is_ascii_digit c" using show_nat_digits[of c n] by simp
  then have "c \<noteq> CHR ''+''" by (simp add: digit_not_special)
  then show ?thesis using s digits_value_show_nat[of n] by (simp add: parse_u64_def parse_unsigned_def)
qed

text \<open>
  A size is its number times its unit, exactly or not at all: \<open>parse_limit\<close> on a decimal number
  with any of the eight byte suffixes returns the product when it fits in 64 bits and refuses the
  value when the number or the product does not; it never wraps around.
\<close>

theorem parse_limit_exact:
  assumes "(suffix, m) \<in> set byte_suffixes"
  shows "parse_limit (show_nat n @ suffix) key True =
     (if n * unat m < 2 ^ 64 then Ok (LimitValue (of_nat (n * unat m)))
      else Err (invalid key (show_nat n @ suffix)))"
proof -
  have m: "0 < unat m" using assms by (auto simp: byte_suffixes_def)
  have big: "n \<le> n * unat m" using m by simp
  have "parse_limit (show_nat n @ suffix) key True =
      (case parse_u64 (show_nat n) of
         None \<Rightarrow> Err (invalid key (show_nat n @ suffix))
       | Some k \<Rightarrow> (case checked_mul k m of
                      None \<Rightarrow> Err (invalid key (show_nat n @ suffix)) | Some w \<Rightarrow> Ok (LimitValue w)))"
    unfolding parse_limit_def number_trimmed[OF byte_suffix_letters[OF assms]]
    by (simp add: number_not_keyword find_byte_suffix[OF assms] Let_def)
  also have "\<dots> = (if n * unat m < 2 ^ 64 then Ok (LimitValue (of_nat (n * unat m)))
      else Err (invalid key (show_nat n @ suffix)))"
  proof (cases "n < 2 ^ 64")
    case True
    then have "unat (of_nat n :: 64 word) = n" by (simp add: unsigned_of_nat take_bit_nat_eq_self)
    then show ?thesis using True by (simp add: parse_u64_number checked_mul_def)
  next
    case False
    then have "\<not> n * unat m < 2 ^ 64" using big by linarith
    then show ?thesis using False by (simp add: parse_u64_number)
  qed
  finally show ?thesis .
qed

theorem parse_limit_exact_witness:
  "parse_limit (show_nat 3 @ ''KiB'') ''memory_max'' True = Ok (LimitValue 3072)"
  using parse_limit_exact[of "''KiB''" "push_bit 10 1" 3 "''memory_max''"] by (simp add: byte_suffixes_def)

section \<open>Statuses\<close>

lemma parse_i32_alphabetic:
  assumes "\<forall>c \<in> set s. is_ascii_alphabetic c \<or> c = CHR ''_''"
  shows "parse_i32 s = None"
proof (cases s)
  case Nil
  then show ?thesis by (simp add: parse_i32_def)
next
  case (Cons c r)
  then have "is_ascii_alphabetic c \<or> c = CHR ''_''" using assms by simp
  then show ?thesis using Cons by (intro parse_i32_nondigit[of c]) (auto simp: to_digit_def byte_class_defs)
qed

lemma signal_table_range: "map_of signal_table s = Some n \<Longrightarrow> 1 \<le> n \<and> n \<le> 31"
proof -
  have "list_all (\<lambda>(_, n). 1 \<le> n \<and> n \<le> 31) signal_table" by (simp add: signal_table_def)
  then show "map_of signal_table s = Some n \<Longrightarrow> 1 \<le> n \<and> n \<le> 31"
    using map_of_SomeD[of signal_table s n] by (auto simp: list_all_iff)
qed

lemma exit_table_range: "map_of exit_table s = Some n \<Longrightarrow> 0 \<le> n \<and> n \<le> 78"
proof -
  have "list_all (\<lambda>(_, n). 0 \<le> n \<and> n \<le> 78) exit_table" by (simp add: exit_table_def)
  then show "map_of exit_table s = Some n \<Longrightarrow> 0 \<le> n \<and> n \<le> 78"
    using map_of_SomeD[of exit_table s n] by (auto simp: list_all_iff)
qed

lemma alphabetic_chars:
  assumes "list_all (ascii_char (\<lambda>c. is_ascii_alphabetic c \<or> c = CHR ''_'')) (chars s)"
  shows "\<forall>c \<in> set s. is_ascii_alphabetic c \<or> c = CHR ''_''" "trim s = s"
proof -
  have c: "ascii_char (\<lambda>c. is_ascii_alphabetic c \<or> c = CHR ''_'') ch" if "ch \<in> set (chars s)" for ch
    using assms that by (simp add: list_all_iff)
  show "\<forall>c \<in> set s. is_ascii_alphabetic c \<or> c = CHR ''_''"
  proof
    fix c assume "c \<in> set s"
    then have "c \<in> set (concat (chars s))" by simp
    then obtain ch where ch: "ch \<in> set (chars s)" "c \<in> set ch" unfolding set_concat by blast
    then show "is_ascii_alphabetic c \<or> c = CHR ''_''"
      using c[OF ch(1)] by (auto simp: ascii_char_def split: list.splits)
  qed
  have "\<not> char_is_whitespace ch" if "ch \<in> set (chars s)" for ch
    using c[OF that] by (auto simp: ascii_char_def char_is_whitespace_single byte_class_defs split: list.splits)
  then have "no_whitespace s" by (simp add: no_whitespace_def list_all_iff)
  then show "trim s = s" by (simp add: trim_trimmed no_whitespace_trimmed)
qed

lemma parse_exit_status_bounds:
  assumes "parse_exit_status value key = Ok status"
  shows "0 \<le> status \<and> status \<le> 255"
proof (cases "list_all (ascii_char (\<lambda>c. is_ascii_alphabetic c \<or> c = CHR ''_'')) (chars value)")
  case True
  note a = alphabetic_chars[OF True]
  show ?thesis
  proof (cases "parse_signal value")
    case (Inl e)
    then show ?thesis using assms True exit_table_range by (fastforce simp: parse_exit_status_def Let_def)
  next
    case (Inr n)
    then have "status = n" using assms True by (simp add: parse_exit_status_def)
    moreover have "\<exists>s. map_of signal_table s = Some n"
      using Inr parse_i32_alphabetic[OF a(1)]
      by (auto simp: parse_signal_def a(2) Let_def bind_res_eq_Inr split: option.splits if_splits)
    ultimately show ?thesis using signal_table_range by force
  qed
next
  case False
  then show ?thesis using assms by (auto simp: parse_exit_status_def bind_res_eq_Inr split: if_splits)
qed

text \<open>
  Every exit status the configuration accepts is one a process can have: a value between 0 and
  255, by name or by number.
\<close>

theorem parse_exit_status_range:
  assumes "parse_exit_status value key = Ok status"
  shows "0 \<le> status \<and> status \<le> 255"
  using assms by (rule parse_exit_status_bounds)

theorem parse_exit_status_range_witness:
  "parse_exit_status ''200'' ''success_exit_status'' = Ok 200 \<and> (200 :: int) \<le> 255"
proof -
  have "parse_exit_status ''200'' ''success_exit_status'' = Ok 200"
    by (simp add: parse_exit_status_def is_cont_def ascii_char_def byte_class_defs parse_i32_def
        parse_unsigned_def to_digit_def)
  then show ?thesis using parse_exit_status_range by blast
qed

text \<open>
  A signal whose name has a digit cannot be listed as an exit status although the signal parser
  knows it: every text with both a letter and a digit is refused, because only alphabetic names reach
  the signal table and the others are read as numbers. So \<open>SIGUSR1\<close>, signal 10 for \<open>kill_signal\<close>,
  is an error in \<open>success_exit_status\<close>.
\<close>

theorem exit_status_rejects_digit_names:
  assumes "d \<in> set value" and "is_ascii_digit d" and "c \<in> set value" and "is_ascii_alphabetic c"
  shows "parse_exit_status value key = Err (invalid key value)"
proof -
  have "\<not> (is_ascii_alphabetic d \<or> d = CHR ''_'')" using assms(2) by (auto simp: byte_class_defs)
  then have "\<not> list_all (ascii_char (\<lambda>c. is_ascii_alphabetic c \<or> c = CHR ''_'')) (chars value)"
    using alphabetic_chars(1) assms(1) by blast
  moreover have "parse_i32 value = None"
    using assms(3,4) by (intro parse_i32_nondigit[of c]) (auto simp: to_digit_def byte_class_defs)
  ultimately show ?thesis by (simp only: parse_exit_status_def) simp
qed

theorem exit_status_rejects_digit_names_witness:
  "parse_signal ''SIGUSR1'' = Ok 10 \<and>
   parse_exit_status ''SIGUSR1'' ''success_exit_status'' = Err (invalid ''success_exit_status'' ''SIGUSR1'')"
proof
  show "parse_signal ''SIGUSR1'' = Ok 10"
    by (simp add: parse_signal_def trim_def is_cont_def char_is_whitespace_single
        strip_prefix_Cons to_ascii_uppercase_def ascii_upper_def byte_class_defs signal_table_def Let_def)
  show "parse_exit_status ''SIGUSR1'' ''success_exit_status'' = Err (invalid ''success_exit_status'' ''SIGUSR1'')"
    by (rule exit_status_rejects_digit_names[of "CHR ''1''" _ "CHR ''S''"]) (simp_all add: byte_class_defs)
qed

end
