(* ===== verification/Float64.thy ===== *)
theory Float64
  imports Rust_Str "HOL-Library.Log_Nat"
begin

text \<open>
  The \<open>f64\<close> arithmetic of the sources, exactly: a finite value is the rational it stands for, and
  every operation is the exact one followed by \<open>round_f64\<close>, rounding to the nearest binary64 value
  with ties to even and overflow to infinity. The two zeros are one value: the sources only multiply
  and divide by non-zero constants, add, compare, round and convert, where the sign of a zero is not
  seen. Then the parts of \<open>Duration\<close> that compute in \<open>f64\<close>.
\<close>

section \<open>Values and rounding\<close>

datatype f64 = NaN | Inf bool | Fin rat \<comment> \<open>\<open>Inf True\<close> is negative\<close>

text \<open>The exponent of the leading bit of a positive rational.\<close>

definition ilog2 :: "rat \<Rightarrow> int" where
  "ilog2 x =
     (let (p, q) = quotient_of x; k = bitlen p - bitlen q
      in if x < 2 powi k then k - 1 else k)"

text \<open>The distance of the binary64 values around \<open>x\<close>: 53 bits of precision, down to the subnormals.\<close>

definition quantum :: "rat \<Rightarrow> rat" where
  "quantum x = 2 powi (max (ilog2 \<bar>x\<bar> - 52) (- 1074))"

definition round_even :: "rat \<Rightarrow> int" where
  "round_even x =
     (let f = \<lfloor>x\<rfloor>; d = x - of_int f
      in if d < 1 / 2 then f else if 1 / 2 < d then f + 1 else if even f then f else f + 1)"

definition round_f64 :: "rat \<Rightarrow> f64" where
  "round_f64 x =
     (if x = 0 then Fin 0
      else (let y = of_int (round_even (x / quantum x)) * quantum x
            in if 2 ^ 1024 \<le> \<bar>y\<bar> then Inf (x < 0) else Fin y))"

section \<open>Operations\<close>

fun f64_mul :: "f64 \<Rightarrow> f64 \<Rightarrow> f64" where
  "f64_mul (Fin a) (Fin b) = round_f64 (a * b)"
| "f64_mul (Inf s) (Fin b) = (if b = 0 then NaN else Inf (s \<noteq> (b < 0)))"
| "f64_mul (Fin a) (Inf s) = (if a = 0 then NaN else Inf (s \<noteq> (a < 0)))"
| "f64_mul (Inf s) (Inf t) = Inf (s \<noteq> t)"
| "f64_mul NaN y = NaN"
| "f64_mul x NaN = NaN"

fun f64_add :: "f64 \<Rightarrow> f64 \<Rightarrow> f64" where
  "f64_add (Fin a) (Fin b) = round_f64 (a + b)"
| "f64_add (Inf s) (Fin b) = Inf s"
| "f64_add (Fin a) (Inf s) = Inf s"
| "f64_add (Inf s) (Inf t) = (if s = t then Inf s else NaN)"
| "f64_add NaN y = NaN"
| "f64_add x NaN = NaN"

text \<open>Division by a finite constant other than zero.\<close>

fun f64_div_const :: "f64 \<Rightarrow> rat \<Rightarrow> f64" where
  "f64_div_const (Fin a) c = round_f64 (a / c)"
| "f64_div_const (Inf s) c = Inf (s \<noteq> (c < 0))"
| "f64_div_const NaN c = NaN"

fun f64_is_finite :: "f64 \<Rightarrow> bool" where
  "f64_is_finite (Fin _) \<longleftrightarrow> True"
| "f64_is_finite _ \<longleftrightarrow> False"

fun f64_less :: "f64 \<Rightarrow> f64 \<Rightarrow> bool" where
  "f64_less NaN y \<longleftrightarrow> False"
| "f64_less x NaN \<longleftrightarrow> False"
| "f64_less (Fin a) (Fin b) \<longleftrightarrow> a < b"
| "f64_less (Inf s) (Fin b) \<longleftrightarrow> s"
| "f64_less (Fin a) (Inf s) \<longleftrightarrow> \<not> s"
| "f64_less (Inf s) (Inf t) \<longleftrightarrow> s \<and> \<not> t"

text \<open>\<open>f64::round\<close>, half away from zero, and \<open>f64::ceil\<close>; an integral value near a finite one is finite.\<close>

fun f64_round :: "f64 \<Rightarrow> f64" where
  "f64_round (Fin a) = Fin (if a < 0 then - of_int \<lfloor>- a + 1 / 2\<rfloor> else of_int \<lfloor>a + 1 / 2\<rfloor>)"
| "f64_round x = x"

fun f64_ceil :: "f64 \<Rightarrow> f64" where
  "f64_ceil (Fin a) = Fin (of_int \<lceil>a\<rceil>)"
| "f64_ceil x = x"

text \<open>The conversion \<open>as u64\<close> truncates and saturates; \<open>NaN\<close> becomes 0.\<close>

fun f64_as_u64 :: "f64 \<Rightarrow> nat" where
  "f64_as_u64 NaN = 0"
| "f64_as_u64 (Inf s) = (if s then 0 else 2 ^ 64 - 1)"
| "f64_as_u64 (Fin a) = (if a \<le> 0 then 0 else min (nat \<lfloor>a\<rfloor>) (2 ^ 64 - 1))"

section \<open>Parsing\<close>

text \<open>
  \<open>f64::from_str\<close>: an optional sign, then \<open>inf\<close>, \<open>infinity\<close> or \<open>nan\<close> in any case, or decimal digits
  with an optional point, at least one digit in all, and an optional exponent.
\<close>

definition digits_nat :: "string \<Rightarrow> nat" where
  "digits_nat ds = (case digits_value 10 0 ds of Some n \<Rightarrow> n | None \<Rightarrow> 0)"

definition parse_exponent :: "string \<Rightarrow> int option" where
  "parse_exponent s =
     (case s of
        [] \<Rightarrow> Some 0
      | e # r \<Rightarrow>
          if e = CHR ''e'' \<or> e = CHR ''E'' then
            (let (neg, ds) =
               (case r of
                  c # t \<Rightarrow> if c = CHR ''-'' then (True, t) else if c = CHR ''+'' then (False, t) else (False, r)
                | [] \<Rightarrow> (False, []))
             in if ds \<noteq> [] \<and> list_all is_ascii_digit ds
                then Some (if neg then - int (digits_nat ds) else int (digits_nat ds)) else None)
          else None)"

definition parse_decimal :: "string \<Rightarrow> rat option" where
  "parse_decimal s =
     (let whole = takeWhile is_ascii_digit s; r = dropWhile is_ascii_digit s;
          (frac, r) = (case r of
                         c # t \<Rightarrow> if c = CHR ''.'' then (takeWhile is_ascii_digit t, dropWhile is_ascii_digit t)
                                 else ([], r)
                       | [] \<Rightarrow> ([], []))
      in if whole = [] \<and> frac = [] then None
         else map_option (\<lambda>e. of_nat (digits_nat (whole @ frac)) * 10 powi (e - int (length frac)))
                (parse_exponent r))"

definition parse_f64 :: "string \<Rightarrow> f64 option" where
  "parse_f64 s =
     (let (neg, t) = (case s of
                        c # r \<Rightarrow> if c = CHR ''-'' then (True, r) else if c = CHR ''+'' then (False, r) else (False, s)
                      | [] \<Rightarrow> (False, []))
      in case parse_decimal t of
           Some v \<Rightarrow> Some (round_f64 (if neg then - v else v))
         | None \<Rightarrow>
             if eq_ignore_ascii_case t ''inf'' \<or> eq_ignore_ascii_case t ''infinity'' then Some (Inf neg)
             else if eq_ignore_ascii_case t ''nan'' then Some NaN
             else None)"

section \<open>Rounding error\<close>

lemma ilog2_bounds:
  assumes "0 < x"
  shows "2 powi ilog2 x \<le> x \<and> x < 2 powi (ilog2 x + 1)"
proof -
  obtain p q where pq: "quotient_of x = (p, q)" by force
  have q: "0 < q" using quotient_of_denom_pos[OF pq] .
  have x: "x = of_int p / of_int q" using quotient_of_div[OF pq] .
  have p: "0 < p" using assms q x by (simp add: zero_less_divide_iff)
  have b: "1 \<le> bitlen p" "1 \<le> bitlen q" using p q bitlen_eq_zero_iff[of p] bitlen_eq_zero_iff[of q] bitlen_nonneg[of p] bitlen_nonneg[of q] by linarith+
  have up: "(of_int n :: rat) < 2 powi bitlen n \<and> 2 powi (bitlen n - 1) \<le> (of_int n :: rat)" if "0 < n" "1 \<le> bitlen n" for n
  proof -
    have "2 ^ nat (bitlen n - 1) \<le> n" "n < 2 ^ nat (bitlen n)" using bitlen_bounds[OF that(1)] by auto
    then have "(of_int (2 ^ nat (bitlen n - 1)) :: rat) \<le> of_int n" "(of_int n :: rat) < of_int (2 ^ nat (bitlen n))"
      by (simp_all only: of_int_le_iff of_int_less_iff)
    then show ?thesis using that(2) by (simp add: power_int_nonneg_exp)
  qed
  note P = up[OF p b(1)] and Q = up[OF q b(2)]
  let ?k = "bitlen p - bitlen q"
  have qpos: "(0 :: rat) < of_int q" using q by simp
  have "x < 2 powi (?k + 1)"
  proof -
    have "2 powi (?k + 1) * of_int q \<ge> 2 powi (?k + 1) * (2 powi (bitlen q - 1) :: rat)" using Q by simp
    moreover have "2 powi (?k + 1) * (2 powi (bitlen q - 1) :: rat) = 2 powi bitlen p"
      by (simp flip: power_int_add)
    ultimately show ?thesis using P x qpos by (simp add: pos_divide_less_eq)
  qed
  moreover have "2 powi (?k - 1) \<le> x"
  proof -
    have "2 powi (?k - 1) * of_int q \<le> 2 powi (?k - 1) * (2 powi bitlen q :: rat)" using Q by simp
    moreover have "2 powi (?k - 1) * (2 powi bitlen q :: rat) = 2 powi (bitlen p - 1)"
      by (simp flip: power_int_add)
    ultimately show ?thesis using P x qpos by (simp add: pos_le_divide_eq)
  qed
  moreover have "ilog2 x = (if x < 2 powi ?k then ?k - 1 else ?k)" by (simp add: ilog2_def pq Let_def)
  ultimately show ?thesis by simp
qed

lemma ilog2_unique:
  assumes "2 powi e \<le> x" "x < 2 powi (e + 1)"
  shows "ilog2 x = e"
proof -
  have x: "0 < x" using assms(1) by (rule less_le_trans[rotated]) simp
  note b = ilog2_bounds[OF x]
  have "(2 :: rat) powi ilog2 x < 2 powi (e + 1)" "(2 :: rat) powi e < 2 powi (ilog2 x + 1)" using assms b by linarith+
  then have "\<not> e + 1 \<le> ilog2 x" "\<not> ilog2 x + 1 \<le> e" by (meson power_int_increasing not_less one_le_numeral)+
  then show ?thesis by simp
qed

lemma round_even_error: "\<bar>of_int (round_even x) - x\<bar> \<le> 1 / 2"
proof -
  have f: "of_int \<lfloor>x\<rfloor> \<le> x" "x < of_int \<lfloor>x\<rfloor> + 1" by linarith+
  have "round_even x = \<lfloor>x\<rfloor> \<and> x - of_int \<lfloor>x\<rfloor> \<le> 1 / 2 \<or> round_even x = \<lfloor>x\<rfloor> + 1 \<and> 1 / 2 \<le> x - of_int \<lfloor>x\<rfloor>"
    by (auto simp: round_even_def Let_def)
  then show ?thesis using f by auto
qed

lemma round_even_int [simp]: "round_even (of_int n) = n"
  by (simp add: round_even_def)

lemma quantum_pos [simp]: "0 < quantum x" "quantum x \<noteq> 0" "0 \<le> quantum x"
  by (simp_all add: quantum_def zero_le_power_int)

text \<open>A multiple of the quantum below the overflow threshold is a binary64 value.\<close>

lemma round_f64_exact:
  assumes "x = of_int k * quantum x" "\<bar>x\<bar> < 2 ^ 1024"
  shows "round_f64 x = Fin x"
proof (cases "x = 0")
  case False
  have "x / quantum x = of_int k" using assms(1) by (metis nonzero_mult_div_cancel_right quantum_pos(2))
  then have "of_int (round_even (x / quantum x)) * quantum x = x" using assms(1) by simp
  then show ?thesis using False assms(2) by (simp add: round_f64_def Let_def)
qed (simp add: round_f64_def)

lemma round_f64_scaled:
  assumes "0 < k" "k < 2 ^ 53" "j \<le> 900"
  shows "round_f64 (of_int k * 2 ^ j) = Fin (of_int k * 2 ^ j)"
proof -
  let ?x = "of_int k * 2 ^ j :: rat"
  have x: "0 < ?x" using assms(1) by simp
  have "(of_int k :: rat) < of_int (2 ^ 53)" using assms(2) by (simp only: of_int_less_iff)
  then have "?x < 2 ^ 53 * 2 ^ j" by simp
  also have "2 ^ 53 * 2 ^ j = (2 :: rat) powi (53 + int j)" by (simp add: power_int_nonneg_exp nat_add_distrib power_add)
  finally have bd: "?x < 2 powi (53 + int j)" .
  have "(2 :: rat) powi ilog2 ?x < 2 powi (53 + int j)" using ilog2_bounds[OF x] bd by linarith
  then have l: "ilog2 ?x < 53 + int j" by (meson power_int_increasing not_less one_le_numeral)
  define e where "e = max (ilog2 ?x - 52) (- 1074)"
  have q: "quantum ?x = 2 powi e" using x by (simp add: quantum_def e_def)
  have e: "e \<le> int j" using l by (simp add: e_def)
  have "(2 :: rat) ^ j = 2 ^ nat (int j - e) * 2 powi e"
  proof -
    have "(2 :: rat) ^ nat (int j - e) = 2 powi (int j - e)" using e by (simp add: power_int_nonneg_exp)
    then have "(2 :: rat) ^ nat (int j - e) * 2 powi e = 2 powi (int j - e + e)"
      using power_int_add[of "2 :: rat" "int j - e" e] by simp
    then show ?thesis by simp
  qed
  then have m: "?x = of_int (k * 2 ^ nat (int j - e)) * quantum ?x" unfolding q by simp
  have "(2 :: rat) powi (53 + int j) \<le> 2 powi 1024" using assms(3) by (intro power_int_increasing) auto
  then have "\<bar>?x\<bar> < 2 ^ 1024" using bd x by simp
  then show ?thesis by (rule round_f64_exact[OF m])
qed

text \<open>The relative error of rounding a normal number is at most \<open>2 powi -53\<close>.\<close>

lemma round_f64_error:
  assumes "0 < x" "2 powi -1022 \<le> x" "x \<le> 2 ^ 1000"
  shows "\<exists>y. round_f64 x = Fin y \<and> \<bar>y - x\<bar> \<le> x * 2 powi -53"
proof -
  define y where "y = of_int (round_even (x / quantum x)) * quantum x"
  note b = ilog2_bounds[OF assms(1)]
  have "(2 :: rat) powi -1022 < 2 powi (ilog2 x + 1)" using assms(2) b by linarith
  then have "- 1022 < ilog2 x + 1" by (meson power_int_increasing not_less one_le_numeral)
  then have q: "quantum x = 2 powi (ilog2 x - 52)" using assms(1) by (simp add: quantum_def)
  have "y - x = (of_int (round_even (x / quantum x)) - x / quantum x) * quantum x" by (simp add: y_def left_diff_distrib)
  then have "\<bar>y - x\<bar> = \<bar>of_int (round_even (x / quantum x)) - x / quantum x\<bar> * quantum x" by (simp add: abs_mult)
  also have "\<dots> \<le> 1 / 2 * quantum x" using round_even_error[of "x / quantum x"] by (intro mult_right_mono) auto
  also have "\<dots> = 2 powi ilog2 x * 2 powi -53" unfolding q by (simp add: power_int_diff power_int_minus)
  also have "\<dots> \<le> x * 2 powi -53" using b by (intro mult_right_mono) auto
  finally have err: "\<bar>y - x\<bar> \<le> x * 2 powi -53" .
  also have "\<dots> \<le> x" using assms(1) by (simp add: power_int_minus)
  finally have "\<bar>y\<bar> \<le> 2 * x" using assms(1) by linarith
  also have "\<dots> < 2 ^ 1024"
  proof -
    have "2 * x \<le> 2 * 2 ^ 1000" using assms(3) by simp
    also have "\<dots> < (2 ^ 1024 :: rat)" by simp
    finally show ?thesis .
  qed
  finally have "round_f64 x = Fin y" using assms(1) by (simp add: round_f64_def y_def Let_def)
  then show ?thesis using err by blast
qed

lemma round_f64_relative:
  assumes "1 / 2 ^ 40 \<le> x" "x \<le> 2 ^ 100"
  shows "\<exists>d. round_f64 x = Fin (x * (1 + d)) \<and> \<bar>d\<bar> \<le> 1 / 2 ^ 53"
proof -
  have x: "0 < x" by (rule less_le_trans[OF _ assms(1)]) simp
  have "(2 :: rat) powi -1022 \<le> 1 / 2 ^ 40" by (simp add: power_int_minus)
  moreover have "(2 :: rat) ^ 100 \<le> 2 ^ 1000" by simp
  ultimately have "\<exists>y. round_f64 x = Fin y \<and> \<bar>y - x\<bar> \<le> x * 2 powi -53"
    using assms by (intro round_f64_error[OF x]) linarith+
  then obtain y where y: "round_f64 x = Fin y" "\<bar>y - x\<bar> \<le> x * 2 powi -53" by blast
  have "\<bar>(y - x) / x\<bar> = \<bar>y - x\<bar> / x" using x by simp
  also have "\<dots> \<le> x * 2 powi -53 / x" using y(2) x by (intro divide_right_mono) auto
  also have "\<dots> = 1 / 2 ^ 53" using x by (simp add: power_int_minus)
  finally have "\<bar>(y - x) / x\<bar> \<le> 1 / 2 ^ 53" .
  moreover have "y = x * (1 + (y - x) / x)"
  proof -
    have "x * (1 + (y - x) / x) = x + (y - x)" using x by (simp add: distrib_left)
    then show ?thesis by simp
  qed
  ultimately show ?thesis using y(1) by metis
qed

section \<open>Parsing whole numbers\<close>

lemma parse_decimal_show_nat: "parse_decimal (show_nat n) = Some (of_nat n)"
proof -
  have d: "takeWhile is_ascii_digit (show_nat n) = show_nat n" "dropWhile is_ascii_digit (show_nat n) = []"
    using show_nat_digits by (auto simp: takeWhile_eq_all_conv)
  show ?thesis unfolding parse_decimal_def d by (simp add: parse_exponent_def digits_nat_def digits_value_show_nat)
qed

lemma parse_f64_show_nat: "parse_f64 (show_nat n) = Some (round_f64 (of_nat n))"
proof -
  obtain c r where s: "show_nat n = c # r" by (cases "show_nat n") auto
  then have "is_ascii_digit c" using show_nat_digits[of c n] by simp
  then have "c \<noteq> CHR ''+''" "c \<noteq> CHR ''-''" by (auto simp: byte_class_defs)
  then show ?thesis using parse_decimal_show_nat[of n] s by (simp add: parse_f64_def)
qed

end
