(* ===== verification/Config_Duration.thy ===== *)
theory Config_Duration
  imports Config_Values Float64
begin

text \<open>
  The parts of \<open>crates/fractald-config/src/lib.rs\<close> that compute in \<open>f64\<close>: durations and CPU quotas.
\<close>

section \<open>Definitions\<close>

definition duration_suffixes :: "(string \<times> rat) list" where
  "duration_suffixes =
     [(''us'', 1 / 1000000), (''ms'', 1 / 1000), (''s'', 1), (''m'', 60), (''h'', 3600), (''d'', 86400)]"

text \<open>The multipliers are \<open>f64\<close> literals, so the decimal fractions are rounded.\<close>

definition parse_duration :: "string \<Rightarrow> string \<Rightarrow> config_error + duration" where
  "parse_duration raw key =
     (let value = trim raw
      in if eq_ignore_ascii_case value ''infinity'' then Ok duration_max
         else
           (let (number, multiplier) =
              (case find_suffix duration_suffixes value of Some r \<Rightarrow> r | None \<Rightarrow> (value, 1))
            in case parse_f64 number of
                 None \<Rightarrow> Err (invalid key value)
               | Some number \<Rightarrow>
                   (let nanos = f64_mul (f64_mul number (round_f64 multiplier)) (Fin 1000000000)
                    in if \<not> f64_is_finite nanos \<or> f64_less nanos (Fin 0) \<or> f64_less (Fin (2 ^ 64)) nanos
                       then Err (invalid key value)
                       else Ok (f64_as_u64 (f64_round nanos)))))"

definition duration_value :: "native_file \<Rightarrow> string \<Rightarrow> string \<Rightarrow> config_error + duration option" where
  "duration_value file section key =
     transpose_map (\<lambda>value. parse_duration value key) (value_of file section key)"

text \<open>\<open>Duration::as_secs_f64\<close>: the seconds plus the nanoseconds divided by their number per second.\<close>

definition as_secs_f64 :: "duration \<Rightarrow> f64" where
  "as_secs_f64 d =
     f64_add (round_f64 (of_nat (d div 1000000000)))
       (f64_div_const (round_f64 (of_nat (d mod 1000000000))) 1000000000)"

definition parse_cpu_quota :: "string \<Rightarrow> duration \<Rightarrow> config_error + cpu_quota option" where
  "parse_cpu_quota raw period =
     (let value = trim raw
      in if value = [] \<or> eq_ignore_ascii_case value ''max'' then Ok None
         else
           bind_res (ok_or (strip_suffix ''%'' value)
                      (config_error_message (''cpu_quota must be a percentage: '' @ value))) (\<lambda>number.
           bind_res (ok_or (parse_f64 number) (invalid ''cpu_quota'' value)) (\<lambda>percent.
             if \<not> f64_is_finite percent \<or> \<not> f64_less (Fin 0) percent then Ok None
             else if 2 ^ 64 \<le> period div 1000 then Err (config_error_message ''cpu_quota period is too large'')
             else Ok (Some \<lparr>cq_quota_usec =
                    of_nat (f64_as_u64 (f64_ceil (f64_div_const
                      (f64_mul (f64_mul (as_secs_f64 period) (Fin 1000000)) percent) 100))),
                    cq_period_usec = of_nat (period div 1000)\<rparr>))))"

section \<open>Durations are exact\<close>

lemma find_duration_suffix:
  assumes "(suffix, m) \<in> set duration_suffixes"
  shows "find_suffix duration_suffixes (show_nat n @ suffix) = Some (show_nat n, m)"
proof -
  obtain r c where r: "show_nat n = r @ [c]" by (metis append_butlast_last_id show_nat_nonempty)
  then have "is_ascii_digit c" using show_nat_digits[of c n] by simp
  then have "c \<noteq> CHR ''u''" "c \<noteq> CHR ''m''" by (auto simp: byte_class_defs)
  then show ?thesis using assms unfolding r
    by (auto simp: duration_suffixes_def strip_suffix_rev strip_prefix_Cons)
qed

lemma duration_suffix_letters:
  "(suffix, m) \<in> set duration_suffixes \<Longrightarrow> \<forall>c \<in> set suffix. 33 \<le> byte_val c \<and> byte_val c < 128"
  by (auto simp: duration_suffixes_def)

lemma three_errors:
  fixes e :: rat
  assumes "\<bar>a\<bar> \<le> e" "\<bar>b\<bar> \<le> e" "\<bar>c\<bar> \<le> e" "0 \<le> e" "e \<le> 1 / 8"
  shows "\<bar>(1 + a) * (1 + b) * (1 + c) - 1\<bar> \<le> 4 * e"
proof -
  have prod: "\<bar>x * y\<bar> \<le> e / 8" if "\<bar>x\<bar> \<le> e" "\<bar>y\<bar> \<le> e" for x y
  proof -
    have "\<bar>x * y\<bar> \<le> e * e" using that assms(4) by (simp add: abs_mult mult_mono)
    also have "\<dots> \<le> e * (1 / 8)" using assms(4,5) by (intro mult_left_mono) auto
    finally show ?thesis by simp
  qed
  have "\<bar>a * b * c\<bar> \<le> e / 8" using prod[of "a * b" c] prod[OF assms(1,2)] assms(3,4) by auto
  moreover have "(1 + a) * (1 + b) * (1 + c) - 1 = a + b + c + a * b + a * c + b * c + a * b * c"
    by (simp add: algebra_simps)
  ultimately show ?thesis using prod[OF assms(1,2)] prod[OF assms(1,3)] prod[OF assms(2,3)] assms(1-4)
    by (simp only: abs_le_iff) linarith
qed

text \<open>The nanoseconds of \<open>parse_duration\<close> before they are rounded to an integer.\<close>

definition duration_nanos :: "nat \<Rightarrow> rat \<Rightarrow> f64" where
  "duration_nanos n unit = f64_mul (f64_mul (round_f64 (of_nat n)) (round_f64 unit)) (Fin 1000000000)"

lemma duration_nanos_coarse:
  assumes "unit = of_nat k" "0 < k" "k < 2 ^ 53" "n * k \<le> 4 * 10 ^ 9"
  shows "duration_nanos n unit = Fin (of_nat (n * k * 10 ^ 9))"
proof (cases "n = 0")
  case True
  have "round_f64 unit = Fin unit" using round_f64_scaled[of "int k" 0] assms by simp
  then show ?thesis using True by (simp add: duration_nanos_def round_f64_def)
next
  case False
  have exact: "round_f64 (of_nat m * 2 ^ j) = Fin (of_nat m * 2 ^ j)" if "0 < m" "m < 2 ^ 53" "j \<le> 900" for m j
    using round_f64_scaled[of "int m" j] that by simp
  have "n \<le> n * k" using assms(2) by simp
  also have "\<dots> < 2 ^ 53" using assms(4) by simp
  finally have n: "n < 2 ^ 53" .
  have "round_f64 (of_nat n) = Fin (of_nat n)" "round_f64 unit = Fin (of_nat k)"
    using exact[of n 0] exact[of k 0] assms False n by simp_all
  moreover have "round_f64 (of_nat n * of_nat k) = Fin (of_nat (n * k))" using exact[of "n * k" 0] assms False by simp
  moreover have "round_f64 (of_nat (n * k) * 1000000000) = Fin (of_nat (n * k * 10 ^ 9))"
  proof -
    have "of_nat (n * k) * 1000000000 = (of_nat (n * k * 5 ^ 9) * 2 ^ 9 :: rat)" by simp
    moreover have "of_nat (n * k * 10 ^ 9) = (of_nat (n * k * 5 ^ 9) * 2 ^ 9 :: rat)" by simp
    moreover have "round_f64 (of_nat (n * k * 5 ^ 9) * 2 ^ 9) = Fin (of_nat (n * k * 5 ^ 9) * 2 ^ 9)"
      using assms False by (intro exact) auto
    ultimately show ?thesis by (simp only:)
  qed
  ultimately show ?thesis by (simp only: duration_nanos_def f64_mul.simps)
qed

lemma duration_nanos_fine:
  assumes "unit = 1 / 1000000 \<or> unit = 1 / 1000" "of_nat nanos = of_nat n * unit * 10 ^ 9" "nanos < 2 ^ 50"
  shows "\<exists>y. duration_nanos n unit = Fin y \<and> 0 \<le> y \<and> \<bar>y - of_nat nanos\<bar> < 1 / 2"
proof (cases "n = 0")
  case True
  have "1 / 2 ^ 40 \<le> unit" "unit \<le> 2 ^ 100" using assms(1) by auto
  from round_f64_relative[OF this] obtain d where "round_f64 unit = Fin (unit * (1 + d))" by blast
  moreover have "nanos = 0" using assms(2) True by simp
  ultimately show ?thesis using True by (simp add: duration_nanos_def round_f64_def)
next
  case False
  let ?e = "1 / 2 ^ 53 :: rat"
  have u: "1 / 2 ^ 20 \<le> unit" "unit \<le> 1" using assms(1) by auto
  have small: "\<bar>d\<bar> \<le> ?e \<Longrightarrow> 1 / 2 \<le> 1 + d \<and> 1 + d \<le> 2" for d :: rat
  proof -
    have "?e \<le> 1 / 2" by simp
    then show "\<bar>d\<bar> \<le> ?e \<Longrightarrow> 1 / 2 \<le> 1 + d \<and> 1 + d \<le> 2" by linarith
  qed
  have "n * 1000 \<le> nanos"
  proof -
    have "1000 \<le> unit * 10 ^ 9" using assms(1) by auto
    then have "(of_nat n :: rat) * 1000 \<le> of_nat n * (unit * 10 ^ 9)" by (intro mult_left_mono) auto
    then have "(of_nat (n * 1000) :: rat) \<le> of_nat nanos" unfolding assms(2) by (simp add: mult.assoc)
    then show ?thesis by (simp only: of_nat_le_iff)
  qed
  then have n: "n < 2 ^ 50" using assms(3) by simp
  then have nq: "1 \<le> (of_nat n :: rat)" "(of_nat n :: rat) \<le> 2 ^ 50"
    using False of_nat_less_iff[of n "2 ^ 50", where ?'a = rat] by auto
  have rn: "round_f64 (of_nat n) = Fin (of_nat n)" using round_f64_scaled[of "int n" 0] n False by simp
  obtain a where a: "round_f64 unit = Fin (unit * (1 + a))" "\<bar>a\<bar> \<le> ?e"
    using round_f64_relative[of unit] assms(1) by auto
  define x1 where "x1 = of_nat n * (unit * (1 + a))"
  have m: "1 / 2 ^ 21 \<le> unit * (1 + a)" "unit * (1 + a) \<le> 2"
    using mult_mono[OF u(1), of "1 / 2" "1 + a"] mult_mono[OF u(2), of "1 + a" 2] small[OF a(2)] u by auto
  have x1: "1 / 2 ^ 21 \<le> x1" "x1 \<le> 2 ^ 51"
    using mult_mono[OF nq(1) m(1)] mult_mono[OF nq(2) m(2)] m nq by (auto simp: x1_def)
  obtain b where b: "round_f64 x1 = Fin (x1 * (1 + b))" "\<bar>b\<bar> \<le> ?e"
    using round_f64_relative[OF order.trans[OF _ x1(1)] order.trans[OF x1(2)]] by auto
  define x2 where "x2 = x1 * (1 + b) * 1000000000"
  have x2: "1 / 2 ^ 40 \<le> x2" "x2 \<le> 2 ^ 100"
    using mult_mono[OF x1(1), of "1 / 2" "1 + b"] mult_mono[OF x1(2), of "1 + b" 2] small[OF b(2)] x1 by (auto simp: x2_def)
  obtain c where c: "round_f64 x2 = Fin (x2 * (1 + c))" "\<bar>c\<bar> \<le> ?e" using round_f64_relative[OF x2] by blast
  have "duration_nanos n unit = Fin (x2 * (1 + c))"
    using rn a(1) b(1) c(1) by (simp add: duration_nanos_def x1_def x2_def)
  moreover have "0 \<le> x2 * (1 + c)" using x2(1) small[OF c(2)] by (intro mult_nonneg_nonneg) auto
  moreover have "\<bar>x2 * (1 + c) - of_nat nanos\<bar> < 1 / 2"
  proof -
    have eq: "x2 * (1 + c) - of_nat nanos = of_nat nanos * ((1 + a) * (1 + b) * (1 + c) - 1)"
      unfolding assms(2) by (simp add: x1_def x2_def algebra_simps)
    have "\<bar>x2 * (1 + c) - of_nat nanos\<bar> = of_nat nanos * \<bar>(1 + a) * (1 + b) * (1 + c) - 1\<bar>"
      unfolding eq abs_mult by simp
    also have "\<dots> \<le> of_nat nanos * (4 * ?e)" using three_errors[OF a(2) b(2) c(2)] by (intro mult_left_mono) auto
    also have "\<dots> < 2 ^ 50 * (4 * ?e)"
      using of_nat_less_iff[of nanos "2 ^ 50", where ?'a = rat] assms(3) by (intro mult_strict_right_mono) auto
    also have "\<dots> = 1 / 2" by simp
    finally show ?thesis .
  qed
  ultimately show ?thesis by blast
qed

lemma f64_round_near:
  assumes "\<bar>y - of_nat nanos\<bar> < 1 / 2" "nanos < 2 ^ 63"
  shows "f64_as_u64 (f64_round (Fin y)) = nanos"
    "\<not> f64_less (Fin y) (Fin 0) \<or> nanos = 0" "\<not> f64_less (Fin (2 ^ 64)) (Fin y)"
proof -
  have f: "\<lfloor>y + 1 / 2\<rfloor> = int nanos" using assms(1) by (intro floor_unique) (auto simp: abs_if split: if_splits)
  have "nanos = 0" if "y < 0"
  proof -
    have "(of_nat nanos :: rat) < 1 / 2" using assms(1) that by linarith
    then show ?thesis by (cases nanos) auto
  qed
  then show "\<not> f64_less (Fin y) (Fin 0) \<or> nanos = 0" by auto
  have "(of_nat nanos :: rat) < 2 ^ 63" using of_nat_less_iff[of nanos "2 ^ 63", where ?'a = rat] assms(2) by simp
  moreover have "(2 :: rat) ^ 63 + 1 / 2 < 2 ^ 64" by simp
  ultimately have "y < 2 ^ 64" using assms(1) by linarith
  then show "\<not> f64_less (Fin (2 ^ 64)) (Fin y)" by simp
  show "f64_as_u64 (f64_round (Fin y)) = nanos"
  proof (cases "y < 0")
    case True
    have "\<lfloor>- y + 1 / 2\<rfloor> = 0" using True assms(1) \<open>y < 0 \<Longrightarrow> nanos = 0\<close> by (intro floor_unique) auto
    then show ?thesis using True \<open>y < 0 \<Longrightarrow> nanos = 0\<close> by simp
  next
    case False
    then show ?thesis using f assms(2) by auto
  qed
qed

lemma duration_units_cases:
  assumes "(suffix, unit) \<in> set duration_suffixes"
  shows "unit = 1 / 1000000 \<or> unit = 1 / 1000 \<or> (\<exists>k. unit = of_nat k \<and> 0 < k \<and> k < 2 ^ 53)"
proof -
  have "unit = 1 / 1000000 \<or> unit = 1 / 1000 \<or> (\<exists>k \<in> {1, 60, 3600, 86400}. unit = of_nat k)"
    using assms by (auto simp: duration_suffixes_def)
  then show ?thesis by auto
qed

text \<open>
  Whole numbers of time units are parsed exactly although the code computes in floating point:
  a decimal number with any of the six suffixes gives precisely its nanoseconds, up to 13 days in
  micro- and milliseconds and up to 126 years in the other units.
\<close>

theorem parse_duration_exact:
  assumes "(suffix, unit) \<in> set duration_suffixes" and "of_nat nanos = of_nat n * unit * 10 ^ 9"
    and "if unit < 1 then nanos < 2 ^ 50 else nanos \<le> 4 * 10 ^ 18"
  shows "parse_duration (show_nat n @ suffix) key = Ok nanos"
proof -
  have near: "\<exists>y. duration_nanos n unit = Fin y \<and> 0 \<le> y \<and> \<bar>y - of_nat nanos\<bar> < 1 / 2"
  proof (cases "unit < 1")
    case True
    then have "unit = 1 / 1000000 \<or> unit = 1 / 1000" using duration_units_cases[OF assms(1)] by auto
    then show ?thesis using duration_nanos_fine assms(2,3) True by simp
  next
    case False
    then obtain k where k: "unit = of_nat k" "0 < k" "k < 2 ^ 53" using duration_units_cases[OF assms(1)] by auto
    have "(of_nat nanos :: rat) = of_nat (n * k * 10 ^ 9)" using assms(2) k(1) by simp
    then have nanos: "nanos = n * k * 10 ^ 9" by (simp only: of_nat_eq_iff)
    then have "duration_nanos n unit = Fin (of_nat nanos)" using duration_nanos_coarse[OF k, of n] assms(3) False by (simp add: mult.commute)
    then show ?thesis by simp
  qed
  then obtain y where y: "duration_nanos n unit = Fin y" "0 \<le> y" "\<bar>y - of_nat nanos\<bar> < 1 / 2" by blast
  have "nanos < 2 ^ 63" using assms(3) by (auto split: if_splits)
  note r = f64_round_near[OF y(3) this]
  have "parse_duration (show_nat n @ suffix) key =
      (if \<not> f64_is_finite (duration_nanos n unit) \<or> f64_less (duration_nanos n unit) (Fin 0) \<or>
          f64_less (Fin (2 ^ 64)) (duration_nanos n unit)
       then Err (invalid key (show_nat n @ suffix)) else Ok (f64_as_u64 (f64_round (duration_nanos n unit))))"
    using find_duration_suffix[OF assms(1), of n] number_trimmed[OF duration_suffix_letters[OF assms(1)], of n]
    by (simp add: parse_duration_def number_not_keyword parse_f64_show_nat duration_nanos_def Let_def del: f64_mul.simps)
  then show ?thesis using y(2) r(1,3) unfolding y(1) by (simp del: f64_as_u64.simps f64_round.simps)
qed

theorem parse_duration_exact_witness: "parse_duration ''250ms'' ''restart_delay'' = Ok 250000000"
proof -
  have "parse_duration (show_nat 250 @ ''ms'') ''restart_delay'' = Ok 250000000"
    by (rule parse_duration_exact[of _ "1 / 1000"]) (simp_all add: duration_suffixes_def)
  then show ?thesis by (simp add: show_nat.simps digit_char_eval)
qed

end
