(* ===== verification/Syscall_Groups.thy ===== *)
theory Syscall_Groups
  imports Rust_Str
begin

text \<open>
  \<open>crates/fractald-config/src/syscall_groups.rs\<close>: the system call groups a filter can name, one
  definition per arm of \<open>expand_group\<close>, and the table of known system calls.
\<close>

section \<open>The groups\<close>

definition group_sandbox :: "string list" where
  "group_sandbox =
     [''landlock_add_rule'', ''landlock_create_ruleset'', ''landlock_restrict_self'', ''seccomp'']"

definition group_default :: "string list" where
  "group_default =
     [''arch_prctl'', ''brk'', ''cacheflush'', ''clock_getres'', ''clock_getres_time64'',
      ''clock_gettime'', ''clock_gettime64'', ''clock_nanosleep'', ''clock_nanosleep_time64'',
      ''execve'', ''exit'', ''exit_group'', ''futex'', ''futex_time64'', ''futex_waitv'',
      ''get_robust_list'', ''get_thread_area'', ''getegid'', ''getegid32'', ''geteuid'',
      ''geteuid32'', ''getgid'', ''getgid32'', ''getgroups'', ''getgroups32'', ''getpgid'',
      ''getpgrp'', ''getpid'', ''getppid'', ''getrandom'', ''getresgid'', ''getresgid32'',
      ''getresuid'', ''getresuid32'', ''getrlimit'', ''getsid'', ''gettid'', ''gettimeofday'',
      ''getuid'', ''getuid32'', ''landlock_add_rule'', ''landlock_create_ruleset'',
      ''landlock_restrict_self'', ''lsm_get_self_attr'', ''lsm_list_modules'', ''membarrier'',
      ''mmap'', ''mmap2'', ''mprotect'', ''mseal'', ''munmap'', ''nanosleep'', ''pause'',
      ''prlimit64'', ''restart_syscall'', ''riscv_flush_icache'', ''riscv_hwprobe'', ''rseq'',
      ''rt_sigreturn'', ''sched_getaffinity'', ''sched_yield'', ''seccomp'', ''set_robust_list'',
      ''set_thread_area'', ''set_tid_address'', ''set_tls'', ''sigreturn'', ''time'',
      ''ugetrlimit'', ''uretprobe'']"

definition group_basic_io :: "string list" where
  "group_basic_io =
     [''_llseek'', ''close'', ''close_range'', ''dup'', ''dup2'', ''dup3'', ''llseek'', ''lseek'',
      ''pread64'', ''preadv'', ''preadv2'', ''pwrite64'', ''pwritev'', ''pwritev2'', ''read'',
      ''readv'', ''write'', ''writev'']"

definition group_file_system :: "string list" where
  "group_file_system =
     [''access'', ''chdir'', ''chmod'', ''close'', ''creat'', ''faccessat'', ''faccessat2'',
      ''fallocate'', ''fchdir'', ''fchmod'', ''fchmodat'', ''fchmodat2'', ''fcntl'', ''fcntl64'',
      ''fgetxattr'', ''file_getattr'', ''file_setattr'', ''flistxattr'', ''fremovexattr'',
      ''fsetxattr'', ''fstat'', ''fstat64'', ''fstatat'', ''fstatat64'', ''fstatfs'',
      ''fstatfs64'', ''ftruncate'', ''ftruncate64'', ''futimesat'', ''getcwd'', ''getdents'',
      ''getdents64'', ''getxattr'', ''getxattrat'', ''inotify_add_watch'', ''inotify_init'',
      ''inotify_init1'', ''inotify_rm_watch'', ''lgetxattr'', ''link'', ''linkat'', ''listmount'',
      ''listxattr'', ''listxattrat'', ''llistxattr'', ''lremovexattr'', ''lsetxattr'', ''lstat'',
      ''lstat64'', ''mkdir'', ''mkdirat'', ''mknod'', ''mknodat'', ''newfstat'', ''newfstatat'',
      ''oldfstat'', ''oldlstat'', ''oldstat'', ''open'', ''open_tree'', ''openat'', ''openat2'',
      ''readlink'', ''readlinkat'', ''removexattr'', ''removexattrat'', ''rename'', ''renameat'',
      ''renameat2'', ''rmdir'', ''setxattr'', ''setxattrat'', ''stat'', ''stat64'', ''statfs'',
      ''statfs64'', ''statmount'', ''statx'', ''symlink'', ''symlinkat'', ''truncate'',
      ''truncate64'', ''unlink'', ''unlinkat'', ''utime'', ''utimensat'', ''utimensat_time64'',
      ''utimes'']"

definition group_io_event :: "string list" where
  "group_io_event =
     [''_newselect'', ''epoll_create'', ''epoll_create1'', ''epoll_ctl'', ''epoll_ctl_old'',
      ''epoll_pwait'', ''epoll_pwait2'', ''epoll_wait'', ''epoll_wait_old'', ''eventfd'',
      ''eventfd2'', ''poll'', ''ppoll'', ''ppoll_time64'', ''pselect6'', ''pselect6_time64'',
      ''select'']"

definition group_ipc :: "string list" where
  "group_ipc =
     [''ipc'', ''memfd_create'', ''mq_getsetattr'', ''mq_notify'', ''mq_open'',
      ''mq_timedreceive'', ''mq_timedreceive_time64'', ''mq_timedsend'', ''mq_timedsend_time64'',
      ''mq_unlink'', ''msgctl'', ''msgget'', ''msgrcv'', ''msgsnd'', ''pipe'', ''pipe2'',
      ''process_madvise'', ''process_vm_readv'', ''process_vm_writev'', ''semctl'', ''semget'',
      ''semop'', ''semtimedop'', ''semtimedop_time64'', ''shmat'', ''shmctl'', ''shmdt'',
      ''shmget'']"

definition group_network_io :: "string list" where
  "group_network_io =
     [''accept'', ''accept4'', ''bind'', ''connect'', ''getpeername'', ''getsockname'',
      ''getsockopt'', ''listen'', ''recv'', ''recvfrom'', ''recvmmsg'', ''recvmmsg_time64'',
      ''recvmsg'', ''send'', ''sendmmsg'', ''sendmsg'', ''sendto'', ''setsockopt'', ''shutdown'',
      ''socket'', ''socketcall'', ''socketpair'']"

definition group_process :: "string list" where
  "group_process =
     [''capget'', ''clone'', ''clone3'', ''execveat'', ''fork'', ''getrusage'', ''kill'',
      ''pidfd_open'', ''pidfd_send_signal'', ''prctl'', ''rt_sigqueueinfo'', ''rt_tgsigqueueinfo'',
      ''setns'', ''swapcontext'', ''tgkill'', ''times'', ''tkill'', ''unshare'', ''vfork'',
      ''wait4'', ''waitid'', ''waitpid'']"

definition group_sync :: "string list" where
  "group_sync =
     [''fdatasync'', ''fsync'', ''msync'', ''sync'', ''sync_file_range'', ''sync_file_range2'',
      ''syncfs'']"

definition group_signal :: "string list" where
  "group_signal =
     [''rt_sigaction'', ''rt_sigpending'', ''rt_sigprocmask'', ''rt_sigsuspend'',
      ''rt_sigtimedwait'', ''rt_sigtimedwait_time64'', ''sigaction'', ''sigaltstack'', ''signal'',
      ''signalfd'', ''signalfd4'', ''sigpending'', ''sigprocmask'', ''sigsuspend'']"

definition group_timer :: "string list" where
  "group_timer =
     [''alarm'', ''getitimer'', ''setitimer'', ''timer_create'', ''timer_delete'',
      ''timer_getoverrun'', ''timer_gettime'', ''timer_gettime64'', ''timer_settime'',
      ''timer_settime64'', ''timerfd_create'', ''timerfd_gettime'', ''timerfd_gettime64'',
      ''timerfd_settime'', ''timerfd_settime64'', ''times'']"

definition group_clock :: "string list" where
  "group_clock =
     [''adjtimex'', ''clock_adjtime'', ''clock_adjtime64'', ''clock_settime'', ''clock_settime64'',
      ''settimeofday'']"

definition group_mount :: "string list" where
  "group_mount =
     [''chroot'', ''fsconfig'', ''fsmount'', ''fsopen'', ''fspick'', ''mount'', ''mount_setattr'',
      ''move_mount'', ''open_tree_attr'', ''pivot_root'', ''umount'', ''umount2'']"

definition group_resources :: "string list" where
  "group_resources =
     [''ioprio_set'', ''mbind'', ''migrate_pages'', ''move_pages'', ''nice'',
      ''sched_setaffinity'', ''sched_setattr'', ''sched_setparam'', ''sched_setscheduler'',
      ''set_mempolicy'', ''set_mempolicy_home_node'', ''setpriority'', ''setrlimit'']"

definition group_privileged :: "string list" where
  "group_privileged =
     [''_sysctl'', ''acct'', ''adjtimex'', ''bpf'', ''capset'', ''chown'', ''chown32'', ''chroot'',
      ''clock_adjtime'', ''clock_adjtime64'', ''clock_settime'', ''clock_settime64'',
      ''delete_module'', ''fanotify_init'', ''fanotify_mark'', ''fchown'', ''fchown32'',
      ''fchownat'', ''finit_module'', ''init_module'', ''ioperm'', ''iopl'', ''kexec_file_load'',
      ''kexec_load'', ''lchown'', ''lchown32'', ''nfsservctl'', ''open_by_handle_at'',
      ''pciconfig_iobase'', ''pciconfig_read'', ''pciconfig_write'', ''pivot_root'', ''quotactl'',
      ''quotactl_fd'', ''reboot'', ''s390_pci_mmio_read'', ''s390_pci_mmio_write'',
      ''setdomainname'', ''setfsuid'', ''setfsuid32'', ''setgroups'', ''setgroups32'',
      ''sethostname'', ''setresuid'', ''setresuid32'', ''setreuid'', ''setreuid32'',
      ''settimeofday'', ''setuid'', ''setuid32'', ''swapoff'', ''swapon'', ''vhangup'']"

definition group_debug :: "string list" where
  "group_debug =
     [''lookup_dcookie'', ''perf_event_open'', ''pidfd_getfd'', ''ptrace'', ''rtas'',
      ''s390_runtime_instr'', ''sys_debug_setcontext'']"

definition group_module :: "string list" where
  "group_module =
     [''delete_module'', ''finit_module'', ''init_module'']"

definition group_raw_io :: "string list" where
  "group_raw_io =
     [''ioperm'', ''iopl'', ''pciconfig_iobase'', ''pciconfig_read'', ''pciconfig_write'',
      ''s390_pci_mmio_read'', ''s390_pci_mmio_write'']"

definition group_reboot :: "string list" where
  "group_reboot =
     [''kexec_file_load'', ''kexec_load'', ''reboot'']"

definition group_swap :: "string list" where
  "group_swap =
     [''swapoff'', ''swapon'']"

definition group_cpu_emulation :: "string list" where
  "group_cpu_emulation =
     [''modify_ldt'', ''subpage_prot'', ''switch_endian'', ''vm86'', ''vm86old'']"

definition group_obsolete :: "string list" where
  "group_obsolete =
     [''_sysctl'', ''afs_syscall'', ''bdflush'', ''break'', ''create_module'', ''ftime'',
      ''get_kernel_syms'', ''getpmsg'', ''gtty'', ''idle'', ''lock'', ''mpx'', ''prof'',
      ''profil'', ''putpmsg'', ''query_module'', ''security'', ''sgetmask'', ''ssetmask'',
      ''stime'', ''stty'', ''sysfs'', ''tuxcall'', ''ulimit'', ''uselib'', ''ustat'', ''vserver'']"

definition group_aio :: "string list" where
  "group_aio =
     [''io_cancel'', ''io_destroy'', ''io_getevents'', ''io_pgetevents'', ''io_pgetevents_time64'',
      ''io_setup'', ''io_submit'', ''io_uring_enter'', ''io_uring_register'', ''io_uring_setup'']"

definition group_chown :: "string list" where
  "group_chown =
     [''chown'', ''chown32'', ''fchown'', ''fchown32'', ''fchownat'', ''lchown'', ''lchown32'']"

definition group_keyring :: "string list" where
  "group_keyring =
     [''add_key'', ''keyctl'', ''request_key'']"

definition group_memlock :: "string list" where
  "group_memlock =
     [''mlock'', ''mlock2'', ''mlockall'', ''munlock'', ''munlockall'']"

definition group_setuid :: "string list" where
  "group_setuid =
     [''setgid'', ''setgid32'', ''setgroups'', ''setgroups32'', ''setregid'', ''setregid32'',
      ''setresgid'', ''setresgid32'', ''setresuid'', ''setresuid32'', ''setreuid'', ''setreuid32'',
      ''setuid'', ''setuid32'']"

definition group_pkey :: "string list" where
  "group_pkey =
     [''pkey_alloc'', ''pkey_free'', ''pkey_mprotect'']"

definition group_system_service :: "string list" where
  "group_system_service =
     [''_llseek'', ''_newselect'', ''accept'', ''accept4'', ''access'', ''add_key'', ''alarm'',
      ''arch_prctl'', ''arm_fadvise64_64'', ''bind'', ''brk'', ''cacheflush'', ''capget'',
      ''capset'', ''chdir'', ''chmod'', ''chown'', ''chown32'', ''clock_getres'',
      ''clock_getres_time64'', ''clock_gettime'', ''clock_gettime64'', ''clock_nanosleep'',
      ''clock_nanosleep_time64'', ''clone'', ''clone3'', ''close'', ''close_range'', ''connect'',
      ''copy_file_range'', ''creat'', ''dup'', ''dup2'', ''dup3'', ''epoll_create'',
      ''epoll_create1'', ''epoll_ctl'', ''epoll_ctl_old'', ''epoll_pwait'', ''epoll_pwait2'',
      ''epoll_wait'', ''epoll_wait_old'', ''eventfd'', ''eventfd2'', ''execve'', ''execveat'',
      ''exit'', ''exit_group'', ''faccessat'', ''faccessat2'', ''fadvise64'', ''fadvise64_64'',
      ''fallocate'', ''fchdir'', ''fchmod'', ''fchmodat'', ''fchmodat2'', ''fchown'', ''fchown32'',
      ''fchownat'', ''fcntl'', ''fcntl64'', ''fdatasync'', ''fgetxattr'', ''file_getattr'',
      ''file_setattr'', ''flistxattr'', ''flock'', ''fork'', ''fremovexattr'', ''fsetxattr'',
      ''fstat'', ''fstat64'', ''fstatat'', ''fstatat64'', ''fstatfs'', ''fstatfs64'', ''fsync'',
      ''ftruncate'', ''ftruncate64'', ''futex'', ''futex_time64'', ''futex_waitv'', ''futimesat'',
      ''get_mempolicy'', ''get_robust_list'', ''get_thread_area'', ''getcpu'', ''getcwd'',
      ''getdents'', ''getdents64'', ''getegid'', ''getegid32'', ''geteuid'', ''geteuid32'',
      ''getgid'', ''getgid32'', ''getgroups'', ''getgroups32'', ''getitimer'', ''getpeername'',
      ''getpgid'', ''getpgrp'', ''getpid'', ''getppid'', ''getpriority'', ''getrandom'',
      ''getresgid'', ''getresgid32'', ''getresuid'', ''getresuid32'', ''getrlimit'', ''getrusage'',
      ''getsid'', ''getsockname'', ''getsockopt'', ''gettid'', ''gettimeofday'', ''getuid'',
      ''getuid32'', ''getxattr'', ''getxattrat'', ''inotify_add_watch'', ''inotify_init'',
      ''inotify_init1'', ''inotify_rm_watch'', ''io_cancel'', ''io_destroy'', ''io_getevents'',
      ''io_pgetevents'', ''io_pgetevents_time64'', ''io_setup'', ''io_submit'', ''io_uring_enter'',
      ''io_uring_register'', ''io_uring_setup'', ''ioctl'', ''ioprio_get'', ''ioprio_set'',
      ''ipc'', ''kcmp'', ''keyctl'', ''kill'', ''landlock_add_rule'', ''landlock_create_ruleset'',
      ''landlock_restrict_self'', ''lchown'', ''lchown32'', ''lgetxattr'', ''link'', ''linkat'',
      ''listen'', ''listmount'', ''listxattr'', ''listxattrat'', ''llistxattr'', ''llseek'',
      ''lremovexattr'', ''lseek'', ''lsetxattr'', ''lsm_get_self_attr'', ''lsm_list_modules'',
      ''lstat'', ''lstat64'', ''madvise'', ''mbind'', ''membarrier'', ''memfd_create'',
      ''migrate_pages'', ''mkdir'', ''mkdirat'', ''mknod'', ''mknodat'', ''mlock'', ''mlock2'',
      ''mlockall'', ''mmap'', ''mmap2'', ''move_pages'', ''mprotect'', ''mq_getsetattr'',
      ''mq_notify'', ''mq_open'', ''mq_timedreceive'', ''mq_timedreceive_time64'',
      ''mq_timedsend'', ''mq_timedsend_time64'', ''mq_unlink'', ''mremap'', ''mseal'', ''msgctl'',
      ''msgget'', ''msgrcv'', ''msgsnd'', ''msync'', ''munlock'', ''munlockall'', ''munmap'',
      ''name_to_handle_at'', ''nanosleep'', ''newfstat'', ''newfstatat'', ''nice'', ''oldfstat'',
      ''oldlstat'', ''oldolduname'', ''oldstat'', ''olduname'', ''open'', ''open_tree'',
      ''openat'', ''openat2'', ''pause'', ''personality'', ''pidfd_open'', ''pidfd_send_signal'',
      ''pipe'', ''pipe2'', ''poll'', ''ppoll'', ''ppoll_time64'', ''prctl'', ''pread64'',
      ''preadv'', ''preadv2'', ''prlimit64'', ''process_madvise'', ''process_vm_readv'',
      ''process_vm_writev'', ''pselect6'', ''pselect6_time64'', ''pwrite64'', ''pwritev'',
      ''pwritev2'', ''read'', ''readahead'', ''readdir'', ''readlink'', ''readlinkat'', ''readv'',
      ''recv'', ''recvfrom'', ''recvmmsg'', ''recvmmsg_time64'', ''recvmsg'', ''remap_file_pages'',
      ''removexattr'', ''removexattrat'', ''rename'', ''renameat'', ''renameat2'', ''request_key'',
      ''restart_syscall'', ''riscv_flush_icache'', ''riscv_hwprobe'', ''rmdir'', ''rseq'',
      ''rt_sigaction'', ''rt_sigpending'', ''rt_sigprocmask'', ''rt_sigqueueinfo'',
      ''rt_sigreturn'', ''rt_sigsuspend'', ''rt_sigtimedwait'', ''rt_sigtimedwait_time64'',
      ''rt_tgsigqueueinfo'', ''sched_get_priority_max'', ''sched_get_priority_min'',
      ''sched_getaffinity'', ''sched_getattr'', ''sched_getparam'', ''sched_getscheduler'',
      ''sched_rr_get_interval'', ''sched_rr_get_interval_time64'', ''sched_setaffinity'',
      ''sched_setattr'', ''sched_setparam'', ''sched_setscheduler'', ''sched_yield'', ''seccomp'',
      ''select'', ''semctl'', ''semget'', ''semop'', ''semtimedop'', ''semtimedop_time64'',
      ''send'', ''sendfile'', ''sendfile64'', ''sendmmsg'', ''sendmsg'', ''sendto'',
      ''set_mempolicy'', ''set_mempolicy_home_node'', ''set_robust_list'', ''set_thread_area'',
      ''set_tid_address'', ''set_tls'', ''setfsgid'', ''setfsgid32'', ''setfsuid'', ''setfsuid32'',
      ''setgid'', ''setgid32'', ''setgroups'', ''setgroups32'', ''setitimer'', ''setns'',
      ''setpgid'', ''setpriority'', ''setregid'', ''setregid32'', ''setresgid'', ''setresgid32'',
      ''setresuid'', ''setresuid32'', ''setreuid'', ''setreuid32'', ''setrlimit'', ''setsid'',
      ''setsockopt'', ''setuid'', ''setuid32'', ''setxattr'', ''setxattrat'', ''shmat'',
      ''shmctl'', ''shmdt'', ''shmget'', ''shutdown'', ''sigaction'', ''sigaltstack'', ''signal'',
      ''signalfd'', ''signalfd4'', ''sigpending'', ''sigprocmask'', ''sigreturn'', ''sigsuspend'',
      ''socket'', ''socketcall'', ''socketpair'', ''splice'', ''stat'', ''stat64'', ''statfs'',
      ''statfs64'', ''statmount'', ''statx'', ''swapcontext'', ''symlink'', ''symlinkat'',
      ''sync'', ''sync_file_range'', ''sync_file_range2'', ''syncfs'', ''sysinfo'', ''tee'',
      ''tgkill'', ''time'', ''timer_create'', ''timer_delete'', ''timer_getoverrun'',
      ''timer_gettime'', ''timer_gettime64'', ''timer_settime'', ''timer_settime64'',
      ''timerfd_create'', ''timerfd_gettime'', ''timerfd_gettime64'', ''timerfd_settime'',
      ''timerfd_settime64'', ''times'', ''tkill'', ''truncate'', ''truncate64'', ''ugetrlimit'',
      ''umask'', ''uname'', ''unlink'', ''unlinkat'', ''unshare'', ''uretprobe'', ''userfaultfd'',
      ''utime'', ''utimensat'', ''utimensat_time64'', ''utimes'', ''vfork'', ''vmsplice'',
      ''wait4'', ''waitid'', ''waitpid'', ''write'', ''writev'']"

definition syscall_groups :: "(string \<times> string list) list" where
  "syscall_groups =
     [(''@sandbox'', group_sandbox), (''@default'', group_default),
      (''@basic-io'', group_basic_io), (''@file-system'', group_file_system),
      (''@io-event'', group_io_event), (''@ipc'', group_ipc), (''@network-io'', group_network_io),
      (''@process'', group_process), (''@sync'', group_sync), (''@signal'', group_signal),
      (''@timer'', group_timer), (''@clock'', group_clock), (''@mount'', group_mount),
      (''@resources'', group_resources), (''@privileged'', group_privileged),
      (''@debug'', group_debug), (''@module'', group_module), (''@raw-io'', group_raw_io),
      (''@reboot'', group_reboot), (''@swap'', group_swap),
      (''@cpu-emulation'', group_cpu_emulation), (''@obsolete'', group_obsolete),
      (''@aio'', group_aio), (''@chown'', group_chown), (''@keyring'', group_keyring),
      (''@memlock'', group_memlock), (''@setuid'', group_setuid), (''@pkey'', group_pkey),
      (''@system-service'', group_system_service)]"

definition expand_group :: "string \<Rightarrow> string list option" where
  "expand_group name = map_of syscall_groups name"

section \<open>Known system calls\<close>

definition known_syscalls :: "string list" where
  "known_syscalls =
     [''_llseek'', ''_newselect'', ''_sysctl'', ''accept'', ''accept4'', ''access'', ''acct'',
      ''add_key'', ''adjtimex'', ''afs_syscall'', ''alarm'', ''arch_prctl'', ''arm_fadvise64_64'',
      ''bdflush'', ''bind'', ''bpf'', ''break'', ''brk'', ''cacheflush'', ''cachestat'',
      ''capget'', ''capset'', ''chdir'', ''chmod'', ''chown'', ''chown32'', ''chroot'',
      ''clock_adjtime'', ''clock_adjtime64'', ''clock_getres'', ''clock_getres_time64'',
      ''clock_gettime'', ''clock_gettime64'', ''clock_nanosleep'', ''clock_nanosleep_time64'',
      ''clock_settime'', ''clock_settime64'', ''clone'', ''clone3'', ''close'', ''close_range'',
      ''connect'', ''copy_file_range'', ''creat'', ''create_module'', ''delete_module'', ''dup'',
      ''dup2'', ''dup3'', ''epoll_create'', ''epoll_create1'', ''epoll_ctl'', ''epoll_ctl_old'',
      ''epoll_pwait'', ''epoll_pwait2'', ''epoll_wait'', ''epoll_wait_old'', ''eventfd'',
      ''eventfd2'', ''execve'', ''execveat'', ''exit'', ''exit_group'', ''faccessat'',
      ''faccessat2'', ''fadvise64'', ''fadvise64_64'', ''fallocate'', ''fanotify_init'',
      ''fanotify_mark'', ''fchdir'', ''fchmod'', ''fchmodat'', ''fchmodat2'', ''fchown'',
      ''fchown32'', ''fchownat'', ''fcntl'', ''fcntl64'', ''fdatasync'', ''fgetxattr'',
      ''file_getattr'', ''file_setattr'', ''finit_module'', ''flistxattr'', ''flock'', ''fork'',
      ''fremovexattr'', ''fsconfig'', ''fsetxattr'', ''fsmount'', ''fsopen'', ''fspick'',
      ''fstat'', ''fstat64'', ''fstatat'', ''fstatat64'', ''fstatfs'', ''fstatfs64'', ''fsync'',
      ''ftime'', ''ftruncate'', ''ftruncate64'', ''futex'', ''futex_requeue'', ''futex_time64'',
      ''futex_wait'', ''futex_waitv'', ''futex_wake'', ''futimesat'', ''get_kernel_syms'',
      ''get_mempolicy'', ''get_robust_list'', ''get_thread_area'', ''getcpu'', ''getcwd'',
      ''getdents'', ''getdents64'', ''getegid'', ''getegid32'', ''geteuid'', ''geteuid32'',
      ''getgid'', ''getgid32'', ''getgroups'', ''getgroups32'', ''getitimer'', ''getpeername'',
      ''getpgid'', ''getpgrp'', ''getpid'', ''getpmsg'', ''getppid'', ''getpriority'',
      ''getrandom'', ''getresgid'', ''getresgid32'', ''getresuid'', ''getresuid32'', ''getrlimit'',
      ''getrusage'', ''getsid'', ''getsockname'', ''getsockopt'', ''gettid'', ''gettimeofday'',
      ''getuid'', ''getuid32'', ''getxattr'', ''getxattrat'', ''gtty'', ''idle'', ''init_module'',
      ''inotify_add_watch'', ''inotify_init'', ''inotify_init1'', ''inotify_rm_watch'',
      ''io_cancel'', ''io_destroy'', ''io_getevents'', ''io_pgetevents'', ''io_pgetevents_time64'',
      ''io_setup'', ''io_submit'', ''io_uring_enter'', ''io_uring_register'', ''io_uring_setup'',
      ''ioctl'', ''ioperm'', ''iopl'', ''ioprio_get'', ''ioprio_set'', ''ipc'', ''kcmp'',
      ''kexec_file_load'', ''kexec_load'', ''keyctl'', ''kill'', ''landlock_add_rule'',
      ''landlock_create_ruleset'', ''landlock_restrict_self'', ''lchown'', ''lchown32'',
      ''lgetxattr'', ''link'', ''linkat'', ''listen'', ''listmount'', ''listns'', ''listxattr'',
      ''listxattrat'', ''llistxattr'', ''llseek'', ''lock'', ''lookup_dcookie'', ''lremovexattr'',
      ''lseek'', ''lsetxattr'', ''lsm_get_self_attr'', ''lsm_list_modules'', ''lsm_set_self_attr'',
      ''lstat'', ''lstat64'', ''madvise'', ''map_shadow_stack'', ''mbind'', ''membarrier'',
      ''memfd_create'', ''memfd_secret'', ''migrate_pages'', ''mincore'', ''mkdir'', ''mkdirat'',
      ''mknod'', ''mknodat'', ''mlock'', ''mlock2'', ''mlockall'', ''mmap'', ''mmap2'',
      ''modify_ldt'', ''mount'', ''mount_setattr'', ''move_mount'', ''move_pages'', ''mprotect'',
      ''mpx'', ''mq_getsetattr'', ''mq_notify'', ''mq_open'', ''mq_timedreceive'',
      ''mq_timedreceive_time64'', ''mq_timedsend'', ''mq_timedsend_time64'', ''mq_unlink'',
      ''mremap'', ''mseal'', ''msgctl'', ''msgget'', ''msgrcv'', ''msgsnd'', ''msync'',
      ''munlock'', ''munlockall'', ''munmap'', ''name_to_handle_at'', ''nanosleep'', ''newfstat'',
      ''newfstatat'', ''nfsservctl'', ''nice'', ''oldfstat'', ''oldlstat'', ''oldolduname'',
      ''oldstat'', ''olduname'', ''open'', ''open_by_handle_at'', ''open_tree'',
      ''open_tree_attr'', ''openat'', ''openat2'', ''pause'', ''pciconfig_iobase'',
      ''pciconfig_read'', ''pciconfig_write'', ''perf_event_open'', ''personality'',
      ''pidfd_getfd'', ''pidfd_open'', ''pidfd_send_signal'', ''pipe'', ''pipe2'', ''pivot_root'',
      ''pkey_alloc'', ''pkey_free'', ''pkey_mprotect'', ''poll'', ''ppoll'', ''ppoll_time64'',
      ''prctl'', ''pread64'', ''preadv'', ''preadv2'', ''prlimit64'', ''process_madvise'',
      ''process_mrelease'', ''process_vm_readv'', ''process_vm_writev'', ''prof'', ''profil'',
      ''pselect6'', ''pselect6_time64'', ''ptrace'', ''putpmsg'', ''pwrite64'', ''pwritev'',
      ''pwritev2'', ''query_module'', ''quotactl'', ''quotactl_fd'', ''read'', ''readahead'',
      ''readdir'', ''readlink'', ''readlinkat'', ''readv'', ''reboot'', ''recv'', ''recvfrom'',
      ''recvmmsg'', ''recvmmsg_time64'', ''recvmsg'', ''remap_file_pages'', ''removexattr'',
      ''removexattrat'', ''rename'', ''renameat'', ''renameat2'', ''request_key'',
      ''restart_syscall'', ''riscv_flush_icache'', ''riscv_hwprobe'', ''rmdir'', ''rseq'',
      ''rseq_slice_yield'', ''rt_sigaction'', ''rt_sigpending'', ''rt_sigprocmask'',
      ''rt_sigqueueinfo'', ''rt_sigreturn'', ''rt_sigsuspend'', ''rt_sigtimedwait'',
      ''rt_sigtimedwait_time64'', ''rt_tgsigqueueinfo'', ''rtas'', ''s390_pci_mmio_read'',
      ''s390_pci_mmio_write'', ''s390_runtime_instr'', ''sched_get_priority_max'',
      ''sched_get_priority_min'', ''sched_getaffinity'', ''sched_getattr'', ''sched_getparam'',
      ''sched_getscheduler'', ''sched_rr_get_interval'', ''sched_rr_get_interval_time64'',
      ''sched_setaffinity'', ''sched_setattr'', ''sched_setparam'', ''sched_setscheduler'',
      ''sched_yield'', ''seccomp'', ''security'', ''select'', ''semctl'', ''semget'', ''semop'',
      ''semtimedop'', ''semtimedop_time64'', ''send'', ''sendfile'', ''sendfile64'', ''sendmmsg'',
      ''sendmsg'', ''sendto'', ''set_mempolicy'', ''set_mempolicy_home_node'', ''set_robust_list'',
      ''set_thread_area'', ''set_tid_address'', ''set_tls'', ''setdomainname'', ''setfsgid'',
      ''setfsgid32'', ''setfsuid'', ''setfsuid32'', ''setgid'', ''setgid32'', ''setgroups'',
      ''setgroups32'', ''sethostname'', ''setitimer'', ''setns'', ''setpgid'', ''setpriority'',
      ''setregid'', ''setregid32'', ''setresgid'', ''setresgid32'', ''setresuid'', ''setresuid32'',
      ''setreuid'', ''setreuid32'', ''setrlimit'', ''setsid'', ''setsockopt'', ''settimeofday'',
      ''setuid'', ''setuid32'', ''setxattr'', ''setxattrat'', ''sgetmask'', ''shmat'', ''shmctl'',
      ''shmdt'', ''shmget'', ''shutdown'', ''sigaction'', ''sigaltstack'', ''signal'',
      ''signalfd'', ''signalfd4'', ''sigpending'', ''sigprocmask'', ''sigreturn'', ''sigsuspend'',
      ''socket'', ''socketcall'', ''socketpair'', ''splice'', ''ssetmask'', ''stat'', ''stat64'',
      ''statfs'', ''statfs64'', ''statmount'', ''statx'', ''stime'', ''stty'', ''subpage_prot'',
      ''swapcontext'', ''swapoff'', ''swapon'', ''switch_endian'', ''symlink'', ''symlinkat'',
      ''sync'', ''sync_file_range'', ''sync_file_range2'', ''syncfs'', ''sys_debug_setcontext'',
      ''sysfs'', ''sysinfo'', ''syslog'', ''tee'', ''tgkill'', ''time'', ''timer_create'',
      ''timer_delete'', ''timer_getoverrun'', ''timer_gettime'', ''timer_gettime64'',
      ''timer_settime'', ''timer_settime64'', ''timerfd_create'', ''timerfd_gettime'',
      ''timerfd_gettime64'', ''timerfd_settime'', ''timerfd_settime64'', ''times'', ''tkill'',
      ''truncate'', ''truncate64'', ''tuxcall'', ''ugetrlimit'', ''ulimit'', ''umask'', ''umount'',
      ''umount2'', ''uname'', ''unlink'', ''unlinkat'', ''unshare'', ''uprobe'', ''uretprobe'',
      ''uselib'', ''userfaultfd'', ''ustat'', ''utime'', ''utimensat'', ''utimensat_time64'',
      ''utimes'', ''vfork'', ''vhangup'', ''vm86'', ''vm86old'', ''vmsplice'', ''vserver'',
      ''wait4'', ''waitid'', ''waitpid'', ''write'', ''writev'']"

definition is_known_syscall :: "string \<Rightarrow> bool" where
  "is_known_syscall name \<longleftrightarrow> name \<in> set known_syscalls"

end
