(* ===== verification/Config_Sections.thy ===== *)
theory Config_Sections
  imports Config_Duration Syscall_Groups
begin

text \<open>
  From a service file to a specification, \<open>crates/fractald-config/src/lib.rs\<close>: \<open>parse_service\<close>,
  \<open>parse_spec\<close>, the parser of each kind of service and of each section. A function that updates
  \<open>spec: &mut ServiceSpec\<close> takes the specification and returns it updated, or the error; a sequence
  of such statements is the list of its steps, run in order by \<open>run_steps\<close>.
\<close>

section \<open>Statements\<close>

type_synonym spec_step = "service_spec \<Rightarrow> config_error + service_spec"

definition run_steps :: "('s \<Rightarrow> 'e + 's) list \<Rightarrow> 's \<Rightarrow> 'e + 's" where
  "run_steps steps s = fold_try (\<lambda>step. step) steps s"

text \<open>\<open>if let Some(value) = v { spec.field = parse(value)?; }\<close>\<close>

definition set_parsed :: "'v option \<Rightarrow> ('v \<Rightarrow> 'e + 'a) \<Rightarrow> ('a \<Rightarrow> 's \<Rightarrow> 's) \<Rightarrow> 's \<Rightarrow> 'e + 's" where
  "set_parsed v parse put s =
     (case v of None \<Rightarrow> Ok s | Some value \<Rightarrow> map_res (\<lambda>x. put x s) (parse value))"

text \<open>\<open>if let Some(value) = v? { spec.field = value; }\<close>\<close>

definition set_some :: "'e + 'a option \<Rightarrow> ('a \<Rightarrow> 's \<Rightarrow> 's) \<Rightarrow> 's \<Rightarrow> 'e + 's" where
  "set_some v put s =
     map_res (\<lambda>r. case r of None \<Rightarrow> s | Some x \<Rightarrow> put x s) v"

text \<open>\<open>spec.field = v?;\<close>\<close>

definition assign :: "'e + 'a \<Rightarrow> ('a \<Rightarrow> 's \<Rightarrow> 's) \<Rightarrow> 's \<Rightarrow> 'e + 's" where
  "assign v put s = map_res (\<lambda>x. put x s) v"

text \<open>The words of each directive of a key in turn: \<open>for directive ... for value in split_words(..)?\<close>.\<close>

definition each_word ::
    "native_file \<Rightarrow> string \<Rightarrow> string \<Rightarrow> (nat \<Rightarrow> string \<Rightarrow> 's \<Rightarrow> config_error + 's) \<Rightarrow> 's \<Rightarrow> config_error + 's" where
  "each_word file section key body =
     fold_try (\<lambda>d s. bind_res (split_words (dr_value d) (dr_line d)) (\<lambda>words.
       fold_try (body (dr_line d)) words s)) (effective_directives file section key)"

text \<open>The words of all directives of a key: \<open>for value in list_values(..)?\<close>.\<close>

definition each_value ::
    "native_file \<Rightarrow> string \<Rightarrow> string \<Rightarrow> (string \<Rightarrow> 's \<Rightarrow> config_error + 's) \<Rightarrow> 's \<Rightarrow> config_error + 's" where
  "each_value file section key body s =
     bind_res (list_values file section key) (\<lambda>values. fold_try body values s)"

definition nonzero :: "duration \<Rightarrow> duration option" where
  "nonzero d = (if d = 0 then None else Some d)"

definition show_int :: "int \<Rightarrow> string" where
  "show_int i = (if i < 0 then CHR ''-'' # show_nat (nat (- i)) else show_nat (nat i))"

fun show_octal :: "nat \<Rightarrow> string" where
  "show_octal n = (if n < 8 then [digit_char n] else show_octal (n div 8) @ [digit_char (n mod 8)])"

declare show_octal.simps [simp del]

section \<open>Dependencies and commands\<close>

definition dependency_fields :: "(string \<times> (string \<Rightarrow> dependency_set \<Rightarrow> dependency_set)) list" where
  "dependency_fields =
     [(''requires'', \<lambda>v. dep_requires_update (bset_insert v)),
      (''wants'', \<lambda>v. dep_wants_update (bset_insert v)),
      (''after'', \<lambda>v. dep_after_update (bset_insert v)),
      (''before'', \<lambda>v. dep_before_update (bset_insert v)),
      (''conflicts'', \<lambda>v. dep_conflicts_update (bset_insert v)),
      (''part_of'', \<lambda>v. dep_part_of_update (bset_insert v)),
      (''binds_to'', \<lambda>v. dep_binds_to_update (bset_insert v)),
      (''requisite'', \<lambda>v. dep_requisite_update (bset_insert v)),
      (''on_success'', \<lambda>v. dep_on_success_update (bset_insert v)),
      (''on_failure'', \<lambda>v. dep_on_failure_update (bset_insert v))]"

definition parse_dependencies :: "native_file \<Rightarrow> spec_step" where
  "parse_dependencies file =
     fold_try (\<lambda>(key, put). each_value file ''dependencies'' key (\<lambda>value s.
       map_res (\<lambda>_. sp_dependencies_update (put value) s) (validate_name value))) dependency_fields"

definition mount_fields :: "(string \<times> (string \<Rightarrow> service_spec \<Rightarrow> service_spec)) list" where
  "mount_fields =
     [(''requires_mount'', \<lambda>v. sp_requires_mounts_for_update (\<lambda>ps. ps @ [v])),
      (''wants_mount'', \<lambda>v. sp_wants_mounts_for_update (\<lambda>ps. ps @ [v]))]"

definition parse_mount_paths :: "native_file \<Rightarrow> spec_step" where
  "parse_mount_paths file =
     fold_try (\<lambda>(key, push). each_value file ''dependencies'' key (\<lambda>value s.
       if \<not> starts_with value ''/'' \<and> \<not> starts_with value ''%''
       then Err (config_error_message (key @ '' path is not absolute: '' @ value))
       else Ok (push value s))) mount_fields"

definition command_fields :: "(string \<times> (command_spec \<Rightarrow> service_spec \<Rightarrow> service_spec)) list" where
  "command_fields =
     [(''exec_pre'', \<lambda>c. sp_start_pre_update (\<lambda>cs. cs @ [c])),
      (''exec_post'', \<lambda>c. sp_start_post_update (\<lambda>cs. cs @ [c])),
      (''exec_stop_post'', \<lambda>c. sp_stop_post_update (\<lambda>cs. cs @ [c])),
      (''exec_condition'', \<lambda>c. sp_exec_conditions_update (\<lambda>cs. cs @ [c]))]"

definition parse_command_lists :: "native_file \<Rightarrow> spec_step" where
  "parse_command_lists file =
     fold_try (\<lambda>(key, push). fold_try (\<lambda>d s.
       if dr_value d \<noteq> [] then map_res (\<lambda>c. push c s) (parse_command (dr_value d) (dr_line d)) else Ok s)
       (effective_directives file ''service'' key)) command_fields"

section \<open>Flags and lifecycle\<close>

definition flag_fields :: "(string \<times> (bool \<Rightarrow> service_spec \<Rightarrow> service_spec)) list" where
  "flag_fields =
     [(''send_sighup'', \<lambda>b s. s\<lparr>sp_send_sighup := b\<rparr>),
      (''ignore_sigpipe'', \<lambda>b s. s\<lparr>sp_ignore_sigpipe := b\<rparr>),
      (''remain_after_exit'', \<lambda>b s. s\<lparr>sp_remain_after_exit := b\<rparr>),
      (''refuse_manual_start'', \<lambda>b s. s\<lparr>sp_refuse_manual_start := b\<rparr>),
      (''refuse_manual_stop'', \<lambda>b s. s\<lparr>sp_refuse_manual_stop := b\<rparr>),
      (''stop_when_unneeded'', \<lambda>b s. s\<lparr>sp_stop_when_unneeded := b\<rparr>),
      (''default_dependencies'', \<lambda>b s. s\<lparr>sp_default_dependencies := b\<rparr>),
      (''allow_isolate'', \<lambda>b s. s\<lparr>sp_allow_isolate := b\<rparr>),
      (''ignore_on_isolate'', \<lambda>b s. s\<lparr>sp_ignore_on_isolate := b\<rparr>)]"

text \<open>All three sections are read, and their errors reported, before the first value found is used.\<close>

definition flag_value :: "native_file \<Rightarrow> string \<Rightarrow> config_error + bool option" where
  "flag_value file key =
     bind_res (bool_value file ''service'' key) (\<lambda>a.
     bind_res (bool_value file ''dependencies'' key) (\<lambda>b.
     bind_res (bool_value file ''install'' key) (\<lambda>c.
       Ok (if a \<noteq> None then a else if b \<noteq> None then b else c))))"

definition parse_flags :: "native_file \<Rightarrow> spec_step" where
  "parse_flags file = fold_try (\<lambda>(key, put). set_some (flag_value file key) put) flag_fields"

definition parse_lifecycle :: "native_file \<Rightarrow> spec_step" where
  "parse_lifecycle file = run_steps
     [set_parsed (value_of file ''service'' ''stop'')
        (\<lambda>v. parse_command v (line_of file ''service'' ''stop'')) (\<lambda>c s. s\<lparr>sp_stop := Some c\<rparr>),
      set_parsed (value_of file ''service'' ''reload'')
        (\<lambda>v. parse_command v (line_of file ''service'' ''reload'')) (\<lambda>c s. s\<lparr>sp_reload := Some c\<rparr>),
      set_parsed (value_of file ''service'' ''restart'') parse_restart (\<lambda>p s. s\<lparr>sp_restart := p\<rparr>),
      set_parsed (value_of file ''service'' ''restart_delay'')
        (\<lambda>v. parse_duration v ''restart_delay'') (\<lambda>d s. s\<lparr>sp_restart_backoff := d\<rparr>),
      set_parsed (value_of file ''service'' ''start_timeout'')
        (\<lambda>v. parse_duration v ''start_timeout'') (\<lambda>d s. s\<lparr>sp_start_timeout := d\<rparr>),
      set_parsed (value_of file ''service'' ''stop_timeout'')
        (\<lambda>v. parse_duration v ''stop_timeout'') (\<lambda>d s. s\<lparr>sp_stop_timeout := d\<rparr>),
      set_parsed (value_of file ''service'' ''runtime_limit'')
        (\<lambda>v. parse_duration v ''runtime_limit'') (\<lambda>d s. s\<lparr>sp_runtime_max := nonzero d\<rparr>),
      set_parsed (value_of file ''service'' ''kill_signal'') parse_signal
        (\<lambda>n s. s\<lparr>sp_kill_signal := n\<rparr>),
      set_parsed (value_of file ''service'' ''restart_kill_signal'') parse_signal
        (\<lambda>n s. s\<lparr>sp_restart_kill_signal := Some n\<rparr>)]"

definition parse_identity :: "native_file \<Rightarrow> spec_step" where
  "parse_identity file = run_steps
     [set_parsed (value_of file ''service'' ''working_directory'') Ok
        (\<lambda>v s. s\<lparr>sp_working_directory := Some v\<rparr>),
      set_parsed (value_of file ''service'' ''pid_file'') Ok (\<lambda>v s. s\<lparr>sp_pid_file := Some v\<rparr>),
      set_parsed (value_of file ''service'' ''user'') Ok (\<lambda>v s. s\<lparr>sp_user := Some v\<rparr>),
      set_parsed (value_of file ''service'' ''group'') Ok (\<lambda>v s. s\<lparr>sp_group := Some v\<rparr>),
      set_some (bool_value file ''service'' ''dynamic_user'') (\<lambda>b s. s\<lparr>sp_dynamic_user := b\<rparr>),
      set_some (list_values_optional file ''service'' ''supplementary_groups'')
        (\<lambda>gs s. s\<lparr>sp_supplementary_groups := Some gs\<rparr>),
      set_parsed (value_of file ''service'' ''cgroup_slice'') Ok
        (\<lambda>v s. s\<lparr>sp_cgroup_slice := Some v\<rparr>)]"

section \<open>Environment, directories, credentials\<close>

definition add_environment :: "nat \<Rightarrow> string \<Rightarrow> spec_step" where
  "add_environment line entry s =
     bind_res (ok_or (split_once CHR ''='' entry)
                (config_error_at line ''environment entries must use NAME=VALUE'')) (\<lambda>(name, value).
       if \<not> valid_environment_name name
       then Err (config_error_at line (''invalid environment name '' @ name))
       else Ok (sp_environment_update (bmap_insert name value) s))"

definition add_unset_environment :: "string \<Rightarrow> spec_step" where
  "add_unset_environment value s =
     (if \<not> valid_environment_name value
      then Err (config_error_message (''invalid environment name '' @ value))
      else Ok (sp_unset_environment_update (bset_insert value) s))"

definition add_environment_file :: "nat \<Rightarrow> string \<Rightarrow> spec_step" where
  "add_environment_file line value s =
     (let path = (case strip_prefix ''-'' value of Some p \<Rightarrow> p | None \<Rightarrow> value)
      in if \<not> starts_with path ''/'' then Err (config_error_at line ''environment_file path must be absolute'')
         else Ok (sp_environment_files_update
                    (\<lambda>fs. fs @ [\<lparr>ef_path = path, ef_optional = starts_with value ''-''\<rparr>]) s))"

definition parse_environment :: "native_file \<Rightarrow> spec_step" where
  "parse_environment file = run_steps
     [each_word file ''service'' ''environment'' add_environment,
      each_value file ''service'' ''unset_environment'' add_unset_environment,
      each_word file ''service'' ''environment_file'' add_environment_file]"

definition directory_kinds :: "(string \<times> directory_kind) list" where
  "directory_kinds =
     [(''configuration'', DirConfiguration), (''runtime'', DirRuntime), (''state'', DirState),
      (''cache'', DirCache), (''logs'', DirLogs)]"

definition add_directory :: "string \<Rightarrow> directory_kind \<Rightarrow> 32 word \<Rightarrow> bool \<Rightarrow> nat \<Rightarrow> string \<Rightarrow> spec_step" where
  "add_directory key kind mode preserve line path s =
     (if is_absolute path \<or> has_parent_dir path
      then Err (config_error_at line (''paths.'' @ key @ '' must be relative and cannot contain '' @
             [CHR 0x27] @ ''..'' @ [CHR 0x27]))
      else Ok (sp_directories_update (\<lambda>ds. ds @
             [\<lparr>ds_kind = kind, ds_path = path, ds_mode = mode, ds_preserve = preserve\<rparr>]) s))"

definition parse_directories :: "native_file \<Rightarrow> spec_step" where
  "parse_directories file =
     fold_try (\<lambda>(key, kind) s.
       bind_res (transpose_map (\<lambda>v. parse_mode v (key @ ''_mode'')) (value_of file ''paths'' (key @ ''_mode''))) (\<lambda>mode.
       bind_res (transpose_map (\<lambda>v. parse_bool v (key @ ''_preserve'')) (value_of file ''paths'' (key @ ''_preserve''))) (\<lambda>preserve.
         each_word file ''paths'' key
           (add_directory key kind (case mode of Some m \<Rightarrow> m | None \<Rightarrow> 493)
              (case preserve of Some p \<Rightarrow> p | None \<Rightarrow> False)) s))) directory_kinds"

definition push_credential :: "string \<Rightarrow> credential_source \<Rightarrow> service_spec \<Rightarrow> service_spec" where
  "push_credential name source =
     sp_credentials_update (\<lambda>cs. cs @ [\<lparr>cr_name = name, cr_source = source\<rparr>])"

definition add_credential_file :: "directive \<Rightarrow> spec_step" where
  "add_credential_file d s =
     bind_res (ok_or (split_once CHR '':'' (dr_value d))
                (config_error_at (dr_line d) ''credentials.file entries must use NAME:PATH'')) (\<lambda>(name, path).
     bind_res (validate_credential_name name (dr_line d)) (\<lambda>_.
       if path = [] then Err (config_error_at (dr_line d) ''credential path is empty'')
       else Ok (push_credential name (CredentialFile path) s)))"

definition add_credential_value :: "directive \<Rightarrow> spec_step" where
  "add_credential_value d s =
     bind_res (ok_or (split_once CHR '':'' (dr_value d))
                (config_error_at (dr_line d) ''credentials.value entries must use NAME:VALUE'')) (\<lambda>(name, value).
     bind_res (validate_credential_name name (dr_line d)) (\<lambda>_.
       Ok (push_credential name (CredentialValue value) s)))"

definition add_credential_store :: "directive \<Rightarrow> spec_step" where
  "add_credential_store d s =
     (let (name, value) = (case split_once CHR '':'' (dr_value d) of
                             None \<Rightarrow> (dr_value d, dr_value d) | Some p \<Rightarrow> p)
      in bind_res (validate_credential_name name (dr_line d)) (\<lambda>_.
           Ok (push_credential name (CredentialStore value) s)))"

definition add_credential_import :: "directive \<Rightarrow> spec_step" where
  "add_credential_import d s =
     (let (pattern, rename) = (case split_once CHR '':'' (dr_value d) of
                                 None \<Rightarrow> (dr_value d, None) | Some (p, r) \<Rightarrow> (p, Some r))
      in if pattern = [] \<or> \<not> validate_credential_name_template pattern
         then Err (config_error_at (dr_line d) ''credential import pattern is invalid'')
         else Ok (sp_credential_imports_update (\<lambda>cs. cs @ [\<lparr>ci_pattern = pattern, ci_rename = rename\<rparr>]) s))"

definition parse_credentials :: "native_file \<Rightarrow> spec_step" where
  "parse_credentials file = run_steps
     [fold_try add_credential_file (effective_directives file ''credentials'' ''file''),
      fold_try add_credential_value (effective_directives file ''credentials'' ''value''),
      fold_try add_credential_store (effective_directives file ''credentials'' ''store''),
      fold_try add_credential_import (effective_directives file ''credentials'' ''import'')]"

section \<open>Conditions\<close>

definition condition_kinds :: "(string \<times> (string \<Rightarrow> bool \<Rightarrow> config_error + condition)) list" where
  "condition_kinds =
     [(''path_exists'', \<lambda>v n. Ok (PathExists v n)),
      (''path_exists_glob'', \<lambda>v n. Ok (PathExistsGlob v n)),
      (''directory_not_empty'', \<lambda>v n. Ok (DirectoryNotEmpty v n)),
      (''executable'', \<lambda>v n. Ok (FileIsExecutable v n)),
      (''read_write'', \<lambda>v n. Ok (PathIsReadWrite v n)),
      (''directory'', \<lambda>v n. Ok (PathIsDirectory v n)),
      (''file_not_empty'', \<lambda>v n. Ok (FileNotEmpty v n)),
      (''mount_point'', \<lambda>v n. Ok (PathIsMountPoint v n)),
      (''symlink'', \<lambda>v n. Ok (PathIsSymbolicLink v n)),
      (''kernel_command_line'', \<lambda>v n. Ok (KernelCommandLine v n)),
      (''virtualization'', \<lambda>v n. Ok (Virtualization v n)),
      (''security'', \<lambda>v n. Ok (Security v n)),
      (''ac_power'', \<lambda>v n. map_res (\<lambda>b. ACPower b n) (parse_bool v ''ac_power'')),
      (''capability'', \<lambda>v n. Ok (Capability v n)),
      (''kernel_module'', \<lambda>v n. Ok (KernelModuleLoaded v n)),
      (''firmware'', \<lambda>v n. Ok (Firmware v n)),
      (''first_boot'', \<lambda>v n. map_res (\<lambda>b. FirstBoot b n) (parse_bool v ''first_boot'')),
      (''credential'', \<lambda>v n. Ok (CondCredential v n)),
      (''cgroup_controller'', \<lambda>v n. Ok (ControlGroupController v n)),
      (''environment'', \<lambda>v n. map_res (\<lambda>(name, expected). CondEnvironment name expected n)
         (parse_environment_condition v ''environment'')),
      (''needs_update'', \<lambda>v n. map_res (\<lambda>path. NeedsUpdate path n)
         (parse_needs_update_path v ''needs_update''))]"

definition add_condition ::
    "string \<Rightarrow> string \<Rightarrow> (string \<Rightarrow> bool \<Rightarrow> config_error + condition) \<Rightarrow> nat \<Rightarrow> string \<Rightarrow>
     condition list \<Rightarrow> config_error + condition list" where
  "add_condition section key build line raw destination =
     (let (alternative, negate, value) = condition_prefix raw
      in if value = [] then Err (config_error_at line (section @ ''.'' @ key @ '' is empty''))
         else map_res (\<lambda>cond. push_condition destination cond alternative) (build value negate))"

definition parse_condition_section ::
    "native_file \<Rightarrow> string \<Rightarrow> condition list \<Rightarrow> config_error + condition list" where
  "parse_condition_section file section =
     fold_try (\<lambda>(key, build). each_word file section key (add_condition section key build)) condition_kinds"

definition parse_conditions :: "native_file \<Rightarrow> spec_step" where
  "parse_conditions file s =
     bind_res (parse_condition_section file ''conditions'' (sp_conditions s)) (\<lambda>cs.
     bind_res (parse_condition_section file ''assertions'' (sp_assertions s)) (\<lambda>as.
       Ok (s\<lparr>sp_conditions := cs, sp_assertions := as\<rparr>)))"

section \<open>System call filters\<close>

text \<open>The name, the action of the rule for \<open>word\<close>, and the names it stands for.\<close>

definition add_syscall_word ::
    "bool \<Rightarrow> nat \<Rightarrow> string \<Rightarrow> (string, system_call_rule_action) bmap \<Rightarrow>
     config_error + (string, system_call_rule_action) bmap" where
  "add_syscall_word deny line word rules =
     bind_res (case split_once CHR '':'' word of
                 Some (name, errno) \<Rightarrow> map_res (\<lambda>e. (name, Some e)) (parse_errno errno ''syscall_filter'')
               | None \<Rightarrow> Ok (word, None)) (\<lambda>(name, errno).
       if name = [] then Err (config_error_at line ''syscall_filter has an empty name'')
       else
         (let names = (case expand_group name of None \<Rightarrow> [name] | Some values \<Rightarrow> values);
              action = (if deny then (case errno of None \<Rightarrow> CallDeny | Some e \<Rightarrow> CallDenyWithErrno e)
                        else CallAllow)
          in Ok (fold (\<lambda>n. bmap_insert n action) names rules)))"

definition add_syscall_directive ::
    "directive \<Rightarrow> bool \<times> (string, system_call_rule_action) bmap \<Rightarrow>
     config_error + bool \<times> (string, system_call_rule_action) bmap" where
  "add_syscall_directive d = (\<lambda>(_, rules).
     bind_res (split_words (dr_value d) (dr_line d)) (\<lambda>words.
       case words of
         [] \<Rightarrow> Err (config_error_at (dr_line d) ''syscall_filter is empty'')
       | first # rest \<Rightarrow>
           (let (deny, first) = (case strip_prefix ''!'' first of Some r \<Rightarrow> (True, r) | None \<Rightarrow> (False, first))
            in map_res (Pair deny) (fold_try (add_syscall_word deny (dr_line d)) (first # rest) rules))))"

definition parse_syscall_filter :: "native_file \<Rightarrow> config_error + system_call_filter option" where
  "parse_syscall_filter file =
     (let directives = effective_directives file ''security'' ''syscall_filter''
      in if directives = [] then Ok None
         else map_res (\<lambda>(default_allow, rules). Some \<lparr>scf_default_allow = default_allow,
                  scf_rules = map (\<lambda>(name, action). \<lparr>scr_name = name, scr_action = action\<rparr>) rules\<rparr>)
                (fold_try add_syscall_directive directives (True, [])))"

section \<open>Security\<close>

definition security_flags :: "(string \<times> (bool \<Rightarrow> service_spec \<Rightarrow> service_spec)) list" where
  "security_flags =
     [(''no_new_privileges'', \<lambda>b s. s\<lparr>sp_no_new_privileges := b\<rparr>),
      (''memory_deny_write_execute'', \<lambda>b s. s\<lparr>sp_memory_deny_write_execute := b\<rparr>),
      (''restrict_realtime'', \<lambda>b s. s\<lparr>sp_restrict_realtime := b\<rparr>),
      (''restrict_suid_sgid'', \<lambda>b s. s\<lparr>sp_restrict_suid_sgid := b\<rparr>),
      (''protect_control_groups'', \<lambda>b s. s\<lparr>sp_protect_control_groups := b\<rparr>),
      (''protect_kernel_modules'', \<lambda>b s. s\<lparr>sp_protect_kernel_modules := b\<rparr>),
      (''protect_kernel_tunables'', \<lambda>b s. s\<lparr>sp_protect_kernel_tunables := b\<rparr>),
      (''protect_kernel_logs'', \<lambda>b s. s\<lparr>sp_protect_kernel_logs := b\<rparr>),
      (''protect_clock'', \<lambda>b s. s\<lparr>sp_protect_clock := b\<rparr>),
      (''protect_hostname'', \<lambda>b s. s\<lparr>sp_protect_hostname := b\<rparr>),
      (''lock_personality'', \<lambda>b s. s\<lparr>sp_lock_personality := b\<rparr>)]"

definition private_flags :: "(string \<times> (bool \<Rightarrow> service_spec \<Rightarrow> service_spec)) list" where
  "private_flags =
     [(''private_devices'', \<lambda>b s. s\<lparr>sp_private_devices := b\<rparr>),
      (''private_mounts'', \<lambda>b s. s\<lparr>sp_private_mounts := b\<rparr>),
      (''private_ipc'', \<lambda>b s. s\<lparr>sp_private_ipc := b\<rparr>),
      (''private_network'', \<lambda>b s. s\<lparr>sp_private_network := b\<rparr>)]"

definition parse_ranged :: "string \<Rightarrow> int \<Rightarrow> int \<Rightarrow> string \<Rightarrow> config_error + int" where
  "parse_ranged key low high value =
     bind_res (ok_or (parse_i32 value) (invalid key value)) (\<lambda>n.
       if \<not> (low \<le> n \<and> n \<le> high) then Err (invalid key (show_int n)) else Ok n)"

definition oom_policy_table :: "(string \<times> oom_policy) list" where
  "oom_policy_table = [(''continue'', OomContinue), (''stop'', OomStop), (''kill'', OomKill)]"

definition add_device_rule :: "directive \<Rightarrow> spec_step" where
  "add_device_rule d s =
     bind_res (split_words (dr_value d) (dr_line d)) (\<lambda>values.
       case rev values of
         [] \<Rightarrow> Err (config_error_at (dr_line d) ''device_allow has no access mode'')
       | access # front \<Rightarrow>
           (let device = join '' '' (rev front)
            in if device = [] then Err (config_error_at (dr_line d) ''device_allow has no device'')
               else map_res (\<lambda>bits. sp_device_allow_update
                        (\<lambda>rs. rs @ [\<lparr>dar_device = device, dar_access = bits\<rparr>]) s)
                      (parse_device_access access (dr_line d))))"

definition parse_security :: "native_file \<Rightarrow> spec_step" where
  "parse_security file =
     (let value = value_of file ''security'' in run_steps
     [fold_try (\<lambda>(key, put). set_some (bool_value file ''security'' key) put) security_flags,
      set_parsed (value ''umask'') (\<lambda>v. parse_mode v ''umask'') (\<lambda>m s. s\<lparr>sp_umask := Some m\<rparr>),
      set_parsed (value ''nice'') (parse_ranged ''nice'' (- 20) 19) (\<lambda>n s. s\<lparr>sp_nice := Some n\<rparr>),
      set_parsed (value ''oom_score_adjust'') (parse_ranged ''oom_score_adjust'' (- 1000) 1000)
        (\<lambda>n s. s\<lparr>sp_oom_score_adjust := Some n\<rparr>),
      set_parsed (value ''oom_policy'')
        (\<lambda>v. ok_or (map_of oom_policy_table (to_ascii_lowercase v)) (invalid ''oom_policy'' v))
        (\<lambda>p s. s\<lparr>sp_oom_policy := p\<rparr>),
      set_parsed (value ''private_tmp'') parse_private_tmp (\<lambda>m s. s\<lparr>sp_private_tmp := m\<rparr>),
      fold_try (\<lambda>(key, put). set_some (bool_value file ''security'' key) put) private_flags,
      set_parsed (value ''device_policy'') parse_device_policy (\<lambda>p s. s\<lparr>sp_device_policy := p\<rparr>),
      fold_try add_device_rule (effective_directives file ''security'' ''device_allow''),
      set_parsed (value ''delegate'') parse_delegate (\<lambda>m s. s\<lparr>sp_delegate := m\<rparr>),
      set_parsed (value ''private_users'') parse_private_users (\<lambda>m s. s\<lparr>sp_private_users := m\<rparr>),
      set_parsed (value ''restrict_namespaces'') parse_namespace_list
        (\<lambda>m s. s\<lparr>sp_restrict_namespaces := Some m\<rparr>),
      set_parsed (value ''protect_system'') parse_protect_system (\<lambda>m s. s\<lparr>sp_protect_system := m\<rparr>),
      set_parsed (value ''protect_home'') parse_protect_home (\<lambda>m s. s\<lparr>sp_protect_home := m\<rparr>),
      set_parsed (value ''protect_proc'') parse_protect_proc (\<lambda>m s. s\<lparr>sp_protect_proc := m\<rparr>),
      set_parsed (value ''proc_subset'') parse_proc_subset (\<lambda>m s. s\<lparr>sp_proc_subset := m\<rparr>),
      assign (paths file ''security'' ''read_write'') (\<lambda>ps s. s\<lparr>sp_read_write_paths := ps\<rparr>),
      assign (paths file ''security'' ''read_only'') (\<lambda>ps s. s\<lparr>sp_read_only_paths := ps\<rparr>),
      assign (paths file ''security'' ''inaccessible'') (\<lambda>ps s. s\<lparr>sp_inaccessible_paths := ps\<rparr>),
      set_parsed (value ''capability_bounding_set'') parse_capabilities
        (\<lambda>m s. s\<lparr>sp_capability_bounding_set := Some m\<rparr>),
      set_parsed (value ''ambient_capabilities'') parse_capabilities
        (\<lambda>m s. s\<lparr>sp_ambient_capabilities := Some m\<rparr>),
      set_parsed (value ''address_families'') parse_address_families
        (\<lambda>m s. s\<lparr>sp_restrict_address_families := Some m\<rparr>),
      set_parsed (value ''syscall_architectures'') parse_architectures
        (\<lambda>m s. s\<lparr>sp_system_call_architectures := Some m\<rparr>),
      set_parsed (value ''syscall_error_number'') (\<lambda>v. parse_errno v ''syscall_error_number'')
        (\<lambda>e s. s\<lparr>sp_system_call_error_number := Some e\<rparr>),
      assign (parse_syscall_filter file) (\<lambda>f s. s\<lparr>sp_system_call_filter := f\<rparr>)])"

section \<open>Resources, manager, limits\<close>

definition parse_resources :: "native_file \<Rightarrow> spec_step" where
  "parse_resources file s = map_res (\<lambda>r. s\<lparr>sp_resources := r\<rparr>) (run_steps
     [assign (limit_value_of file ''memory_max'' True) (\<lambda>l r. r\<lparr>rl_memory_max := l\<rparr>),
      assign (limit_value_of file ''memory_high'' True) (\<lambda>l r. r\<lparr>rl_memory_high := l\<rparr>),
      assign (limit_value_of file ''memory_min'' True) (\<lambda>l r. r\<lparr>rl_memory_min := l\<rparr>),
      assign (limit_value_of file ''memory_low'' True) (\<lambda>l r. r\<lparr>rl_memory_low := l\<rparr>),
      assign (limit_value_of file ''memory_swap_max'' True) (\<lambda>l r. r\<lparr>rl_memory_swap_max := l\<rparr>),
      assign (limit_value_of file ''tasks_max'' False) (\<lambda>l r. r\<lparr>rl_tasks_max := l\<rparr>),
      assign (number_value file ''cpu_weight'') (\<lambda>n r. r\<lparr>rl_cpu_weight := n\<rparr>),
      assign (number_value file ''io_weight'') (\<lambda>n r. r\<lparr>rl_io_weight := n\<rparr>),
      (\<lambda>r. bind_res (duration_value file ''resources'' ''cpu_quota_period'') (\<lambda>period.
         set_parsed (value_of file ''resources'' ''cpu_quota'')
           (\<lambda>v. parse_cpu_quota v (case period of Some p \<Rightarrow> p | None \<Rightarrow> from_millis 100))
           (\<lambda>q r. r\<lparr>rl_cpu_quota := q\<rparr>) r))] (sp_resources s))"

text \<open>The statements \<open>parse_common\<close> repeats after \<open>parse_manager\<close>.\<close>

definition job_timeout_steps :: "native_file \<Rightarrow> spec_step list" where
  "job_timeout_steps file =
     [set_parsed (value_of file ''manager'' ''job_timeout'') (\<lambda>v. parse_duration v ''job_timeout'')
        (\<lambda>d s. s\<lparr>sp_job_timeout := nonzero d\<rparr>),
      set_parsed (value_of file ''manager'' ''job_timeout_action'')
        (\<lambda>v. parse_manager_action v ''job_timeout_action'') (\<lambda>a s. s\<lparr>sp_job_timeout_action := a\<rparr>)]"

definition parse_manager :: "native_file \<Rightarrow> spec_step" where
  "parse_manager file = run_steps
     ([set_parsed (value_of file ''manager'' ''failure_action'')
         (\<lambda>v. parse_manager_action v ''failure_action'') (\<lambda>a s. s\<lparr>sp_failure_action := a\<rparr>),
       set_parsed (value_of file ''manager'' ''success_action'')
         (\<lambda>v. parse_manager_action v ''success_action'') (\<lambda>a s. s\<lparr>sp_success_action := a\<rparr>)] @
      job_timeout_steps file)"

definition limit_fields :: "(string \<times> (limit_range \<Rightarrow> service_spec \<Rightarrow> service_spec)) list" where
  "limit_fields =
     [(''nofile'', \<lambda>l s. s\<lparr>sp_nofile := Some l\<rparr>),
      (''memlock'', \<lambda>l s. s\<lparr>sp_memlock := Some l\<rparr>),
      (''nproc'', \<lambda>l s. s\<lparr>sp_nproc := Some l\<rparr>)]"

definition parse_limits :: "native_file \<Rightarrow> spec_step" where
  "parse_limits file =
     fold_try (\<lambda>(key, put). set_parsed (value_of file ''resources'' key)
       (\<lambda>v. parse_limit_range v key (key = ''memlock'')) put) limit_fields"

definition parse_start_limit :: "native_file \<Rightarrow> spec_step" where
  "parse_start_limit file = run_steps
     [assign (duration_value file ''resources'' ''start_limit_interval'')
        (\<lambda>d s. s\<lparr>sp_start_limit_interval := d\<rparr>),
      assign (bind_res (number_value file ''start_limit_burst'') (transpose_map (\<lambda>n.
          if unat n < 2 ^ 32 then Ok (ucast n) else Err (config_error_message ''start_limit_burst is too large''))))
        (\<lambda>b s. s\<lparr>sp_start_limit_burst := b\<rparr>)]"

section \<open>Output, exit statuses, installation\<close>

definition parse_streams :: "native_file \<Rightarrow> spec_step" where
  "parse_streams file =
     (let value = value_of file ''service'' in run_steps
     [set_parsed (value ''stdout'') (\<lambda>v. parse_output_mode v ''stdout'') (\<lambda>m s. s\<lparr>sp_stdout := m\<rparr>),
      set_parsed (value ''stderr'') (\<lambda>v. parse_output_mode v ''stderr'') (\<lambda>m s. s\<lparr>sp_stderr := m\<rparr>),
      set_parsed (value ''stdin'') (\<lambda>v. parse_input_mode v ''stdin'') (\<lambda>m s. s\<lparr>sp_standard_input := m\<rparr>),
      set_parsed (value ''tty'') Ok (\<lambda>v s. s\<lparr>sp_tty_path := Some v\<rparr>),
      set_parsed (value ''watchdog'') (\<lambda>v. parse_duration v ''watchdog'') (\<lambda>d s. s\<lparr>sp_watchdog := Some d\<rparr>),
      set_parsed (value ''notify_access'') parse_notify_access (\<lambda>a s. s\<lparr>sp_notify_access := a\<rparr>)])"

definition exit_status_fields :: "(string \<times> (int \<Rightarrow> service_spec \<Rightarrow> service_spec)) list" where
  "exit_status_fields =
     [(''success_exit_status'', \<lambda>n. sp_success_exit_status_update (bset_insert n)),
      (''restart_prevent_exit_status'', \<lambda>n. sp_restart_prevent_exit_status_update (bset_insert n))]"

definition parse_exit_statuses :: "native_file \<Rightarrow> spec_step" where
  "parse_exit_statuses file =
     fold_try (\<lambda>(key, put). each_value file ''service'' key (\<lambda>value s.
       map_res (\<lambda>n. put n s) (parse_exit_status value key))) exit_status_fields"

definition parse_install :: "native_file \<Rightarrow> spec_step" where
  "parse_install file = run_steps
     [each_word file ''install'' ''alias'' (\<lambda>_ alias s.
        map_res (\<lambda>_. sp_aliases_update (bset_insert alias) s) (validate_name alias)),
      fold_try (\<lambda>key. each_value file ''install'' key (\<lambda>profile s.
        map_res (\<lambda>_. sp_profiles_update (bset_insert profile) s) (validate_name profile)))
        [''profile'', ''profiles'']]"

definition parse_common :: "native_file \<Rightarrow> spec_step" where
  "parse_common file = run_steps
     ([parse_dependencies file, parse_mount_paths file, parse_command_lists file,
       parse_lifecycle file, parse_flags file, parse_identity file, parse_environment file,
       parse_directories file, parse_credentials file, parse_conditions file, parse_security file,
       parse_resources file, parse_manager file, parse_limits file, parse_streams file,
       parse_exit_statuses file] @ job_timeout_steps file @
      [parse_start_limit file, parse_install file])"

section \<open>Kinds of services\<close>

definition process_command :: "directive list \<Rightarrow> service_type \<Rightarrow> config_error + command_spec" where
  "process_command commands service_type =
     (if commands \<noteq> [] then parse_command (dr_value (last commands)) (dr_line (last commands))
      else if service_type = TypeOneshot then Ok (command_spec_new ''/bin/true'')
      else Err (config_error_message ''service has no exec directive''))"

definition process_spec :: "string \<Rightarrow> service_type \<Rightarrow> command_spec \<Rightarrow> service_spec" where
  "process_spec name service_type start =
     (service_spec_new name (cmd_program start))\<lparr>sp_args := cmd_args start,
        sp_main_ignore_failure := cmd_ignore_failure start, sp_main_argv0 := cmd_argv0 start,
        sp_main_expand_environment := cmd_expand_environment start,
        sp_service_type := service_type\<rparr>"

definition add_bus_names :: "native_file \<Rightarrow> service_type \<Rightarrow> spec_step" where
  "add_bus_names file service_type s =
     (if service_type = TypeDbus then
        bind_res (list_values file ''service'' ''bus_name'') (\<lambda>names.
          if names = [] then Err (config_error_message ''kind=dbus requires bus_name'')
          else Ok (s\<lparr>sp_bus_names := names\<rparr>))
      else Ok s)"

definition add_pre_commands :: "directive list \<Rightarrow> service_type \<Rightarrow> spec_step" where
  "add_pre_commands commands service_type =
     (if service_type = TypeOneshot \<and> 1 < length commands then
        fold_try (\<lambda>d s. map_res (\<lambda>c. sp_start_pre_update (\<lambda>cs. cs @ [c]) s)
          (parse_command (dr_value d) (dr_line d))) (butlast commands)
      else Ok)"

definition parse_process :: "native_file \<Rightarrow> string \<Rightarrow> service_type \<Rightarrow> config_error + service_spec" where
  "parse_process file name service_type =
     (let commands = effective_directives file ''service'' ''exec''
      in if 1 < length commands \<and> service_type \<noteq> TypeOneshot
         then Err (config_error_at (dr_line (commands ! 1)) ''multiple exec directives require kind=oneshot'')
         else
           bind_res (process_command commands service_type) (\<lambda>start.
             run_steps [add_bus_names file service_type, add_pre_commands commands service_type]
               (process_spec name service_type start)))"

definition listener_kinds :: "(string \<times> listener_kind) list" where
  "listener_kinds =
     [(''stream'', ListenStream), (''datagram'', ListenDatagram),
      (''sequential_packet'', ListenSequentialPacket), (''fifo'', ListenFifo),
      (''netlink'', ListenNetlink), (''special'', ListenSpecial)]"

definition add_listener :: "listener_kind \<Rightarrow> nat \<Rightarrow> string \<Rightarrow> spec_step" where
  "add_listener kind line value s =
     (if value = [] then Err (config_error_at line ''listener address is empty'')
      else Ok (sp_listeners_update (\<lambda>ls. ls @ [\<lparr>ls_kind = kind,
             ls_address = (if kind = ListenNetlink then value else normalize_listener_address value)\<rparr>]) s))"

definition add_listeners :: "native_file \<Rightarrow> spec_step" where
  "add_listeners file =
     fold_try (\<lambda>(key, kind). fold_try (\<lambda>d s.
       bind_res (if kind = ListenNetlink then Ok [dr_value d] else split_words (dr_value d) (dr_line d))
         (\<lambda>values. fold_try (add_listener kind (dr_line d)) values s))
       (effective_directives file ''listen'' key)) listener_kinds"

definition listener_spec_of :: "native_file \<Rightarrow> string \<Rightarrow> bool \<Rightarrow> bool \<Rightarrow> service_spec" where
  "listener_spec_of file name accept remove =
     (service_spec_new name ''/bin/true'')\<lparr>sp_service_type := TypeSocket, sp_remain_after_exit := True,
        sp_socket_accept := accept,
        sp_socket_service := (case value_of file ''listen'' ''service'' of Some v \<Rightarrow> Some v
                              | None \<Rightarrow> Some (if accept then name @ ''@'' else name)),
        sp_file_descriptor_name := value_of file ''listen'' ''fd_name'',
        sp_remove_on_stop := remove\<rparr>"

definition check_listeners :: "bool \<Rightarrow> spec_step" where
  "check_listeners accept s =
     (if sp_listeners s = [] then Err (config_error_message ''listener has no address'')
      else if accept \<and> (length (sp_listeners s) \<noteq> 1 \<or>
             ls_kind (hd (sp_listeners s)) \<notin> {ListenStream, ListenSequentialPacket})
      then Err (config_error_message ''accept=true requires exactly one stream listener'')
      else Ok s)"

definition parse_listener :: "native_file \<Rightarrow> string \<Rightarrow> config_error + service_spec" where
  "parse_listener file name =
     bind_res (bool_value file ''listen'' ''accept'') (\<lambda>accept.
     bind_res (bool_value file ''listen'' ''remove_on_stop'') (\<lambda>remove.
       run_steps
         [set_parsed (value_of file ''listen'' ''mode'') (\<lambda>v. parse_mode v ''mode'') (\<lambda>m s. s\<lparr>sp_socket_mode := m\<rparr>),
          (\<lambda>s. Ok (s\<lparr>sp_socket_user := value_of file ''listen'' ''user'',
                     sp_socket_group := value_of file ''listen'' ''group''\<rparr>)),
          add_listeners file, check_listeners (accept = Some True)]
         (listener_spec_of file name (accept = Some True) (remove = Some True))))"

definition trigger_service :: "string \<Rightarrow> service_type \<Rightarrow> trigger_spec \<Rightarrow> service_spec" where
  "trigger_service name service_type trigger =
     (service_spec_new name ''/bin/true'')\<lparr>sp_service_type := service_type,
        sp_remain_after_exit := True, sp_trigger := Some trigger\<rparr>"

definition parse_timer :: "native_file \<Rightarrow> string \<Rightarrow> config_error + service_spec" where
  "parse_timer file name =
     bind_res (ok_or (value_of file ''timer'' ''service'') (config_error_message ''timer has no service target'')) (\<lambda>service.
     bind_res (duration_value file ''timer'' ''on_boot'') (\<lambda>on_boot.
     bind_res (duration_value file ''timer'' ''on_active'') (\<lambda>on_unit_active.
     bind_res (duration_value file ''timer'' ''on_inactive'') (\<lambda>on_unit_inactive.
     let on_calendar = values_as_strings file ''timer'' ''calendar'' in
     if on_boot = None \<and> on_unit_active = None \<and> on_unit_inactive = None \<and> on_calendar = []
     then Err (config_error_message ''timer has no schedule'')
     else
       bind_res (bool_value file ''timer'' ''persistent'') (\<lambda>persistent.
       bind_res (duration_value file ''timer'' ''random_delay'') (\<lambda>randomized_delay.
       bind_res (duration_value file ''timer'' ''accuracy'') (\<lambda>accuracy.
         Ok (trigger_service name TypeTimer (TriggerTimer service on_boot on_unit_active on_unit_inactive
               on_calendar (persistent = Some True) randomized_delay accuracy)))))))))"

definition watch_kinds :: "(string \<times> (string \<Rightarrow> path_watch)) list" where
  "watch_kinds =
     [(''changed'', WatchChanged), (''modified'', WatchModified), (''exists'', WatchExists),
      (''exists_glob'', WatchExistsGlob), (''directory_not_empty'', WatchDirectoryNotEmpty)]"

definition parse_watch :: "native_file \<Rightarrow> string \<Rightarrow> config_error + service_spec" where
  "parse_watch file name =
     bind_res (ok_or (value_of file ''watch'' ''service'') (config_error_message ''watch has no service target'')) (\<lambda>service.
     bind_res (fold_try (\<lambda>(key, make). each_word file ''watch'' key (\<lambda>_ value ws. Ok (ws @ [make value])))
        watch_kinds []) (\<lambda>watches.
       if watches = [] then Err (config_error_message ''watch has no path'')
       else Ok (trigger_service name TypePath (TriggerPath service watches))))"

definition has_nofail :: "string option \<Rightarrow> bool" where
  "has_nofail options =
     (case options of None \<Rightarrow> False | Some v \<Rightarrow> ''nofail'' \<in> set (split_char CHR '','' v))"

definition option_args :: "string \<Rightarrow> string option \<Rightarrow> string list" where
  "option_args flag v = (case v of None \<Rightarrow> [] | Some x \<Rightarrow> [flag, x])"

definition timeout_step :: "string option \<Rightarrow> spec_step" where
  "timeout_step v =
     set_parsed v (\<lambda>v. parse_duration v ''timeout'') (\<lambda>d s. s\<lparr>sp_start_timeout := d, sp_stop_timeout := d\<rparr>)"

definition parse_mount :: "native_file \<Rightarrow> string \<Rightarrow> config_error + service_spec" where
  "parse_mount file name =
     (let value = value_of file ''mount'' in
      bind_res (required file ''mount'' ''what'') (\<lambda>what.
      bind_res (required file ''mount'' ''where'') (\<lambda>where_path.
      if \<not> is_absolute where_path then Err (config_error_message ''mount.where must be absolute'')
      else
        (let filesystem = map_option canonical_filesystem_type (value ''type'') in
         bind_res (transpose_map (\<lambda>v. parse_mode v ''directory_mode'') (value ''directory_mode'')) (\<lambda>mode.
         let octal = show_octal (unat (case mode of Some m \<Rightarrow> m | None \<Rightarrow> 493)) in
         bind_res (bool_value file ''mount'' ''lazy'') (\<lambda>lazy.
         bind_res (bool_value file ''mount'' ''force'') (\<lambda>force.
           timeout_step (value ''timeout'')
             ((service_spec_new name ''mount'')\<lparr>
                sp_args := option_args ''-t'' filesystem @ option_args ''-o'' (value ''options'') @
                  [''--'', what, where_path],
                sp_main_ignore_failure := has_nofail (value ''options''),
                sp_service_type := TypeMount, sp_mount_where := Some where_path,
                sp_mount_filesystem := filesystem, sp_remain_after_exit := True,
                sp_start_pre := [(command_spec_new ''mkdir'')\<lparr>cmd_args :=
                  [''-p'', ''-m'', octal, ''--'', where_path]\<rparr>],
                sp_stop := Some ((command_spec_new ''umount'')\<lparr>cmd_args :=
                  (if lazy = Some True then [''--lazy''] else []) @
                  (if force = Some True then [''--force''] else []) @ [''--'', where_path]\<rparr>)\<rparr>))))))))"

definition parse_swap :: "native_file \<Rightarrow> string \<Rightarrow> config_error + service_spec" where
  "parse_swap file name =
     (let value = value_of file ''swap'' in
      bind_res (required file ''swap'' ''what'') (\<lambda>what.
      bind_res (transpose_map (\<lambda>v. ok_or (parse_i32 v)
                  (config_error_message (''invalid swap.priority='' @ v))) (value ''priority'')) (\<lambda>_.
        timeout_step (value ''timeout'')
          ((service_spec_new name ''swapon'')\<lparr>
             sp_args := option_args ''--priority'' (value ''priority'') @
               option_args ''-o'' (value ''options'') @ [''--'', what],
             sp_main_ignore_failure := has_nofail (value ''options''),
             sp_service_type := TypeSwap, sp_remain_after_exit := True,
             sp_stop := Some ((command_spec_new ''swapoff'')\<lparr>cmd_args := [''--'', what]\<rparr>)\<rparr>))))"

definition device_wait_script :: string where
  "device_wait_script =
     ''while [ ! -e '' @ [CHR 0x22] @ ''$1'' @ [CHR 0x22] @ '' ]; do sleep 1; done''"

definition parse_device :: "native_file \<Rightarrow> string \<Rightarrow> config_error + service_spec" where
  "parse_device file name =
     bind_res (required file ''device'' ''path'') (\<lambda>path.
       if \<not> is_absolute path then Err (config_error_message ''device.path must be absolute'')
       else Ok ((service_spec_new name ''/bin/sh'')\<lparr>
              sp_args := [''-c'', device_wait_script, ''fractald-device-wait'', path],
              sp_main_expand_environment := False, sp_service_type := TypeOneshot,
              sp_remain_after_exit := True, sp_default_dependencies := False,
              sp_start_timeout := duration_max, sp_device_path := Some path\<rparr>))"

section \<open>Specifications\<close>

definition service_kinds :: "(string \<times> service_type) list" where
  "service_kinds =
     [(''service'', TypeSimple), (''simple'', TypeSimple), (''exec'', TypeSimple),
      (''forking'', TypeForking), (''oneshot'', TypeOneshot), (''notify'', TypeNotify),
      (''dbus'', TypeDbus), (''idle'', TypeIdle), (''group'', TypeOneshot),
      (''listener'', TypeSocket), (''timer'', TypeTimer), (''watch'', TypePath),
      (''mount'', TypeMount), (''swap'', TypeSwap), (''device'', TypeOneshot)]"

definition make_group :: "service_spec \<Rightarrow> service_spec" where
  "make_group s = s\<lparr>sp_service_type := TypeOneshot, sp_remain_after_exit := True\<rparr>"

definition parse_kind :: "native_file \<Rightarrow> string \<Rightarrow> string \<Rightarrow> service_type \<Rightarrow> config_error + service_spec" where
  "parse_kind file kind name service_type =
     (if kind = ''group'' then Ok (make_group (service_spec_new name ''/bin/true''))
      else if kind = ''listener'' then parse_listener file name
      else if kind = ''timer'' then parse_timer file name
      else if kind = ''watch'' then parse_watch file name
      else if kind = ''mount'' then parse_mount file name
      else if kind = ''swap'' then parse_swap file name
      else if kind = ''device'' then parse_device file name
      else parse_process file name service_type)"

definition parse_spec :: "native_file \<Rightarrow> string \<Rightarrow> config_error + service_spec" where
  "parse_spec file name =
     bind_res (validate_name name) (\<lambda>_.
     if \<not> has_section file ''service'' then
       Err (config_error_message ''service file has no [service] section'')
     else
       (let kind = to_ascii_lowercase (case value_of file ''service'' ''kind'' of Some v \<Rightarrow> v | None \<Rightarrow> ''service'')
        in bind_res (ok_or (map_of service_kinds kind)
             (config_error_message (''unsupported service kind '' @ kind))) (\<lambda>service_type.
           bind_res (parse_kind file kind name service_type) (\<lambda>spec.
           bind_res (parse_common file spec) (\<lambda>spec.
             let spec = (if kind = ''group'' then make_group spec else spec)
             in case validate spec of
                  Err e \<Rightarrow> Err \<lparr>ce_line = None, ce_message = InvalidSpecification e\<rparr>
                | Ok _ \<Rightarrow> Ok spec)))))"

definition parse_service :: "string \<Rightarrow> string \<Rightarrow> config_error + service_spec" where
  "parse_service source name = bind_res (native_parse source) (\<lambda>file. parse_spec file name)"

end
