(* ===== verification/Config_Wf.thy ===== *)
theory Config_Wf
  imports Config_Sections
begin

text \<open>
  What the section parsers guarantee of every specification they return: names that are safe, sets
  that are ordered, numbers in range, and for each kind of service the fields it needs. Every step of
  the parsers keeps this invariant; \<open>keeps\<close> and its rules carry it through their loops.
\<close>

section \<open>Steps that keep a property\<close>

definition keeps :: "('s \<Rightarrow> bool) \<Rightarrow> ('s \<Rightarrow> 'e + 's) \<Rightarrow> bool" where
  "keeps P step \<longleftrightarrow> (\<forall>s s'. P s \<longrightarrow> step s = Inr s' \<longrightarrow> P s')"

named_theorems keeps_rules

lemma keepsI: "(\<And>s s'. P s \<Longrightarrow> step s = Inr s' \<Longrightarrow> P s') \<Longrightarrow> keeps P step"
  by (auto simp: keeps_def)

lemma keepsD: "keeps P step \<Longrightarrow> P s \<Longrightarrow> step s = Inr s' \<Longrightarrow> P s'"
  by (auto simp: keeps_def)

lemma keeps_fold [keeps_rules]:
  assumes "\<And>x. x \<in> set xs \<Longrightarrow> keeps P (f x)"
  shows "keeps P (fold_try f xs)"
proof (rule keepsI)
  fix s s' assume "P s" "fold_try f xs s = Inr s'"
  then show "P s'" using assms by (elim fold_try_invariant[where P = P]) (auto dest: keepsD)
qed

lemma keeps_table: "list_all (\<lambda>x. keeps P (f x)) xs \<Longrightarrow> keeps P (fold_try f xs)"
  by (rule keeps_fold) (simp add: list_all_iff)

lemma keeps_steps [keeps_rules]: "list_all (keeps P) steps \<Longrightarrow> keeps P (run_steps steps)"
  unfolding run_steps_def by (rule keeps_fold) (simp add: list_all_iff)

lemma keeps_parsed [keeps_rules]:
  "(\<And>value x s. v = Some value \<Longrightarrow> parse value = Inr x \<Longrightarrow> P s \<Longrightarrow> P (put x s)) \<Longrightarrow> keeps P (set_parsed v parse put)"
  by (auto simp: keeps_def set_parsed_def map_res_def bind_res_eq_Inr split: option.splits)

lemma keeps_some [keeps_rules]:
  "(\<And>x s. v = Inr (Some x) \<Longrightarrow> P s \<Longrightarrow> P (put x s)) \<Longrightarrow> keeps P (set_some v put)"
  by (auto simp: keeps_def set_some_def map_res_def bind_res_eq_Inr split: option.splits)

lemma keeps_assign [keeps_rules]: "(\<And>x s. v = Inr x \<Longrightarrow> P s \<Longrightarrow> P (put x s)) \<Longrightarrow> keeps P (assign v put)"
  by (auto simp: keeps_def assign_def map_res_def bind_res_eq_Inr)

lemma keeps_each_word [keeps_rules]:
  assumes "\<And>line word. keeps P (body line word)"
  shows "keeps P (each_word file section key body)"
  unfolding each_word_def
proof (rule keeps_fold, rule keepsI)
  fix d s s' assume P: "P s" and "bind_res (split_words (dr_value d) (dr_line d)) (\<lambda>words. fold_try (body (dr_line d)) words s) = Inr s'"
  then obtain words where "fold_try (body (dr_line d)) words s = Inr s'" by (auto simp: bind_res_eq_Inr)
  moreover have "keeps P (fold_try (body (dr_line d)) words)" using assms by (rule keeps_fold)
  ultimately show "P s'" using P keepsD by fast
qed

lemma keeps_each_value [keeps_rules]:
  assumes "\<And>word. keeps P (body word)"
  shows "keeps P (each_value file section key body)"
proof (rule keepsI)
  fix s s' assume P: "P s" and "each_value file section key body s = Inr s'"
  then obtain words where "fold_try body words s = Inr s'" by (auto simp: each_value_def bind_res_eq_Inr)
  moreover have "keeps P (fold_try body words)" using assms by (rule keeps_fold)
  ultimately show "P s'" using P keepsD by fast
qed

section \<open>The invariant\<close>

definition dependency_lists :: "dependency_set \<Rightarrow> string list list" where
  "dependency_lists d =
     [dep_requires d, dep_wants d, dep_after d, dep_before d, dep_conflicts d, dep_part_of d,
      dep_binds_to d, dep_requisite d, dep_on_success d, dep_on_failure d]"

definition name_set :: "string list \<Rightarrow> bool" where
  "name_set names \<longleftrightarrow> bset_inv names \<and> (\<forall>n \<in> set names. safe_name n)"

definition status_set :: "int list \<Rightarrow> bool" where
  "status_set ns \<longleftrightarrow> bset_inv ns \<and> (\<forall>n \<in> set ns. 0 \<le> n \<and> n \<le> 255)"

definition mode_ok :: "32 word \<Rightarrow> bool" where
  "mode_ok m \<longleftrightarrow> m \<le> 4095"

definition directory_ok :: "directory_spec \<Rightarrow> bool" where
  "directory_ok d \<longleftrightarrow> \<not> is_absolute (ds_path d) \<and> \<not> has_parent_dir (ds_path d) \<and> mode_ok (ds_mode d)"

definition capabilities_ok :: "64 word \<Rightarrow> bool" where
  "capabilities_ok w \<longleftrightarrow> (\<forall>n. bit w n \<longrightarrow> n < 41)"

definition filter_ok :: "system_call_filter \<Rightarrow> bool" where
  "filter_ok f \<longleftrightarrow> bset_inv (map scr_name (scf_rules f))"

definition limits_ok :: "limit_range \<Rightarrow> bool" where
  "limits_ok l \<longleftrightarrow> \<not> limit_range_invalid (lr_soft l) (lr_hard l)"

definition ranges_ok :: "service_spec \<Rightarrow> bool" where
  "ranges_ok s \<longleftrightarrow>
     pred_option mode_ok (sp_umask s) \<and> mode_ok (sp_socket_mode s) \<and>
     pred_option (\<lambda>n. - 20 \<le> n \<and> n \<le> 19) (sp_nice s) \<and>
     pred_option (\<lambda>n. - 1000 \<le> n \<and> n \<le> 1000) (sp_oom_score_adjust s) \<and>
     pred_option capabilities_ok (sp_capability_bounding_set s) \<and>
     pred_option capabilities_ok (sp_ambient_capabilities s) \<and>
     pred_option filter_ok (sp_system_call_filter s) \<and>
     pred_option limits_ok (sp_nofile s) \<and> pred_option limits_ok (sp_memlock s) \<and>
     pred_option limits_ok (sp_nproc s)"

definition sets_ok :: "service_spec \<Rightarrow> bool" where
  "sets_ok s \<longleftrightarrow>
     list_all name_set (dependency_lists (sp_dependencies s)) \<and>
     name_set (sp_aliases s) \<and> name_set (sp_profiles s) \<and>
     status_set (sp_success_exit_status s) \<and> status_set (sp_restart_prevent_exit_status s) \<and>
     bmap_inv (sp_environment s) \<and> list_all (\<lambda>(n, _). valid_environment_name n) (sp_environment s) \<and>
     bset_inv (sp_unset_environment s) \<and> list_all valid_environment_name (sp_unset_environment s) \<and>
     list_all directory_ok (sp_directories s) \<and>
     list_all (\<lambda>f. is_absolute (ef_path f)) (sp_environment_files s)"

text \<open>What each kind of service has to have.\<close>

fun trigger_ok :: "trigger_spec \<Rightarrow> bool" where
  "trigger_ok (TriggerTimer service on_boot on_active on_inactive calendar _ _ _) \<longleftrightarrow>
     on_boot \<noteq> None \<or> on_active \<noteq> None \<or> on_inactive \<noteq> None \<or> calendar \<noteq> []"
| "trigger_ok (TriggerPath service watches) \<longleftrightarrow> watches \<noteq> []"

definition kind_ok :: "service_spec \<Rightarrow> bool" where
  "kind_ok s \<longleftrightarrow>
     (sp_service_type s = TypeSocket \<longrightarrow>
        sp_socket_service s \<noteq> None \<and> sp_listeners s \<noteq> [] \<and>
        (sp_socket_accept s \<longrightarrow> (\<exists>l. sp_listeners s = [l] \<and> ls_kind l \<in> {ListenStream, ListenSequentialPacket}))) \<and>
     (sp_service_type s \<in> {TypeTimer, TypePath} \<longrightarrow> sp_trigger s \<noteq> None) \<and>
     pred_option trigger_ok (sp_trigger s) \<and>
     (sp_service_type s = TypeMount \<longrightarrow> sp_mount_where s \<noteq> None) \<and>
     pred_option is_absolute (sp_mount_where s) \<and>
     (sp_service_type s = TypeDbus \<longrightarrow> sp_bus_names s \<noteq> [])"

definition parsed_inv :: "string \<Rightarrow> service_spec \<Rightarrow> bool" where
  "parsed_inv name s \<longleftrightarrow> sp_name s = name \<and> ranges_ok s \<and> sets_ok s \<and> kind_ok s"

lemmas inv_defs = parsed_inv_def ranges_ok_def sets_ok_def kind_ok_def

section \<open>Values in range\<close>

lemma validate_name_safe: "validate_name v = Inr u \<Longrightarrow> safe_name v"
  by (auto simp: validate_name_def safe_name_def split: if_splits)

lemma name_set_insert [simp]: "name_set ns \<Longrightarrow> safe_name n \<Longrightarrow> name_set (bset_insert n ns)"
  by (auto simp: name_set_def)

lemma name_set_Nil [simp]: "name_set []"
  by (simp add: name_set_def)

lemma status_set_insert [simp]: "status_set ns \<Longrightarrow> 0 \<le> n \<and> n \<le> 255 \<Longrightarrow> status_set (bset_insert n ns)"
  by (auto simp: status_set_def)

lemma status_set_Nil [simp]: "status_set []"
  by (simp add: status_set_def)

lemma parse_mode_ok: "parse_mode v key = Inr m \<Longrightarrow> mode_ok m"
proof -
  assume "parse_mode v key = Inr m"
  then obtain n where n: "n \<le> 4095" "m = of_nat n" by (auto simp: parse_mode_def Let_def not_less split: option.splits if_splits)
  then have "unat m = n" by (simp add: unsigned_of_nat take_bit_nat_eq_self)
  then show "mode_ok m" using n(1) by (simp add: mode_ok_def word_le_nat_alt)
qed

lemma parse_ranged_ok: "parse_ranged key low high v = Inr n \<Longrightarrow> low \<le> n \<and> n \<le> high"
  by (auto simp: parse_ranged_def bind_res_eq_Inr split: if_splits)

lemma parse_limit_range_ok: "parse_limit_range v key bytes = Inr l \<Longrightarrow> limits_ok l"
  by (auto simp: parse_limit_range_def limits_ok_def bind_res_eq_Inr Let_def split: if_splits prod.splits)

lemma parse_capabilities_ok: "parse_capabilities v = Inr w \<Longrightarrow> capabilities_ok w"
  by (auto simp: capabilities_ok_def dest: parse_capabilities_known)

lemma fold_bmap_insert_inv: "bmap_inv m \<Longrightarrow> bmap_inv (fold (\<lambda>n. bmap_insert n a) ns m)"
  by (induction ns arbitrary: m) (auto simp: bmap_inv_insert)

lemma parse_syscall_filter_ok: "parse_syscall_filter file = Inr (Some f) \<Longrightarrow> filter_ok f"
proof -
  have word: "keeps bmap_inv (add_syscall_word deny line w)" for deny line w
    by (auto simp: keeps_def add_syscall_word_def bind_res_eq_Inr Let_def fold_bmap_insert_inv split: if_splits prod.splits)
  have step: "keeps (\<lambda>(_, rules). bmap_inv rules) (add_syscall_directive d)" for d
  proof (rule keepsI)
    fix st st' assume P: "case st of (_, rules) \<Rightarrow> bmap_inv rules" and e: "add_syscall_directive d st = Inr st'"
    obtain b rules where st: "st = (b, rules)" by force
    from e[unfolded st add_syscall_directive_def prod.case bind_res_eq_Inr] obtain first rest where
      "(let (deny, first) = (case strip_prefix ''!'' first of Some r \<Rightarrow> (True, r) | None \<Rightarrow> (False, first))
        in map_res (Pair deny) (fold_try (add_syscall_word deny (dr_line d)) (first # rest) rules)) = Inr st'"
      by (elim exE conjE) (simp split: list.split_asm del: fold_try.simps)
    then obtain deny words rules' where "fold_try (add_syscall_word deny (dr_line d)) words rules = Inr rules'" "st' = (deny, rules')"
      by (auto simp: Let_def map_res_def bind_res_eq_Inr split: prod.splits simp del: fold_try.simps)
    then show "case st' of (_, rules) \<Rightarrow> bmap_inv rules" using P keepsD[OF keeps_fold[OF word]] by (auto simp: st)
  qed
  assume "parse_syscall_filter file = Inr (Some f)"
  then obtain b rules where r: "fold_try add_syscall_directive (effective_directives file ''security'' ''syscall_filter'') (True, []) = Inr (b, rules)"
    "f = \<lparr>scf_default_allow = b, scf_rules = map (\<lambda>(name, action). \<lparr>scr_name = name, scr_action = action\<rparr>) rules\<rparr>"
    by (auto simp: parse_syscall_filter_def Let_def map_res_def bind_res_eq_Inr split: if_splits prod.splits)
  have "bmap_inv rules" using keepsD[OF keeps_fold[OF step] _ r(1)] by simp
  then show "filter_ok f" by (simp add: r(2) filter_ok_def bmap_inv_def bset_inv_def comp_def case_prod_beta)
qed

lemma parse_syscall_filter_opt: "parse_syscall_filter file = Inr r \<Longrightarrow> pred_option filter_ok r"
  using parse_syscall_filter_ok by (cases r) auto

section \<open>The steps keep the invariant\<close>

abbreviation inv_step :: "string \<Rightarrow> spec_step \<Rightarrow> bool" where
  "inv_step name \<equiv> keeps (parsed_inv name)"

lemma dependencies_keep:
  assumes "(key, put) \<in> set dependency_fields" "list_all name_set (dependency_lists d)" "safe_name n"
  shows "list_all name_set (dependency_lists (put n d))"
  using assms by (auto simp: dependency_fields_def dependency_lists_def)

lemma parse_dependencies_keeps: "inv_step name (parse_dependencies file)"
  unfolding parse_dependencies_def
proof (intro keeps_fold)
  fix x assume m: "x \<in> set dependency_fields"
  obtain key put where x: "x = (key, put)" by force
  have "keeps (parsed_inv name) (\<lambda>s. map_res (\<lambda>_. sp_dependencies_update (put v) s) (validate_name v))" for v
  proof (rule keepsI)
    fix s s' assume P: "parsed_inv name s" and e: "map_res (\<lambda>_. sp_dependencies_update (put v) s) (validate_name v) = Inr s'"
    then have "safe_name v" "s' = sp_dependencies_update (put v) s" by (cases "validate_name v"; auto dest: validate_name_safe)+
    moreover have "list_all name_set (dependency_lists (put v (sp_dependencies s)))"
      using dependencies_keep[OF m[unfolded x]] P calculation(1) by (simp add: parsed_inv_def sets_ok_def)
    ultimately show "parsed_inv name s'" using P by (simp add: inv_defs)
  qed
  then show "inv_step name (case x of (key, put) \<Rightarrow> each_value file ''dependencies'' key (\<lambda>value s.
       map_res (\<lambda>_. sp_dependencies_update (put value) s) (validate_name value)))"
    by (simp only: x prod.case keeps_each_value)
qed

text \<open>A step that succeeds only under a condition and then updates the specification.\<close>

lemma keeps_guarded [keeps_rules]:
  "(\<And>s. \<not> c \<Longrightarrow> P s \<Longrightarrow> P (put s)) \<Longrightarrow> keeps P (\<lambda>s. if c then Inl e else Inr (put s))"
  by (auto simp: keeps_def split: if_splits)

lemma keeps_mapped [keeps_rules]: "(\<And>x s. r = Inr x \<Longrightarrow> P s \<Longrightarrow> P (put x s)) \<Longrightarrow> keeps P (\<lambda>s. map_res (\<lambda>x. put x s) r)"
  by (cases r) (auto simp: keeps_def)

lemma keeps_cond [keeps_rules]: "(c \<Longrightarrow> keeps P f) \<Longrightarrow> (\<not> c \<Longrightarrow> keeps P g) \<Longrightarrow> keeps P (\<lambda>s. if c then f s else g s)"
  by (auto simp: keeps_def)

lemma keeps_if [keeps_rules]: "keeps P f \<Longrightarrow> keeps P g \<Longrightarrow> keeps P (if c then f else g)"
  by simp

lemma keeps_bind [keeps_rules]: "(\<And>x. r = Inr x \<Longrightarrow> keeps P (g x)) \<Longrightarrow> keeps P (\<lambda>s. bind_res r (\<lambda>x. g x s))"
  by (cases r) (auto simp: keeps_def)

lemma keeps_pure [keeps_rules]: "(\<And>s. P s \<Longrightarrow> P (put s)) \<Longrightarrow> keeps P (\<lambda>s. Inr (put s))"
  by (auto simp: keeps_def)

lemma keeps_skip: "keeps P Inr"
  by (simp add: keeps_def)

lemma parse_mount_paths_keeps: "inv_step name (parse_mount_paths file)"
  unfolding parse_mount_paths_def mount_fields_def
  by (rule keeps_table, simp only: list.pred_inject prod.case, intro conjI TrueI;
      intro keeps_each_value keeps_guarded; simp add: inv_defs)

lemma parse_command_lists_keeps: "inv_step name (parse_command_lists file)"
  unfolding parse_command_lists_def command_fields_def
  by (rule keeps_table, simp only: list.pred_inject prod.case, intro conjI TrueI;
      intro keeps_fold keeps_cond keeps_mapped keeps_skip; simp add: inv_defs)

lemma parse_flags_keeps: "inv_step name (parse_flags file)"
  unfolding parse_flags_def flag_fields_def
  by (rule keeps_table, simp only: list.pred_inject prod.case, intro conjI TrueI; rule keeps_some; simp add: inv_defs)

lemma parse_lifecycle_keeps: "inv_step name (parse_lifecycle file)"
  unfolding parse_lifecycle_def
  by (rule keeps_steps, simp only: list.pred_inject, intro conjI TrueI; rule keeps_parsed; simp add: inv_defs)

lemma parse_identity_keeps: "inv_step name (parse_identity file)"
  unfolding parse_identity_def
  by (rule keeps_steps, simp only: list.pred_inject, intro conjI TrueI; (rule keeps_parsed keeps_some); simp add: inv_defs)

lemma valid_names_insert:
  "list_all (\<lambda>(n, _). valid_environment_name n) m \<Longrightarrow> valid_environment_name name \<Longrightarrow>
   list_all (\<lambda>(n, _). valid_environment_name n) (bmap_insert name v m)"
  by (induction m rule: bmap_insert.induct[of _ name v]) auto

lemma add_environment_keeps: "inv_step name (add_environment line entry)"
proof (rule keepsI)
  fix s s' assume P: "parsed_inv name s" and "add_environment line entry s = Inr s'"
  then obtain n v where "valid_environment_name n" "s' = sp_environment_update (bmap_insert n v) s"
    by (auto simp: add_environment_def bind_res_eq_Inr split: if_splits prod.splits)
  then show "parsed_inv name s'" using P by (simp add: inv_defs bmap_inv_insert valid_names_insert)
qed

lemma add_unset_environment_keeps: "inv_step name (add_unset_environment v)"
  unfolding add_unset_environment_def
  by (rule keeps_guarded) (simp add: inv_defs list_all_iff)

lemma add_environment_file_keeps: "inv_step name (add_environment_file line v)"
  unfolding add_environment_file_def Let_def
  by (rule keeps_guarded) (simp add: inv_defs is_absolute_def)

lemma parse_environment_keeps: "inv_step name (parse_environment file)"
  unfolding parse_environment_def
  by (rule keeps_steps, simp only: list.pred_inject, intro conjI TrueI keeps_each_word keeps_each_value
      add_environment_keeps add_unset_environment_keeps add_environment_file_keeps)

lemma add_directory_keeps: "mode_ok mode \<Longrightarrow> inv_step name (add_directory key kind mode preserve line path)"
  unfolding add_directory_def
  by (rule keeps_guarded) (simp add: inv_defs directory_ok_def)

lemma parse_directories_keeps: "inv_step name (parse_directories file)"
  unfolding parse_directories_def
proof (rule keeps_fold)
  fix x assume "x \<in> set directory_kinds"
  obtain key kind where x: "x = (key, kind)" by force
  let ?mode = "transpose_map (\<lambda>v. parse_mode v (key @ ''_mode'')) (value_of file ''paths'' (key @ ''_mode''))"
  have mode: "mode_ok (case m of Some m \<Rightarrow> m | None \<Rightarrow> 493)" if "?mode = Inr m" for m
    using that parse_mode_ok
    by (auto simp: transpose_map_def map_res_def bind_res_eq_Inr mode_ok_def split: option.splits)
  show "inv_step name (case x of (key, kind) \<Rightarrow> \<lambda>s.
       bind_res (transpose_map (\<lambda>v. parse_mode v (key @ ''_mode'')) (value_of file ''paths'' (key @ ''_mode''))) (\<lambda>mode.
       bind_res (transpose_map (\<lambda>v. parse_bool v (key @ ''_preserve'')) (value_of file ''paths'' (key @ ''_preserve''))) (\<lambda>preserve.
         each_word file ''paths'' key
           (add_directory key kind (case mode of Some m \<Rightarrow> m | None \<Rightarrow> 493)
              (case preserve of Some p \<Rightarrow> p | None \<Rightarrow> False)) s)))"
    unfolding x prod.case
  proof (rule keepsI, elim bind_res_eq_Inr[THEN iffD1, elim_format] exE conjE)
    fix s s' m p assume P: "parsed_inv name s" and m: "?mode = Inr m"
      and e: "each_word file ''paths'' key (add_directory key kind (case m of Some m \<Rightarrow> m | None \<Rightarrow> 493)
              (case p of Some p \<Rightarrow> p | None \<Rightarrow> False)) s = Inr s'"
    have "inv_step name (each_word file ''paths'' key (add_directory key kind (case m of Some m \<Rightarrow> m | None \<Rightarrow> 493)
              (case p of Some p \<Rightarrow> p | None \<Rightarrow> False)))"
      by (intro keeps_each_word add_directory_keeps mode[OF m])
    then show "parsed_inv name s'" using P e by (rule keepsD)
  qed
qed

lemma push_credential_keeps: "parsed_inv name s \<Longrightarrow> parsed_inv name (push_credential n source s)"
  by (simp add: push_credential_def inv_defs)

lemma parse_credentials_keeps: "inv_step name (parse_credentials file)"
proof -
  have "inv_step name (add_credential_file d)" "inv_step name (add_credential_value d)"
    "inv_step name (add_credential_store d)" for d
    by (rule keepsI, auto simp: add_credential_file_def add_credential_value_def add_credential_store_def
        bind_res_eq_Inr Let_def split: if_splits prod.splits intro: push_credential_keeps)+
  moreover have "inv_step name (add_credential_import d)" for d
    unfolding add_credential_import_def Let_def
    by (cases "split_once CHR '':'' (dr_value d)"; simp only: option.case prod.case;
        (rule keeps_guarded)?; (simp add: inv_defs)?) (auto intro!: keeps_guarded simp: inv_defs split: prod.splits)
  ultimately show ?thesis unfolding parse_credentials_def
    by (intro keeps_steps, simp only: list.pred_inject, intro conjI TrueI keeps_fold) blast+
qed

lemma parse_conditions_keeps: "inv_step name (parse_conditions file)"
proof (rule keepsI)
  fix s s' assume P: "parsed_inv name s" and "parse_conditions file s = Inr s'"
  then obtain cs as where "s' = s\<lparr>sp_conditions := cs, sp_assertions := as\<rparr>"
    by (auto simp: parse_conditions_def bind_res_eq_Inr)
  then show "parsed_inv name s'" using P by (simp add: inv_defs)
qed

lemma add_device_rule_keeps: "inv_step name (add_device_rule d)"
proof (rule keepsI)
  fix s s' assume P: "parsed_inv name s" and e: "add_device_rule d s = Inr s'"
  from e[unfolded add_device_rule_def bind_res_eq_Inr] obtain ws where
    v: "(case rev ws of
         [] \<Rightarrow> Err (config_error_at (dr_line d) ''device_allow has no access mode'')
       | access # front \<Rightarrow>
           (let device = join '' '' (rev front)
            in if device = [] then Err (config_error_at (dr_line d) ''device_allow has no device'')
               else map_res (\<lambda>bits. sp_device_allow_update
                        (\<lambda>rs. rs @ [\<lparr>dar_device = device, dar_access = bits\<rparr>]) s)
                      (parse_device_access access (dr_line d)))) = Inr s'" by blast
  obtain f where "s' = sp_device_allow_update f s"
    using v by (cases "rev ws") (auto simp: Let_def map_res_eq_Inr split: if_splits)
  then show "parsed_inv name s'" using P by (simp add: inv_defs)
qed

lemma parse_security_keeps: "inv_step name (parse_security file)"
  unfolding parse_security_def Let_def security_flags_def private_flags_def
  by (rule keeps_steps, simp only: list.pred_inject, intro conjI TrueI;
      (rule keeps_parsed keeps_assign)?;
      (rule keeps_table, simp only: list.pred_inject prod.case, intro conjI TrueI; rule keeps_some)?;
      (rule keeps_fold, rule add_device_rule_keeps)?;
      simp add: inv_defs parse_mode_ok parse_ranged_ok parse_capabilities_ok parse_syscall_filter_opt)

lemma parse_resources_keeps: "inv_step name (parse_resources file)"
proof (rule keepsI)
  fix s s' assume P: "parsed_inv name s" and "parse_resources file s = Inr s'"
  then obtain r where "s' = s\<lparr>sp_resources := r\<rparr>" unfolding parse_resources_def map_res_eq_Inr by blast
  then show "parsed_inv name s'" using P by (simp add: inv_defs)
qed

lemma job_timeout_keeps: "list_all (inv_step name) (job_timeout_steps file)"
  unfolding job_timeout_steps_def
  by (simp only: list.pred_inject, intro conjI TrueI; rule keeps_parsed; simp add: inv_defs)

lemma parse_manager_keeps: "inv_step name (parse_manager file)"
  unfolding parse_manager_def
  by (rule keeps_steps, simp only: list_all_append list.pred_inject job_timeout_keeps,
      intro conjI TrueI; rule keeps_parsed; simp add: inv_defs)

lemma parse_limits_keeps: "inv_step name (parse_limits file)"
  unfolding parse_limits_def limit_fields_def
  by (rule keeps_table, simp only: list.pred_inject prod.case, intro conjI TrueI; rule keeps_parsed;
      simp add: inv_defs parse_limit_range_ok)

lemma parse_start_limit_keeps: "inv_step name (parse_start_limit file)"
  unfolding parse_start_limit_def
  by (rule keeps_steps, simp only: list.pred_inject, intro conjI TrueI; rule keeps_assign; simp add: inv_defs)

lemma parse_streams_keeps: "inv_step name (parse_streams file)"
  unfolding parse_streams_def Let_def
  by (rule keeps_steps, simp only: list.pred_inject, intro conjI TrueI; rule keeps_parsed; simp add: inv_defs)

lemma parse_exit_statuses_keeps: "inv_step name (parse_exit_statuses file)"
  unfolding parse_exit_statuses_def exit_status_fields_def
  by (rule keeps_table, simp only: list.pred_inject prod.case, intro conjI TrueI keeps_each_value keeps_mapped;
      simp add: inv_defs parse_exit_status_bounds)

lemma parse_install_keeps: "inv_step name (parse_install file)"
  unfolding parse_install_def
  by (rule keeps_steps, simp only: list.pred_inject, intro conjI TrueI keeps_fold keeps_each_word keeps_each_value keeps_mapped;
      simp add: inv_defs validate_name_safe)

lemmas section_keeps = parse_dependencies_keeps parse_mount_paths_keeps parse_command_lists_keeps
  parse_lifecycle_keeps parse_flags_keeps parse_identity_keeps parse_environment_keeps
  parse_directories_keeps parse_credentials_keeps parse_conditions_keeps parse_security_keeps
  parse_resources_keeps parse_manager_keeps parse_limits_keeps parse_start_limit_keeps
  parse_streams_keeps parse_exit_statuses_keeps parse_install_keeps job_timeout_keeps

lemma parse_common_keeps: "inv_step name (parse_common file)"
  unfolding parse_common_def
  by (rule keeps_steps, simp only: list_all_append list.pred_inject section_keeps)

section \<open>Every kind of service\<close>

lemma service_spec_new_inv: "parsed_inv name (service_spec_new name program)"
  by (simp add: inv_defs service_spec_new_def dependency_set_default_def dependency_lists_def mode_ok_def
      bset_inv_def bmap_inv_def)

text \<open>The parts of the invariant that the kind of the service does not matter for.\<close>

definition common_inv :: "string \<Rightarrow> service_spec \<Rightarrow> bool" where
  "common_inv name s \<longleftrightarrow> sp_name s = name \<and> ranges_ok s \<and> sets_ok s"

lemma parsed_inv_split: "parsed_inv name s \<longleftrightarrow> common_inv name s \<and> kind_ok s"
  by (auto simp: parsed_inv_def common_inv_def)

lemmas common_defs = common_inv_def ranges_ok_def sets_ok_def

lemma service_spec_new_common: "common_inv name (service_spec_new name program)"
  using service_spec_new_inv by (simp add: parsed_inv_split)

lemma new_common:
  assumes "sp_name s = name" "ranges_ok s = ranges_ok (service_spec_new name program)"
    "sets_ok s = sets_ok (service_spec_new name program)"
  shows "common_inv name s"
  using assms service_spec_new_common[of name program] by (simp add: common_inv_def)

lemma run_steps_Cons: "run_steps (f # fs) s = bind_res (f s) (run_steps fs)"
  by (simp add: run_steps_def[abs_def])

lemma parse_process_inv:
  assumes "t \<notin> {TypeSocket, TypeTimer, TypePath, TypeMount}" "parse_process file name t = Inr s"
  shows "parsed_inv name s"
proof -
  let ?commands = "effective_directives file ''service'' ''exec''"
  from assms(2) obtain start s1 where
    s1: "add_bus_names file t (process_spec name t start) = Inr s1" and s: "add_pre_commands ?commands t s1 = Inr s"
    unfolding parse_process_def Let_def run_steps_Cons by (auto simp: bind_res_eq_Inr run_steps_def split: if_splits)
  let ?s = "process_spec name t start"
  have c: "common_inv name ?s"
    unfolding process_spec_def by (rule new_common) (simp_all add: ranges_ok_def sets_ok_def service_spec_new_def)
  have f: "sp_service_type ?s = t" "sp_trigger ?s = None" "sp_mount_where ?s = None"
    by (simp_all add: process_spec_def service_spec_new_def)
  have p: "parsed_inv name s1"
  proof (cases "t = TypeDbus")
    case True
    then obtain names where "s1 = ?s\<lparr>sp_bus_names := names\<rparr>" "names \<noteq> []"
      using s1 by (auto simp: add_bus_names_def bind_res_eq_Inr split: if_splits)
    then show ?thesis using c f True by (simp add: parsed_inv_split kind_ok_def common_defs)
  next
    case False
    then have "s1 = ?s" using s1 by (simp add: add_bus_names_def)
    then show ?thesis using c f False assms(1) by (simp add: parsed_inv_split kind_ok_def)
  qed
  have "inv_step name (add_pre_commands ?commands t)"
    unfolding add_pre_commands_def
    by (intro keeps_if keeps_fold keeps_mapped keeps_skip) (simp add: inv_defs)
  from keepsD[OF this p s] show ?thesis .
qed

lemma parse_listener_inv:
  assumes "parse_listener file name = Inr s"
  shows "parsed_inv name s"
proof -
  from assms obtain accept remove where
    "run_steps
         [set_parsed (value_of file ''listen'' ''mode'') (\<lambda>v. parse_mode v ''mode'') (\<lambda>m s. s\<lparr>sp_socket_mode := m\<rparr>),
          (\<lambda>s. Ok (s\<lparr>sp_socket_user := value_of file ''listen'' ''user'',
                     sp_socket_group := value_of file ''listen'' ''group''\<rparr>)),
          add_listeners file, check_listeners accept]
         (listener_spec_of file name accept remove) = Inr s"
    unfolding parse_listener_def by (auto simp: bind_res_eq_Inr)
  then obtain s1 where s1: "run_steps
         [set_parsed (value_of file ''listen'' ''mode'') (\<lambda>v. parse_mode v ''mode'') (\<lambda>m s. s\<lparr>sp_socket_mode := m\<rparr>),
          (\<lambda>s. Ok (s\<lparr>sp_socket_user := value_of file ''listen'' ''user'',
                     sp_socket_group := value_of file ''listen'' ''group''\<rparr>)),
          add_listeners file] (listener_spec_of file name accept remove) = Inr s1"
    and s: "check_listeners accept s1 = Inr s"
    by (auto simp: run_steps_def bind_res_eq_Inr)
  let ?P = "\<lambda>s. common_inv name s \<and> sp_socket_accept s = accept \<and> sp_socket_service s \<noteq> None \<and>
      sp_service_type s = TypeSocket \<and> sp_trigger s = None \<and> sp_mount_where s = None"
  have "common_inv name (listener_spec_of file name accept remove)"
    unfolding listener_spec_of_def by (rule new_common) (simp_all add: ranges_ok_def sets_ok_def service_spec_new_def)
  then have P: "?P (listener_spec_of file name accept remove)"
    by (simp add: listener_spec_of_def service_spec_new_def split: option.splits)
  have "keeps ?P (add_listeners file)"
    unfolding add_listeners_def
  proof (intro keeps_fold)
    fix x
    have l: "keeps ?P (add_listener kind line v)" for kind line v
      unfolding add_listener_def by (rule keeps_guarded) (simp add: common_defs)
    have "keeps ?P (fold_try (\<lambda>d s. bind_res (vs d) (\<lambda>values. fold_try (add_listener kind (dr_line d)) values s)) ds)" for kind vs ds
      by (intro keeps_fold keeps_bind l)
    then show "keeps ?P (case x of (key, kind) \<Rightarrow> fold_try (\<lambda>d s.
       bind_res (if kind = ListenNetlink then Ok [dr_value d] else split_words (dr_value d) (dr_line d))
         (\<lambda>values. fold_try (add_listener kind (dr_line d)) values s))
       (effective_directives file ''listen'' key))" unfolding case_prod_beta .
  qed
  then have k: "keeps ?P (run_steps
         [set_parsed (value_of file ''listen'' ''mode'') (\<lambda>v. parse_mode v ''mode'') (\<lambda>m s. s\<lparr>sp_socket_mode := m\<rparr>),
          (\<lambda>s. Ok (s\<lparr>sp_socket_user := value_of file ''listen'' ''user'',
                     sp_socket_group := value_of file ''listen'' ''group''\<rparr>)),
          add_listeners file])"
    by (intro keeps_steps, simp only: list.pred_inject, intro conjI TrueI keeps_parsed keeps_pure)
      (simp_all add: common_defs parse_mode_ok)
  from keepsD[OF k P s1] have "?P s1" .
  moreover have "s = s1" "sp_listeners s \<noteq> []"
    "accept \<Longrightarrow> length (sp_listeners s) = 1 \<and> ls_kind (hd (sp_listeners s)) \<in> {ListenStream, ListenSequentialPacket}"
    using s by (auto simp: check_listeners_def split: if_splits)
  ultimately show ?thesis
    by (cases "sp_listeners s1") (auto simp: parsed_inv_split kind_ok_def)
qed

lemma trigger_service_inv: "trigger_ok trigger \<Longrightarrow> t \<in> {TypeTimer, TypePath} \<Longrightarrow> parsed_inv name (trigger_service name t trigger)"
  unfolding trigger_service_def parsed_inv_split
  by (intro conjI new_common) (auto simp add: ranges_ok_def sets_ok_def kind_ok_def service_spec_new_def)

lemma parse_timer_inv: "parse_timer file name = Inr s \<Longrightarrow> parsed_inv name s"
  by (auto simp: parse_timer_def bind_res_eq_Inr Let_def split: if_splits intro!: trigger_service_inv)

lemma parse_watch_inv: "parse_watch file name = Inr s \<Longrightarrow> parsed_inv name s"
  by (auto simp: parse_watch_def bind_res_eq_Inr split: if_splits intro!: trigger_service_inv)

lemma timeout_step_keeps: "inv_step name (timeout_step v)"
  unfolding timeout_step_def by (rule keeps_parsed) (simp add: inv_defs)

lemma parse_swap_inv:
  assumes "parse_swap file name = Inr s"
  shows "parsed_inv name s"
proof -
  from assms obtain args ign c where
    s: "timeout_step (value_of file ''swap'' ''timeout'') ((service_spec_new name ''swapon'')\<lparr>
             sp_args := args, sp_main_ignore_failure := ign,
             sp_service_type := TypeSwap, sp_remain_after_exit := True, sp_stop := Some c\<rparr>) = Inr s"
    by (auto simp: parse_swap_def bind_res_eq_Inr Let_def)
  have "parsed_inv name ((service_spec_new name ''swapon'')\<lparr>
             sp_args := args, sp_main_ignore_failure := ign,
             sp_service_type := TypeSwap, sp_remain_after_exit := True, sp_stop := Some c\<rparr>)"
    unfolding parsed_inv_split
    by (intro conjI new_common) (simp_all add: ranges_ok_def sets_ok_def kind_ok_def service_spec_new_def)
  from keepsD[OF timeout_step_keeps this s] show ?thesis .
qed

lemma parse_mount_inv:
  assumes "parse_mount file name = Inr s"
  shows "parsed_inv name s"
proof -
  from assms obtain args ign path fs pre c where path: "is_absolute path" and
    s: "timeout_step (value_of file ''mount'' ''timeout'') ((service_spec_new name ''mount'')\<lparr>
             sp_args := args, sp_main_ignore_failure := ign,
             sp_service_type := TypeMount, sp_mount_where := Some path, sp_mount_filesystem := fs,
             sp_remain_after_exit := True, sp_start_pre := pre, sp_stop := Some c\<rparr>) = Inr s"
    by (auto simp: parse_mount_def bind_res_eq_Inr Let_def split: if_splits)
  have "parsed_inv name ((service_spec_new name ''mount'')\<lparr>
             sp_args := args, sp_main_ignore_failure := ign,
             sp_service_type := TypeMount, sp_mount_where := Some path, sp_mount_filesystem := fs,
             sp_remain_after_exit := True, sp_start_pre := pre, sp_stop := Some c\<rparr>)"
    unfolding parsed_inv_split
    by (intro conjI new_common) (simp_all add: ranges_ok_def sets_ok_def kind_ok_def service_spec_new_def path)
  from keepsD[OF timeout_step_keeps this s] show ?thesis .
qed

lemma parse_device_inv:
  assumes "parse_device file name = Inr s"
  shows "parsed_inv name s"
proof -
  from assms obtain args path where
    s: "s = (service_spec_new name ''/bin/sh'')\<lparr>sp_args := args, sp_main_expand_environment := False,
          sp_service_type := TypeOneshot, sp_remain_after_exit := True, sp_default_dependencies := False,
          sp_start_timeout := duration_max, sp_device_path := Some path\<rparr>"
    by (auto simp: parse_device_def bind_res_eq_Inr split: if_splits)
  show ?thesis unfolding s parsed_inv_split
    by (intro conjI new_common) (simp_all add: ranges_ok_def sets_ok_def kind_ok_def service_spec_new_def)
qed

lemma make_group_inv: "parsed_inv name s \<Longrightarrow> parsed_inv name (make_group s)"
  by (simp add: make_group_def inv_defs)

lemma service_kinds_plain:
  assumes "map_of service_kinds kind = Some t" "kind \<notin> {''listener'', ''timer'', ''watch'', ''mount''}"
  shows "t \<notin> {TypeSocket, TypeTimer, TypePath, TypeMount}"
  using assms by (auto simp: service_kinds_def split: if_splits)

lemma parse_kind_inv:
  assumes "map_of service_kinds kind = Some t" "parse_kind file kind name t = Inr s"
  shows "parsed_inv name s"
proof -
  consider "kind = ''group''" | "kind = ''listener''" | "kind = ''timer''" | "kind = ''watch''" | "kind = ''mount''"
    | "kind = ''swap''" | "kind = ''device''"
    | "kind \<notin> {''group'', ''listener'', ''timer'', ''watch'', ''mount'', ''swap'', ''device''}" unfolding insert_iff empty_iff by argo
  then show ?thesis
  proof cases
    case 1
    then have "s = make_group (service_spec_new name ''/bin/true'')" using assms(2) by (simp add: parse_kind_def)
    then show ?thesis using make_group_inv[OF service_spec_new_inv] by simp
  next
    case 2
    then have "parse_listener file name = Inr s" using assms(2) by (simp add: parse_kind_def)
    then show ?thesis by (rule parse_listener_inv)
  next
    case 3
    then have "parse_timer file name = Inr s" using assms(2) by (simp add: parse_kind_def)
    then show ?thesis by (rule parse_timer_inv)
  next
    case 4
    then have "parse_watch file name = Inr s" using assms(2) by (simp add: parse_kind_def)
    then show ?thesis by (rule parse_watch_inv)
  next
    case 5
    then have "parse_mount file name = Inr s" using assms(2) by (simp add: parse_kind_def)
    then show ?thesis by (rule parse_mount_inv)
  next
    case 6
    then have "parse_swap file name = Inr s" using assms(2) by (simp add: parse_kind_def)
    then show ?thesis by (rule parse_swap_inv)
  next
    case 7
    then have "parse_device file name = Inr s" using assms(2) by (simp add: parse_kind_def)
    then show ?thesis by (rule parse_device_inv)
  next
    case 8
    then have "parse_process file name t = Inr s" using assms(2) by (simp add: parse_kind_def)
    then show ?thesis using service_kinds_plain[OF assms(1)] 8 by (intro parse_process_inv) auto
  qed
qed

lemma parse_spec_inv:
  assumes "parse_spec file name = Inr s"
  shows "parsed_inv name s \<and> spec_wf s"
proof -
  from assms obtain kind t s1 s2 where k: "map_of service_kinds kind = Some t" "parse_kind file kind name t = Inr s1"
    and s2: "parse_common file s1 = Inr s2" and s: "s = (if kind = ''group'' then make_group s2 else s2)"
    and v: "validate s = Inr ()"
    unfolding parse_spec_def by (auto simp: bind_res_eq_Inr Let_def split: if_splits sum.splits)
  have "parsed_inv name s2" using keepsD[OF parse_common_keeps parse_kind_inv[OF k] s2] .
  then have "parsed_inv name s" using make_group_inv s by simp
  then show ?thesis using v validate_iff_spec_wf by simp
qed

section \<open>Parsed specifications\<close>


definition demo_group_file :: native_file where
  "demo_group_file = \<lparr>nf_sections = [(''service'',
     [\<lparr>dr_section = ''service'', dr_key = ''kind'', dr_value = ''group'', dr_line = 2\<rparr>])]\<rparr>"

lemma demo_group_lookup:
  "effective_directives demo_group_file sec key =
     (if to_ascii_lowercase sec = ''service'' \<and> to_ascii_lowercase key = ''kind''
      then [\<lparr>dr_section = ''service'', dr_key = ''kind'', dr_value = ''group'', dr_line = 2\<rparr>] else [])"
  by (simp add: effective_directives_def directives_def section_directives_def demo_group_file_def)

lemma demo_group_empty:
  assumes "to_ascii_lowercase key \<noteq> ''kind''"
  shows "value_of demo_group_file sec key = None" "each_word demo_group_file sec key body s = Inr s"
    "each_value demo_group_file sec key f s = Inr s" "list_values demo_group_file sec key = Inr []"
    "bool_value demo_group_file sec key = Inr None" "duration_value demo_group_file sec key = Inr None"
    "effective_directives demo_group_file sec key = []"
  using assms by (simp_all add: value_of_def each_word_def each_value_def list_values_def bool_value_def
      duration_value_def demo_group_lookup)

lemmas key_eval = to_ascii_lowercase_def ascii_lower_def byte_class_defs

lemmas demo_group_eval = key_eval demo_group_empty run_steps_def set_parsed_def set_some_def assign_def
  job_timeout_steps_def paths_def list_values_optional_def number_value_def limit_value_of_def

lemma demo_group_sections:
  shows "parse_dependencies demo_group_file s = Inr s"
    and "parse_mount_paths demo_group_file s = Inr s"
    and "parse_command_lists demo_group_file s = Inr s"
    and "parse_lifecycle demo_group_file s = Inr s"
    and "parse_flags demo_group_file s = Inr s"
    and "parse_identity demo_group_file s = Inr s"
    and "parse_environment demo_group_file s = Inr s"
    and "parse_directories demo_group_file s = Inr s"
    and "parse_credentials demo_group_file s = Inr s"
    and "parse_conditions demo_group_file s = Inr s"
    and "parse_manager demo_group_file s = Inr s"
    and "parse_limits demo_group_file s = Inr s"
    and "parse_streams demo_group_file s = Inr s"
    and "parse_exit_statuses demo_group_file s = Inr s"
    and "parse_install demo_group_file s = Inr s"
  by (simp_all add: parse_dependencies_def parse_mount_paths_def parse_command_lists_def parse_lifecycle_def parse_flags_def parse_identity_def parse_environment_def parse_directories_def parse_credentials_def parse_conditions_def parse_manager_def parse_limits_def parse_streams_def parse_exit_statuses_def parse_install_def
      dependency_fields_def mount_fields_def command_fields_def flag_fields_def flag_value_def directory_kinds_def parse_condition_section_def condition_kinds_def limit_fields_def exit_status_fields_def demo_group_eval)

lemma demo_group_defaults:
  shows "sp_start_limit_interval s = None \<Longrightarrow> sp_start_limit_burst s = None \<Longrightarrow>
      parse_start_limit demo_group_file s = Inr s"
    and "sp_resources s = resource_limits_default \<Longrightarrow> parse_resources demo_group_file s = Inr s"
    and "sp_read_write_paths s = [] \<Longrightarrow> sp_read_only_paths s = [] \<Longrightarrow> sp_inaccessible_paths s = [] \<Longrightarrow>
      sp_system_call_filter s = None \<Longrightarrow> parse_security demo_group_file s = Inr s"
  by (simp_all add: parse_start_limit_def parse_resources_def resource_limits_default_def parse_security_def
      security_flags_def private_flags_def parse_syscall_filter_def demo_group_eval)

lemma demo_group_common:
  "parse_common demo_group_file (make_group (service_spec_new name program)) =
     Inr (make_group (service_spec_new name program))"
  by (simp add: parse_common_def job_timeout_steps_def run_steps_def set_parsed_def demo_group_sections
      demo_group_defaults key_eval demo_group_empty make_group_def service_spec_new_def)

lemma make_group_idem: "make_group (make_group s) = make_group s"
  by (simp add: make_group_def)

lemma demo_group_parses:
  "parse_spec demo_group_file ''boot'' = Ok (make_group (service_spec_new ''boot'' ''/bin/true''))"
proof -
  have name: "safe_name ''boot''"
    by (simp add: safe_name_def has_space_or_control_def is_cont_def char_is_whitespace_single char_is_control_single)
  then have "spec_wf (make_group (service_spec_new ''boot'' ''/bin/true''))"
    by (simp add: spec_wf_def make_group_def service_spec_new_def dependency_set_default_def unsafe_path_def SIGTERM_def)
  then have "validate (make_group (service_spec_new ''boot'' ''/bin/true'')) = Inr ()"
    by (simp only: validate_iff_spec_wf)
  moreover have "validate_name ''boot'' = Inr ()" "has_section demo_group_file ''service''"
    using name by (simp_all add: validate_name_def safe_name_def has_section_def demo_group_file_def key_eval)
  moreover have "value_of demo_group_file ''service'' ''kind'' = Some ''group''"
    by (simp add: value_of_def demo_group_lookup key_eval)
  ultimately show ?thesis
    by (simp add: parse_spec_def service_kinds_def parse_kind_def demo_group_common make_group_idem Let_def key_eval)
qed


end
