(* ===== verification/Control.thy ===== *)
theory Control
  imports Rust_Str
begin

text \<open>
  The control protocol of \<open>crates/fractald-control/src/lib.rs\<close>: requests and responses, their one-line
  encodings and the parsers of both. An iterator over the fields of a line is the list of the
  fields left, returned updated. The socket, the runtime and state directories and their marker
  files are input and output and are not modelled.
\<close>

section \<open>Data\<close>

datatype shutdown_action = ShutdownStop | ShutdownPoweroff | ShutdownReboot | ShutdownHalt

datatype request =
    ReqStatus | ReqStop | ReqPing | ReqList | ReqReload
  | EnableService string
  | DisableService string
  | IsEnabled string
  | ReloadService string
  | ResetFailed "string option"
  | StartService string
  | IsolateService string
  | StopService string
  | RestartService string
  | ReqServiceStatus string
  | ReqTransactionStatus "64 word"
  | Subscribe "64 word option"
  | Shutdown shutdown_action

record service_status =
  ss_name :: string
  ss_state :: string
  ss_pid :: "32 word option"
  ss_generation :: "64 word"
  ss_restart_count :: "32 word"

record transaction_status =
  ts_id :: "64 word"
  ts_operation :: string
  ts_name :: string
  ts_state :: string

datatype response =
    RspStatus "32 word" "64 word"
  | Stopping | Pong | Subscribed
  | RspEvent string
  | Services "string list"
  | Service service_status
  | Transaction transaction_status
  | Accepted "64 word" string string
  | Enabled string
  | Disabled string
  | EnabledStatus string bool
  | Reloaded | RspReset
  | RspError string

datatype protocol_error =
    UnknownRequest string
  | MalformedRequest string
  | MalformedResponse string

abbreviation newline :: string where
  "newline \<equiv> [CHR 0x0A]"

section \<open>Names\<close>

definition native_service_name :: "string \<Rightarrow> string" where
  "native_service_name name = (case strip_suffix ''.svc'' name of Some s \<Rightarrow> s | None \<Rightarrow> name)"

definition service_name_candidates :: "string \<Rightarrow> string list" where
  "service_name_candidates name = [native_service_name name]"

text \<open>The only error of \<open>validate_service_name\<close> is the input error \<open>invalid service name\<close>.\<close>

definition validate_service_name :: "string \<Rightarrow> string + unit" where
  "validate_service_name name =
     (if name = [] \<or> name = ''.'' \<or> name = ''..'' \<or> CHR ''/'' \<in> set name \<or>
         list_ex (\<lambda>ch. ch = [CHR 0x00] \<or> char_is_whitespace ch) (chars name)
      then Err ''invalid service name'' else Ok ())"

section \<open>Requests\<close>

fun shutdown_as_str :: "shutdown_action \<Rightarrow> string" where
  "shutdown_as_str ShutdownStop = ''stop''"
| "shutdown_as_str ShutdownPoweroff = ''poweroff''"
| "shutdown_as_str ShutdownReboot = ''reboot''"
| "shutdown_as_str ShutdownHalt = ''halt''"

definition shutdown_parse :: "string \<Rightarrow> shutdown_action option" where
  "shutdown_parse value =
     (if value = ''stop'' then Some ShutdownStop
      else if value = ''poweroff'' then Some ShutdownPoweroff
      else if value = ''reboot'' then Some ShutdownReboot
      else if value = ''halt'' then Some ShutdownHalt
      else None)"

fun request_line :: "request \<Rightarrow> string" where
  "request_line ReqStatus = ''STATUS'' @ newline"
| "request_line ReqStop = ''STOP'' @ newline"
| "request_line ReqPing = ''PING'' @ newline"
| "request_line ReqList = ''LIST'' @ newline"
| "request_line ReqReload = ''RELOAD'' @ newline"
| "request_line (EnableService name) = ''ENABLE_SERVICE '' @ name @ newline"
| "request_line (DisableService name) = ''DISABLE_SERVICE '' @ name @ newline"
| "request_line (IsEnabled name) = ''IS_ENABLED '' @ name @ newline"
| "request_line (ReloadService name) = ''RELOAD_SERVICE '' @ name @ newline"
| "request_line (ResetFailed None) = ''RESET_FAILED'' @ newline"
| "request_line (ResetFailed (Some name)) = ''RESET_FAILED '' @ name @ newline"
| "request_line (StartService name) = ''START_SERVICE '' @ name @ newline"
| "request_line (IsolateService name) = ''ISOLATE_SERVICE '' @ name @ newline"
| "request_line (StopService name) = ''STOP_SERVICE '' @ name @ newline"
| "request_line (RestartService name) = ''RESTART_SERVICE '' @ name @ newline"
| "request_line (ReqServiceStatus name) = ''SERVICE_STATUS '' @ name @ newline"
| "request_line (ReqTransactionStatus i) = ''TRANSACTION_STATUS '' @ show_nat (unat i) @ newline"
| "request_line (Subscribe None) = ''SUBSCRIBE'' @ newline"
| "request_line (Subscribe (Some since)) = ''SUBSCRIBE '' @ show_nat (unat since) @ newline"
| "request_line (Shutdown action) = ''SHUTDOWN '' @ shutdown_as_str action @ newline"

definition parse_shutdown_action :: "string list \<Rightarrow> protocol_error + shutdown_action \<times> string list" where
  "parse_shutdown_action fs =
     (case fs of
        [] \<Rightarrow> Err (MalformedRequest ''shutdown action is required'')
      | value # rest \<Rightarrow>
          (case shutdown_parse value of
             None \<Rightarrow> Err (MalformedRequest (''unsupported shutdown action '' @ value))
           | Some action \<Rightarrow> Ok (action, rest)))"

definition parse_optional_sequence :: "string list \<Rightarrow> protocol_error + 64 word option \<times> string list" where
  "parse_optional_sequence fs =
     (case fs of
        [] \<Rightarrow> Ok (None, [])
      | value # rest \<Rightarrow>
          (case parse_u64 value of
             None \<Rightarrow> Err (MalformedRequest ''invalid event sequence'')
           | Some since \<Rightarrow> Ok (Some since, rest)))"

definition parse_service_name :: "string list \<Rightarrow> protocol_error + string \<times> string list" where
  "parse_service_name fs =
     (case fs of
        [] \<Rightarrow> Err (MalformedRequest ''service name is required'')
      | name # rest \<Rightarrow>
          if name = [] \<or> CHR 0x0A \<in> set name \<or> CHR 0x0D \<in> set name
          then Err (MalformedRequest ''invalid service name'')
          else Ok (name, rest))"

definition parse_transaction_id :: "string list \<Rightarrow> protocol_error + 64 word \<times> string list" where
  "parse_transaction_id fs =
     (case fs of
        [] \<Rightarrow> Err (MalformedRequest ''transaction id is required'')
      | value # rest \<Rightarrow>
          (case parse_u64 value of
             None \<Rightarrow> Err (MalformedRequest ''invalid transaction id'')
           | Some i \<Rightarrow> if i = 0 then Err (MalformedRequest ''transaction id must be non-zero'')
                        else Ok (i, rest)))"

text \<open>A variant with one argument: \<open>Self::Variant(parse(fs)?)\<close>.\<close>

definition with_arg ::
    "('a \<Rightarrow> request) \<Rightarrow> (string list \<Rightarrow> protocol_error + 'a \<times> string list) \<Rightarrow> string list \<Rightarrow>
     protocol_error + request \<times> string list" where
  "with_arg mk parse fs = map_res (\<lambda>(x, rest). (mk x, rest)) (parse fs)"

definition request_of_fields :: "string \<Rightarrow> string list \<Rightarrow> protocol_error + request \<times> string list" where
  "request_of_fields command fs =
     (if command = ''STATUS'' then Ok (ReqStatus, fs)
      else if command = ''STOP'' then Ok (ReqStop, fs)
      else if command = ''PING'' then Ok (ReqPing, fs)
      else if command = ''LIST'' then Ok (ReqList, fs)
      else if command = ''RELOAD'' then Ok (ReqReload, fs)
      else if command = ''ENABLE_SERVICE'' then with_arg EnableService parse_service_name fs
      else if command = ''DISABLE_SERVICE'' then with_arg DisableService parse_service_name fs
      else if command = ''IS_ENABLED'' then with_arg IsEnabled parse_service_name fs
      else if command = ''RELOAD_SERVICE'' then with_arg ReloadService parse_service_name fs
      else if command = ''RESET_FAILED'' then
        (case fs of [] \<Rightarrow> Ok (ResetFailed None, []) | name # rest \<Rightarrow> Ok (ResetFailed (Some name), rest))
      else if command = ''START_SERVICE'' then with_arg StartService parse_service_name fs
      else if command = ''ISOLATE_SERVICE'' then with_arg IsolateService parse_service_name fs
      else if command = ''STOP_SERVICE'' then with_arg StopService parse_service_name fs
      else if command = ''RESTART_SERVICE'' then with_arg RestartService parse_service_name fs
      else if command = ''SERVICE_STATUS'' then with_arg ReqServiceStatus parse_service_name fs
      else if command = ''TRANSACTION_STATUS'' then with_arg ReqTransactionStatus parse_transaction_id fs
      else if command = ''SUBSCRIBE'' then with_arg Subscribe parse_optional_sequence fs
      else if command = ''SHUTDOWN'' then with_arg Shutdown parse_shutdown_action fs
      else Err (UnknownRequest command))"

definition request_parse :: "string \<Rightarrow> protocol_error + request" where
  "request_parse value =
     (case split_whitespace value of
        [] \<Rightarrow> Err (UnknownRequest (trim value))
      | command # fs \<Rightarrow>
          bind_res (request_of_fields command fs) (\<lambda>(req, rest).
            if rest \<noteq> [] then Err (MalformedRequest (trim value)) else Ok req))"

section \<open>Responses\<close>

definition one_line :: "string \<Rightarrow> string" where
  "one_line value =
     concat (map (\<lambda>ch. if ch \<in> {[CHR 0x0A], [CHR 0x0D], [CHR 0x00]} then '' '' else ch) (chars value))"

definition trim_end_newlines :: "string \<Rightarrow> string" where
  "trim_end_newlines s = rev (dropWhile (\<lambda>c. c = CHR 0x0D \<or> c = CHR 0x0A) (rev s))"

definition show_pid :: "32 word option \<Rightarrow> string" where
  "show_pid pid = (case pid of None \<Rightarrow> ''-'' | Some p \<Rightarrow> show_nat (unat p))"

fun response_line :: "response \<Rightarrow> string" where
  "response_line (RspStatus pid uptime_ms) =
     ''OK STATUS pid='' @ show_nat (unat pid) @ '' uptime_ms='' @ show_nat (unat uptime_ms) @ newline"
| "response_line Stopping = ''OK STOPPING'' @ newline"
| "response_line Pong = ''OK PONG'' @ newline"
| "response_line Subscribed = ''OK SUBSCRIBED'' @ newline"
| "response_line (RspEvent line) = ''OK EVENT '' @ one_line (trim_end_newlines line) @ newline"
| "response_line (Services names) = ''OK SERVICES names='' @ join '','' names @ newline"
| "response_line (Service st) =
     ''OK SERVICE name='' @ ss_name st @ '' state='' @ ss_state st @ '' pid='' @ show_pid (ss_pid st) @
     '' generation='' @ show_nat (unat (ss_generation st)) @
     '' restarts='' @ show_nat (unat (ss_restart_count st)) @ newline"
| "response_line (Transaction st) =
     ''OK TRANSACTION id='' @ show_nat (unat (ts_id st)) @ '' operation='' @ ts_operation st @
     '' name='' @ ts_name st @ '' state='' @ ts_state st @ newline"
| "response_line (Accepted i operation name) =
     ''OK ACCEPTED id='' @ show_nat (unat i) @ '' operation='' @ operation @ '' name='' @ name @ newline"
| "response_line (Enabled name) = ''OK ENABLED name='' @ name @ newline"
| "response_line (Disabled name) = ''OK DISABLED name='' @ name @ newline"
| "response_line (EnabledStatus name enabled) =
     ''OK ENABLED_STATUS name='' @ name @ '' enabled='' @ show_nat (if enabled then 1 else 0) @ newline"
| "response_line Reloaded = ''OK RELOADED'' @ newline"
| "response_line RspReset = ''OK RESET_FAILED'' @ newline"
| "response_line (RspError message) = ''ERR '' @ one_line message @ newline"

definition parse_field ::
    "(string \<Rightarrow> 'a option) \<Rightarrow> string \<Rightarrow> string list \<Rightarrow> protocol_error + 'a \<times> string list" where
  "parse_field from_str name fs =
     (case fs of
        [] \<Rightarrow> Err (MalformedResponse (''missing '' @ name))
      | field # rest \<Rightarrow>
          (case split_once CHR ''='' field of
             None \<Rightarrow> Err (MalformedResponse field)
           | Some (field_name, value) \<Rightarrow>
               if field_name \<noteq> name then Err (MalformedResponse field)
               else (case from_str value of
                       None \<Rightarrow> Err (MalformedResponse field)
                     | Some x \<Rightarrow> Ok (x, rest))))"

definition no_more :: "string \<Rightarrow> string list \<Rightarrow> response \<Rightarrow> protocol_error + response" where
  "no_more line rest r = (if rest \<noteq> [] then Err (MalformedResponse line) else Ok r)"

definition parse_service_response :: "string \<Rightarrow> string list \<Rightarrow> protocol_error + response" where
  "parse_service_response line fs =
     bind_res (parse_field Some ''name'' fs) (\<lambda>(name, f1).
     bind_res (parse_field Some ''state'' f1) (\<lambda>(state, f2).
     bind_res (parse_field Some ''pid'' f2) (\<lambda>(pid, f3).
     bind_res (parse_field parse_u64 ''generation'' f3) (\<lambda>(generation, f4).
     bind_res (parse_field parse_u32 ''restarts'' f4) (\<lambda>(restart_count, f5).
       if f5 \<noteq> [] then Err (MalformedResponse line)
       else bind_res (if pid = ''-'' then Ok None
                      else (case parse_u32 pid of
                              None \<Rightarrow> Err (MalformedResponse line) | Some p \<Rightarrow> Ok (Some p)))
              (\<lambda>pid. Ok (Service \<lparr>ss_name = name, ss_state = state, ss_pid = pid,
                                ss_generation = generation, ss_restart_count = restart_count\<rparr>)))))))"

definition parse_transaction_response :: "string \<Rightarrow> string list \<Rightarrow> protocol_error + response" where
  "parse_transaction_response line fs =
     bind_res (parse_field parse_u64 ''id'' fs) (\<lambda>(i, f1).
     bind_res (parse_field Some ''operation'' f1) (\<lambda>(operation, f2).
     bind_res (parse_field Some ''name'' f2) (\<lambda>(name, f3).
     bind_res (parse_field Some ''state'' f3) (\<lambda>(state, f4).
       no_more line f4 (Transaction \<lparr>ts_id = i, ts_operation = operation, ts_name = name, ts_state = state\<rparr>)))))"

definition response_of_fields :: "string \<Rightarrow> string \<Rightarrow> string list \<Rightarrow> protocol_error + response" where
  "response_of_fields line kind fs =
     (if kind = ''STATUS'' then
        bind_res (parse_field parse_u32 ''pid'' fs) (\<lambda>(pid, f1).
        bind_res (parse_field parse_u64 ''uptime_ms'' f1) (\<lambda>(uptime_ms, f2).
          no_more line f2 (RspStatus pid uptime_ms)))
      else if kind = ''SERVICES'' then
        bind_res (parse_field Some ''names'' fs) (\<lambda>(names, f1).
          no_more line f1 (Services (if names = [] then [] else split_char CHR '','' names)))
      else if kind = ''SERVICE'' then parse_service_response line fs
      else if kind = ''TRANSACTION'' then parse_transaction_response line fs
      else if kind = ''ACCEPTED'' then
        bind_res (parse_field parse_u64 ''id'' fs) (\<lambda>(i, f1).
        bind_res (parse_field Some ''operation'' f1) (\<lambda>(operation, f2).
        bind_res (parse_field Some ''name'' f2) (\<lambda>(name, f3).
          no_more line f3 (Accepted i operation name))))
      else if kind = ''ENABLED'' then
        bind_res (parse_field Some ''name'' fs) (\<lambda>(name, f1). no_more line f1 (Enabled name))
      else if kind = ''DISABLED'' then
        bind_res (parse_field Some ''name'' fs) (\<lambda>(name, f1). no_more line f1 (Disabled name))
      else if kind = ''ENABLED_STATUS'' then
        bind_res (parse_field Some ''name'' fs) (\<lambda>(name, f1).
        bind_res (parse_field (parse_unsigned 10 8) ''enabled'' f1) (\<lambda>(enabled, f2).
          if f2 \<noteq> [] \<or> 1 < enabled then Err (MalformedResponse line)
          else Ok (EnabledStatus name (enabled = 1))))
      else Err (MalformedResponse line))"

definition response_parse :: "string \<Rightarrow> protocol_error + response" where
  "response_parse value =
     (let line = trim value
      in case strip_prefix ''ERR '' line of
           Some rest \<Rightarrow> Ok (RspError rest)
         | None \<Rightarrow>
             if line = ''OK STOPPING'' then Ok Stopping
             else if line = ''OK PONG'' then Ok Pong
             else if line = ''OK SUBSCRIBED'' then Ok Subscribed
             else (case strip_prefix ''OK EVENT '' line of
                     Some event \<Rightarrow>
                       if event = [] then Err (MalformedResponse line) else Ok (RspEvent event)
                   | None \<Rightarrow>
                       if line = ''OK RELOADED'' then Ok Reloaded
                       else if line = ''OK RESET_FAILED'' then Ok RspReset
                       else (case split_whitespace line of
                               [] \<Rightarrow> Err (MalformedResponse line)
                             | ok # fs \<Rightarrow>
                                 if ok \<noteq> ''OK'' then Err (MalformedResponse line)
                                 else (case fs of
                                         [] \<Rightarrow> Err (MalformedResponse line)
                                       | kind # rest \<Rightarrow> response_of_fields line kind rest))))"

section \<open>Round trips\<close>

text \<open>
  The values a line can carry: tokens, and for free text a trimmed line without control
  separators. A request for transaction 0 and a list holding one empty name have no encoding.
\<close>

definition name_ok :: "string \<Rightarrow> bool" where
  "name_ok name \<longleftrightarrow> token name \<and> CHR 0x0A \<notin> set name \<and> CHR 0x0D \<notin> set name"

fun request_wf :: "request \<Rightarrow> bool" where
  "request_wf (EnableService name) \<longleftrightarrow> name_ok name"
| "request_wf (DisableService name) \<longleftrightarrow> name_ok name"
| "request_wf (IsEnabled name) \<longleftrightarrow> name_ok name"
| "request_wf (ReloadService name) \<longleftrightarrow> name_ok name"
| "request_wf (ResetFailed (Some name)) \<longleftrightarrow> name_ok name"
| "request_wf (StartService name) \<longleftrightarrow> name_ok name"
| "request_wf (IsolateService name) \<longleftrightarrow> name_ok name"
| "request_wf (StopService name) \<longleftrightarrow> name_ok name"
| "request_wf (RestartService name) \<longleftrightarrow> name_ok name"
| "request_wf (ReqServiceStatus name) \<longleftrightarrow> name_ok name"
| "request_wf (ReqTransactionStatus i) \<longleftrightarrow> i \<noteq> 0"
| "request_wf _ \<longleftrightarrow> True"

fun request_words :: "request \<Rightarrow> string list" where
  "request_words ReqStatus = [''STATUS'']"
| "request_words ReqStop = [''STOP'']"
| "request_words ReqPing = [''PING'']"
| "request_words ReqList = [''LIST'']"
| "request_words ReqReload = [''RELOAD'']"
| "request_words (EnableService name) = [''ENABLE_SERVICE'', name]"
| "request_words (DisableService name) = [''DISABLE_SERVICE'', name]"
| "request_words (IsEnabled name) = [''IS_ENABLED'', name]"
| "request_words (ReloadService name) = [''RELOAD_SERVICE'', name]"
| "request_words (ResetFailed None) = [''RESET_FAILED'']"
| "request_words (ResetFailed (Some name)) = [''RESET_FAILED'', name]"
| "request_words (StartService name) = [''START_SERVICE'', name]"
| "request_words (IsolateService name) = [''ISOLATE_SERVICE'', name]"
| "request_words (StopService name) = [''STOP_SERVICE'', name]"
| "request_words (RestartService name) = [''RESTART_SERVICE'', name]"
| "request_words (ReqServiceStatus name) = [''SERVICE_STATUS'', name]"
| "request_words (ReqTransactionStatus i) = [''TRANSACTION_STATUS'', show_nat (unat i)]"
| "request_words (Subscribe None) = [''SUBSCRIBE'']"
| "request_words (Subscribe (Some since)) = [''SUBSCRIBE'', show_nat (unat since)]"
| "request_words (Shutdown action) = [''SHUTDOWN'', shutdown_as_str action]"

lemma request_line_words: "request_line r = join '' '' (request_words r) @ newline"
  by (cases r rule: request_line.cases) simp_all

definition command_char :: "char \<Rightarrow> bool" where
  "command_char c \<longleftrightarrow> is_ascii_alphabetic c \<or> c = CHR ''_'' \<or> c = CHR ''=''"

lemma command_token: "w \<noteq> [] \<Longrightarrow> list_all command_char w \<Longrightarrow> token w"
proof -
  assume w: "w \<noteq> []" "list_all command_char w"
  have b: "60 \<le> byte_val c \<and> byte_val c < 128" if "c \<in> set w" for c
    using w(2) that by (auto simp: list_all_iff command_char_def byte_class_defs)
  then have ascii: "is_ascii w" by (auto simp: is_ascii_def list_all_iff is_ascii_byte_def)
  have "byte_val c \<notin> {9, 10, 11, 12, 13, 32}" if "c \<in> set w" for c using b[OF that] by auto
  then have "no_whitespace w" unfolding no_whitespace_ascii[OF ascii] by blast
  moreover have "starts_char w" using b[of "hd w"] w(1) by (auto simp: starts_char_def is_cont_def)
  ultimately show ?thesis using w(1) by (simp add: token_def)
qed

lemma command_chars:
  "command_char CHR ''A''" "command_char CHR ''B''" "command_char CHR ''C''" "command_char CHR ''D''" "command_char CHR ''E''" "command_char CHR ''F''" "command_char CHR ''G''" "command_char CHR ''H''" "command_char CHR ''I''"
  "command_char CHR ''J''" "command_char CHR ''K''" "command_char CHR ''L''" "command_char CHR ''M''" "command_char CHR ''N''" "command_char CHR ''O''" "command_char CHR ''P''" "command_char CHR ''Q''" "command_char CHR ''R''"
  "command_char CHR ''S''" "command_char CHR ''T''" "command_char CHR ''U''" "command_char CHR ''V''" "command_char CHR ''W''" "command_char CHR ''X''" "command_char CHR ''Y''" "command_char CHR ''Z''" "command_char CHR ''_''"
  "command_char CHR ''a''" "command_char CHR ''b''" "command_char CHR ''c''" "command_char CHR ''d''" "command_char CHR ''e''" "command_char CHR ''f''" "command_char CHR ''g''" "command_char CHR ''h''" "command_char CHR ''i''"
  "command_char CHR ''j''" "command_char CHR ''k''" "command_char CHR ''l''" "command_char CHR ''m''" "command_char CHR ''n''" "command_char CHR ''o''" "command_char CHR ''p''" "command_char CHR ''q''" "command_char CHR ''r''"
  "command_char CHR ''s''" "command_char CHR ''t''" "command_char CHR ''u''" "command_char CHR ''v''" "command_char CHR ''w''" "command_char CHR ''x''" "command_char CHR ''y''" "command_char CHR ''z''" "command_char CHR ''=''"
  by (simp_all add: command_char_def byte_class_defs)

lemma shutdown_token: "token (shutdown_as_str action)"
  by (cases action) (simp_all add: command_token command_chars)

lemma shutdown_round_trip [simp]: "shutdown_parse (shutdown_as_str action) = Some action"
  by (cases action) (simp_all add: shutdown_parse_def)

lemma request_words_tokens: "request_wf r \<Longrightarrow> w \<in> set (request_words r) \<Longrightarrow> token w"
  by (cases r rule: request_line.cases)
    (auto simp: command_token command_chars show_nat_token shutdown_token name_ok_def)

lemma request_words_parse:
  "request_wf r \<Longrightarrow> \<exists>command args. request_words r = command # args \<and> request_of_fields command args = Inr (r, [])"
  by (cases r rule: request_line.cases)
    (simp_all add: request_of_fields_def with_arg_def parse_service_name_def parse_transaction_id_def
      parse_optional_sequence_def parse_shutdown_action_def name_ok_def token_def)

text \<open>
  C27: every request the client can send is understood by the server as the same request.
\<close>

theorem request_round_trip:
  assumes "request_wf r"
  shows "request_parse (request_line r) = Ok r"
proof -
  have words: "split_whitespace (request_line r) = request_words r"
    unfolding request_line_words split_whitespace_line
    using request_words_tokens[OF assms] by (rule split_whitespace_join)
  then show ?thesis using request_words_parse[OF assms] by (auto simp: request_parse_def)
qed

theorem request_round_trip_witness:
  "request_parse (request_line (StartService ''web'')) = Ok (StartService ''web'')"
  by (rule request_round_trip) (simp add: name_ok_def command_token command_chars)

definition value_ok :: "string \<Rightarrow> bool" where
  "value_ok v \<longleftrightarrow> no_whitespace v \<and> starts_char v"

definition text_ok :: "string \<Rightarrow> bool" where
  "text_ok v \<longleftrightarrow> v \<noteq> [] \<and> trimmed v \<and> starts_char v \<and> one_line v = v \<and> trim_end_newlines v = v"

fun response_wf :: "response \<Rightarrow> bool" where
  "response_wf (RspEvent line) \<longleftrightarrow> text_ok line"
| "response_wf (Services names) \<longleftrightarrow> names \<noteq> [[]] \<and> list_all (\<lambda>n. value_ok n \<and> CHR '','' \<notin> set n) names"
| "response_wf (Service st) \<longleftrightarrow> value_ok (ss_name st) \<and> value_ok (ss_state st)"
| "response_wf (Transaction st) \<longleftrightarrow> value_ok (ts_operation st) \<and> value_ok (ts_name st) \<and> value_ok (ts_state st)"
| "response_wf (Accepted i operation name) \<longleftrightarrow> value_ok operation \<and> value_ok name"
| "response_wf (Enabled name) \<longleftrightarrow> value_ok name"
| "response_wf (Disabled name) \<longleftrightarrow> value_ok name"
| "response_wf (EnabledStatus name _) \<longleftrightarrow> value_ok name"
| "response_wf (RspError message) \<longleftrightarrow> text_ok message"
| "response_wf _ \<longleftrightarrow> True"

fun response_words :: "response \<Rightarrow> string list" where
  "response_words (RspStatus pid up) =
     [''OK'', ''STATUS'', ''pid='' @ show_nat (unat pid), ''uptime_ms='' @ show_nat (unat up)]"
| "response_words (Services names) = [''OK'', ''SERVICES'', ''names='' @ join '','' names]"
| "response_words (Service st) = [''OK'', ''SERVICE'', ''name='' @ ss_name st, ''state='' @ ss_state st,
     ''pid='' @ show_pid (ss_pid st), ''generation='' @ show_nat (unat (ss_generation st)),
     ''restarts='' @ show_nat (unat (ss_restart_count st))]"
| "response_words (Transaction st) = [''OK'', ''TRANSACTION'', ''id='' @ show_nat (unat (ts_id st)),
     ''operation='' @ ts_operation st, ''name='' @ ts_name st, ''state='' @ ts_state st]"
| "response_words (Accepted i operation name) = [''OK'', ''ACCEPTED'', ''id='' @ show_nat (unat i),
     ''operation='' @ operation, ''name='' @ name]"
| "response_words (Enabled name) = [''OK'', ''ENABLED'', ''name='' @ name]"
| "response_words (Disabled name) = [''OK'', ''DISABLED'', ''name='' @ name]"
| "response_words (EnabledStatus name enabled) =
     [''OK'', ''ENABLED_STATUS'', ''name='' @ name, ''enabled='' @ show_nat (if enabled then 1 else 0)]"
| "response_words Stopping = [''OK'', ''STOPPING'']"
| "response_words Pong = [''OK'', ''PONG'']"
| "response_words Subscribed = [''OK'', ''SUBSCRIBED'']"
| "response_words Reloaded = [''OK'', ''RELOADED'']"
| "response_words RspReset = [''OK'', ''RESET_FAILED'']"
| "response_words _ = []"

lemma response_line_words:
  "response_words r \<noteq> [] \<Longrightarrow> response_line r = join '' '' (response_words r) @ newline"
  by (cases r) simp_all

lemma value_ok_number [simp]: "value_ok (show_nat n)"
  using show_nat_token[of n] by (simp add: value_ok_def token_def)

lemma value_ok_pid [simp]: "value_ok (show_pid pid)"
  by (cases pid) (simp_all add: show_pid_def, simp add: value_ok_def no_whitespace_def is_cont_def char_is_whitespace_single)

lemma field_token:
  assumes "list_all command_char k" and "k \<noteq> []" and "value_ok v"
  shows "token (k @ v)"
proof -
  have "token k" using assms(1,2) by (intro command_token)
  then show ?thesis using assms(3) by (simp add: token_def value_ok_def no_whitespace_append starts_char_append)
qed

lemma value_ok_names: "list_all (\<lambda>n. value_ok n \<and> CHR '','' \<notin> set n) names \<Longrightarrow> value_ok (join '','' names)"
proof (induction "'',''" names rule: join.induct)
  case (3 x y xs)
  then have ok: "value_ok x" "value_ok (join '','' (y # xs))" by auto
  have comma: "no_whitespace '',''" by (simp add: no_whitespace_def is_cont_def char_is_whitespace_single)
  have sep: "no_whitespace (CHR '','' # join '','' (y # xs))"
    using no_whitespace_append[of "join '','' (y # xs)" "'',''"] ok(2) comma by (simp add: value_ok_def)
  have head: "starts_char (CHR '','' # join '','' (y # xs))" by (simp add: is_cont_def)
  have "no_whitespace (x @ CHR '','' # join '','' (y # xs))"
    using no_whitespace_append[OF head, of x] ok(1) sep by (simp add: value_ok_def)
  moreover have "starts_char (x @ CHR '','' # join '','' (y # xs))"
    using ok(1) head by (cases "x = []") (simp_all add: value_ok_def starts_char_append)
  ultimately show ?case by (simp add: value_ok_def)
qed (auto simp: value_ok_def)

lemma response_words_tokens: "response_wf r \<Longrightarrow> w \<in> set (response_words r) \<Longrightarrow> token w"
  using field_token[of "''pid=''"] field_token[of "''uptime_ms=''"] field_token[of "''names=''"] field_token[of "''name=''"]
    field_token[of "''state=''"] field_token[of "''generation=''"] field_token[of "''restarts=''"] field_token[of "''id=''"]
    field_token[of "''operation=''"] field_token[of "''enabled=''"] value_ok_names
  by (cases r) (auto simp: command_token command_chars)

fun structured :: "response \<Rightarrow> bool" where
  "structured (RspStatus _ _) \<longleftrightarrow> True"
| "structured (Services _) \<longleftrightarrow> True"
| "structured (Service _) \<longleftrightarrow> True"
| "structured (Transaction _) \<longleftrightarrow> True"
| "structured (Accepted _ _ _) \<longleftrightarrow> True"
| "structured (Enabled _) \<longleftrightarrow> True"
| "structured (Disabled _) \<longleftrightarrow> True"
| "structured (EnabledStatus _ _) \<longleftrightarrow> True"
| "structured _ \<longleftrightarrow> False"

lemma show_pid_parse: "(if show_pid pid = ''-'' then Inr None
     else (case parse_u32 (show_pid pid) of None \<Rightarrow> Inl e | Some p \<Rightarrow> Inr (Some p))) = Inr pid"
proof (cases pid)
  case (Some p)
  obtain c cs where "show_nat (unat p) = c # cs" by (cases "show_nat (unat p)") auto
  moreover have "is_ascii_digit c" using calculation show_nat_digits[of c "unat p"] by simp
  ultimately have "show_nat (unat p) \<noteq> ''-''" using digit_not_special[of c] by auto
  then show ?thesis using Some by (simp add: show_pid_def)
qed (simp add: show_pid_def)

lemma names_round_trip:
  "names \<noteq> [[]] \<Longrightarrow> list_all (\<lambda>n. value_ok n \<and> CHR '','' \<notin> set n) names \<Longrightarrow>
     (if join '','' names = [] then [] else split_char CHR '','' (join '','' names)) = names"
proof (cases names)
  case (Cons n ns)
  assume "names \<noteq> [[]]" and ok: "list_all (\<lambda>n. value_ok n \<and> CHR '','' \<notin> set n) names"
  then have "join '','' names \<noteq> []" using Cons by (cases ns) auto
  moreover have "split_char CHR '','' (join '','' names) = names"
    using ok Cons by (intro split_char_join) (auto simp: list_all_iff)
  ultimately show ?thesis by simp
qed simp

lemma enabled_flag_parse: "parse_unsigned 10 8 (show_nat (if b then 1 else 0)) = Some (if b then 1 else 0)"
  by (rule parse_unsigned_show_nat) simp

lemma structured_parse:
  assumes "response_wf r" and "structured r"
  shows "\<exists>kind rest. response_words r = ''OK'' # kind # rest \<and> response_of_fields line kind rest = Inr r"
proof (cases r)
  case (Service st)
  then show ?thesis using show_pid_parse[of "ss_pid st" "MalformedResponse line"]
    by (simp add: response_of_fields_def parse_service_response_def parse_field_def)
next
  case (Services names)
  then show ?thesis using assms names_round_trip[of names]
    by (simp add: response_of_fields_def parse_field_def no_more_def)
next
  case (EnabledStatus name b)
  then show ?thesis using enabled_flag_parse[of b]
    by (simp add: response_of_fields_def parse_field_def no_more_def)
qed (use assms(2) in \<open>simp_all add: response_of_fields_def parse_transaction_response_def parse_field_def no_more_def\<close>)

lemma structured_prefixes:
  "structured r \<Longrightarrow> join '' '' (response_words r) \<notin> {''OK STOPPING'', ''OK PONG'', ''OK SUBSCRIBED'', ''OK RELOADED'', ''OK RESET_FAILED''} \<and>
     strip_prefix ''ERR '' (join '' '' (response_words r)) = None \<and>
     strip_prefix ''OK EVENT '' (join '' '' (response_words r)) = None"
  by (cases r) (simp_all add: strip_prefix_Cons)

lemma text_line_trim:
  assumes "text_ok v" and "list_all (\<lambda>c. byte_val c < 128) p" and "p = c # q" and "\<not> char_is_whitespace [c]"
  shows "trim (p @ v @ newline) = p @ v"
proof -
  have v: "v \<noteq> []" "trimmed v" "starts_char v" using assms(1) by (simp_all add: text_ok_def)
  have "is_ascii p" using assms(2) by (simp add: is_ascii_def is_ascii_byte_def list_all_iff)
  then have "chars (p @ v) = map (\<lambda>c. [c]) p @ chars v" using v(3) by (simp add: chars_append chars_ascii)
  then have "trimmed (p @ v)" using v(1,2) assms(3,4) by (simp add: trimmed_def)
  then show ?thesis using trim_newline[of "p @ v"] by simp
qed

text \<open>
  C28: every response the server can send is read by the client as the same response.
\<close>

theorem response_round_trip:
  assumes "response_wf r"
  shows "response_parse (response_line r) = Ok r"
proof (cases "response_words r = []")
  case False
  have tokens: "\<And>w. w \<in> set (response_words r) \<Longrightarrow> token w" by (rule response_words_tokens[OF assms])
  have line: "trim (response_line r) = join '' '' (response_words r)"
    unfolding response_line_words[OF False] by (rule trim_newline[OF trimmed_join[OF False tokens]])
  show ?thesis
  proof (cases "structured r")
    case True
    obtain kind rest where k: "response_words r = ''OK'' # kind # rest"
        "response_of_fields (join '' '' (response_words r)) kind rest = Inr r"
      using structured_parse[OF assms True] by blast
    have "split_whitespace (join '' '' (response_words r)) = ''OK'' # kind # rest"
      unfolding k(1)[symmetric] using tokens by (rule split_whitespace_join)
    then show ?thesis using structured_prefixes[OF True] k(2) by (simp add: response_parse_def line Let_def)
  next
    case False
    then show ?thesis using \<open>response_words r \<noteq> []\<close> unfolding response_parse_def line Let_def
      by (cases r) (simp_all add: strip_prefix_Cons)
  qed
next
  case True
  then consider (event) l where "r = RspEvent l" | (error) m where "r = RspError m" by (cases r) auto
  then show ?thesis
  proof cases
    case event
    then have l: "text_ok l" "one_line (trim_end_newlines l) = l" using assms by (simp_all add: text_ok_def)
    have "trim (''OK EVENT '' @ l @ newline) = ''OK EVENT '' @ l"
      by (rule text_line_trim[OF l(1), where c = "CHR ''O''" and q = "''K EVENT ''"]) (simp_all add: char_is_whitespace_single)
    then show ?thesis using event l by (simp add: response_parse_def Let_def strip_prefix_Cons text_ok_def)
  next
    case error
    then have m: "text_ok m" "one_line m = m" using assms by (simp_all add: text_ok_def)
    have "trim (''ERR '' @ m @ newline) = ''ERR '' @ m"
      by (rule text_line_trim[OF m(1), where c = "CHR ''E''" and q = "''RR ''"]) (simp_all add: char_is_whitespace_single)
    then show ?thesis using error m by (simp add: response_parse_def Let_def strip_prefix_Cons)
  qed
qed

theorem response_round_trip_witness:
  "response_parse (response_line (Services [''db'', ''web''])) = Ok (Services [''db'', ''web''])"
  by (rule response_round_trip) (simp add: value_ok_def no_whitespace_def is_cont_def char_is_whitespace_single)

end
