(* ===== verification/Rust_Utf8.thy ===== *)
theory Rust_Utf8
  imports Rust_Str
begin

text \<open>
  UTF-8: the byte sequences \<open>String::from_utf8\<close> accepts, and \<open>String::from_utf8_lossy\<close>, which puts the
  replacement character for every maximal ill-formed part.
\<close>

text \<open>\<open>String::from_utf8\<close>: the well-formed byte sequences of the Unicode standard.\<close>

fun valid_utf8 :: "string \<Rightarrow> bool" where
  "valid_utf8 [] \<longleftrightarrow> True"
| "valid_utf8 (a # s) \<longleftrightarrow>
     (if byte_val a < 128 then valid_utf8 s
      else if byte_in 0xC2 0xDF a then
        (case s of b # t \<Rightarrow> is_cont b \<and> valid_utf8 t | _ \<Rightarrow> False)
      else if byte_in 0xE0 0xEF a then
        (case s of
           b # c # t \<Rightarrow>
             (if byte_val a = 0xE0 then byte_in 0xA0 0xBF b
              else if byte_val a = 0xED then byte_in 0x80 0x9F b else is_cont b) \<and>
             is_cont c \<and> valid_utf8 t
         | _ \<Rightarrow> False)
      else if byte_in 0xF0 0xF4 a then
        (case s of
           b # c # d # t \<Rightarrow>
             (if byte_val a = 0xF0 then byte_in 0x90 0xBF b
              else if byte_val a = 0xF4 then byte_in 0x80 0x8F b else is_cont b) \<and>
             is_cont c \<and> is_cont d \<and> valid_utf8 t
         | _ \<Rightarrow> False)
      else False)"

text \<open>
  The second byte a lead byte allows, and how many bytes its sequence has. A sequence that breaks off
  is replaced up to the byte that breaks it, which starts the next one.
\<close>

definition second_ok :: "char \<Rightarrow> char \<Rightarrow> bool" where
  "second_ok a b =
     (if byte_val a = 0xE0 then byte_in 0xA0 0xBF b
      else if byte_val a = 0xED then byte_in 0x80 0x9F b
      else if byte_val a = 0xF0 then byte_in 0x90 0xBF b
      else if byte_val a = 0xF4 then byte_in 0x80 0x8F b else is_cont b)"

definition sequence_length :: "char \<Rightarrow> nat" where
  "sequence_length a =
     (if byte_val a < 128 then 1 else if byte_in 0xC2 0xDF a then 2
      else if byte_in 0xE0 0xEF a then 3 else if byte_in 0xF0 0xF4 a then 4 else 0)"

definition well_formed_part :: "char \<Rightarrow> string \<Rightarrow> string" where
  "well_formed_part a s =
     (let n = sequence_length a
      in if n \<le> 1 then [a]
         else (case s of
                 [] \<Rightarrow> [a]
               | b # t \<Rightarrow> if second_ok a b then a # b # takeWhile is_cont (take (n - 2) t) else [a]))"

definition replacement_char :: rchar where
  "replacement_char = utf8_encode 0xFFFD"

function utf8_lossy :: "string \<Rightarrow> string" where
  "utf8_lossy [] = []"
| "utf8_lossy (a # s) =
     (let part = well_formed_part a s
      in (if length part = sequence_length a then part else replacement_char) @
         utf8_lossy (drop (length part - 1) s))"
  by pat_completeness auto
termination
  by (relation "measure length") auto

declare utf8_lossy.simps(2) [simp del]

text \<open>Text that is UTF-8 already is kept; what comes out always is UTF-8.\<close>

lemma ascii_valid_utf8: "is_ascii s \<Longrightarrow> valid_utf8 s"
  by (induction s) (auto simp: is_ascii_byte_def)

lemma valid_utf8_sequence:
  "valid_utf8 (a # s) \<longleftrightarrow>
     length (well_formed_part a s) = sequence_length a \<and> valid_utf8 (drop (length (well_formed_part a s) - 1) s)"
proof -
  have split2: "valid_utf8 (a # s) \<longleftrightarrow> (case s of b # t \<Rightarrow> second_ok a b \<and> valid_utf8 t | _ \<Rightarrow> False)"
    if "byte_in 0xC2 0xDF a" using that by (auto simp: byte_in_def second_ok_def split: list.split)
  have split3: "valid_utf8 (a # s) \<longleftrightarrow> (case s of b # c # t \<Rightarrow> second_ok a b \<and> is_cont c \<and> valid_utf8 t | _ \<Rightarrow> False)"
    if "byte_in 0xE0 0xEF a" using that by (auto simp: byte_in_def second_ok_def split: list.split)
  have split4: "valid_utf8 (a # s) \<longleftrightarrow>
      (case s of b # c # d # t \<Rightarrow> second_ok a b \<and> is_cont c \<and> is_cont d \<and> valid_utf8 t | _ \<Rightarrow> False)"
    if "byte_in 0xF0 0xF4 a" using that by (auto simp: byte_in_def second_ok_def split: list.split)
  consider "byte_val a < 128" | "byte_in 0xC2 0xDF a" | "byte_in 0xE0 0xEF a" | "byte_in 0xF0 0xF4 a"
    | "sequence_length a = 0" "\<not> valid_utf8 (a # s)"
    by (cases "sequence_length a = 0") (auto simp: sequence_length_def split: if_splits)
  then show ?thesis
  proof cases
    case 1
    then show ?thesis by (simp add: well_formed_part_def sequence_length_def Let_def)
  next
    case 2
    then have "sequence_length a = 2" by (auto simp: sequence_length_def byte_in_def)
    then show ?thesis unfolding split2[OF 2] by (auto simp: well_formed_part_def split: list.split)
  next
    case 3
    then have "sequence_length a = 3" by (auto simp: sequence_length_def byte_in_def)
    then show ?thesis unfolding split3[OF 3] by (auto simp: well_formed_part_def numeral_eq_Suc split: list.split)
  next
    case 4
    then have "sequence_length a = 4" by (auto simp: sequence_length_def byte_in_def)
    then show ?thesis unfolding split4[OF 4]
      by (auto simp: well_formed_part_def numeral_eq_Suc take_Cons' split: list.split)
  next
    case 5
    then show ?thesis by (simp add: well_formed_part_def)
  qed
qed

lemma well_formed_part_prefix: "well_formed_part a s @ drop (length (well_formed_part a s) - 1) s = a # s"
proof -
  have "takeWhile P (take n t) @ drop (length (takeWhile P (take n t))) t = t" for P and n and t :: string
  proof -
    let ?k = "length (takeWhile P (take n t))"
    have "?k \<le> n" using length_takeWhile_le[of P "take n t"] by simp
    then have "takeWhile P (take n t) = take ?k t" by (subst takeWhile_eq_take) simp
    then show ?thesis by (metis append_take_drop_id)
  qed
  then show ?thesis by (auto simp: well_formed_part_def Let_def split: list.split)
qed

lemma utf8_lossy_valid: "valid_utf8 s \<Longrightarrow> utf8_lossy s = s"
proof (induction s rule: utf8_lossy.induct)
  case (2 a s)
  let ?part = "well_formed_part a s"
  have "length ?part = sequence_length a" "valid_utf8 (drop (length ?part - 1) s)"
    using 2(2) valid_utf8_sequence by blast+
  then have "utf8_lossy (a # s) = ?part @ drop (length ?part - 1) s"
    using "2.IH"[OF refl] by (simp add: utf8_lossy.simps(2))
  then show ?case by (simp only: well_formed_part_prefix)
qed simp

lemma utf8_lossy_ascii [simp]: "is_ascii s \<Longrightarrow> utf8_lossy s = s"
  by (simp add: utf8_lossy_valid ascii_valid_utf8)

lemma valid_utf8_starts: "valid_utf8 s \<Longrightarrow> starts_char s"
  by (cases s) (auto simp: starts_char_def is_cont_def byte_in_def split: if_splits)

lemma valid_utf8_append: "valid_utf8 s \<Longrightarrow> valid_utf8 t \<Longrightarrow> valid_utf8 (s @ t)"
proof (induction s rule: utf8_lossy.induct)
  case (2 a s)
  let ?part = "well_formed_part a s"
  have v: "length ?part = sequence_length a" "valid_utf8 (drop (length ?part - 1) s)"
    using 2(2) valid_utf8_sequence by blast+
  have n: "1 \<le> length ?part" "length ?part - 1 \<le> length s"
    using arg_cong[OF well_formed_part_prefix[of a s], of length] by (auto simp: well_formed_part_def Let_def split: list.splits)
  have "well_formed_part a (s @ t) = ?part"
    using v(1) n by (auto simp: well_formed_part_def Let_def split: list.splits if_splits)
  moreover have "drop (length ?part - 1) (s @ t) = drop (length ?part - 1) s @ t" using n(2) by simp
  ultimately show ?case
    using 2(1)[OF refl v(2) 2(3)] v(1) unfolding append_Cons by (subst valid_utf8_sequence) simp
qed simp

end
