(* ===== verification/State_Paths.thy ===== *)
theory State_Paths
  imports Control BTree Rust_Utf8
begin

text \<open>
  \<open>StatePaths\<close> of \<open>crates/fractald-control/src/lib.rs\<close>: services are enabled and masked by marker files in
  two directories. A directory is the map from the names in it to what they are; looking up the
  empty name or one of the dots finds the directory itself. The names of the other marker files, next
  to the service files, are looked up by \<open>service_is_enabled\<close> and \<open>service_is_masked\<close>.
\<close>

section \<open>Markers\<close>

datatype marker = MarkerFile | MarkerLink | MarkerDirectory | MarkerSpecial

type_synonym marker_dir = "(string, marker) bmap"

datatype state_error = StateNameInvalid | MarkerIsLink | MarkerNotRegular | MarkerNotRemoved

record state_paths =
  st_enabled :: marker_dir
  st_masked :: marker_dir

definition marker_at :: "marker_dir \<Rightarrow> string \<Rightarrow> marker option" where
  "marker_at dir name = (if name \<in> {[], ''.'', ''..''} then Some MarkerDirectory else map_of dir name)"

definition check_state_name :: "string \<Rightarrow> state_error + unit" where
  "check_state_name name = (case validate_service_name name of Err _ \<Rightarrow> Err StateNameInvalid | Ok u \<Rightarrow> Ok u)"

text \<open>The bodies \<open>enable\<close> and \<open>mask\<close>, \<open>disable\<close> and \<open>unmask\<close>, \<open>is_enabled\<close> and \<open>is_masked\<close> share but for the directory.\<close>

definition set_marker :: "string \<Rightarrow> marker_dir \<Rightarrow> state_error + marker_dir" where
  "set_marker name dir =
     bind_res (check_state_name name) (\<lambda>_.
       let name = native_service_name name
       in case marker_at dir name of
            Some MarkerLink \<Rightarrow> Err MarkerIsLink
          | Some MarkerFile \<Rightarrow> Ok dir
          | Some _ \<Rightarrow> Err MarkerNotRegular
          | None \<Rightarrow> Ok (bmap_insert name MarkerFile dir))"

definition remove_candidate :: "string \<Rightarrow> marker_dir \<Rightarrow> state_error + marker_dir" where
  "remove_candidate candidate dir =
     (case marker_at dir candidate of
        None \<Rightarrow> Ok dir
      | Some MarkerDirectory \<Rightarrow> Err MarkerNotRemoved
      | Some _ \<Rightarrow> Ok (bmap_remove candidate dir))"

definition clear_marker :: "string \<Rightarrow> marker_dir \<Rightarrow> state_error + marker_dir" where
  "clear_marker name dir =
     bind_res (check_state_name name) (\<lambda>_. fold_try remove_candidate (service_name_candidates name) dir)"

fun any_marker :: "marker_dir \<Rightarrow> string list \<Rightarrow> state_error + bool" where
  "any_marker dir [] = Ok False"
| "any_marker dir (candidate # candidates) =
     (case marker_at dir candidate of
        Some MarkerFile \<Rightarrow> Ok True
      | Some MarkerLink \<Rightarrow> Err MarkerIsLink
      | Some _ \<Rightarrow> Err MarkerNotRegular
      | None \<Rightarrow> any_marker dir candidates)"

definition has_marker :: "string \<Rightarrow> marker_dir \<Rightarrow> state_error + bool" where
  "has_marker name dir = bind_res (check_state_name name) (\<lambda>_. any_marker dir (service_name_candidates name))"

section \<open>Enabled and masked\<close>

definition state_enable :: "string \<Rightarrow> state_paths \<Rightarrow> state_error + state_paths" where
  "state_enable name s = map_res (\<lambda>dir. s\<lparr>st_enabled := dir\<rparr>) (set_marker name (st_enabled s))"

definition state_disable :: "string \<Rightarrow> state_paths \<Rightarrow> state_error + state_paths" where
  "state_disable name s = map_res (\<lambda>dir. s\<lparr>st_enabled := dir\<rparr>) (clear_marker name (st_enabled s))"

definition state_is_enabled :: "state_paths \<Rightarrow> string \<Rightarrow> state_error + bool" where
  "state_is_enabled s name = has_marker name (st_enabled s)"

definition state_mask :: "string \<Rightarrow> state_paths \<Rightarrow> state_error + state_paths" where
  "state_mask name s = map_res (\<lambda>dir. s\<lparr>st_masked := dir\<rparr>) (set_marker name (st_masked s))"

definition state_unmask :: "string \<Rightarrow> state_paths \<Rightarrow> state_error + state_paths" where
  "state_unmask name s = map_res (\<lambda>dir. s\<lparr>st_masked := dir\<rparr>) (clear_marker name (st_masked s))"

definition state_is_masked :: "state_paths \<Rightarrow> string \<Rightarrow> state_error + bool" where
  "state_is_masked s name = has_marker name (st_masked s)"

text \<open>\<open>enabled_names\<close>: a name that is not text, or no valid name, is left out.\<close>

definition enabled_names :: "state_paths \<Rightarrow> string list" where
  "enabled_names s =
     map fst (filter (\<lambda>(name, kind). kind = MarkerFile \<and> valid_utf8 name \<and> check_state_name name = Ok ()) (st_enabled s))"

section \<open>Markers of the service directories\<close>

fun first_marker_file :: "marker_dir list \<Rightarrow> string \<Rightarrow> bool" where
  "first_marker_file [] name = False"
| "first_marker_file (dir # dirs) name =
     (case marker_at dir name of None \<Rightarrow> first_marker_file dirs name | Some kind \<Rightarrow> kind = MarkerFile)"

definition service_is_enabled :: "marker_dir list \<Rightarrow> string \<Rightarrow> state_error + bool" where
  "service_is_enabled dirs name =
     (let name = native_service_name name
      in bind_res (check_state_name name) (\<lambda>_. Ok (first_marker_file dirs (name @ ''.enabled''))))"

definition service_is_masked :: "marker_dir list \<Rightarrow> string \<Rightarrow> state_error + bool" where
  "service_is_masked dirs name =
     (let name = native_service_name name
      in bind_res (check_state_name name) (\<lambda>_. Ok (first_marker_file (rev dirs) (name @ ''.masked''))))"

definition service_enabled_names :: "marker_dir list \<Rightarrow> string list" where
  "service_enabled_names dirs =
     bset_of (concat (map (\<lambda>dir. concat (map (\<lambda>(file, kind).
       case (if valid_utf8 file then strip_suffix ''.enabled'' file else None) of
         None \<Rightarrow> []
       | Some name \<Rightarrow> if check_state_name name = Ok () \<and> kind = MarkerFile then [name] else []) dir)) dirs))"

section \<open>Properties\<close>

lemma check_state_name_ok: "check_state_name name = Ok () \<longleftrightarrow> validate_service_name name = Ok ()"
  by (cases "validate_service_name name") (auto simp: check_state_name_def)

lemma set_marker_ok:
  assumes "bmap_inv dir" "set_marker name dir = Ok dir'"
  shows "bmap_inv dir' \<and> map_of dir' = (map_of dir)(native_service_name name \<mapsto> MarkerFile) \<and>
    native_service_name name \<notin> {[], ''.'', ''..''} \<and> check_state_name name = Ok ()"
  using assms
  by (auto simp: set_marker_def bind_res_eq_Inr Let_def marker_at_def fun_upd_idem split: option.splits marker.splits if_splits)

lemma clear_marker_ok:
  assumes "bmap_inv dir" "clear_marker name dir = Ok dir'"
  shows "bmap_inv dir' \<and> map_of dir' = (map_of dir)(native_service_name name := None) \<and>
    native_service_name name \<notin> {[], ''.'', ''..''} \<and> check_state_name name = Ok ()"
  using assms
  by (auto simp: clear_marker_def remove_candidate_def service_name_candidates_def bind_res_eq_Inr Let_def marker_at_def
      fun_upd_idem split: option.splits marker.splits if_splits)

lemma has_marker_update:
  assumes "map_of dir' = (map_of dir)(native_service_name name := v)" and "native_service_name name \<notin> {[], ''.'', ''..''}"
    and "check_state_name name = Ok ()" "v = None \<or> v = Some MarkerFile"
  shows "has_marker other dir' =
    (if check_state_name other = Ok () \<and> native_service_name other = native_service_name name then Ok (v \<noteq> None)
     else has_marker other dir)"
  using assms
  by (auto simp: has_marker_def service_name_candidates_def marker_at_def bind_res_def split: sum.splits option.split)

definition state_inv :: "state_paths \<Rightarrow> bool" where
  "state_inv s \<longleftrightarrow> bmap_inv (st_enabled s) \<and> bmap_inv (st_masked s)"

text \<open>Setting or clearing a marker changes the answer for one service.\<close>

definition answers_after :: "(string \<Rightarrow> state_error + bool) \<Rightarrow> string \<Rightarrow> bool \<Rightarrow> (string \<Rightarrow> state_error + bool) \<Rightarrow> bool" where
  "answers_after query name b query' \<longleftrightarrow>
     (\<forall>other. query' other =
        (if check_state_name other = Ok () \<and> native_service_name other = native_service_name name then Ok b
         else query other))"

lemma set_marker_answers:
  "bmap_inv dir \<Longrightarrow> set_marker name dir = Ok dir' \<Longrightarrow>
    bmap_inv dir' \<and> answers_after (\<lambda>n. has_marker n dir) name True (\<lambda>n. has_marker n dir')"
  using set_marker_ok[of dir name dir'] has_marker_update[of dir' dir name "Some MarkerFile"]
  by (simp add: answers_after_def)

lemma clear_marker_answers:
  "bmap_inv dir \<Longrightarrow> clear_marker name dir = Ok dir' \<Longrightarrow>
    bmap_inv dir' \<and> answers_after (\<lambda>n. has_marker n dir) name False (\<lambda>n. has_marker n dir')"
  using clear_marker_ok[of dir name dir'] has_marker_update[of dir' dir name None]
  by (simp add: answers_after_def)

text \<open>
  Enabling and masking are independent flags of the services: whatever call succeeds, the service
  named, under its name or with the suffix \<open>.svc\<close>, has the flag just set or cleared, every other answer
  to \<open>is_enabled\<close> and every answer about the other flag stays.
\<close>

theorem state_flags:
  assumes "state_inv s"
  shows
    "(\<forall>s'. state_enable name s = Ok s' \<longrightarrow>
        state_inv s' \<and> answers_after (state_is_enabled s) name True (state_is_enabled s') \<and> state_is_masked s' = state_is_masked s) \<and>
     (\<forall>s'. state_disable name s = Ok s' \<longrightarrow>
        state_inv s' \<and> answers_after (state_is_enabled s) name False (state_is_enabled s') \<and> state_is_masked s' = state_is_masked s) \<and>
     (\<forall>s'. state_mask name s = Ok s' \<longrightarrow>
        state_inv s' \<and> answers_after (state_is_masked s) name True (state_is_masked s') \<and> state_is_enabled s' = state_is_enabled s) \<and>
     (\<forall>s'. state_unmask name s = Ok s' \<longrightarrow>
        state_inv s' \<and> answers_after (state_is_masked s) name False (state_is_masked s') \<and> state_is_enabled s' = state_is_enabled s)"
proof -
  have inv: "bmap_inv (st_enabled s)" "bmap_inv (st_masked s)" using assms by (simp_all add: state_inv_def)
  have queries: "state_is_enabled t = (\<lambda>n. has_marker n (st_enabled t))" "state_is_masked t = (\<lambda>n. has_marker n (st_masked t))" for t
    by (rule ext, simp add: state_is_enabled_def state_is_masked_def)+
  note answers = set_marker_answers clear_marker_answers
  show ?thesis
    unfolding queries state_enable_def state_disable_def state_mask_def state_unmask_def map_res_eq_Inr
    by (intro conjI allI impI; elim exE conjE; drule answers[OF inv(1)] answers[OF inv(2)]; simp add: state_inv_def inv)
qed

theorem state_flags_witness:
  "\<exists>s'. state_mask ''web.svc'' \<lparr>st_enabled = [], st_masked = []\<rparr> = Ok s' \<and>
    state_is_masked s' ''web'' = Ok True \<and> state_is_enabled s' = state_is_enabled \<lparr>st_enabled = [], st_masked = []\<rparr>"
proof -
  let ?s = "\<lparr>st_enabled = [], st_masked = []\<rparr>"
  have name: "native_service_name ''web.svc'' = ''web''" "native_service_name ''web'' = ''web''"
    "check_state_name ''web.svc'' = Ok ()" "check_state_name ''web'' = Ok ()"
    by (simp_all add: native_service_name_def strip_suffix_def ends_with_def check_state_name_def validate_service_name_def
        is_cont_def char_is_whitespace_single)
  obtain s' where s': "state_mask ''web.svc'' ?s = Ok s'"
    using name by (auto simp: state_mask_def set_marker_def marker_at_def Let_def)
  have "state_inv ?s" by (simp add: state_inv_def)
  from state_flags[OF this, THEN conjunct2, THEN conjunct2, THEN conjunct1, rule_format, OF s'] s' name
  show ?thesis by (simp add: answers_after_def)
qed

text \<open>The enabled services that \<open>enabled_names\<close> lists, in order, are the valid names of marker files.\<close>

lemma enabled_names_listed:
  assumes "state_inv s"
  shows "sorted_wrt (<) (enabled_names s)"
    and "name \<in> set (enabled_names s) \<longleftrightarrow>
      map_of (st_enabled s) name = Some MarkerFile \<and> valid_utf8 name \<and> check_state_name name = Ok ()"
proof -
  have inv: "bmap_inv (st_enabled s)" using assms by (simp add: state_inv_def)
  then show "sorted_wrt (<) (enabled_names s)"
    unfolding enabled_names_def bmap_inv_def by (simp add: sorted_wrt_map sorted_wrt_filter)
  show "name \<in> set (enabled_names s) \<longleftrightarrow>
      map_of (st_enabled s) name = Some MarkerFile \<and> valid_utf8 name \<and> check_state_name name = Ok ()"
    using bmap_entry[OF inv] by (force simp: enabled_names_def)
qed

end
