(* ===== verification/Escape.thy ===== *)
theory Escape
  imports Rust_Utf8
begin

text \<open>
  \<open>crates/fractald-escape/src/main.rs\<close>: the name escaping tool. The argument vector is a list of
  strings; printing the help or version text and reading standard input are not modelled. \<open>None\<close>
  is a panic (a string slice off a character boundary). The two error texts that embed an error
  of the standard library are constructors.
\<close>

section \<open>Options\<close>

record options =
  opt_unescape :: bool
  opt_mangle :: bool
  opt_path :: bool
  opt_instance :: bool
  opt_suffix :: "string option"
  opt_template :: "string option"
  opt_exit :: bool

definition options_default :: options where
  "options_default = \<lparr>opt_unescape = False, opt_mangle = False, opt_path = False, opt_instance = False,
     opt_suffix = None, opt_template = None, opt_exit = False\<rparr>"

datatype escape_error = Message string | InvalidEscape nat | InvalidEscapeDigits nat | NotUtf8 string

text \<open>\<open>str::trim_start_matches\<close> with a non-empty pattern.\<close>

function trim_start_matches :: "string \<Rightarrow> string \<Rightarrow> string" where
  "trim_start_matches p s =
     (if p = [] then s else case strip_prefix p s of None \<Rightarrow> s | Some r \<Rightarrow> trim_start_matches p r)"
  by pat_completeness auto
termination
  by (relation "measure (\<lambda>(p, s). length s)") (auto simp: strip_prefix_Some)

declare trim_start_matches.simps [simp del]

text \<open>The arms of the match that only set an option, and those that take the next argument.\<close>

definition flag_option :: "string \<Rightarrow> options \<Rightarrow> options option" where
  "flag_option argument options =
     (if argument = ''--unescape'' \<or> argument = ''-u'' then Some (options\<lparr>opt_unescape := True\<rparr>)
      else if argument = ''--mangle'' \<or> argument = ''-m'' then Some (options\<lparr>opt_mangle := True\<rparr>)
      else if argument = ''--path'' \<or> argument = ''-p'' then Some (options\<lparr>opt_path := True\<rparr>)
      else if argument = ''--instance'' then Some (options\<lparr>opt_instance := True\<rparr>)
      else if starts_with argument ''--suffix='' then
        Some (options\<lparr>opt_suffix := Some (trim_start_matches ''--suffix='' argument)\<rparr>)
      else if starts_with argument ''--template='' then
        Some (options\<lparr>opt_template := Some (trim_start_matches ''--template='' argument)\<rparr>)
      else None)"

definition value_option :: "string \<Rightarrow> (string \<Rightarrow> options \<Rightarrow> options) option" where
  "value_option argument =
     (if argument = ''--suffix'' then Some (\<lambda>v options. options\<lparr>opt_suffix := Some v\<rparr>)
      else if argument = ''--template'' then Some (\<lambda>v options. options\<lparr>opt_template := Some v\<rparr>)
      else None)"

fun parse_args_loop :: "string list \<Rightarrow> options \<Rightarrow> string list \<Rightarrow> escape_error + options \<times> string list" where
  "parse_args_loop [] options values = Ok (options, values)"
| "parse_args_loop (argument # arguments) options values =
     (if argument \<in> set [''--help'', ''-h'', ''--version''] then Ok (options\<lparr>opt_exit := True\<rparr>, [])
      else (case flag_option argument options of
              Some options' \<Rightarrow> parse_args_loop arguments options' values
            | None \<Rightarrow>
                (case value_option argument of
                   Some set_value \<Rightarrow>
                     (case arguments of
                        [] \<Rightarrow> Err (Message (argument @ '' requires a value''))
                      | v # rest \<Rightarrow> parse_args_loop rest (set_value v options) values)
                 | None \<Rightarrow>
                     if starts_with argument ''-'' then Err (Message (''unsupported option '' @ argument))
                     else parse_args_loop arguments options (values @ [argument]))))"

definition check_options :: "options \<Rightarrow> escape_error + unit" where
  "check_options options =
     (if opt_unescape options \<and> (opt_suffix options \<noteq> None \<or> opt_template options \<noteq> None) then
        Err (Message ''--suffix and --template require escaping mode'')
      else if opt_suffix options \<noteq> None \<and> opt_template options \<noteq> None then
        Err (Message ''--suffix= and --template= may not be combined'')
      else if opt_instance options \<and> \<not> opt_unescape options then
        Err (Message ''--instance requires --unescape'')
      else if opt_mangle options \<and> opt_path options then
        Err (Message ''--mangle may not be combined with --path'')
      else Ok ())"

text \<open>The help and version branches return before the checks.\<close>

definition parse_args :: "string list \<Rightarrow> escape_error + options \<times> string list" where
  "parse_args arguments =
     bind_res (parse_args_loop arguments options_default []) (\<lambda>(options, values).
       if opt_exit options then Ok (options, values)
       else bind_res (check_options options) (\<lambda>_. Ok (options, values)))"

section \<open>Escaping\<close>

definition hex_digit :: "nat \<Rightarrow> char" where
  "hex_digit d = (if d < 10 then char_of (48 + d) else char_of (87 + d))"

definition plain_byte :: "char \<Rightarrow> bool" where
  "plain_byte c \<longleftrightarrow> is_ascii_alphanumeric c \<or> c \<in> set ''_.:''"

definition escape_byte :: "char \<Rightarrow> string" where
  "escape_byte c =
     (if plain_byte c then [c]
      else [CHR 0x5C, CHR ''x'', hex_digit (byte_val c div 16), hex_digit (byte_val c mod 16)])"

definition escape :: "string \<Rightarrow> string" where
  "escape value = concat (map escape_byte value)"

definition path_escape :: "string \<Rightarrow> string" where
  "path_escape value =
     (let output = join ''-'' (map escape (filter (\<lambda>c. c \<noteq> []) (split_char CHR ''/'' value)))
      in if output = [] then ''-'' else output)"

definition trim_dashes :: "string \<Rightarrow> string" where
  "trim_dashes s =
     rev (dropWhile (\<lambda>c. c = CHR ''-'') (rev (dropWhile (\<lambda>c. c = CHR ''-'') s)))"

definition mangle :: "string \<Rightarrow> string" where
  "mangle value = trim_dashes (map (\<lambda>c. if c = CHR ''/'' then CHR ''-'' else c) value)"

section \<open>Unescaping\<close>

definition char_boundary :: "string \<Rightarrow> bool" where
  "char_boundary rest \<longleftrightarrow> rest = [] \<or> \<not> is_cont (hd rest)"

text \<open>
  The loop over the bytes; \<open>index\<close> is the position of the first byte left. An escape is the four
  bytes backslash, \<open>x\<close> and two digits; the digits are sliced out of the string, which panics when
  the slice ends or starts inside a character.
\<close>

fun unescape_loop :: "nat \<Rightarrow> string \<Rightarrow> string \<Rightarrow> (escape_error + string) option" where
  "unescape_loop index [] output = Some (Ok output)"
| "unescape_loop index (c # s) output =
     (if c = CHR 0x5C then
        (case s of
           x # h # l # rest \<Rightarrow>
             if x \<noteq> CHR ''x'' then Some (Err (InvalidEscape index))
             else if is_cont h \<or> \<not> char_boundary rest then None
             else (case parse_unsigned 16 8 [h, l] of
                     None \<Rightarrow> Some (Err (InvalidEscapeDigits index))
                   | Some v \<Rightarrow> unescape_loop (index + 4) rest (output @ [char_of v]))
         | _ \<Rightarrow> Some (Err (InvalidEscape index)))
      else unescape_loop (index + 1) s (output @ [c]))"

definition unescape :: "string \<Rightarrow> (escape_error + string) option" where
  "unescape value =
     map_option (\<lambda>r. bind_res r (\<lambda>output. if valid_utf8 output then Ok output else Err (NotUtf8 output)))
       (unescape_loop 0 value [])"

text \<open>\<open>collect::<Result<Vec<_>, _>>\<close> stops at the first error; a panic before it wins.\<close>

fun unescape_all :: "string list \<Rightarrow> (escape_error + string list) option" where
  "unescape_all [] = Some (Ok [])"
| "unescape_all (p # ps) =
     (case unescape p of
        None \<Rightarrow> None
      | Some (Err e) \<Rightarrow> Some (Err e)
      | Some (Ok v) \<Rightarrow> map_option (map_res (\<lambda>vs. v # vs)) (unescape_all ps))"

definition path_unescape :: "string \<Rightarrow> (escape_error + string) option" where
  "path_unescape value =
     (if value = ''-'' then Some (Ok ''/'')
      else map_option (map_res (\<lambda>parts. ''/'' @ join ''/'' parts)) (unescape_all (split_char CHR ''-'' value)))"

section \<open>Templates\<close>

definition instance_part :: "string \<Rightarrow> string" where
  "instance_part value =
     (let base = (case rsplit_once CHR ''.'' value of None \<Rightarrow> value | Some (b, _) \<Rightarrow> b)
      in case rsplit_once CHR ''@'' base of None \<Rightarrow> base | Some (_, inst) \<Rightarrow> inst)"

text \<open>\<open>template.replace("%i", instance)\<close> and \<open>template.contains("%i")\<close>.\<close>

fun replace_percent_i :: "string \<Rightarrow> string \<Rightarrow> string" where
  "replace_percent_i inst (a # b # s) =
     (if a = CHR ''%'' \<and> b = CHR ''i'' then inst @ replace_percent_i inst s
      else a # replace_percent_i inst (b # s))"
| "replace_percent_i inst s = s"

fun contains_percent_i :: "string \<Rightarrow> bool" where
  "contains_percent_i (a # b # s) \<longleftrightarrow> (a = CHR ''%'' \<and> b = CHR ''i'') \<or> contains_percent_i (b # s)"
| "contains_percent_i s \<longleftrightarrow> False"

definition template_instance :: "string \<Rightarrow> string \<Rightarrow> string" where
  "template_instance template inst =
     (if contains_percent_i template then replace_percent_i inst template
      else (case split_once CHR ''@'' template of
              Some (prefix, rest) \<Rightarrow> prefix @ ''@'' @ inst @ dropWhile (\<lambda>c. c = CHR ''@'') rest
            | None \<Rightarrow> template @ ''@'' @ inst))"

definition transform :: "string \<Rightarrow> options \<Rightarrow> (escape_error + string) option" where
  "transform value options =
     (if opt_unescape options then
        (if opt_path options then path_unescape value
         else map_option (map_res (\<lambda>decoded. if opt_instance options then instance_part decoded else decoded))
                (unescape value))
      else
        (let output = (if opt_path options then path_escape value
                       else if opt_mangle options then mangle value else escape value);
             output = (case opt_template options of None \<Rightarrow> output | Some t \<Rightarrow> template_instance t output);
             output = (case opt_suffix options of
                         None \<Rightarrow> output
                       | Some suffix \<Rightarrow>
                           let suffix = dropWhile (\<lambda>c. c = CHR ''.'') suffix
                           in if suffix \<noteq> [] then output @ ''.'' @ suffix else output)
         in Some (Ok output)))"

section \<open>Round trips\<close>

lemma byte_halves: "byte_val c div 16 < 16" "byte_val c mod 16 < 16"
  using nat_of_char_less_256[of c] by (simp_all add: div_less_iff_less_mult)

lemma hex_digit_cases: "d < 16 \<Longrightarrow> byte_val (hex_digit d) = (if d < 10 then 48 + d else 87 + d)"
  by (simp add: hex_digit_def)

lemma to_digit_hex: "d < 16 \<Longrightarrow> to_digit 16 (hex_digit d) = Some d"
  using hex_digit_cases[of d] by (auto simp: to_digit_def byte_class_defs Let_def split: if_splits)

lemma hex_digit_plain: "d < 16 \<Longrightarrow> hex_digit d \<noteq> CHR ''+'' \<and> \<not> is_cont (hex_digit d)"
  using hex_digit_cases[of d] by (auto simp: is_cont_def split: if_splits)

lemma parse_hex_byte: "parse_unsigned 16 8 [hex_digit (byte_val c div 16), hex_digit (byte_val c mod 16)] = Some (byte_val c)"
proof -
  have c: "byte_val c < 256" by simp
  note d = byte_halves[of c]
  have "byte_val c div 16 * 16 + byte_val c mod 16 = byte_val c" by simp
  then show ?thesis using d c hex_digit_plain[OF d(1)] by (simp add: parse_unsigned_def to_digit_hex)
qed

lemma escape_simps [simp]: "escape [] = []" "escape (c # s) = escape_byte c @ escape s"
  by (simp_all add: escape_def)

lemma escape_byte_letters:
  assumes "d \<in> set (escape_byte c)"
  shows "is_ascii_byte d \<and> d \<noteq> CHR ''-'' \<and> d \<noteq> CHR ''/''"
proof (cases "plain_byte c")
  case True
  then show ?thesis using assms by (auto simp: escape_byte_def plain_byte_def is_ascii_byte_def byte_class_defs)
next
  case False
  note h = byte_halves[of c]
  show ?thesis using False assms h hex_digit_cases[OF h(1)] hex_digit_cases[OF h(2)]
    by (auto simp: escape_byte_def is_ascii_byte_def split: if_splits)
qed

lemma escape_letters: "d \<in> set (escape s) \<Longrightarrow> is_ascii_byte d \<and> d \<noteq> CHR ''-'' \<and> d \<noteq> CHR ''/''"
  by (induction s) (auto dest: escape_byte_letters)

lemma escape_nonempty [simp]: "escape s = [] \<longleftrightarrow> s = []"
  by (cases s) (auto simp: escape_byte_def)

lemma char_boundary_escape: "char_boundary (escape s)"
  using escape_letters[of "hd (escape s)" s] ascii_not_cont[of "hd (escape s)"]
  by (cases "escape s = []") (auto simp: char_boundary_def)

lemma unescape_loop_escape: "\<exists>i. unescape_loop index (escape s) out = unescape_loop i [] (out @ s)"
proof (induction s arbitrary: index out)
  case Nil
  then show ?case by auto
next
  case (Cons c s)
  show ?case
  proof (cases "plain_byte c")
    case True
    then have "c \<noteq> CHR 0x5C" by (auto simp: plain_byte_def byte_class_defs)
    then show ?thesis using True Cons.IH[of "index + 1" "out @ [c]"] by (simp add: escape_byte_def)
  next
    case False
    have "\<not> is_cont (hex_digit (byte_val c div 16))" using byte_halves(1) by (simp add: hex_digit_plain)
    then have "unescape_loop index (escape (c # s)) out = unescape_loop (index + 4) (escape s) (out @ [c])"
      using False char_boundary_escape[of s] by (simp add: escape_byte_def parse_hex_byte)
    then show ?thesis using Cons.IH[of "index + 4" "out @ [c]"] by simp
  qed
qed

lemma unescape_escape: "valid_utf8 v \<Longrightarrow> unescape (escape v) = Some (Ok v)"
  using unescape_loop_escape[of 0 v "[]"] by (auto simp: unescape_def)

text \<open>C30: unescaping an escaped name gives the name back, for every text.\<close>

theorem escape_round_trip:
  assumes "valid_utf8 v"
  shows "unescape (escape v) = Some (Ok v)"
  using assms by (rule unescape_escape)

theorem escape_round_trip_witness:
  "unescape (escape [CHR ''a'', CHR ''-'', CHR 0xC3, CHR 0xA9]) = Some (Ok [CHR ''a'', CHR ''-'', CHR 0xC3, CHR 0xA9])"
  by (rule escape_round_trip) (simp add: byte_in_def is_cont_def)

lemma unescape_all_escape:
  "(\<And>v. v \<in> set vs \<Longrightarrow> valid_utf8 v) \<Longrightarrow> unescape_all (map escape vs) = Some (Ok vs)"
  by (induction vs) (auto simp: unescape_escape)

lemma split_path_components:
  assumes "comps \<noteq> []" and "\<And>c. c \<in> set comps \<Longrightarrow> c \<noteq> [] \<and> CHR ''/'' \<notin> set c"
  shows "filter (\<lambda>c. c \<noteq> []) (split_char CHR ''/'' (''/'' @ join ''/'' comps)) = comps"
proof -
  have "split_char CHR ''/'' (join ''/'' comps) = comps" using assms by (intro split_char_join) auto
  moreover have "filter (\<lambda>c. c \<noteq> []) comps = comps" using assms(2) by (intro filter_True) blast
  ultimately show ?thesis by simp
qed

lemma split_escaped_path: "comps \<noteq> [] \<Longrightarrow> split_char CHR ''-'' (join ''-'' (map escape comps)) = map escape comps"
  using escape_letters by (intro split_char_join) auto

text \<open>
  Unescaping an escaped path gives the path back: for an absolute path in normal form (non-empty
  components, single slashes), and for the root.
\<close>

theorem path_escape_round_trip:
  assumes "\<And>c. c \<in> set comps \<Longrightarrow> c \<noteq> [] \<and> CHR ''/'' \<notin> set c \<and> valid_utf8 c"
  shows "path_unescape (path_escape (''/'' @ join ''/'' comps)) = Some (Ok (''/'' @ join ''/'' comps))"
proof (cases comps)
  case Nil
  then show ?thesis by (simp add: path_escape_def path_unescape_def)
next
  case (Cons c cs)
  let ?out = "join ''-'' (map escape comps)"
  have ne: "comps \<noteq> []" "c \<noteq> []" using Cons assms by auto
  have split: "split_char CHR ''-'' ?out = map escape comps" by (rule split_escaped_path[OF ne(1)])
  have "?out \<noteq> []" "?out \<noteq> ''-''" using split ne(2) Cons escape_nonempty[of c] by (auto simp del: escape_nonempty)
  moreover have "unescape_all (map escape comps) = Some (Ok comps)" using assms by (intro unescape_all_escape) blast
  moreover have "filter (\<lambda>c. c \<noteq> []) (split_char CHR ''/'' (''/'' @ join ''/'' comps)) = comps"
    using assms by (intro split_path_components[OF ne(1)]) blast
  ultimately show ?thesis using split by (simp only: path_escape_def path_unescape_def Let_def if_False) simp
qed

theorem path_escape_round_trip_witness:
  "path_unescape (path_escape ''/var/foo-bar'') = Some (Ok ''/var/foo-bar'')"
proof -
  have "path_unescape (path_escape (''/'' @ join ''/'' [''var'', ''foo-bar''])) = Some (Ok (''/'' @ join ''/'' [''var'', ''foo-bar'']))"
    by (rule path_escape_round_trip) auto
  then show ?thesis by simp
qed

section \<open>Panics\<close>

lemma unescape_loop_plain:
  "CHR 0x5C \<notin> set p \<Longrightarrow> unescape_loop index (p @ s) out = unescape_loop (index + length p) s (out @ p)"
  by (induction p arbitrary: index out) auto

text \<open>
  The decoder panics on every escape whose two digits end inside a multi-byte character (the
  byte after them is a continuation byte), wherever the first escape of the text is: the digits are
  sliced out of the string, and the other malformed escapes return an error.
\<close>

theorem unescape_can_panic:
  assumes "CHR 0x5C \<notin> set p" and "is_cont b"
  shows "unescape (p @ [CHR 0x5C, CHR ''x'', d, a, b] @ rest) = None"
  using assms(2) by (simp add: unescape_def unescape_loop_plain[OF assms(1)] char_boundary_def)

theorem unescape_can_panic_witness:
  "unescape [CHR 0x5C, CHR ''x'', CHR ''1'', CHR 0xC3, CHR 0xA9] = None \<and>
   valid_utf8 [CHR 0x5C, CHR ''x'', CHR ''1'', CHR 0xC3, CHR 0xA9]"
  using unescape_can_panic[of "[]" "CHR 0xA9" "CHR ''1''" "CHR 0xC3" "[]"] by (simp add: is_cont_def byte_in_def)

lemma unescape_loop_ascii: "is_ascii s \<Longrightarrow> unescape_loop index s out \<noteq> None"
proof (induction index s out rule: unescape_loop.induct)
  case (2 index c s out)
  have b: "char_boundary t" if "is_ascii t" for t
    using that ascii_not_cont by (cases t) (auto simp: char_boundary_def)
  show ?case
  proof (cases "c = CHR 0x5C")
    case True
    show ?thesis
    proof (cases "\<exists>x h l r. s = x # h # l # r")
      case T: True
      then obtain x h l r where s: "s = x # h # l # r" by blast
      have "\<not> is_cont h" "char_boundary r" using 2(3) s ascii_not_cont b by auto
      then show ?thesis using True s 2 by (auto split: option.splits)
    next
      case False
      then show ?thesis using True by (auto split: list.splits)
    qed
  next
    case False
    then show ?thesis using 2 by simp
  qed
qed simp

lemma unescape_ascii: "is_ascii s \<Longrightarrow> unescape s \<noteq> None"
  using unescape_loop_ascii by (simp add: unescape_def)

lemma unescape_all_ascii: "(\<And>s. s \<in> set ss \<Longrightarrow> is_ascii s) \<Longrightarrow> unescape_all ss \<noteq> None"
  by (induction ss) (auto dest: unescape_ascii split: option.splits sum.splits)

text \<open>
  On an ASCII argument the tool returns, a result or an error, whatever its options: only text
  beyond ASCII can make it panic.
\<close>

theorem transform_ascii_returns:
  assumes "is_ascii value"
  shows "\<exists>r. transform value options = Some r"
proof -
  have "unescape_all (split_char CHR ''-'' value) \<noteq> None"
    by (rule unescape_all_ascii) (rule split_char_ascii[OF assms])
  then show ?thesis using unescape_ascii[OF assms] by (auto simp: transform_def path_unescape_def Let_def)
qed

theorem transform_ascii_returns_witness:
  "\<exists>r. transform [CHR ''a'', CHR 0x5C, CHR ''x'', CHR ''1''] (options_default\<lparr>opt_unescape := True\<rparr>) = Some r"
  by (rule transform_ascii_returns) (simp add: is_ascii_byte_def)

end
