(* ===== verification/Rust_Net.thy ===== *)
theory Rust_Net
  imports Rust_Str
begin

text \<open>
  \<open>std::net\<close> and hexadecimal output: the text of IP and socket addresses and its parser, which the
  resolver reads from its configuration and writes to its discovery file. A parser takes the bytes left
  and returns the value and the bytes after it; on \<open>None\<close> nothing is consumed.
\<close>

section \<open>Hexadecimal output\<close>

text \<open>\<open>{:x}\<close>, and \<open>{:02x}\<close> of a byte.\<close>

definition hex_char :: "nat \<Rightarrow> char" where
  "hex_char d = (if d < 10 then char_of (48 + d) else char_of (87 + d))"

fun show_hex :: "nat \<Rightarrow> string" where
  "show_hex n = (if n < 16 then [hex_char n] else show_hex (n div 16) @ [hex_char (n mod 16)])"

declare show_hex.simps [simp del]

definition hex_byte :: "char \<Rightarrow> string" where
  "hex_byte c = [hex_char (byte_val c div 16), hex_char (byte_val c mod 16)]"

lemma byte_val_hex_char: "d < 16 \<Longrightarrow> byte_val (hex_char d) = (if d < 10 then 48 + d else 87 + d)"
  by (simp add: hex_char_def)

lemma to_digit_hex_char: "d < 16 \<Longrightarrow> to_digit 16 (hex_char d) = Some d"
  using byte_val_hex_char[of d] by (auto simp: to_digit_def byte_class_defs Let_def split: if_splits)

lemma byte_halves_bound: "byte_val c div 16 < 16" "byte_val c mod 16 < 16"
  using nat_of_char_less_256[of c] by (simp_all add: div_less_iff_less_mult)

section \<open>Addresses\<close>

text \<open>The four octets or eight segments of the address, the port, and the scope.\<close>

datatype socket_addr = SocketV4 "8 word list" "16 word" | SocketV6 "16 word list" "16 word" "32 word"

definition show_ipv4 :: "8 word list \<Rightarrow> string" where
  "show_ipv4 octets = join ''.'' (map (\<lambda>w. show_nat (unat w)) octets)"

text \<open>The first longest run of zero segments, as its start and length.\<close>

fun zero_run :: "nat \<Rightarrow> nat \<times> nat \<Rightarrow> nat \<times> nat \<Rightarrow> 16 word list \<Rightarrow> nat \<times> nat" where
  "zero_run i current longest [] = longest"
| "zero_run i (first, len) longest (s # ss) =
     (if s = 0 then
        (let current = (if len = 0 then i else first, len + 1)
         in zero_run (i + 1) current (if snd longest < len + 1 then current else longest) ss)
      else zero_run (i + 1) (0, 0) longest ss)"

definition show_segments :: "16 word list \<Rightarrow> string" where
  "show_segments segments = join '':'' (map (\<lambda>w. show_hex (unat w)) segments)"

definition show_ipv6 :: "16 word list \<Rightarrow> string" where
  "show_ipv6 segments =
     (if take 6 segments = [0, 0, 0, 0, 0, 0xFFFF] then
        (let low = drop 6 segments
         in ''::ffff:'' @ show_ipv4 (concat (map (\<lambda>w. [ucast (drop_bit 8 w), ucast w]) low)))
      else
        (let (first, len) = zero_run 0 (0, 0) (0, 0) segments
         in if 1 < len then show_segments (take first segments) @ ''::'' @ show_segments (drop (first + len) segments)
            else show_segments segments))"

fun show_socket_addr :: "socket_addr \<Rightarrow> string" where
  "show_socket_addr (SocketV4 ip port) = show_ipv4 ip @ '':'' @ show_nat (unat port)"
| "show_socket_addr (SocketV6 ip port scope) =
     ''['' @ show_ipv6 ip @ (if scope = 0 then [] else ''%'' @ show_nat (unat scope)) @ '']:'' @ show_nat (unat port)"

section \<open>The parser\<close>

definition read_given :: "char \<Rightarrow> string \<Rightarrow> string option" where
  "read_given c s = (case s of d # r \<Rightarrow> if d = c then Some r else None | [] \<Rightarrow> None)"

fun read_digits :: "nat \<Rightarrow> string \<Rightarrow> nat list \<times> string" where
  "read_digits radix [] = ([], [])"
| "read_digits radix (c # s) =
     (case to_digit radix c of
        None \<Rightarrow> ([], c # s)
      | Some d \<Rightarrow> (let (ds, r) = read_digits radix s in (d # ds, r)))"

definition digits_number :: "nat \<Rightarrow> nat list \<Rightarrow> nat" where
  "digits_number radix ds = foldl (\<lambda>n d. n * radix + d) 0 ds"

text \<open>\<open>max_digits\<close> is \<open>None\<close> for ports and scopes, whose overflow fails the same way.\<close>

definition read_number :: "nat \<Rightarrow> nat option \<Rightarrow> bool \<Rightarrow> nat \<Rightarrow> string \<Rightarrow> (nat \<times> string) option" where
  "read_number radix max_digits zero_prefix bits s =
     (let (ds, r) = read_digits radix s; n = digits_number radix ds
      in if ds = [] \<or> (case max_digits of None \<Rightarrow> False | Some k \<Rightarrow> k < length ds) \<or>
            (\<not> zero_prefix \<and> hd ds = 0 \<and> 1 < length ds) \<or> 2 ^ bits \<le> n
         then None else Some (n, r))"

definition after_separator :: "char \<Rightarrow> bool \<Rightarrow> string \<Rightarrow> string option" where
  "after_separator c needed s = (if needed then read_given c s else Some s)"

fun read_octets :: "nat \<Rightarrow> bool \<Rightarrow> string \<Rightarrow> (8 word list \<times> string) option" where
  "read_octets 0 later s = Some ([], s)"
| "read_octets (Suc n) later s =
     (case Option.bind (after_separator CHR ''.'' later s) (read_number 10 (Some 3) False 8) of
        None \<Rightarrow> None
      | Some (octet, r) \<Rightarrow>
          (case read_octets n True r of
             None \<Rightarrow> None
           | Some (octets, r') \<Rightarrow> Some (of_nat octet # octets, r')))"

definition read_ipv4 :: "string \<Rightarrow> (8 word list \<times> string) option" where
  "read_ipv4 s = read_octets 4 False s"

definition octet_segments :: "8 word list \<Rightarrow> 16 word list" where
  "octet_segments os = (case os of [a, b, c, d] \<Rightarrow> [push_bit 8 (ucast a) + ucast b, push_bit 8 (ucast c) + ucast d] | _ \<Rightarrow> [])"

text \<open>\<open>read_groups\<close>: the segments, whether they end in an IPv4 address, and the rest.\<close>

fun read_groups :: "nat \<Rightarrow> bool \<Rightarrow> string \<Rightarrow> 16 word list \<times> bool \<times> string" where
  "read_groups 0 later s = ([], False, s)"
| "read_groups (Suc n) later s =
     (case (if 0 < n then Option.bind (after_separator CHR '':'' later s) read_ipv4 else None) of
        Some (octets, r) \<Rightarrow> (octet_segments octets, True, r)
      | None \<Rightarrow>
          (case Option.bind (after_separator CHR '':'' later s) (read_number 16 (Some 4) True 16) of
             None \<Rightarrow> ([], False, s)
           | Some (g, r) \<Rightarrow> (let (gs, v4, r') = read_groups n True r in (of_nat g # gs, v4, r'))))"

definition read_ipv6 :: "string \<Rightarrow> (16 word list \<times> string) option" where
  "read_ipv6 s =
     (let (head, v4, r) = read_groups 8 False s
      in if length head = 8 then Some (head, r)
         else if v4 then None
         else
           (case Option.bind (read_given CHR '':'' r) (read_given CHR '':'') of
              None \<Rightarrow> None
            | Some r1 \<Rightarrow>
                (let (tail, _, r2) = read_groups (8 - (length head + 1)) False r1
                 in Some (head @ replicate (8 - length head - length tail) 0 @ tail, r2))))"

definition read_port :: "string \<Rightarrow> (16 word \<times> string) option" where
  "read_port s =
     map_option (\<lambda>(n, r). (of_nat n, r)) (Option.bind (read_given CHR '':'' s) (read_number 10 None True 16))"

definition read_scope :: "string \<Rightarrow> 32 word \<times> string" where
  "read_scope s =
     (case Option.bind (read_given CHR ''%'' s) (read_number 10 None True 32) of
        None \<Rightarrow> (0, s) | Some (n, r) \<Rightarrow> (of_nat n, r))"

definition read_socket_v4 :: "string \<Rightarrow> (socket_addr \<times> string) option" where
  "read_socket_v4 s =
     (case read_ipv4 s of
        None \<Rightarrow> None
      | Some (ip, r) \<Rightarrow> map_option (\<lambda>(port, r'). (SocketV4 ip port, r')) (read_port r))"

definition read_socket_v6 :: "string \<Rightarrow> (socket_addr \<times> string) option" where
  "read_socket_v6 s =
     (case Option.bind (read_given CHR ''['' s) read_ipv6 of
        None \<Rightarrow> None
      | Some (ip, r) \<Rightarrow>
          (let (scope, r1) = read_scope r
           in case Option.bind (read_given CHR '']'' r1) read_port of
                None \<Rightarrow> None
              | Some (port, r2) \<Rightarrow> Some (SocketV6 ip port scope, r2)))"

definition parse_socket_addr :: "string \<Rightarrow> socket_addr option" where
  "parse_socket_addr s =
     (case (case read_socket_v4 s of Some x \<Rightarrow> Some x | None \<Rightarrow> read_socket_v6 s) of
        Some (addr, []) \<Rightarrow> Some addr | _ \<Rightarrow> None)"

text \<open>An address whose text is read back. Every IPv4 address is one.\<close>

definition addr_ok :: "socket_addr \<Rightarrow> bool" where
  "addr_ok a \<longleftrightarrow> parse_socket_addr (show_socket_addr a) = Some a"

lemma read_digits_append:
  assumes "list_all (\<lambda>c. to_digit radix c \<noteq> None) w" and "r = [] \<or> to_digit radix (hd r) = None"
  shows "read_digits radix (w @ r) = (map (\<lambda>c. the (to_digit radix c)) w, r)"
proof -
  have "read_digits radix r = ([], r)" using assms(2) by (cases r) auto
  then show ?thesis using assms(1) by (induction w) auto
qed

lemma foldl_digits_value:
  "list_all (\<lambda>c. to_digit radix c \<noteq> None) w \<Longrightarrow>
   digits_value radix acc w = Some (foldl (\<lambda>n d. n * radix + d) acc (map (\<lambda>c. the (to_digit radix c)) w))"
  by (induction w arbitrary: acc) auto

lemma show_nat_no_zero: "0 < n \<Longrightarrow> hd (show_nat n) \<noteq> CHR ''0''"
proof (induction n rule: show_nat.induct)
  case (1 n)
  show ?case
  proof (cases "n < 10")
    case True
    then show ?thesis using 1(2) byte_val_digit_char[of n] by (auto simp: show_nat.simps[of n] byte_val_eq_iff)
  next
    case False
    then show ?thesis using 1(1) by (simp add: show_nat.simps[of n])
  qed
qed

lemma show_nat_length: "n < 10 ^ k \<Longrightarrow> 0 < k \<Longrightarrow> length (show_nat n) \<le> k"
proof (induction n arbitrary: k rule: show_nat.induct)
  case (1 n)
  show ?case
  proof (cases "n < 10")
    case True
    then show ?thesis using 1(3) by (simp add: show_nat.simps[of n])
  next
    case False
    then obtain j where j: "k = Suc j" "0 < j" using 1(2,3) by (cases k; cases "k - 1") auto
    have "n div 10 < 10 ^ j" using 1(2) j by (simp add: less_mult_imp_div_less mult.commute)
    then show ?thesis using False 1(1)[OF False _ j(2)] j by (simp add: show_nat.simps[of n])
  qed
qed

lemma read_number_show:
  assumes "n < 2 ^ bits" and "case limit of None \<Rightarrow> True | Some k \<Rightarrow> 0 < k \<and> n < 10 ^ k"
    and "r = [] \<or> \<not> is_ascii_digit (hd r)"
  shows "read_number 10 limit zero bits (show_nat n @ r) = Some (n, r)"
proof -
  have digits: "list_all (\<lambda>c. to_digit 10 c \<noteq> None) (show_nat n)"
    using show_nat_digits[of _ n] by (force simp: list_all_iff to_digit_def byte_class_defs)
  have "r = [] \<or> to_digit 10 (hd r) = None"
    using assms(3) by (auto simp: to_digit_def byte_class_defs)
  note rd = read_digits_append[OF digits this]
  let ?ds = "map (\<lambda>c. the (to_digit 10 c)) (show_nat n)"
  have num: "digits_number 10 ?ds = n"
    using foldl_digits_value[OF digits, of 0] digits_value_show_nat[of n] by (simp add: digits_number_def)
  have len: "case limit of None \<Rightarrow> True | Some k \<Rightarrow> length (show_nat n) \<le> k"
    using assms(2) show_nat_length[of n] by (auto split: option.split)
  have zero: "\<not> (hd ?ds = 0 \<and> 1 < length (show_nat n))"
  proof
    assume h: "hd ?ds = 0 \<and> 1 < length (show_nat n)"
    then have "0 < n" by (cases n) (auto simp: show_nat.simps[of 0])
    then have "hd (show_nat n) \<noteq> CHR ''0''" by (rule show_nat_no_zero)
    moreover have "is_ascii_digit (hd (show_nat n))" using show_nat_digits[of "hd (show_nat n)" n] by simp
    ultimately show False using h by (auto simp: hd_map to_digit_def byte_class_defs byte_val_eq_iff split: if_splits)
  qed
  show ?thesis using rd num len zero assms(1) by (auto simp: read_number_def split: option.split)
qed

lemma read_port_show: "read_port ('':'' @ show_nat (unat (p :: 16 word))) = Some (p, [])"
  using read_number_show[of "unat p" 16 None "[]" True] unsigned_less[of p, where ?'a = nat]
  by (simp add: read_port_def read_given_def)

lemma addr_ok_v4: "length ip = 4 \<Longrightarrow> addr_ok (SocketV4 ip port)"
proof -
  assume "length ip = 4"
  then obtain a b c d where ip: "ip = [a, b, c, d]" by (auto simp: length_Suc_conv numeral_eq_Suc)
  have octet: "read_number 10 (Some 3) False 8 (show_nat (unat (w :: 8 word)) @ x # r) = Some (unat w, x # r)"
    if "\<not> is_ascii_digit x" for w x r
    using read_number_show[of "unat w" 8 "Some 3" "x # r"] unsigned_less[of w, where ?'a = nat] that by simp
  have "\<not> is_ascii_digit CHR ''.''" "\<not> is_ascii_digit CHR '':''" by (simp_all add: byte_class_defs)
  note octets = octet[OF this(1)] octet[OF this(2)]
  have four: "(4::nat) = Suc (Suc (Suc (Suc 0)))" by simp
  have "read_ipv4 (show_ipv4 ip @ '':'' @ r) = Some (ip, '':'' @ r)" for r
    by (simp add: ip read_ipv4_def show_ipv4_def four after_separator_def read_given_def octets)
  then show ?thesis
    using read_port_show[of port] by (simp add: addr_ok_def parse_socket_addr_def read_socket_v4_def)
qed

end
