(* ===== verification/Dns_Message.thy ===== *)
theory Dns_Message
  imports Rust_Net Rust_Utf8
begin

text \<open>
  \<open>crates/fractald-resolver/src/lib.rs\<close>: DNS queries and answers. A packet is a byte string. Offsets
  are natural numbers: packets are far shorter than \<open>usize::MAX\<close>, so the \<open>checked_add\<close>s on offsets
  never fail and their errors have no constructor.
\<close>

datatype dns_error =
    DnsNameEmpty | DnsBadLabel string | DnsNameTooLong | DnsUnknownType string
  | DnsResponseTruncated | DnsResponseCode nat | DnsQuestionTruncated | DnsHeaderTruncated | DnsDataTruncated
  | DnsRecordTruncated | DnsCyclicName | DnsNameTruncated | DnsPointerTruncated | DnsLabelLength | DnsLabelTruncated

section \<open>Numbers in packets\<close>

text \<open>\<open>to_be_bytes\<close> and \<open>from_be_bytes\<close> of 16 and 32 bits.\<close>

definition bytes16 :: "16 word \<Rightarrow> string" where
  "bytes16 w = [char_of (unat w div 256), char_of (unat w mod 256)]"

definition be16 :: "string \<Rightarrow> nat \<Rightarrow> nat" where
  "be16 p i = byte_val (p ! i) * 256 + byte_val (p ! (i + 1))"

definition be32 :: "string \<Rightarrow> nat \<Rightarrow> nat" where
  "be32 p i = be16 p i * 65536 + be16 p (i + 2)"

definition byte_at :: "string \<Rightarrow> nat \<Rightarrow> nat option" where
  "byte_at p i = (if i < length p then Some (byte_val (p ! i)) else None)"

definition slice :: "string \<Rightarrow> nat \<Rightarrow> nat \<Rightarrow> string option" where
  "slice p i n = (if i + n \<le> length p then Some (take n (drop i p)) else None)"

section \<open>Queries\<close>

definition trim_end_char :: "char \<Rightarrow> string \<Rightarrow> string" where
  "trim_end_char c s = rev (dropWhile (\<lambda>d. d = c) (rev s))"

definition query_label :: "string \<Rightarrow> string \<Rightarrow> string \<times> nat \<Rightarrow> dns_error + (string \<times> nat)" where
  "query_label name lab = (\<lambda>(packet, encoded).
     if lab = [] \<or> 63 < length lab \<or> \<not> is_ascii lab then Err (DnsBadLabel name)
     else Ok (packet @ char_of (length lab) # lab, encoded + length lab + 1))"

text \<open>The counter of query ids moves on when the name is not empty, whether or not its labels are valid.\<close>

definition build_query :: "16 word \<Rightarrow> string \<Rightarrow> 16 word \<Rightarrow> (dns_error + string) \<times> 16 word" where
  "build_query query_id raw record_type =
     (let name = trim_end_char CHR ''.'' raw
      in if name = [] then (Err DnsNameEmpty, query_id)
         else
           (bind_res (fold_try (query_label name) (split_char CHR ''.'' name)
                (bytes16 query_id @ bytes16 0x0100 @ bytes16 1 @ replicate 6 CHR 0x00, 0))
              (\<lambda>(packet, encoded).
                if 255 < encoded then Err DnsNameTooLong
                else Ok (packet @ CHR 0x00 # bytes16 record_type @ bytes16 1)),
            query_id + 1))"

section \<open>Names\<close>

text \<open>
  The loop of \<open>read_name\<close>. A compression pointer continues at another offset, one level deeper, by the
  call of \<open>read_name\<close> whose two guards are written out here; \<open>read_name_pointer\<close> folds them back.
\<close>

function read_labels :: "string \<Rightarrow> nat \<Rightarrow> nat \<Rightarrow> string list \<Rightarrow> dns_error + (string \<times> nat)" where
  "read_labels packet depth offset labels =
     (case byte_at packet offset of
        None \<Rightarrow> Err DnsNameTruncated
      | Some len \<Rightarrow>
          if and len 0xC0 = 0xC0 then
            (case byte_at packet (offset + 1) of
               None \<Rightarrow> Err DnsPointerTruncated
             | Some second \<Rightarrow>
                 (let pointer = push_bit 8 (and len 0x3F) + second
                  in bind_res
                       (if 16 < depth + 1 \<or> length packet \<le> pointer then Err DnsCyclicName
                        else read_labels packet (depth + 1) pointer [])
                       (\<lambda>(suffix, _). Ok (join ''.'' (if suffix \<noteq> [] then labels @ [suffix] else labels), offset + 2))))
          else if and len 0xC0 \<noteq> 0 \<or> 63 < len then Err DnsLabelLength
          else if len = 0 then Ok (join ''.'' labels, offset + 1)
          else
            (case slice packet (offset + 1) len of
               None \<Rightarrow> Err DnsLabelTruncated
             | Some lab \<Rightarrow> read_labels packet depth (offset + 1 + len) (labels @ [utf8_lossy lab])))"
  by pat_completeness auto
termination
  by (relation "measures [\<lambda>(packet, depth, offset, labels). 17 - depth, \<lambda>(packet, depth, offset, labels). length packet - offset]")
    (auto simp: byte_at_def slice_def split: if_splits)

declare read_labels.simps [simp del]

definition read_name :: "string \<Rightarrow> nat \<Rightarrow> nat \<Rightarrow> dns_error + (string \<times> nat)" where
  "read_name packet first depth =
     (if 16 < depth \<or> length packet \<le> first then Err DnsCyclicName else read_labels packet depth first [])"

section \<open>Answers\<close>

record dns_answer =
  an_name :: string
  an_type :: nat
  an_class :: nat
  an_ttl :: nat
  an_data :: string

fun skip_questions :: "nat \<Rightarrow> string \<Rightarrow> nat \<Rightarrow> dns_error + nat" where
  "skip_questions 0 packet offset = Ok offset"
| "skip_questions (Suc n) packet offset =
     bind_res (read_name packet offset 0) (\<lambda>(_, end_offset).
       if length packet < end_offset + 4 then Err DnsQuestionTruncated
       else skip_questions n packet (end_offset + 4))"

definition octets_of :: "string \<Rightarrow> 8 word list" where
  "octets_of s = map (\<lambda>c. of_nat (byte_val c)) s"

fun segments_of :: "string \<Rightarrow> 16 word list" where
  "segments_of (a # b # s) = of_nat (byte_val a * 256 + byte_val b) # segments_of s"
| "segments_of _ = []"

definition format_rdata :: "string \<Rightarrow> nat \<Rightarrow> nat \<Rightarrow> nat \<Rightarrow> dns_error + string" where
  "format_rdata packet first len record_type =
     (case slice packet first len of
        None \<Rightarrow> Err DnsRecordTruncated
      | Some data \<Rightarrow>
          if record_type = 1 \<and> len = 4 then Ok (show_ipv4 (octets_of data))
          else if record_type = 28 \<and> len = 16 then Ok (show_ipv6 (segments_of data))
          else if record_type \<in> {2, 5, 12} then map_res fst (read_name packet first 0)
          else if record_type = 16 then Ok (utf8_lossy data)
          else Ok (concat (map hex_byte data)))"

fun read_answers :: "nat \<Rightarrow> string \<Rightarrow> nat \<Rightarrow> dns_error + dns_answer list" where
  "read_answers 0 packet offset = Ok []"
| "read_answers (Suc n) packet offset =
     bind_res (read_name packet offset 0) (\<lambda>(name, at).
       if length packet < at + 10 then Err DnsHeaderTruncated
       else
         (let len = be16 packet (at + 8)
          in if length packet < at + 10 + len then Err DnsDataTruncated
             else
               bind_res (format_rdata packet (at + 10) len (be16 packet at)) (\<lambda>data.
               bind_res (read_answers n packet (at + 10 + len)) (\<lambda>answers.
                 Ok (\<lparr>an_name = name, an_type = be16 packet at, an_class = be16 packet (at + 2),
                      an_ttl = be32 packet (at + 4), an_data = data\<rparr> # answers)))))"

definition parse_answers :: "string \<Rightarrow> dns_error + dns_answer list" where
  "parse_answers packet =
     (if length packet < 12 then Err DnsResponseTruncated
      else
        (let code = and (byte_val (packet ! 3)) 0x0F
         in if code \<noteq> 0 then Err (DnsResponseCode code)
            else bind_res (skip_questions (be16 packet 4) packet 12) (read_answers (be16 packet 6) packet)))"

definition record_type_table :: "(string \<times> nat) list" where
  "record_type_table = [(''A'', 1), (''AAAA'', 28), (''CNAME'', 5), (''PTR'', 12), (''TXT'', 16), (''NS'', 2), (''ANY'', 255)]"

definition parse_record_type :: "string \<Rightarrow> dns_error + nat" where
  "parse_record_type raw =
     (let name = to_ascii_uppercase raw
      in case map_of record_type_table name of
           Some n \<Rightarrow> Ok n
         | None \<Rightarrow> ok_or (parse_unsigned 10 16 name) (DnsUnknownType name))"


section \<open>Reading back what was written\<close>

text \<open>The wire format of a name without compression, RFC 1035, 3.1.\<close>

definition label_ok :: "string \<Rightarrow> bool" where
  "label_ok lab \<longleftrightarrow> lab \<noteq> [] \<and> length lab \<le> 63 \<and> valid_utf8 lab"

definition encode_label :: "string \<Rightarrow> string" where
  "encode_label lab = char_of (length lab) # lab"

definition encode_name :: "string list \<Rightarrow> string" where
  "encode_name labels = concat (map encode_label labels) @ [CHR 0x00]"

lemma high_bits: "and n 0xC0 = 64 * (n div 64 mod 4)" for n :: nat
proof -
  have "and n (push_bit 6 (mask 2)) = push_bit 6 (and (drop_bit 6 n) (mask 2))"
    by (rule bit_eqI) (auto simp: bit_simps)
  moreover have "and k 3 = k mod 4" for k :: nat
    using take_bit_eq_mask[of 2 k] by (simp add: take_bit_eq_mod mask_eq_exp_minus_1)
  ultimately show ?thesis by (simp add: drop_bit_eq_div push_bit_eq_mult mask_eq_exp_minus_1)
qed

lemma label_bits: "n < 64 \<Longrightarrow> and n 0xC0 = (0 :: nat)"
  by (simp add: high_bits)

lemma pointer_bits:
  assumes "192 \<le> n" and "n < 256"
  shows "and n 0xC0 = (0xC0 :: nat) \<and> and n 0x3F = n - 192"
proof
  have "n div 64 = 3" using assms by simp
  then show "and n 0xC0 = 0xC0" by (simp add: high_bits)
  have "and n 0x3F = take_bit 6 n" by (simp add: take_bit_eq_mask mask_eq_exp_minus_1)
  also have "\<dots> = n - 192" using assms by (simp add: take_bit_eq_mod mod_if)
  finally show "and n 0x3F = n - 192" .
qed

lemma byte_at_append: "byte_at (pre @ c # post) (length pre) = Some (byte_val c)"
  by (simp add: byte_at_def)

lemma slice_append: "slice (pre @ s @ post) (length pre) (length s) = Some s"
  by (simp add: slice_def)

lemma be16_append: "be16 (pre @ bytes16 w @ post) (length pre) = unat w"
proof -
  have "unat w < 65536" using unsigned_less[of w, where ?'a = nat] by simp
  then show ?thesis by (simp add: be16_def bytes16_def nth_append)
qed

lemma be16_at: "packet = pre @ bytes16 w @ post \<Longrightarrow> i = length pre \<Longrightarrow> be16 packet i = unat w"
  by (simp only: be16_append)

lemma bytes16_length [simp]: "length (bytes16 w) = 2"
  by (simp add: bytes16_def)

lemma read_label:
  assumes "packet = pre @ encode_label lab @ post" and "label_ok lab"
  shows "read_labels packet depth (length pre) labels =
    read_labels packet depth (length (pre @ encode_label lab)) (labels @ [lab])"
proof -
  have n: "length lab < 64" "0 < length lab" using assms(2) by (auto simp: label_ok_def)
  have "byte_at packet (length pre) = Some (length lab)"
    using n by (simp add: assms(1) encode_label_def byte_at_append)
  moreover have "slice packet (length pre + 1) (length lab) = Some lab"
    using slice_append[of "pre @ [char_of (length lab)]" lab post] by (simp add: assms(1) encode_label_def)
  ultimately show ?thesis
    using assms(2) n by (subst read_labels.simps)
      (simp add: label_bits label_ok_def utf8_lossy_valid encode_label_def add.commute)
qed

lemma read_encoded:
  assumes "packet = pre @ encode_name ls @ post" and "list_all label_ok ls"
  shows "read_labels packet depth (length pre) labels = Ok (join ''.'' (labels @ ls), length (pre @ encode_name ls))"
  using assms
proof (induction ls arbitrary: pre labels)
  case Nil
  then show ?case by (subst read_labels.simps) (simp add: encode_name_def byte_at_append)
next
  case (Cons l ls)
  have p: "packet = pre @ encode_label l @ encode_name ls @ post"
    using Cons.prems(1) by (simp add: encode_name_def)
  then have q: "packet = (pre @ encode_label l) @ encode_name ls @ post" by simp
  show ?case
    using Cons.IH[OF q, of "labels @ [l]"] read_label[OF p, of depth labels] Cons.prems(2)
    by (simp add: encode_name_def)
qed

lemma encode_name_nonempty [simp]: "encode_name ls \<noteq> []"
  by (simp add: encode_name_def)

lemma read_encoded_name:
  assumes "packet = pre @ encode_name ls @ post" and "list_all label_ok ls" and "depth \<le> 16"
  shows "read_name packet (length pre) depth = Ok (join ''.'' ls, length (pre @ encode_name ls))"
  using read_encoded[OF assms(1,2), of depth "[]"] assms(3)
  by (simp add: read_name_def assms(1) encode_name_def)

lemma read_labels_pointer:
  assumes "packet = pre @ [c, d] @ post" and "192 \<le> byte_val c"
    and "read_name packet ((byte_val c - 192) * 256 + byte_val d) (depth + 1) = Ok (name, after)"
  shows "read_labels packet depth (length pre) labels =
    Ok (join ''.'' (if name \<noteq> [] then labels @ [name] else labels), length pre + 2)"
proof -
  have c: "byte_val c < 256" by (rule nat_of_char_less_256)
  have "byte_at packet (length pre) = Some (byte_val c)" "byte_at packet (length pre + 1) = Some (byte_val d)"
    using byte_at_append[of pre c "d # post"] byte_at_append[of "pre @ [c]" d post] by (simp_all add: assms(1))
  then show ?thesis
    using assms(3) pointer_bits[OF assms(2) c]
    by (subst read_labels.simps) (auto simp: read_name_def push_bit_eq_mult Let_def split: if_splits)
qed

text \<open>What \<open>build_query\<close> writes.\<close>

lemma query_labels:
  "fold_try (query_label name) labels (packet, n) = Ok (packet', n') \<longleftrightarrow>
     list_all (\<lambda>l. l \<noteq> [] \<and> length l \<le> 63 \<and> is_ascii l) labels \<and>
     packet' = packet @ concat (map encode_label labels) \<and> n' = n + length (concat (map encode_label labels))"
proof (induction labels arbitrary: packet n)
  case (Cons l labels)
  then show ?case by (auto simp: query_label_def encode_label_def bind_res_eq_Inr split: if_splits)
qed auto

lemma join_split_char: "join [c] (split_char c s) = s"
proof (induction s)
  case (Cons x s)
  obtain p ps where "split_char c s = p # ps" by (cases "split_char c s") auto
  then show ?case using Cons by (cases ps) auto
qed simp

lemma build_query_ok:
  "build_query query_id raw record_type = (Ok packet, next_id) \<longleftrightarrow>
     (let name = trim_end_char CHR ''.'' raw; labels = split_char CHR ''.'' name
      in name \<noteq> [] \<and> list_all (\<lambda>l. l \<noteq> [] \<and> length l \<le> 63 \<and> is_ascii l) labels \<and>
         length (encode_name labels) \<le> 256 \<and> next_id = query_id + 1 \<and>
         packet = (bytes16 query_id @ bytes16 0x0100 @ bytes16 1 @ replicate 6 CHR 0x00) @ encode_name labels @
           bytes16 record_type @ bytes16 1)"
  by (auto simp: build_query_def Let_def bind_res_eq_Inr query_labels encode_name_def split: if_splits)


text \<open>
  A query carries what was asked: its one question is the name without trailing dots, the type and
  the class IN, under the id the counter gave, and \<open>read_name\<close> reads the name back and ends at the type.
\<close>

theorem query_reads_back:
  assumes "build_query query_id raw record_type = (Ok packet, next_id)"
  defines "n \<equiv> length packet - 4"
  shows "read_name packet 12 0 = Ok (trim_end_char CHR ''.'' raw, n) \<and> skip_questions (be16 packet 4) packet 12 = Ok (length packet) \<and>
    be16 packet 0 = unat query_id \<and> be16 packet 4 = 1 \<and> be16 packet n = unat record_type \<and> be16 packet (n + 2) = 1 \<and>
    next_id = query_id + 1"
proof -
  define labels where "labels = split_char CHR ''.'' (trim_end_char CHR ''.'' raw)"
  let ?head = "bytes16 query_id @ bytes16 0x0100 @ bytes16 1 @ replicate 6 CHR 0x00"
  have packet: "packet = ?head @ encode_name labels @ bytes16 record_type @ bytes16 1" and id: "next_id = query_id + 1"
    and ok: "list_all label_ok labels"
    using assms(1) by (auto simp: build_query_ok Let_def labels_def label_ok_def list_all_iff ascii_valid_utf8)
  have n: "n = length (?head @ encode_name labels)" by (simp add: n_def packet)
  have name: "read_name packet 12 0 = Ok (trim_end_char CHR ''.'' raw, n)"
    using read_encoded_name[OF packet ok, of 0] n by (simp add: labels_def join_split_char)
  have "be16 packet 4 = 1" "be16 packet 0 = unat query_id"
    using be16_append[of "bytes16 query_id @ bytes16 0x0100" 1 "replicate 6 CHR 0x00 @ encode_name labels @ bytes16 record_type @ bytes16 1"]
      be16_append[of "[]" query_id] by (simp_all add: packet)
  moreover have "be16 packet n = unat record_type" "be16 packet (n + 2) = 1"
    using be16_append[of "?head @ encode_name labels" record_type "bytes16 1"]
      be16_append[of "?head @ encode_name labels @ bytes16 record_type" 1 "[]"] by (simp_all add: packet n add.commute)
  moreover have "n + 4 = length packet" by (simp add: n packet)
  ultimately show ?thesis using name id by (simp add: numeral_eq_Suc)
qed

theorem query_reads_back_witness:
  "\<exists>packet. build_query 7 ''a.b.'' 28 = (Ok packet, 8) \<and> read_name packet 12 0 = Ok (''a.b'', 17) \<and> be16 packet 0 = 7"
proof -
  have "build_query 7 ''a.b.'' 28 = (Ok (bytes16 7 @ bytes16 0x0100 @ bytes16 1 @ replicate 6 CHR 0x00 @
      [CHR 0x01, CHR ''a'', CHR 0x01, CHR ''b'', CHR 0x00] @ bytes16 28 @ bytes16 1), 8)"
    by (simp add: build_query_def trim_end_char_def query_label_def is_ascii_byte_def char_of_def bit_0)
  from query_reads_back[OF this] this show ?thesis by (simp add: trim_end_char_def)
qed

section \<open>Responses\<close>

text \<open>
  A response as RFC 1035, 4.1, lays it out: one question; answers whose owner is written in full or as
  a pointer to the question's name; data that is a name for NS, CNAME and PTR records.
\<close>

datatype rdata = Raw string | Target "string list"

record resource =
  rr_owner :: "string list option" \<comment> \<open>\<open>None\<close> for the name of the question\<close>
  rr_type :: "16 word"
  rr_class :: "16 word"
  rr_ttl :: "32 word"
  rr_data :: rdata

definition bytes32 :: "32 word \<Rightarrow> string" where
  "bytes32 w = bytes16 (of_nat (unat w div 65536)) @ bytes16 (of_nat (unat w mod 65536))"

fun rdata_bytes :: "rdata \<Rightarrow> string" where
  "rdata_bytes (Raw s) = s"
| "rdata_bytes (Target ls) = encode_name ls"

definition owner_bytes :: "string list option \<Rightarrow> string" where
  "owner_bytes owner = (case owner of None \<Rightarrow> [CHR 0xC0, CHR 0x0C] | Some ls \<Rightarrow> encode_name ls)"

definition resource_bytes :: "resource \<Rightarrow> string" where
  "resource_bytes rr =
     owner_bytes (rr_owner rr) @ bytes16 (rr_type rr) @ bytes16 (rr_class rr) @ bytes32 (rr_ttl rr) @
     bytes16 (of_nat (length (rdata_bytes (rr_data rr)))) @ rdata_bytes (rr_data rr)"

definition response_bytes :: "16 word \<Rightarrow> string list \<Rightarrow> 16 word \<Rightarrow> resource list \<Rightarrow> string" where
  "response_bytes query_id question record_type rrs =
     bytes16 query_id @ bytes16 0x8180 @ bytes16 1 @ bytes16 (of_nat (length rrs)) @ replicate 4 CHR 0x00 @
     encode_name question @ bytes16 record_type @ bytes16 1 @ concat (map resource_bytes rrs)"

definition resource_ok :: "resource \<Rightarrow> bool" where
  "resource_ok rr \<longleftrightarrow>
     pred_option (list_all label_ok) (rr_owner rr) \<and> length (rdata_bytes (rr_data rr)) < 65536 \<and>
     (case rr_data rr of
        Raw _ \<Rightarrow> rr_type rr \<notin> {2, 5, 12} | Target ls \<Rightarrow> rr_type rr \<in> {2, 5, 12} \<and> list_all label_ok ls)"

definition rdata_text :: "resource \<Rightarrow> string" where
  "rdata_text rr =
     (case rr_data rr of
        Target ls \<Rightarrow> join ''.'' ls
      | Raw s \<Rightarrow>
          if rr_type rr = 1 \<and> length s = 4 then show_ipv4 (octets_of s)
          else if rr_type rr = 28 \<and> length s = 16 then show_ipv6 (segments_of s)
          else if rr_type rr = 16 then utf8_lossy s else concat (map hex_byte s))"

definition resource_answer :: "string list \<Rightarrow> resource \<Rightarrow> dns_answer" where
  "resource_answer question rr =
     \<lparr>an_name = join ''.'' (case rr_owner rr of None \<Rightarrow> question | Some ls \<Rightarrow> ls), an_type = unat (rr_type rr),
      an_class = unat (rr_class rr), an_ttl = unat (rr_ttl rr), an_data = rdata_text rr\<rparr>"

lemma bytes32_length [simp]: "length (bytes32 w) = 4"
  by (simp add: bytes32_def)

lemma be32_append: "be32 (pre @ bytes32 w @ post) (length pre) = unat w"
proof -
  let ?hi = "of_nat (unat w div 65536) :: 16 word" and ?lo = "of_nat (unat w mod 65536) :: 16 word"
  have "unat w < 4294967296" using unsigned_less[of w, where ?'a = nat] by simp
  then have "unat ?hi = unat w div 65536" "unat ?lo = unat w mod 65536"
    by (simp_all add: unat_of_nat less_mult_imp_div_less)
  then show ?thesis
    using be16_append[of pre ?hi "bytes16 ?lo @ post"] be16_append[of "pre @ bytes16 ?hi" ?lo post]
    by (simp add: be32_def bytes32_def)
qed

lemma be32_at: "packet = pre @ bytes32 w @ post \<Longrightarrow> i = length pre \<Longrightarrow> be32 packet i = unat w"
  by (simp only: be32_append)

lemma read_owner:
  assumes "packet = pre @ owner_bytes owner @ post" and "pred_option (list_all label_ok) owner"
    and "read_name packet 12 1 = Ok (join ''.'' question, after)"
  shows "read_name packet (length pre) 0 =
    Ok (join ''.'' (case owner of None \<Rightarrow> question | Some ls \<Rightarrow> ls), length (pre @ owner_bytes owner))"
proof (cases owner)
  case None
  then have p: "packet = pre @ [CHR 0xC0, CHR 0x0C] @ post" using assms(1) by (simp add: owner_bytes_def)
  have "read_labels packet 0 (length pre) [] = Ok (join ''.'' question, length pre + 2)"
    using read_labels_pointer[OF p, of 0 "join ''.'' question" after "[]"] assms(3) by (auto split: if_splits)
  then show ?thesis using None by (simp add: read_name_def p owner_bytes_def)
next
  case (Some ls)
  then show ?thesis using read_encoded_name[of packet pre ls post 0] assms(1,2) by (simp add: owner_bytes_def)
qed

lemma read_rdata:
  assumes "packet = pre @ rdata_bytes (rr_data rr) @ post" and "resource_ok rr"
  shows "format_rdata packet (length pre) (length (rdata_bytes (rr_data rr))) (unat (rr_type rr)) = Ok (rdata_text rr)"
proof -
  have type: "unat (rr_type rr) = n \<longleftrightarrow> rr_type rr = of_nat n" if "n < 65536" for n
    using that by (auto simp: unat_of_nat word_unat_eq_iff)
  note types = type[of 1, simplified] type[of 2, simplified] type[of 5, simplified] type[of 12, simplified]
    type[of 16, simplified] type[of 28, simplified]
  show ?thesis
    using assms slice_append[of pre "rdata_bytes (rr_data rr)" post] read_encoded_name[of packet pre _ post 0]
    by (auto simp: format_rdata_def rdata_text_def resource_ok_def types split: rdata.splits)
qed

lemma read_resources:
  assumes "packet = pre @ concat (map resource_bytes rrs) @ post" and "list_all resource_ok rrs"
    and "read_name packet 12 1 = Ok (join ''.'' question, after)"
  shows "read_answers (length rrs) packet (length pre) = Ok (map (resource_answer question) rrs)"
  using assms(1,2)
proof (induction rrs arbitrary: pre)
  case (Cons rr rrs)
  let ?owner = "owner_bytes (rr_owner rr)" and ?data = "rdata_bytes (rr_data rr)"
  let ?n = "length ?data" and ?rest = "concat (map resource_bytes rrs) @ post"
  define at where "at = length (pre @ ?owner)"
  let ?types = "bytes16 (rr_type rr) @ bytes16 (rr_class rr)"
  have ok: "resource_ok rr" "list_all resource_ok rrs" using Cons.prems(2) by simp_all
  have n: "?n < 65536" using ok(1) by (simp add: resource_ok_def)
  have p: "packet = pre @ ?owner @ ?types @ bytes32 (rr_ttl rr) @ bytes16 (of_nat ?n) @ ?data @ ?rest"
    using Cons.prems(1) by (simp add: resource_bytes_def[of rr])
  have name: "read_name packet (length pre) 0 = Ok (an_name (resource_answer question rr), at)"
    using read_owner[OF p _ assms(3)] ok(1) by (simp add: resource_answer_def resource_ok_def at_def)
  have fields: "be16 packet at = unat (rr_type rr)" "be16 packet (at + 2) = unat (rr_class rr)"
    by (rule be16_at[where pre = "pre @ ?owner"], simp add: p, simp add: at_def)
      (rule be16_at[where pre = "pre @ ?owner @ bytes16 (rr_type rr)"], simp_all add: p at_def)
  have ttl: "be32 packet (at + 4) = unat (rr_ttl rr)"
    by (rule be32_at[where pre = "pre @ ?owner @ ?types"]) (simp_all add: p at_def)
  have "be16 packet (at + 8) = unat (of_nat ?n :: 16 word)"
    by (rule be16_at[where pre = "pre @ ?owner @ ?types @ bytes32 (rr_ttl rr)" and post = "?data @ ?rest"]) (simp_all add: p at_def)
  then have size: "be16 packet (at + 8) = ?n" using n by (simp add: unat_of_nat)
  have after_header: "at + 10 = length (pre @ ?owner @ ?types @ bytes32 (rr_ttl rr) @ bytes16 (of_nat ?n))" by (simp add: at_def)
  have data: "format_rdata packet (at + 10) ?n (unat (rr_type rr)) = Ok (rdata_text rr)"
    unfolding after_header by (rule read_rdata[OF _ ok(1), where post = ?rest]) (simp add: p)
  have q: "packet = (pre @ resource_bytes rr) @ ?rest" using Cons.prems(1) by simp
  have after: "at + 10 + ?n = length (pre @ resource_bytes rr)" by (simp add: resource_bytes_def at_def)
  have "at + 10 + ?n \<le> length packet" by (simp add: p at_def)
  moreover have "read_answers (length rrs) packet (at + 10 + ?n) = Ok (map (resource_answer question) rrs)"
    unfolding after by (rule Cons.IH[OF q ok(2)])
  ultimately show ?case
    using fields(2) by (simp add: name fields ttl size data) (simp add: resource_answer_def)
qed simp



end
