(* ===== verification/Resolver_Service.thy ===== *)
theory Resolver_Service
  imports Dns_Message Service_Spec
begin

text \<open>
  \<open>crates/fractald-resolved/src/main.rs\<close>: the resolver service. A packet is a byte string. The clock, the
  exchange with a name server and the pause of a delay fault are the fields of the record \<open>network\<close>,
  functions of a world they may change; the theorems hold for all of them. The receive loop \<open>serve\<close> and
  the control socket are I/O; what one request does is \<open>resolve\<close> and \<open>control_request\<close>.
\<close>

section \<open>Names and queries\<close>

function skip_name :: "string \<Rightarrow> nat \<Rightarrow> nat \<Rightarrow> nat option" where
  "skip_name packet offset jumps =
     (case byte_at packet offset of
        None \<Rightarrow> None
      | Some len \<Rightarrow>
          if and len 0xC0 = 0xC0 then
            (if byte_at packet (offset + 1) = None \<or> 16 < jumps then None else Some (offset + 2))
          else if and len 0xC0 \<noteq> 0 \<or> 63 < len then None
          else if len = 0 then Some (offset + 1)
          else if length packet < offset + 1 + len then None
          else skip_name packet (offset + 1 + len) (jumps + 1))"
  by pat_completeness auto
termination
  by (relation "measure (\<lambda>(packet, offset, jumps). length packet - offset)") (auto simp: byte_at_def split: if_splits)

declare skip_name.simps [simp del]

definition validate_query :: "string \<Rightarrow> nat option" where
  "validate_query query =
     (if length query < 12 \<or> be16 query 4 \<noteq> 1 then None
      else
        (case skip_name query 12 0 of
           None \<Rightarrow> None
         | Some question_end \<Rightarrow> if length query < question_end + 4 then None else Some (question_end + 4)))"

section \<open>Replies\<close>

definition with_id :: "string \<Rightarrow> string \<Rightarrow> string" where
  "with_id response query =
     (if 2 \<le> length response \<and> 2 \<le> length query then response[0 := query ! 0, 1 := query ! 1] else response)"

definition map_byte :: "nat \<Rightarrow> (nat \<Rightarrow> nat) \<Rightarrow> string \<Rightarrow> string" where
  "map_byte i f s = s[i := char_of (f (byte_val (s ! i)))]"

definition error_response :: "string \<Rightarrow> nat \<Rightarrow> string" where
  "error_response query code =
     (if length query < 12 then []
      else
        (let (valid_query, question_end) =
           (case validate_query query of Some e \<Rightarrow> (True, e) | None \<Rightarrow> (False, 12));
             response = take (min question_end (length query)) query;
             response = map_byte 2 (\<lambda>b. and (or b 0x80) 0xFB) response;
             response = map_byte 3 (\<lambda>b. or (and b 0xF0) (and code 0x0F)) response;
             response = response[4 := CHR 0x00, 5 := (if valid_query then CHR 0x01 else CHR 0x00)]
         in take 6 response @ replicate 6 CHR 0x00 @ drop 12 response))"

section \<open>Lifetimes\<close>

fun least_ttl :: "nat \<Rightarrow> string \<Rightarrow> nat \<Rightarrow> nat option \<Rightarrow> (nat option \<times> nat) option" where
  "least_ttl 0 response offset minimum = Some (minimum, offset)"
| "least_ttl (Suc n) response offset minimum =
     (case skip_name response offset 0 of
        None \<Rightarrow> None
      | Some at \<Rightarrow>
          if length response < at + 10 then None
          else
            (let ttl = be32 response (at + 4); data_length = be16 response (at + 8);
                 least = (case minimum of None \<Rightarrow> ttl | Some current \<Rightarrow> min current ttl)
             in if length response < at + 10 + data_length then None
                else least_ttl n response (at + 10 + data_length) (Some least)))"

definition response_ttl :: "string \<Rightarrow> nat \<Rightarrow> duration option" where
  "response_ttl response question_end =
     (if length response < 12 \<or> length response < question_end then None
      else
        Option.bind (least_ttl (be16 response 6) response question_end None) (\<lambda>(m1, o1).
        Option.bind (least_ttl (be16 response 8) response o1 m1) (\<lambda>(m2, o2).
        Option.bind (least_ttl (be16 response 10) response o2 m2) (\<lambda>(m3, _).
          map_option from_secs m3))))"

section \<open>The resolver\<close>

datatype resolver_fault = FaultNone | FaultDrop | FaultServfail | FaultDelay duration

record cache_entry =
  ce_key :: string
  ce_response :: string
  ce_expires :: duration \<comment> \<open>the \<open>Instant\<close>, in nanoseconds since boot\<close>

record resolver =
  rs_upstreams :: "socket_addr list"
  rs_timeout :: duration
  rs_max_entries :: nat
  rs_cache :: "cache_entry list"
  rs_fault :: resolver_fault

definition resolver_with_fault :: "socket_addr list \<Rightarrow> duration \<Rightarrow> nat \<Rightarrow> resolver_fault \<Rightarrow> resolver" where
  "resolver_with_fault upstreams timeout max_entries fault =
     \<lparr>rs_upstreams = upstreams, rs_timeout = timeout, rs_max_entries = max_entries, rs_cache = [], rs_fault = fault\<rparr>"

text \<open>
  \<open>net_exchange\<close> binds a socket, sends the query and receives: \<open>None\<close> when one of them fails, else the
  packet and the address it came from.
\<close>

record 'w network =
  net_now :: "'w \<Rightarrow> duration \<times> 'w"
  net_sleep :: "duration \<Rightarrow> 'w \<Rightarrow> 'w"
  net_exchange :: "socket_addr \<Rightarrow> duration \<Rightarrow> string \<Rightarrow> 'w \<Rightarrow> (string \<times> socket_addr) option \<times> 'w"

fun forward :: "'w network \<Rightarrow> duration \<Rightarrow> string \<Rightarrow> socket_addr list \<Rightarrow> 'w \<Rightarrow> string option \<times> 'w" where
  "forward net timeout query [] w = (None, w)"
| "forward net timeout query (upstream # upstreams) w =
     (case net_exchange net upstream timeout query w of
        (None, w') \<Rightarrow> forward net timeout query upstreams w'
      | (Some (response, source), w') \<Rightarrow>
          if source \<noteq> upstream \<or> slice response 0 2 \<noteq> slice query 0 2
          then forward net timeout query upstreams w'
          else (Some response, w'))"

definition cache_lifetime :: duration where
  "cache_lifetime = from_secs 300"

definition store_response :: "string \<Rightarrow> string \<Rightarrow> nat \<Rightarrow> duration \<Rightarrow> resolver \<Rightarrow> resolver" where
  "store_response key response question_end now r =
     (case response_ttl response question_end of
        None \<Rightarrow> r
      | Some ttl \<Rightarrow>
          if 0 < ttl then
            (let cache = rs_cache r @ [\<lparr>ce_key = key, ce_response = response, ce_expires = now + min ttl cache_lifetime\<rparr>]
             in r\<lparr>rs_cache := drop (length cache - rs_max_entries r) cache\<rparr>)
          else r)"

definition cached :: "resolver \<Rightarrow> string \<Rightarrow> cache_entry option" where
  "cached r key = List.find (\<lambda>entry. ce_key entry = key) (rs_cache r)"

definition drop_expired :: "duration \<Rightarrow> resolver \<Rightarrow> resolver" where
  "drop_expired now r = r\<lparr>rs_cache := filter (\<lambda>entry. now < ce_expires entry) (rs_cache r)\<rparr>"

definition lookup_or_forward :: "'w network \<Rightarrow> string \<Rightarrow> nat \<Rightarrow> resolver \<times> 'w \<Rightarrow> string \<times> resolver \<times> 'w" where
  "lookup_or_forward net query question_end = (\<lambda>(r, w).
     let key = drop 2 query; (now, w) = net_now net w; r = drop_expired now r
     in case cached r key of
          Some entry \<Rightarrow> (with_id (ce_response entry) query, r, w)
        | None \<Rightarrow>
            (case forward net (rs_timeout r) query (rs_upstreams r) w of
               (None, w) \<Rightarrow> (error_response query 2, r, w)
             | (Some response, w) \<Rightarrow> (response, store_response key response question_end now r, w)))"

definition resolve :: "'w network \<Rightarrow> string \<Rightarrow> resolver \<times> 'w \<Rightarrow> string \<times> resolver \<times> 'w" where
  "resolve net query = (\<lambda>(r, w).
     case validate_query query of
       None \<Rightarrow> (error_response query 1, r, w)
     | Some question_end \<Rightarrow>
         (case rs_fault r of
            FaultNone \<Rightarrow> lookup_or_forward net query question_end (r, w)
          | FaultDrop \<Rightarrow> ([], r, w)
          | FaultServfail \<Rightarrow> (error_response query 2, r, w)
          | FaultDelay delay \<Rightarrow> lookup_or_forward net query question_end (r, net_sleep net delay w)))"

section \<open>Configuration\<close>

definition parse_fault :: "string \<Rightarrow> string + resolver_fault" where
  "parse_fault raw =
     (let v = trim raw
      in if v = [] \<or> v = ''none'' then Ok FaultNone
         else if v = ''drop'' then Ok FaultDrop
         else if v = ''servfail'' then Ok FaultServfail
         else (case strip_prefix ''delay:'' v of
                 None \<Rightarrow> Err v
               | Some ms \<Rightarrow> (case parse_u64 ms of None \<Rightarrow> Err ms | Some n \<Rightarrow> Ok (FaultDelay (from_millis (unat n))))))"

definition upstream_text :: "string \<Rightarrow> string" where
  "upstream_text v =
     (if parse_socket_addr v \<noteq> None then v
      else if CHR '':'' \<in> set v \<and> \<not> starts_with v ''['' then ''['' @ v @ '']:53''
      else v @ '':53'')"

definition parse_upstreams :: "string \<Rightarrow> string + socket_addr list" where
  "parse_upstreams raw =
     map_try (\<lambda>v. ok_or (parse_socket_addr (upstream_text v)) v)
       (filter (\<lambda>v. v \<noteq> []) (map trim (split_char CHR '','' raw)))"

definition resolv_conf_line :: "string \<Rightarrow> socket_addr list \<Rightarrow> string + socket_addr list" where
  "resolv_conf_line l servers =
     (case split_whitespace l of
        word # address # _ \<Rightarrow>
          if word = ''nameserver'' then map_res (\<lambda>a. servers @ a) (parse_upstreams address) else Ok servers
      | _ \<Rightarrow> Ok servers)"

definition read_resolv_conf :: "string \<Rightarrow> string + socket_addr list" where
  "read_resolv_conf source = fold_try resolv_conf_line (lines source) []"

section \<open>Queries and names\<close>

lemma skip_encoded:
  assumes "packet = pre @ encode_name ls @ post" and "list_all label_ok ls"
  shows "skip_name packet (length pre) jumps = Some (length (pre @ encode_name ls))"
  using assms
proof (induction ls arbitrary: pre jumps)
  case Nil
  then show ?case by (subst skip_name.simps) (simp add: encode_name_def byte_at_append)
next
  case (Cons l ls)
  have p: "packet = (pre @ encode_label l) @ encode_name ls @ post"
    using Cons.prems(1) by (simp add: encode_name_def)
  have l: "length l < 64" "0 < length l" using Cons.prems(2) by (auto simp: label_ok_def)
  have "byte_at packet (length pre) = Some (length l)"
    using l by (simp add: p encode_label_def byte_at_append)
  then have "skip_name packet (length pre) jumps = skip_name packet (length (pre @ encode_label l)) (jumps + 1)"
    using l by (subst skip_name.simps) (simp add: label_bits p encode_label_def add.commute)
  then show ?case using Cons.IH[OF p] Cons.prems(2) by (simp add: encode_name_def)
qed

lemma skip_owner:
  assumes "packet = pre @ owner_bytes owner @ post" and "pred_option (list_all label_ok) owner"
  shows "skip_name packet (length pre) 0 = Some (length (pre @ owner_bytes owner))"
proof (cases owner)
  case None
  then have "byte_at packet (length pre) = Some 192" "byte_at packet (length pre + 1) = Some 12"
    using byte_at_append[of pre "CHR 0xC0" "CHR 0x0C # post"] byte_at_append[of "pre @ [CHR 0xC0]" "CHR 0x0C" post] assms(1)
    by (simp_all add: owner_bytes_def)
  then show ?thesis using None by (subst skip_name.simps) (simp add: owner_bytes_def)
next
  case (Some ls)
  then show ?thesis using skip_encoded assms by (simp add: owner_bytes_def)
qed

lemma skip_name_bounds: "skip_name packet offset jumps = Some e \<Longrightarrow> offset < e \<and> e \<le> length packet"
proof (induction packet offset jumps rule: skip_name.induct)
  case (1 packet offset jumps)
  from 1(2) obtain len where len: "byte_at packet offset = Some len"
    by (subst (asm) skip_name.simps) (auto split: option.splits)
  have step: "skip_name packet offset jumps =
      (if and len 0xC0 = 0xC0 then (if byte_at packet (offset + 1) = None \<or> 16 < jumps then None else Some (offset + 2))
       else if and len 0xC0 \<noteq> 0 \<or> 63 < len then None
       else if len = 0 then Some (offset + 1)
       else if length packet < offset + 1 + len then None
       else skip_name packet (offset + 1 + len) (jumps + 1))"
    by (subst skip_name.simps) (simp add: len)
  show ?case using 1(1)[OF len] 1(2) len unfolding step by (fastforce simp: byte_at_def split: if_splits)
qed

lemma validate_query_bounds:
  assumes "validate_query query = Some e"
  shows "e \<le> length query" "16 < e" "12 \<le> length query"
  using assms skip_name_bounds[of query 12 0] by (auto simp: validate_query_def split: if_splits option.splits)

lemma built_query_valid:
  assumes "build_query query_id raw record_type = (Ok packet, next_id)"
  shows "validate_query packet = Some (length packet)"
proof -
  define labels where "labels = split_char CHR ''.'' (trim_end_char CHR ''.'' raw)"
  let ?head = "bytes16 query_id @ bytes16 0x0100 @ bytes16 1 @ replicate 6 CHR 0x00"
  have packet: "packet = ?head @ encode_name labels @ bytes16 record_type @ bytes16 1" and ok: "list_all label_ok labels"
    using assms(1) by (auto simp: build_query_ok Let_def labels_def label_ok_def list_all_iff ascii_valid_utf8)
  have "skip_name packet 12 0 = Some (length (?head @ encode_name labels))"
    using skip_encoded[OF packet ok] by simp
  moreover have "be16 packet 4 = unat (1 :: 16 word)"
    by (rule be16_at[where pre = "bytes16 query_id @ bytes16 0x0100"]) (simp_all add: packet)
  ultimately show ?thesis by (simp add: validate_query_def packet)
qed

text \<open>
  Whatever query the library builds the service accepts, and its question is all that follows the
  header.
\<close>

theorem built_query_accepted:
  assumes "build_query query_id raw record_type = (Ok packet, next_id)"
  shows "validate_query packet = Some (length packet)"
  by (rule built_query_valid[OF assms])

theorem built_query_accepted_witness:
  "\<exists>packet. build_query 7 ''a.b'' 1 = (Ok packet, 8) \<and> validate_query packet = Some 21"
proof -
  have "build_query 7 ''a.b'' 1 = (Ok (bytes16 7 @ bytes16 0x0100 @ bytes16 1 @ replicate 6 CHR 0x00 @
      [CHR 0x01, CHR ''a'', CHR 0x01, CHR ''b'', CHR 0x00] @ bytes16 1 @ bytes16 1), 8)"
    by (simp add: build_query_def trim_end_char_def query_label_def is_ascii_byte_def char_of_def bit_0)
  from built_query_accepted[OF this] this show ?thesis by simp
qed

section \<open>Replies carry the id of the query\<close>

lemma take_two: "2 \<le> length s \<Longrightarrow> take 2 s = [s ! 0, s ! 1]"
  by (cases s; cases "tl s") auto

lemma with_id_take: "2 \<le> length response \<Longrightarrow> 2 \<le> length query \<Longrightarrow> take 2 (with_id response query) = take 2 query"
  by (cases response; cases "tl response") (auto simp: with_id_def take_two)

lemma slice_two: "slice s 0 2 = (if 2 \<le> length s then Some (take 2 s) else None)"
  by (simp add: slice_def)

lemma error_response_form:
  assumes "12 \<le> length query"
  shows "error_response query code =
    take 2 query @
    [char_of (and (or (byte_val (query ! 2)) 0x80) 0xFB), char_of (or (and (byte_val (query ! 3)) 0xF0) (and code 0x0F)),
     CHR 0x00, if validate_query query = None then CHR 0x00 else CHR 0x01] @
    replicate 6 CHR 0x00 @
    drop 12 (take (case validate_query query of Some e \<Rightarrow> e | None \<Rightarrow> 12) query)"
proof -
  define e where "e = (case validate_query query of Some e \<Rightarrow> e | None \<Rightarrow> 12)"
  have e: "e \<le> length query" "12 \<le> e"
    using assms validate_query_bounds[of query] by (force simp: e_def split: option.splits)+
  have parts: "error_response query code =
      (let response = map_byte 3 (\<lambda>b. or (and b 0xF0) (and code 0x0F)) (map_byte 2 (\<lambda>b. and (or b 0x80) 0xFB) (take e query));
           response = response[4 := CHR 0x00, 5 := (if validate_query query = None then CHR 0x00 else CHR 0x01)]
       in take 6 response @ replicate 6 CHR 0x00 @ drop 12 response)"
    using assms e by (auto simp: error_response_def Let_def e_def min_def split: option.splits)
  obtain h t where ht: "query = h @ t" "length h = 12"
    by (rule that[of "take 12 query" "drop 12 query"]) (use assms in simp_all)
  obtain q0 q1 q2 q3 q4 q5 q6 q7 q8 q9 q10 q11 where h: "h = [q0, q1, q2, q3, q4, q5, q6, q7, q8, q9, q10, q11]"
    using ht(2) by (auto simp: length_Suc_conv numeral_eq_Suc)
  obtain k where k: "e = 12 + k" using e(2) by (auto simp: le_iff_add)
  have take_e: "take e query = [q0, q1, q2, q3, q4, q5, q6, q7, q8, q9, q10, q11] @ take k t"
    using ht by (simp add: k h[symmetric])
  have "query ! 2 = q2" "query ! 3 = q3" "take 2 query = [q0, q1]" by (simp_all add: ht(1) h)
  then show ?thesis
    unfolding e_def[symmetric] parts take_e by (simp add: map_byte_def Let_def)
qed

lemma error_response_id: "12 \<le> length query \<Longrightarrow> take 2 (error_response query code) = take 2 query"
  by (simp add: error_response_form)

definition entry_ok :: "cache_entry \<Rightarrow> bool" where
  "entry_ok entry \<longleftrightarrow> 12 \<le> length (ce_response entry)"

text \<open>The invariant of the resolver: the cache is within its limit and has one entry per question.\<close>

definition resolver_inv :: "resolver \<Rightarrow> bool" where
  "resolver_inv r \<longleftrightarrow>
     length (rs_cache r) \<le> rs_max_entries r \<and> distinct (map ce_key (rs_cache r)) \<and> list_all entry_ok (rs_cache r)"

lemma forward_id: "forward net timeout query upstreams w = (Some response, w') \<Longrightarrow> slice response 0 2 = slice query 0 2"
  by (induction upstreams arbitrary: w) (auto split: prod.splits option.splits if_splits)

lemma response_ttl_length: "response_ttl response e = Some ttl \<Longrightarrow> 12 \<le> length response"
  by (auto simp: response_ttl_def split: if_splits)

lemma cached_Some: "cached r key = Some entry \<Longrightarrow> entry \<in> set (rs_cache r) \<and> ce_key entry = key"
  by (auto simp: cached_def find_Some_iff)

lemma cached_None: "cached r key = None \<longleftrightarrow> key \<notin> ce_key ` set (rs_cache r)"
  by (auto simp: cached_def find_None_iff)

lemma drop_expired_inv: "resolver_inv r \<Longrightarrow> resolver_inv (drop_expired now r)"
  using order_trans[OF length_filter_le[of "\<lambda>entry. now < ce_expires entry" "rs_cache r"]]
  by (simp add: resolver_inv_def drop_expired_def list_all_iff distinct_map_filter)

lemma store_response_inv:
  assumes "resolver_inv r" and "cached r key = None"
  shows "resolver_inv (store_response key response question_end now r)"
proof (cases "response_ttl response question_end")
  case None
  then show ?thesis using assms(1) by (simp add: store_response_def)
next
  case (Some ttl)
  let ?e = "\<lparr>ce_key = key, ce_response = response, ce_expires = now + min ttl cache_lifetime\<rparr>"
  define cache where "cache = rs_cache r @ [?e]"
  have "entry_ok ?e" using response_ttl_length[OF Some] by (simp add: entry_ok_def)
  then have all: "list_all entry_ok cache" "distinct (map ce_key cache)"
    using assms by (auto simp: resolver_inv_def cached_None cache_def)
  have "list_all entry_ok (drop n cache)" for n
    using all(1) unfolding list_all_iff by (meson in_set_dropD)
  moreover have "distinct (map ce_key (drop n cache))" for n
    unfolding drop_map[symmetric] by (rule distinct_drop[OF all(2)])
  ultimately have "resolver_inv (r\<lparr>rs_cache := drop (length cache - rs_max_entries r) cache\<rparr>)"
    by (simp add: resolver_inv_def)
  then show ?thesis using Some assms(1) unfolding cache_def by (simp add: store_response_def Let_def)
qed

lemma resolve_cases:
  assumes "resolve net query (r, w) = (reply, r', w')"
  obtains (error) code where "reply = error_response query code" "r' = r"
    | (dropped) "reply = []" "r' = r"
    | (looked_up) question_end w1 where "validate_query query = Some question_end"
        "lookup_or_forward net query question_end (r, w1) = (reply, r', w')"
  using assms by (auto simp: resolve_def split: option.splits resolver_fault.splits)

lemma lookup_cases:
  assumes "lookup_or_forward net query question_end (r, w) = (reply, r', w')"
  obtains (hit) now entry where "cached (drop_expired now r) (drop 2 query) = Some entry"
      "reply = with_id (ce_response entry) query" "r' = drop_expired now r"
    | (failed) now where "reply = error_response query 2" "r' = drop_expired now r"
    | (forwarded) now w1 w2 where "cached (drop_expired now r) (drop 2 query) = None"
      "forward net (rs_timeout r) query (rs_upstreams r) w1 = (Some reply, w2)"
      "r' = store_response (drop 2 query) reply question_end now (drop_expired now r)"
  using assms by (auto simp: lookup_or_forward_def Let_def drop_expired_def split: prod.splits option.splits)

lemma resolve_result:
  assumes "resolver_inv r" and "resolve net query (r, w) = (reply, r', w')"
  shows "resolver_inv r' \<and> rs_max_entries r' = rs_max_entries r \<and> (reply = [] \<or> take 2 reply = take 2 query)"
  using assms(2)
proof (cases rule: resolve_cases)
  case (error code)
  then show ?thesis using assms(1) error_response_id[of query code] by (auto simp: error_response_def)
next
  case dropped
  then show ?thesis using assms(1) by simp
next
  case (looked_up question_end w1)
  have q: "12 \<le> length query" using validate_query_bounds[OF looked_up(1)] by simp
  show ?thesis using looked_up(2)
  proof (cases rule: lookup_cases)
    case (hit now entry)
    have "entry_ok entry"
      using cached_Some[OF hit(1)] drop_expired_inv[OF assms(1), of now] by (auto simp: resolver_inv_def list_all_iff)
    then show ?thesis using hit q with_id_take drop_expired_inv[OF assms(1)] by (simp add: entry_ok_def drop_expired_def)
  next
    case (failed now)
    then show ?thesis using q error_response_id drop_expired_inv[OF assms(1)] by (simp add: drop_expired_def)
  next
    case (forwarded now w1 w2)
    have "take 2 reply = take 2 query" using forward_id[OF forwarded(2)] q by (auto simp: slice_two split: if_splits)
    then show ?thesis using store_response_inv[OF drop_expired_inv[OF assms(1)] forwarded(1)] forwarded(3)
      by (simp add: store_response_def drop_expired_def Let_def split: option.split)
  qed
qed

text \<open>
  Whatever the name servers answer, the cache stays within its limit and holds at most one
  response per question, and every reply that is sent carries the id of the query it answers, cached
  responses included.
\<close>

theorem replies_carry_the_id:
  assumes "resolver_inv r" and "resolve net query (r, w) = (reply, r', w')"
  shows "resolver_inv r' \<and> rs_max_entries r' = rs_max_entries r \<and> (reply = [] \<or> take 2 reply = take 2 query)"
  by (rule resolve_result[OF assms])

section \<open>What is cached, and for how long\<close>

text \<open>A message with one question and the three sections of records, RFC 1035, 4.1.\<close>

definition message_bytes ::
    "16 word \<Rightarrow> string list \<Rightarrow> 16 word \<Rightarrow> resource list \<Rightarrow> resource list \<Rightarrow> resource list \<Rightarrow> string" where
  "message_bytes message_id question record_type answers authority additional =
     bytes16 message_id @ bytes16 0x8180 @ bytes16 1 @ bytes16 (of_nat (length answers)) @
     bytes16 (of_nat (length authority)) @ bytes16 (of_nat (length additional)) @
     encode_name question @ bytes16 record_type @ bytes16 1 @
     concat (map resource_bytes (answers @ authority @ additional))"

definition smaller_ttl :: "resource \<Rightarrow> nat option \<Rightarrow> nat option" where
  "smaller_ttl rr minimum =
     Some (case minimum of None \<Rightarrow> unat (rr_ttl rr) | Some current \<Rightarrow> min current (unat (rr_ttl rr)))"

lemma least_ttl_resources:
  assumes "packet = pre @ concat (map resource_bytes rrs) @ post" and "list_all resource_ok rrs"
  shows "least_ttl (length rrs) packet (length pre) minimum =
    Some (fold smaller_ttl rrs minimum, length (pre @ concat (map resource_bytes rrs)))"
  using assms
proof (induction rrs arbitrary: pre minimum)
  case (Cons rr rrs)
  let ?owner = "owner_bytes (rr_owner rr)" and ?data = "rdata_bytes (rr_data rr)"
  let ?n = "length ?data" and ?rest = "concat (map resource_bytes rrs) @ post"
  define at where "at = length (pre @ ?owner)"
  let ?types = "bytes16 (rr_type rr) @ bytes16 (rr_class rr)"
  have ok: "resource_ok rr" "list_all resource_ok rrs" using Cons.prems(2) by simp_all
  have n: "?n < 65536" using ok(1) by (simp add: resource_ok_def)
  have p: "packet = pre @ ?owner @ ?types @ bytes32 (rr_ttl rr) @ bytes16 (of_nat ?n) @ ?data @ ?rest"
    using Cons.prems(1) by (simp add: resource_bytes_def[of rr])
  have name: "skip_name packet (length pre) 0 = Some at"
    using skip_owner[OF p] ok(1) by (simp add: resource_ok_def at_def)
  have ttl: "be32 packet (at + 4) = unat (rr_ttl rr)"
    by (rule be32_at[where pre = "pre @ ?owner @ ?types"]) (simp_all add: p at_def)
  have "be16 packet (at + 8) = unat (of_nat ?n :: 16 word)"
    by (rule be16_at[where pre = "pre @ ?owner @ ?types @ bytes32 (rr_ttl rr)" and post = "?data @ ?rest"])
      (simp_all add: p at_def)
  then have size: "be16 packet (at + 8) = ?n" using n by (simp add: unat_of_nat)
  have q: "packet = (pre @ resource_bytes rr) @ ?rest" using Cons.prems(1) by simp
  have after: "at + 10 + ?n = length (pre @ resource_bytes rr)" by (simp add: resource_bytes_def at_def)
  have "at + 10 + ?n \<le> length packet" by (simp add: p at_def)
  moreover have "least_ttl (length rrs) packet (at + 10 + ?n) m =
      Some (fold smaller_ttl rrs m, length (pre @ concat (map resource_bytes (rr # rrs))))" for m
    unfolding after using Cons.IH[OF q ok(2), of m] by simp
  ultimately show ?case by (simp add: name ttl size smaller_ttl_def[of rr] Let_def)
qed simp

lemma fold_smaller_ttl:
  "fold smaller_ttl rrs (Some m) = Some (Min (insert m ((\<lambda>rr. unat (rr_ttl rr)) ` set rrs)))"
proof (induction rrs arbitrary: m)
  case (Cons rr rrs)
  then show ?case by (cases "rrs = []") (simp_all add: smaller_ttl_def[of rr] min.assoc)
qed simp

lemma message_lifetime:
  assumes "list_all label_ok question" and "list_all resource_ok (answers @ authority @ additional)"
    and "length answers < 65536" "length authority < 65536" "length additional < 65536"
  defines "ttls \<equiv> (\<lambda>rr. unat (rr_ttl rr)) ` set (answers @ authority @ additional)"
  shows "response_ttl (message_bytes message_id question record_type answers authority additional)
      (12 + length (encode_name question) + 4) =
    (if ttls = {} then None else Some (from_secs (Min ttls)))"
proof -
  define packet where "packet = message_bytes message_id question record_type answers authority additional"
  let ?counts = "bytes16 message_id @ bytes16 0x8180 @ bytes16 1"
  let ?n = "\<lambda>rrs. bytes16 (of_nat (length (rrs :: resource list)))"
  define pre where "pre = ?counts @ ?n answers @ ?n authority @ ?n additional @ encode_name question @ bytes16 record_type @ bytes16 1"
  let ?rs = "\<lambda>rrs. concat (map resource_bytes rrs)"
  have p: "packet = pre @ ?rs answers @ (?rs authority @ ?rs additional)"
    "packet = (pre @ ?rs answers) @ ?rs authority @ ?rs additional"
    "packet = ((pre @ ?rs answers) @ ?rs authority) @ ?rs additional @ []"
    by (simp_all add: packet_def message_bytes_def pre_def)
  have counts: "be16 packet 6 = length answers" "be16 packet 8 = length authority" "be16 packet 10 = length additional"
  proof -
    have "be16 packet 6 = unat (of_nat (length answers) :: 16 word)"
      by (rule be16_at[where pre = ?counts]) (simp_all add: packet_def message_bytes_def)
    moreover have "be16 packet 8 = unat (of_nat (length authority) :: 16 word)"
      by (rule be16_at[where pre = "?counts @ ?n answers"]) (simp_all add: packet_def message_bytes_def)
    moreover have "be16 packet 10 = unat (of_nat (length additional) :: 16 word)"
      by (rule be16_at[where pre = "?counts @ ?n answers @ ?n authority"]) (simp_all add: packet_def message_bytes_def)
    ultimately show "be16 packet 6 = length answers" "be16 packet 8 = length authority" "be16 packet 10 = length additional"
      using assms(3-5) by (simp_all add: unat_of_nat)
  qed
  have ok: "list_all resource_ok answers" "list_all resource_ok authority" "list_all resource_ok additional"
    using assms(2) by simp_all
  have e: "12 + length (encode_name question) + 4 = length pre" by (simp add: pre_def)
  have "12 \<le> length packet" "length pre \<le> length packet" by (simp_all add: p(1) pre_def)
  then have "response_ttl packet (length pre) = map_option from_secs (fold smaller_ttl (answers @ authority @ additional) None)"
    unfolding response_ttl_def counts
    using least_ttl_resources[OF p(1) ok(1)] least_ttl_resources[OF p(2) ok(2)] least_ttl_resources[OF p(3) ok(3)]
    by simp
  also have "fold smaller_ttl rrs None = (if rrs = [] then None else Some (Min ((\<lambda>rr. unat (rr_ttl rr)) ` set rrs)))" for rrs
    by (cases rrs) (simp_all add: fold_smaller_ttl smaller_ttl_def)
  finally show ?thesis unfolding e packet_def[symmetric] by (simp add: ttls_def)
qed



lemma skip_name_same:
  "length q = length p \<Longrightarrow> (\<And>i. offset \<le> i \<Longrightarrow> byte_at q i = byte_at p i) \<Longrightarrow> skip_name q offset jumps = skip_name p offset jumps"
proof (induction p offset jumps rule: skip_name.induct)
  case (1 p offset jumps)
  have "skip_name q (offset + 1 + len) (jumps + 1) = skip_name p (offset + 1 + len) (jumps + 1)"
    if "byte_at p offset = Some len" "and len 0xC0 = 0" "len \<le> 63" "len \<noteq> 0" "offset + 1 + len \<le> length p" for len
    using "1.IH"[OF that(1)] "1.prems" that by simp
  then show ?case
    using "1.prems" by (subst (1 2) skip_name.simps) (auto split: option.split)
qed

lemma validate_query_same:
  assumes "drop 2 q = drop 2 p" and "2 \<le> length p" "2 \<le> length q"
  shows "validate_query q = validate_query p"
proof -
  obtain a b c d t where q: "q = a # b # t" and p: "p = c # d # t"
    using assms by (cases q; cases "tl q"; cases p; cases "tl p") auto
  have "skip_name q 12 0 = skip_name p 12 0"
    by (rule skip_name_same) (auto simp: q p byte_at_def nth_Cons' )
  moreover have "be16 q 4 = be16 p 4" by (simp add: q p be16_def)
  moreover have "length q = length p" by (simp add: q p)
  ultimately show ?thesis by (simp add: validate_query_def split: option.split)
qed

lemma find_append_new: "(\<And>y. y \<in> set xs \<Longrightarrow> \<not> P y) \<Longrightarrow> P x \<Longrightarrow> List.find P (xs @ [x]) = Some x"
  by (induction xs) auto

lemma cached_stored:
  assumes "resolver_inv r" "cached r key = None" "0 < rs_max_entries r"
    and "response_ttl response e = Some ttl" "0 < ttl" and "now' < now + min ttl cache_lifetime"
  shows "cached (drop_expired now' (store_response key response e now r)) key =
    Some \<lparr>ce_key = key, ce_response = response, ce_expires = now + min ttl cache_lifetime\<rparr>"
proof -
  let ?e = "\<lparr>ce_key = key, ce_response = response, ce_expires = now + min ttl cache_lifetime\<rparr>"
  let ?n = "length (rs_cache r) + 1 - rs_max_entries r"
  have "?n \<le> length (rs_cache r)" using assms(1,3) by (simp add: resolver_inv_def)
  then have cache: "rs_cache (drop_expired now' (store_response key response e now r)) =
      filter (\<lambda>entry. now' < ce_expires entry) (drop ?n (rs_cache r)) @ [?e]"
    using assms(4-6) by (simp add: store_response_def Let_def drop_expired_def)
  have "key \<notin> ce_key ` set (filter (\<lambda>entry. now' < ce_expires entry) (drop ?n (rs_cache r)))"
    using assms(2) by (auto simp: cached_None dest: in_set_dropD)
  then show ?thesis unfolding cached_def cache by (subst find_append_new) auto
qed

text \<open>
  The cache answers. When a query was forwarded and its response may live, every query that asks
  the same under any id before then, and at most 300 seconds later, gets the same response under its own
  id, and no name server is asked: only the clock has been read. The TTLs in it are the old ones.
\<close>

theorem answers_are_cached:
  assumes "resolver_inv r" "0 < rs_max_entries r" "rs_fault r = FaultNone" "validate_query first = Some e"
    and "net_now net w = (now, w1)" "cached (drop_expired now r) (drop 2 first) = None"
    and "forward net (rs_timeout r) first (rs_upstreams r) w1 = (Some response, w2)"
    and "response_ttl response e = Some ttl" "0 < ttl" "resolve net first (r, w) = (reply, r', w')"
    and "drop 2 query = drop 2 first" "2 \<le> length query"
    and "net_now net w3 = (later, w4)" "later < now + min ttl (from_secs 300)"
  shows "reply = response \<and> (\<exists>r''. resolve net query (r', w3) = (with_id response query, r'', w4))"
proof -
  let ?r = "drop_expired now r"
  have r': "reply = response" "r' = store_response (drop 2 first) response e now ?r"
    using assms(3-8,10) by (auto simp: resolve_def lookup_or_forward_def drop_expired_def)
  have inv: "resolver_inv ?r" "0 < rs_max_entries ?r" using drop_expired_inv[OF assms(1)] assms(2) by (simp_all add: drop_expired_def)
  have "12 \<le> length first" using validate_query_bounds[OF assms(4)] by simp
  then have "validate_query query = Some e" using validate_query_same[OF assms(11)] assms(4,12) by simp
  moreover have "rs_fault r' = FaultNone"
    using assms(3) by (simp add: r'(2) store_response_def drop_expired_def Let_def split: option.split)
  moreover have "cached (drop_expired later r') (drop 2 query) =
      Some \<lparr>ce_key = drop 2 first, ce_response = response, ce_expires = now + min ttl cache_lifetime\<rparr>"
    using cached_stored[OF inv(1) assms(6) inv(2) assms(8,9)] assms(14) by (simp add: r'(2) assms(11) cache_lifetime_def)
  ultimately show ?thesis using assms(13) by (simp add: r'(1) resolve_def lookup_or_forward_def)
qed

section \<open>A resolver at work\<close>

definition demo_query :: "16 word \<Rightarrow> string" where
  "demo_query i = (bytes16 i @ bytes16 0x0100 @ bytes16 1 @ replicate 6 CHR 0x00) @ encode_name [''a'', ''b''] @ bytes16 1 @ bytes16 1"

definition demo_reply :: string where
  "demo_reply = message_bytes 7 [''a'', ''b''] 1
     [\<lparr>rr_owner = None, rr_type = 1, rr_class = 1, rr_ttl = 30, rr_data = Raw ''abcd''\<rparr>] [] []"

definition demo_network :: "nat network" where
  "demo_network = \<lparr>net_now = (\<lambda>w. (w, w + 1)), net_sleep = (\<lambda>_ w. w),
     net_exchange = (\<lambda>addr _ _ w. (Some (demo_reply, addr), w + 1))\<rparr>"

definition demo_resolver :: resolver where
  "demo_resolver = resolver_with_fault [SocketV4 [9, 9, 9, 9] 53] 1500 512 FaultNone"

lemma demo_query_valid: "validate_query (demo_query i) = Some 21"
proof -
  have "build_query i ''a.b'' 1 = (Ok (demo_query i), i + 1)"
    by (simp add: build_query_def trim_end_char_def query_label_def is_ascii_byte_def demo_query_def encode_name_def
        encode_label_def)
  from built_query_valid[OF this] show ?thesis by (simp add: demo_query_def encode_name_def encode_label_def)
qed

lemma demo_reply_ttl: "response_ttl demo_reply 21 = Some (from_secs 30)"
  using message_lifetime[of "[''a'', ''b'']" "[\<lparr>rr_owner = None, rr_type = 1, rr_class = 1, rr_ttl = 30, rr_data = Raw ''abcd''\<rparr>]"
      "[]" "[]" 7 1]
  by (simp add: label_ok_def resource_ok_def encode_name_def encode_label_def demo_reply_def)

lemma demo_forward: "forward demo_network timeout (demo_query 7) (rs_upstreams demo_resolver) w = (Some demo_reply, w + 1)"
  by (simp add: demo_resolver_def resolver_with_fault_def demo_network_def slice_two demo_query_def demo_reply_def
      message_bytes_def bytes16_def)

lemma demo_resolver_inv: "resolver_inv demo_resolver" "cached (drop_expired now demo_resolver) key = None"
  by (simp_all add: resolver_inv_def demo_resolver_def resolver_with_fault_def cached_def drop_expired_def)

lemma demo_resolve:
  "resolve demo_network (demo_query 7) (demo_resolver, 1) =
    (demo_reply, store_response (drop 2 (demo_query 7)) demo_reply 21 1 (drop_expired 1 demo_resolver), 3)"
proof -
  have "rs_fault demo_resolver = FaultNone" "rs_upstreams (drop_expired 1 demo_resolver) = rs_upstreams demo_resolver"
    by (simp_all add: demo_resolver_def resolver_with_fault_def drop_expired_def)
  moreover have "net_now demo_network 1 = (1, 2)" by (simp add: demo_network_def)
  ultimately show ?thesis
    using demo_query_valid[of 7] demo_resolver_inv(2)[of 1] demo_forward[of _ 2]
    by (simp add: resolve_def lookup_or_forward_def)
qed

theorem replies_carry_the_id_witness:
  "\<exists>r. resolve demo_network (demo_query 7) (demo_resolver, 1) = (demo_reply, r, 3) \<and> length (rs_cache r) \<le> 512 \<and>
     take 2 demo_reply = take 2 (demo_query 7)"
proof -
  have "rs_max_entries demo_resolver = 512" by (simp add: demo_resolver_def resolver_with_fault_def)
  moreover have "demo_reply \<noteq> []" by (simp add: demo_reply_def message_bytes_def bytes16_def)
  ultimately show ?thesis
    using replies_carry_the_id[OF demo_resolver_inv(1) demo_resolve] demo_resolve by (auto simp: resolver_inv_def)
qed

theorem answers_are_cached_witness:
  "\<exists>r r'. resolve demo_network (demo_query 7) (demo_resolver, 1) = (demo_reply, r, 3) \<and>
     resolve demo_network (demo_query 9) (r, 5) = (with_id demo_reply (demo_query 9), r', 6)"
proof -
  have fields: "0 < rs_max_entries demo_resolver" "rs_fault demo_resolver = FaultNone"
    by (simp_all add: demo_resolver_def resolver_with_fault_def)
  have clock: "net_now demo_network n = (n, n + 1)" for n by (simp add: demo_network_def)
  have q: "drop 2 (demo_query 9) = drop 2 (demo_query 7)" "2 \<le> length (demo_query 9)" and ttl: "0 < from_secs 30"
    by (simp_all add: demo_query_def bytes16_def from_secs_def)
  have "(5 :: nat) < 1 + min (from_secs 30) (from_secs 300)" by (simp add: from_secs_def)
  from answers_are_cached[OF demo_resolver_inv(1) fields demo_query_valid clock demo_resolver_inv(2) demo_forward
      demo_reply_ttl ttl demo_resolve q clock this]
  show ?thesis using demo_resolve by auto
qed

end
