(* ===== verification/Resolver_Discovery.thy ===== *)
theory Resolver_Discovery
  imports Resolver_Service
begin

text \<open>
  The discovery record by which clients find the resolver (\<open>crates/fractald-resolver/src/lib.rs\<close>) and the
  requests of its control socket (\<open>control_loop\<close> in \<open>crates/fractald-resolved/src/main.rs\<close>). Writing the
  file atomically and the socket itself are I/O.
\<close>

section \<open>The record\<close>

record discovery_record =
  dr_version :: "32 word"
  dr_pid :: "32 word"
  dr_listen :: socket_addr
  dr_control :: string
  dr_upstreams :: "socket_addr list"
  dr_cache_entries :: "64 word"
  dr_cache_limit :: "64 word"

definition discovery_version :: "32 word" where
  "discovery_version = 1"

definition discovery_new :: "32 word \<Rightarrow> socket_addr \<Rightarrow> string \<Rightarrow> socket_addr list \<Rightarrow> 64 word \<Rightarrow> discovery_record" where
  "discovery_new pid listen control upstreams cache_limit =
     \<lparr>dr_version = discovery_version, dr_pid = pid, dr_listen = listen, dr_control = control,
      dr_upstreams = upstreams, dr_cache_entries = 0, dr_cache_limit = cache_limit\<rparr>"

datatype discovery_error =
    UnsupportedVersion | ControlNotUtf8 | ControlDelimiter | DiscoveryNotUtf8 | DiscoveryLine string
  | DiscoveryValue string string | ListenAddress string | UpstreamAddress string | NoControlPath | EmptyControlPath
  | NoPid | NoListenAddress

definition field_line :: "string \<Rightarrow> string \<Rightarrow> string" where
  "field_line key v = key @ ''='' @ v @ [CHR 0x0A]"

definition upstream_lines :: "socket_addr list \<Rightarrow> string" where
  "upstream_lines upstreams = concat (map (\<lambda>a. field_line ''upstream'' (show_socket_addr a)) upstreams)"

text \<open>The common text of \<open>encode\<close> and \<open>format_status\<close>.\<close>

definition record_text :: "string \<Rightarrow> discovery_record \<Rightarrow> string" where
  "record_text control r =
     field_line ''version'' (show_nat (unat (dr_version r))) @ field_line ''pid'' (show_nat (unat (dr_pid r))) @
     field_line ''listen'' (show_socket_addr (dr_listen r)) @ field_line ''control'' control @
     field_line ''cache_entries'' (show_nat (unat (dr_cache_entries r))) @
     field_line ''cache_limit'' (show_nat (unat (dr_cache_limit r))) @ upstream_lines (dr_upstreams r)"

definition discovery_encode :: "discovery_record \<Rightarrow> discovery_error + string" where
  "discovery_encode r =
     (if dr_version r \<noteq> discovery_version then Err UnsupportedVersion
      else if \<not> valid_utf8 (dr_control r) then Err ControlNotUtf8
      else if CHR 0x0A \<in> set (dr_control r) \<or> CHR 0x0D \<in> set (dr_control r) \<or> CHR ''='' \<in> set (dr_control r)
      then Err ControlDelimiter
      else Ok (record_text (dr_control r) r))"

text \<open>What \<open>parse\<close> has read so far.\<close>

record discovery_fields =
  df_version :: "32 word option"
  df_pid :: "32 word option"
  df_listen :: "socket_addr option"
  df_control :: "string option"
  df_upstreams :: "socket_addr list"
  df_cache_entries :: "64 word"
  df_cache_limit :: "64 word"

definition discovery_value :: "(string \<Rightarrow> 'a option) \<Rightarrow> string \<Rightarrow> string \<Rightarrow> discovery_error + 'a" where
  "discovery_value parse field v = ok_or (parse v) (DiscoveryValue field v)"

definition discovery_field :: "string \<Rightarrow> string \<Rightarrow> discovery_fields \<Rightarrow> discovery_error + discovery_fields" where
  "discovery_field key v f =
     (if key = ''version'' then map_res (\<lambda>n. f\<lparr>df_version := Some n\<rparr>) (discovery_value parse_u32 ''version'' v)
      else if key = ''pid'' then map_res (\<lambda>n. f\<lparr>df_pid := Some n\<rparr>) (discovery_value parse_u32 ''pid'' v)
      else if key = ''listen'' then
        map_res (\<lambda>a. f\<lparr>df_listen := Some a\<rparr>) (ok_or (parse_socket_addr v) (ListenAddress v))
      else if key = ''control'' then Ok (f\<lparr>df_control := Some v\<rparr>)
      else if key = ''upstream'' then
        map_res (\<lambda>a. f\<lparr>df_upstreams := df_upstreams f @ [a]\<rparr>) (ok_or (parse_socket_addr v) (UpstreamAddress v))
      else if key = ''cache_entries'' then
        map_res (\<lambda>n. f\<lparr>df_cache_entries := n\<rparr>) (discovery_value parse_u64 ''cache_entries'' v)
      else if key = ''cache_limit'' then
        map_res (\<lambda>n. f\<lparr>df_cache_limit := n\<rparr>) (discovery_value parse_u64 ''cache_limit'' v)
      else Ok f)"

definition discovery_line :: "string \<Rightarrow> discovery_fields \<Rightarrow> discovery_error + discovery_fields" where
  "discovery_line raw f =
     (let l = trim raw
      in if l = [] then Ok f
         else (case split_once CHR ''='' l of
                 None \<Rightarrow> Err (DiscoveryLine l) | Some (key, v) \<Rightarrow> discovery_field key v f))"

definition no_fields :: discovery_fields where
  "no_fields = \<lparr>df_version = None, df_pid = None, df_listen = None, df_control = None, df_upstreams = [],
     df_cache_entries = 0, df_cache_limit = 0\<rparr>"

definition discovery_of_fields :: "discovery_fields \<Rightarrow> discovery_error + discovery_record" where
  "discovery_of_fields f =
     (if df_version f \<noteq> Some discovery_version then Err UnsupportedVersion
      else
        bind_res (ok_or (df_control f) NoControlPath) (\<lambda>control.
        if control = [] then Err EmptyControlPath
        else
          bind_res (ok_or (df_pid f) NoPid) (\<lambda>pid.
          bind_res (ok_or (df_listen f) NoListenAddress) (\<lambda>listen.
            Ok \<lparr>dr_version = discovery_version, dr_pid = pid, dr_listen = listen, dr_control = control,
                dr_upstreams = df_upstreams f, dr_cache_entries = df_cache_entries f,
                dr_cache_limit = df_cache_limit f\<rparr>))))"

definition discovery_parse :: "string \<Rightarrow> discovery_error + discovery_record" where
  "discovery_parse contents =
     (if \<not> valid_utf8 contents then Err DiscoveryNotUtf8
      else bind_res (fold_try discovery_line (lines contents) no_fields) discovery_of_fields)"

section \<open>Where the files are\<close>

definition path_in :: "string \<Rightarrow> string \<Rightarrow> string" where \<comment> \<open>\<open>Path::join\<close> with a plain file name\<close>
  "path_in directory name =
     (if directory = [] \<or> ends_with directory ''/'' then directory @ name else directory @ ''/'' @ name)"

definition default_discovery_path :: "environment \<Rightarrow> bool \<Rightarrow> nat \<Rightarrow> string" where
  "default_discovery_path env is_root uid =
     (case env ''FRACTALD_RESOLVED_DISCOVERY'' of
        Some path \<Rightarrow> path
      | None \<Rightarrow>
          (case env ''FRACTALD_RUNTIME_DIR'' of
             Some path \<Rightarrow> path_in path ''resolved.endpoint''
           | None \<Rightarrow>
               (case env ''XDG_RUNTIME_DIR'' of
                  Some path \<Rightarrow> path_in (path_in path ''fractald'') ''resolved.endpoint''
                | None \<Rightarrow>
                    if is_root then ''/run/fractald/resolved.endpoint''
                    else ''/tmp/fractald-'' @ show_nat uid @ ''/resolved.endpoint'')))"

section \<open>Control requests\<close>

definition format_status :: "discovery_record \<Rightarrow> string" where
  "format_status r = record_text (utf8_lossy (dr_control r)) r"

fun trim_start_str :: "nat \<Rightarrow> string \<Rightarrow> string \<Rightarrow> string" where
  "trim_start_str 0 p s = s"
| "trim_start_str (Suc n) p s = (case strip_prefix p s of None \<Rightarrow> s | Some r \<Rightarrow> trim_start_str n p r)"

definition parse_new_upstreams :: "string \<Rightarrow> string + socket_addr list" where
  "parse_new_upstreams request =
     map_try (\<lambda>address. ok_or (parse_socket_addr address) address)
       (split_whitespace (trim_start_str (length request) ''SET-UPSTREAMS '' request))"

definition control_request :: "string \<Rightarrow> resolver \<times> discovery_record \<Rightarrow> string \<times> resolver \<times> discovery_record" where
  "control_request raw = (\<lambda>(resolver, rec).
     let request = trim raw
     in if request = ''PING'' then (''OK'' @ [CHR 0x0A], resolver, rec)
        else if request = ''STATUS'' then
          (let rec = rec\<lparr>dr_cache_entries := of_nat (length (rs_cache resolver)),
                 dr_cache_limit := of_nat (rs_max_entries resolver), dr_upstreams := rs_upstreams resolver\<rparr>
           in (format_status rec, resolver, rec))
        else if request = ''STATISTICS'' then
          (field_line ''cache_entries'' (show_nat (length (rs_cache resolver))) @
           field_line ''cache_limit'' (show_nat (rs_max_entries resolver)) @
           field_line ''upstreams'' (show_nat (length (rs_upstreams resolver))), resolver, rec)
        else if request = ''FLUSH-CACHES'' then
          (''OK'' @ [CHR 0x0A], resolver\<lparr>rs_cache := []\<rparr>, rec\<lparr>dr_cache_entries := 0\<rparr>)
        else if starts_with request ''SET-UPSTREAMS '' then
          (case parse_new_upstreams request of
             Ok upstreams \<Rightarrow>
               if upstreams \<noteq> [] then
                 (''OK'' @ [CHR 0x0A], resolver\<lparr>rs_upstreams := upstreams, rs_cache := []\<rparr>, rec\<lparr>dr_upstreams := upstreams\<rparr>)
               else (''ERROR=no-upstreams'' @ [CHR 0x0A], resolver, rec)
           | Err address \<Rightarrow>
               (''ERROR=invalid upstream '' @ address @ '': invalid socket address syntax'' @ [CHR 0x0A], resolver, rec))
        else (''ERROR=unknown-request'' @ [CHR 0x0A], resolver, rec))"

section \<open>Reading the record back\<close>

lemma set_join: "set (join sep xs) \<subseteq> set sep \<union> \<Union> (set ` set xs)"
  by (induction sep xs rule: join.induct) auto

lemma show_hex_chars: "c \<in> set (show_hex n) \<Longrightarrow> 48 \<le> byte_val c \<and> byte_val c \<le> 102"
proof (induction n rule: show_hex.induct)
  case (1 n)
  then show ?case
    by (cases "n < 16") (auto simp: show_hex.simps[of n] byte_val_hex_char split: if_splits)
qed

text \<open>Text without blanks, line ends or the delimiter of the record.\<close>

definition plain_text :: "string \<Rightarrow> bool" where
  "plain_text s \<longleftrightarrow> s \<noteq> [] \<and> list_all (\<lambda>c. 33 \<le> byte_val c \<and> byte_val c < 127) s"

lemma plain_show_nat: "plain_text (show_nat n)"
  using show_nat_digits[of _ n] by (fastforce simp: plain_text_def list_all_iff byte_class_defs)

lemma plain_addr: "plain_text (show_socket_addr a)"
proof -
  have nat: "33 \<le> byte_val c \<and> byte_val c < 127" if "c \<in> set (show_nat n)" for c n
    using that plain_show_nat[of n] by (auto simp: plain_text_def list_all_iff)
  have v4: "33 \<le> byte_val c \<and> byte_val c < 127" if "c \<in> set (show_ipv4 ip)" for c ip
    using that set_join[of "''.''"] by (fastforce simp: show_ipv4_def dest: nat)
  have seg: "33 \<le> byte_val c \<and> byte_val c < 127" if "c \<in> set (show_segments ss)" for c ss
    using that set_join[of "'':''"] by (fastforce simp: show_segments_def dest: show_hex_chars)
  have v6: "33 \<le> byte_val c \<and> byte_val c < 127" if "c \<in> set (show_ipv6 ip)" for c ip
    using that by (auto simp: show_ipv6_def Let_def dest: seg v4 split: if_splits prod.splits)
  show ?thesis by (cases a) (auto simp: plain_text_def list_all_iff dest: nat v4 v6)
qed

lemma plain_ascii: "plain_text s \<Longrightarrow> is_ascii s"
  by (auto simp: plain_text_def is_ascii_def is_ascii_byte_def list_all_iff)

lemma plain_trim:
  assumes "plain_text s" and "is_ascii key" and "no_whitespace key" and "key \<noteq> []"
  shows "trim (key @ s) = key @ s"
proof -
  have "no_whitespace s" using assms(1) plain_ascii[OF assms(1)]
    by (auto simp: no_whitespace_ascii plain_text_def list_all_iff)
  moreover have "starts_char s"
    using assms(1) by (auto simp: plain_text_def starts_char_def is_cont_def list_all_iff neq_Nil_conv)
  ultimately have "no_whitespace (key @ s)" using assms(3) by (simp add: no_whitespace_append)
  then show ?thesis by (rule trim_trimmed[OF no_whitespace_trimmed])
qed

definition field_text :: "string \<Rightarrow> bool" where \<comment> \<open>a value that comes back from its line\<close>
  "field_text v \<longleftrightarrow> v \<noteq> [] \<and> starts_char v \<and> \<not> char_is_whitespace (last (chars v)) \<and> CHR 0x0A \<notin> set v \<and> CHR 0x0D \<notin> set v"

lemma plain_field: "plain_text v \<Longrightarrow> field_text v"
proof -
  assume p: "plain_text v"
  then have all: "v \<noteq> []" "\<forall>c \<in> set v. 33 \<le> byte_val c \<and> byte_val c < 127" by (auto simp: plain_text_def list_all_iff)
  have "33 \<le> byte_val (hd v) \<and> byte_val (hd v) < 127" "33 \<le> byte_val (last v)" using all by auto
  moreover have "chars v = map (\<lambda>c. [c]) v" by (rule chars_ascii[OF plain_ascii[OF p]])
  moreover have "CHR 0x0A \<notin> set v" "CHR 0x0D \<notin> set v" using all(2) by force+
  ultimately show "field_text v"
    using all(1) by (simp add: field_text_def last_map char_is_whitespace_single starts_char_def is_cont_def)
qed

lemma discovery_line_field:
  assumes "field_text v" and "key \<noteq> []" "list_all (\<lambda>c. 97 \<le> byte_val c \<and> byte_val c < 123 \<or> c = CHR ''_'') key"
  shows "fold_try discovery_line (lines (field_line key v @ rest)) f =
    bind_res (discovery_field key v f) (fold_try discovery_line (lines rest))"
proof -
  have key: "CHR 0x0A \<notin> set key" "CHR ''='' \<notin> set key" "CHR 0x0D \<notin> set key" "is_ascii key"
    using assms(3) by (auto simp: list_all_iff is_ascii_def is_ascii_byte_def)
  have v: "v \<noteq> []" "starts_char v" "\<not> char_is_whitespace (last (chars v))" "CHR 0x0A \<notin> set v" "CHR 0x0D \<notin> set v"
    using assms(1) by (simp_all add: field_text_def)
  let ?l = "key @ ''='' @ v"
  have chars: "chars (key @ CHR ''='' # v) = map (\<lambda>c. [c]) key @ ''='' # chars v"
    using chars_append[OF v(2), of "key @ ''=''"] key(4) by (simp add: chars_ascii is_ascii_byte_def)
  have "\<not> char_is_whitespace [hd key]"
    using assms(2,3) by (auto simp: neq_Nil_conv char_is_whitespace_single)
  then have "trimmed ?l" using v(1,3) assms(2) by (simp add: trimmed_def chars hd_append hd_map)
  then have trim: "trim ?l = ?l" by (rule trim_trimmed)
  have "last ?l \<noteq> CHR 0x0D" using v(1,5) by (metis append_is_Nil_conv last_appendR last_in_set)
  then have "strip_suffix [CHR 0x0D] ?l = None" by (metis last_snoc not_None_eq strip_suffix_Some)
  then have cr: "strip_cr ?l = ?l" by (simp add: strip_cr_def)
  have "lines (field_line key v @ rest) = ?l # lines rest"
    using lines_from_line[of ?l "[]" rest] key(1) v(4) cr by (simp add: lines_def field_line_def)
  then show ?thesis using trim key(2) assms(2) by (simp add: discovery_line_def Let_def)
qed

lemma upstream_lines_read:
  assumes "list_all addr_ok upstreams"
  shows "fold_try discovery_line (lines (upstream_lines upstreams)) f = Ok (f\<lparr>df_upstreams := df_upstreams f @ upstreams\<rparr>)"
  using assms
proof (induction upstreams arbitrary: f)
  case (Cons a upstreams)
  have "discovery_field ''upstream'' (show_socket_addr a) f = Ok (f\<lparr>df_upstreams := df_upstreams f @ [a]\<rparr>)"
    using Cons.prems by (simp add: discovery_field_def addr_ok_def)
  then show ?case
    using Cons discovery_line_field[OF plain_field[OF plain_addr[of a]], of "''upstream''" "upstream_lines upstreams" f]
    by (simp add: upstream_lines_def)
qed (simp add: upstream_lines_def lines_def)



section \<open>The service between requests\<close>

text \<open>Queries and control requests arrive in any order, each under the lock of the resolver.\<close>

datatype resolver_request = Query string | ControlLine string

fun serve_request :: "'w network \<Rightarrow> resolver_request \<Rightarrow> resolver \<times> discovery_record \<times> 'w \<Rightarrow> resolver \<times> discovery_record \<times> 'w" where
  "serve_request net (Query packet) (r, rec, w) = (let (_, r', w') = resolve net packet (r, w) in (r', rec, w'))"
| "serve_request net (ControlLine l) (r, rec, w) = (let (_, r', rec') = control_request l (r, rec) in (r', rec', w))"

lemma resolve_upstreams: "resolve net query (r, w) = (reply, r', w') \<Longrightarrow> rs_upstreams r' = rs_upstreams r"
  by (auto simp: resolve_def lookup_or_forward_def drop_expired_def store_response_def Let_def
      split: option.splits resolver_fault.splits prod.splits if_splits)

lemma control_request_inv:
  assumes "control_request l (r, rec) = (reply, r', rec')" and "resolver_inv r" "rs_upstreams r \<noteq> []"
  shows "resolver_inv r' \<and> rs_upstreams r' \<noteq> [] \<and> rs_max_entries r' = rs_max_entries r"
  using assms by (auto simp: control_request_def Let_def resolver_inv_def split: if_splits sum.splits)

text \<open>
  C34: whatever queries and control requests reach the service, in any order, and whatever the network
  answers: the cache stays within its limit with one response per question, and there is always a name
  server to ask.
\<close>

theorem resolver_stays_usable:
  assumes "upstreams \<noteq> []"
    and "fold (serve_request net) requests (resolver_with_fault upstreams timeout max_entries fault, rec, w) = (r, rec', w')"
  shows "length (rs_cache r) \<le> max_entries \<and> distinct (map ce_key (rs_cache r)) \<and> rs_upstreams r \<noteq> []"
proof -
  let ?P = "\<lambda>r. resolver_inv r \<and> rs_upstreams r \<noteq> [] \<and> rs_max_entries r = max_entries"
  have step: "?P (fst (serve_request net request (r, rec, w)))" if "?P r" for request r rec w
  proof (cases request)
    case (Query packet)
    obtain reply r' w' where run: "resolve net packet (r, w) = (reply, r', w')" by (cases "resolve net packet (r, w)")
    then show ?thesis using Query that resolve_result[OF _ run] resolve_upstreams[OF run] by simp
  next
    case (ControlLine l)
    obtain reply r' rec' where run: "control_request l (r, rec) = (reply, r', rec')" by (cases "control_request l (r, rec)")
    then show ?thesis using ControlLine that control_request_inv[OF run] by simp
  qed
  have "?P (fst (fold (serve_request net) requests st))" if "?P (fst st)" for st
    using that
  proof (induction requests arbitrary: st)
    case (Cons request requests)
    then show ?case using step[of "fst st" request "fst (snd st)" "snd (snd st)"] by simp
  qed simp
  from this[of "(resolver_with_fault upstreams timeout max_entries fault, rec, w)"]
  show ?thesis using assms by (simp add: resolver_inv_def resolver_with_fault_def)
qed

theorem resolver_stays_usable_witness:
  "\<exists>r rec w. fold (serve_request demo_network) [Query (demo_query 7), ControlLine ''SET-UPSTREAMS '', ControlLine ''FLUSH-CACHES'']
      (demo_resolver, discovery_new 7 (SocketV4 [127, 0, 0, 53] 53) ''/run/r'' [] 512, 1) = (r, rec, w) \<and> rs_upstreams r \<noteq> []"
proof -
  obtain r rec w where run: "fold (serve_request demo_network) [Query (demo_query 7), ControlLine ''SET-UPSTREAMS '', ControlLine ''FLUSH-CACHES'']
      (demo_resolver, discovery_new 7 (SocketV4 [127, 0, 0, 53] 53) ''/run/r'' [] 512, 1) = (r, rec, w)"
    by (metis prod_cases3)
  show ?thesis using resolver_stays_usable[OF _ run[unfolded demo_resolver_def]] run by blast
qed

end
