(* ===== verification/Storage.thy ===== *)
theory Storage
  imports Rust_Path Rust_Utf8 Rust_Net BTree "HOL-Library.Product_Lexorder"
begin

text \<open>
  \<open>crates/fractald-storage/src/lib.rs\<close>: the parsers of \<open>fstab\<close> and \<open>crypttab\<close>, and the generator that
  writes a service file for every file system to mount and every swap space. A path is its text; where
  the source compares paths, or puts them into ordered sets, the model compares their components.
\<close>

section \<open>Paths in order\<close>

text \<open>The derived order of \<open>Component\<close>: the root, \<open>.\<close>, \<open>..\<close>, then names by their bytes.\<close>

instantiation path_component :: linorder
begin

fun component_rank :: "path_component \<Rightarrow> nat \<times> string" where
  "component_rank RootDir = (0, [])"
| "component_rank CurDir = (1, [])"
| "component_rank ParentDir = (2, [])"
| "component_rank (Normal s) = (3, s)"

definition less_eq_path_component :: "path_component \<Rightarrow> path_component \<Rightarrow> bool" where
  "a \<le> b \<longleftrightarrow> component_rank a \<le> component_rank b"

definition less_path_component :: "path_component \<Rightarrow> path_component \<Rightarrow> bool" where
  "a < b \<longleftrightarrow> component_rank a < component_rank b"

instance
proof
  fix a b c :: path_component
  have inj: "component_rank a = component_rank b \<longleftrightarrow> a = b" for a b
    by (cases a; cases b) auto
  show "a \<le> b \<Longrightarrow> b \<le> a \<Longrightarrow> a = b"
    unfolding less_eq_path_component_def inj[symmetric] by (rule antisym)
  show "a < b \<longleftrightarrow> a \<le> b \<and> \<not> b \<le> a"
    by (simp only: less_eq_path_component_def less_path_component_def less_le_not_le)
  show "a \<le> b \<or> b \<le> a" unfolding less_eq_path_component_def by (rule linear)
  show "a \<le> a" by (simp only: less_eq_path_component_def order_refl)
  show "a \<le> b \<Longrightarrow> b \<le> c \<Longrightarrow> a \<le> c" unfolding less_eq_path_component_def by (rule order_trans)
qed

end

section \<open>Entries\<close>

record fstab_entry =
  fe_source :: string
  fe_target :: string
  fe_fstype :: string
  fe_options :: "string list"
  fe_dump :: "32 word"
  fe_pass :: "32 word"
  fe_line :: nat

record crypttab_entry =
  ct_name :: string
  ct_source :: string
  ct_key :: "string option"
  ct_options :: "string list"
  ct_line :: nat

record generated_service =
  gs_name :: string
  gs_source :: string

definition fe_has_option :: "string \<Rightarrow> fstab_entry \<Rightarrow> bool" where
  "fe_has_option name e \<longleftrightarrow> name \<in> set (fe_options e)"

fun find_map :: "('a \<Rightarrow> 'b option) \<Rightarrow> 'a list \<Rightarrow> 'b option" where
  "find_map f [] = None"
| "find_map f (x # xs) = (case f x of None \<Rightarrow> find_map f xs | Some y \<Rightarrow> Some y)"

definition option_value :: "string \<Rightarrow> fstab_entry \<Rightarrow> string option" where
  "option_value name e = find_map (\<lambda>option. Option.bind (strip_prefix name option) (strip_prefix ''='')) (fe_options e)"

definition fe_noauto :: "fstab_entry \<Rightarrow> bool" where
  "fe_noauto e = fe_has_option ''noauto'' e"

definition fe_nofail :: "fstab_entry \<Rightarrow> bool" where
  "fe_nofail e = fe_has_option ''nofail'' e"

definition network_filesystems :: "string list" where
  "network_filesystems =
     [''9p'', ''ceph'', ''cifs'', ''davfs'', ''glusterfs'', ''lustre'', ''nfs'', ''nfs4'', ''smb3'', ''smbfs'',
      ''sshfs'', ''fuse.ceph'', ''fuse.glusterfs'', ''fuse.sshfs'']"

definition fe_network :: "fstab_entry \<Rightarrow> bool" where
  "fe_network e \<longleftrightarrow> fe_has_option ''_netdev'' e \<or> to_ascii_lowercase (fe_fstype e) \<in> set network_filesystems"

definition fe_swap :: "fstab_entry \<Rightarrow> bool" where
  "fe_swap e = eq_ignore_ascii_case (fe_fstype e) ''swap''"

definition pseudo_filesystems :: "string list" where
  "pseudo_filesystems =
     [''autofs'', ''bpf'', ''binder'', ''binfmt_misc'', ''cgroup'', ''cgroup2'', ''configfs'', ''debugfs'',
      ''devpts'', ''devtmpfs'', ''efivarfs'', ''fusectl'', ''fuse'', ''fuseblk'', ''hugetlbfs'', ''mqueue'',
      ''nfsd'', ''overlay'', ''pipefs'', ''proc'', ''pstore'', ''ramfs'', ''rpc_pipefs'', ''securityfs'',
      ''selinuxfs'', ''sockfs'', ''sysfs'', ''tmpfs'', ''tracefs'']"

definition fe_pseudo :: "fstab_entry \<Rightarrow> bool" where
  "fe_pseudo e \<longleftrightarrow> to_ascii_lowercase (fe_fstype e) \<in> set pseudo_filesystems"

definition mount_options :: "fstab_entry \<Rightarrow> string list" where
  "mount_options e =
     filter (\<lambda>option. option \<notin> {''defaults'', ''auto'', ''noauto'', ''nofail'', ''_netdev''} \<and>
       \<not> starts_with option ''comment='' \<and> \<not> starts_with option ''x-'') (fe_options e)"

text \<open>
  \<open>parent_targets\<close>, with the paths as component lists: pushing \<open>/\<close> makes the path the root, pushing a
  name appends it, \<open>.\<close> and \<open>..\<close> are skipped.
\<close>

fun parent_targets_from ::
    "path_component list \<Rightarrow> path_component list \<Rightarrow> path_component list \<Rightarrow> path_component list list" where
  "parent_targets_from target current [] = []"
| "parent_targets_from target current (RootDir # cs) = parent_targets_from target [RootDir] cs"
| "parent_targets_from target current (Normal s # cs) =
     (let current = current @ [Normal s]
      in (if current \<noteq> target then [current] else []) @ parent_targets_from target current cs)"
| "parent_targets_from target current (_ # cs) = parent_targets_from target current cs"

definition parent_targets :: "fstab_entry \<Rightarrow> path_component list list" where
  "parent_targets e = (let target = path_components (fe_target e) in parent_targets_from target [] target)"

section \<open>Names of services\<close>

definition plain_component_byte :: "char \<Rightarrow> bool" where
  "plain_component_byte c \<longleftrightarrow> is_ascii_alphanumeric c \<or> c \<in> {CHR ''_'', CHR ''.'', CHR '':''}"

definition escape_component :: "string \<Rightarrow> string" where
  "escape_component s = concat (map (\<lambda>c. if plain_component_byte c then [c] else CHR 0x5C # ''x'' @ hex_byte c) s)"

fun normal_names :: "path_component list \<Rightarrow> string list" where
  "normal_names [] = []"
| "normal_names (Normal s # cs) = s # normal_names cs"
| "normal_names (_ # cs) = normal_names cs"

definition mount_service_name :: "path_component list \<Rightarrow> string" where
  "mount_service_name cs = ''mount-'' @ join ''-'' (map (\<lambda>s. escape_component (utf8_lossy s)) (normal_names cs))"

definition source_stem :: "string \<Rightarrow> string" where
  "source_stem source = join ''-'' (map escape_component (filter (\<lambda>s. s \<noteq> []) (split_char CHR ''/'' source)))"

definition fe_mount_name :: "fstab_entry \<Rightarrow> string" where
  "fe_mount_name e = mount_service_name (path_components (fe_target e))"

definition fe_swap_name :: "fstab_entry \<Rightarrow> string" where
  "fe_swap_name e = ''swap-'' @ source_stem (fe_source e)"

definition device_service_name :: "string \<Rightarrow> string option" where
  "device_service_name source =
     (if \<not> starts_with source ''/dev/'' then None
      else if source_stem source = [] then None else Some (''device-'' @ source_stem source))"

section \<open>Tables\<close>

text \<open>
  \<open>ArithmeticPanic\<close> is no error of the program: it is the panic of the multiplication of two bytes in
  \<open>decode_field\<close> in a build with overflow checks (without them the byte wraps). It ends the parser as an
  error does.
\<close>

datatype storage_problem =
    FieldCount nat nat | FieldNotUtf8 | ControlCharacter | NoneTarget | TargetNotAbsolute string | DumpNotInteger
  | PassNotInteger | DuplicateTarget string string | ArithmeticPanic

datatype storage_error = StorageError nat storage_problem \<comment> \<open>with its line\<close>

record table_entry =
  te_fields :: "string list"
  te_line :: nat

text \<open>The part of a line before the first \<open>#\<close> that an even number of backslashes precedes.\<close>

fun comment_free :: "nat \<Rightarrow> string \<Rightarrow> string" where
  "comment_free slashes [] = []"
| "comment_free slashes (c # s) =
     (if c = CHR ''#'' \<and> even slashes then []
      else c # comment_free (if c = CHR 0x5C then slashes + 1 else 0) s)"

definition strip_comment :: "string \<Rightarrow> string" where
  "strip_comment s = comment_free 0 s"

definition octal_digit :: "char \<Rightarrow> bool" where
  "octal_digit c \<longleftrightarrow> byte_in 48 55 c"

fun decode_octal :: "string \<Rightarrow> string option" where
  "decode_octal (c # x # y # z # s) =
     (if c = CHR 0x5C \<and> octal_digit x \<and> octal_digit y \<and> octal_digit z then
        (let v = (byte_val x - 48) * 64 + (byte_val y - 48) * 8 + (byte_val z - 48)
         in if 256 \<le> v then None else map_option (\<lambda>r. char_of v # r) (decode_octal s))
      else map_option (\<lambda>r. c # r) (decode_octal (x # y # z # s)))"
| "decode_octal s = Some s"

definition decode_field :: "string \<Rightarrow> nat \<Rightarrow> storage_error + string" where
  "decode_field raw line =
     (case decode_octal raw of
        None \<Rightarrow> Err (StorageError line ArithmeticPanic)
      | Some decoded \<Rightarrow> if valid_utf8 decoded then Ok decoded else Err (StorageError line FieldNotUtf8))"

definition table_field :: "nat \<Rightarrow> string \<Rightarrow> storage_error + string" where
  "table_field line raw =
     bind_res (decode_field raw line) (\<lambda>decoded.
       if list_ex char_is_control (chars decoded) then Err (StorageError line ControlCharacter) else Ok decoded)"

definition check_fstab_fields :: "nat \<Rightarrow> string list \<Rightarrow> storage_error + unit" where
  "check_fstab_fields line fs =
     (if fs ! 1 = ''none'' \<and> \<not> eq_ignore_ascii_case (fs ! 2) ''swap'' then Err (StorageError line NoneTarget)
      else if fs ! 1 \<noteq> ''none'' \<and> \<not> starts_with (fs ! 1) ''/''
      then Err (StorageError line (TargetNotAbsolute (fs ! 1)))
      else if 5 \<le> length fs \<and> parse_u32 (fs ! 4) = None then Err (StorageError line DumpNotInteger)
      else if 6 \<le> length fs \<and> parse_u32 (fs ! 5) = None then Err (StorageError line PassNotInteger)
      else Ok ())"

definition table_line :: "bool \<Rightarrow> nat \<times> string \<Rightarrow> table_entry list \<Rightarrow> storage_error + table_entry list" where
  "table_line crypttab = (\<lambda>(line, physical) entries.
     let content = trim (strip_comment physical); raw = split_whitespace content;
         minimum = (if crypttab then 2 else 4)
     in if content = [] then Ok entries
        else if length raw < minimum \<or> 6 < length raw then Err (StorageError line (FieldCount minimum (length raw)))
        else
          bind_res (map_try (table_field line) raw) (\<lambda>fs.
          bind_res (if crypttab then Ok () else check_fstab_fields line fs) (\<lambda>_.
            Ok (entries @ [\<lparr>te_fields = fs, te_line = line\<rparr>]))))"

definition parse_table :: "string \<Rightarrow> bool \<Rightarrow> storage_error + table_entry list" where
  "parse_table source crypttab = fold_try (table_line crypttab) (List.enumerate 1 (lines source)) []"

definition split_options :: "string \<Rightarrow> string list" where
  "split_options s = filter (\<lambda>option. option \<noteq> []) (split_char CHR '','' s)"

definition field_at :: "nat \<Rightarrow> string list \<Rightarrow> string option" where
  "field_at i fs = (if i < length fs then Some (fs ! i) else None)"

definition number_at :: "nat \<Rightarrow> string list \<Rightarrow> 32 word" where
  "number_at i fs = (case Option.bind (field_at i fs) parse_u32 of None \<Rightarrow> 0 | Some n \<Rightarrow> n)"

definition fstab_entry_of :: "table_entry \<Rightarrow> fstab_entry" where
  "fstab_entry_of t =
     (let fs = te_fields t
      in \<lparr>fe_source = fs ! 0, fe_target = fs ! 1, fe_fstype = fs ! 2,
          fe_options = split_options (fs ! 3), fe_dump = number_at 4 fs, fe_pass = number_at 5 fs,
          fe_line = te_line t\<rparr>)"

definition parse_fstab :: "string \<Rightarrow> storage_error + fstab_entry list" where
  "parse_fstab source = map_res (map fstab_entry_of) (parse_table source False)"

definition crypttab_entry_of :: "table_entry \<Rightarrow> crypttab_entry" where
  "crypttab_entry_of t =
     (let fs = te_fields t
      in \<lparr>ct_name = fs ! 0, ct_source = fs ! 1,
          ct_key = (case field_at 2 fs of None \<Rightarrow> None
                    | Some k \<Rightarrow> if k \<noteq> [] \<and> k \<noteq> ''none'' then Some k else None),
          ct_options = (case field_at 3 fs of None \<Rightarrow> [] | Some s \<Rightarrow> split_options s), ct_line = te_line t\<rparr>)"

definition parse_crypttab :: "string \<Rightarrow> storage_error + crypttab_entry list" where
  "parse_crypttab source = map_res (map crypttab_entry_of) (parse_table source True)"

definition ct_noauto :: "crypttab_entry \<Rightarrow> bool" where
  "ct_noauto e \<longleftrightarrow> ''noauto'' \<in> set (ct_options e)"

definition ct_nofail :: "crypttab_entry \<Rightarrow> bool" where
  "ct_nofail e \<longleftrightarrow> ''nofail'' \<in> set (ct_options e)"

section \<open>Service files\<close>

record service_links =
  sl_requires :: "string list"
  sl_wants :: "string list"
  sl_after :: "string list"
  sl_before :: "string list"

definition storage_prepare_name :: string where
  "storage_prepare_name = ''storage-prepare''"

definition storage_profile_name :: string where
  "storage_profile_name = ''storage''"

definition first_links :: service_links where
  "first_links = \<lparr>sl_requires = [], sl_wants = [storage_prepare_name], sl_after = [storage_prepare_name], sl_before = []\<rparr>"

definition network_links :: "fstab_entry \<Rightarrow> service_links \<Rightarrow> service_links" where
  "network_links e l =
     (if fe_network e then l\<lparr>sl_wants := sl_wants l @ [''network-online''], sl_after := sl_after l @ [''network-online'']\<rparr> else l)"

definition device_links :: "fstab_entry \<Rightarrow> service_links \<Rightarrow> service_links" where
  "device_links e l =
     (if fe_nofail e then l
      else (case device_service_name (fe_source e) of
              None \<Rightarrow> l
            | Some device \<Rightarrow> l\<lparr>sl_requires := sl_requires l @ [device], sl_after := sl_after l @ [device]\<rparr>))"

definition parent_links :: "fstab_entry \<Rightarrow> path_component list list \<Rightarrow> path_component list \<Rightarrow> service_links \<Rightarrow> service_links" where
  "parent_links e active_targets parent l =
     (if parent \<notin> set active_targets then l
      else
        (let name = mount_service_name parent;
             l = (if fe_nofail e then l\<lparr>sl_wants := sl_wants l @ [name]\<rparr> else l\<lparr>sl_requires := sl_requires l @ [name]\<rparr>)
         in l\<lparr>sl_after := sl_after l @ [name]\<rparr>))"

definition option_links :: "string \<Rightarrow> service_links \<Rightarrow> service_links" where
  "option_links option l =
     (case strip_prefix ''x-fractald.requires='' option of
        Some v \<Rightarrow> l\<lparr>sl_requires := sl_requires l @ split_whitespace v\<rparr>
      | None \<Rightarrow>
     (case strip_prefix ''x-fractald.wants='' option of
        Some v \<Rightarrow> l\<lparr>sl_wants := sl_wants l @ split_whitespace v\<rparr>
      | None \<Rightarrow>
     (case strip_prefix ''x-fractald.after='' option of
        Some v \<Rightarrow> l\<lparr>sl_after := sl_after l @ split_whitespace v\<rparr>
      | None \<Rightarrow>
     (case strip_prefix ''x-fractald.before='' option of
        Some v \<Rightarrow> l\<lparr>sl_before := sl_before l @ split_whitespace v\<rparr>
      | None \<Rightarrow> l))))"

definition mount_links :: "fstab_entry \<Rightarrow> path_component list list \<Rightarrow> service_links" where
  "mount_links e active_targets =
     fold option_links (fe_options e)
       (fold (parent_links e active_targets) (parent_targets e) (device_links e (network_links e first_links)))"

definition text_lines :: "string list \<Rightarrow> string" where
  "text_lines ls = concat (map (\<lambda>l. l @ [CHR 0x0A]) ls)"

definition push_words :: "string \<Rightarrow> string list \<Rightarrow> string list" where \<comment> \<open>the lines it writes\<close>
  "push_words key ws = (if ws = [] then [] else [key @ ''='' @ join '' '' ws])"

definition storage_filesystem_type :: "string \<Rightarrow> string" where
  "storage_filesystem_type v =
     (let name = to_ascii_lowercase v
      in if name \<in> {''fat'', ''msdos''} then ''vfat'' else if name = ''ext'' then ''ext4'' else name)"

definition optional_line :: "string \<Rightarrow> string option \<Rightarrow> string list" where
  "optional_line key v = (case v of None \<Rightarrow> [] | Some v \<Rightarrow> [key @ ''='' @ v])"

definition options_line :: "fstab_entry \<Rightarrow> string list" where
  "options_line e = (if mount_options e = [] then [] else [''options='' @ join '','' (mount_options e)])"

definition mount_timeout :: "fstab_entry \<Rightarrow> string option" where
  "mount_timeout e =
     (case option_value ''x-fractald.mount-timeout'' e of
        Some v \<Rightarrow> Some v | None \<Rightarrow> option_value ''x-fractald.device-timeout'' e)"

definition mount_service :: "fstab_entry \<Rightarrow> path_component list list \<Rightarrow> string" where
  "mount_service e active_targets =
     (let l = mount_links e active_targets; target = utf8_lossy (fe_target e);
          fstype = storage_filesystem_type (fe_fstype e)
      in text_lines
           ([''[service]'', ''kind=mount'', ''remain_after_exit=true'', [], ''[dependencies]''] @
            push_words ''requires'' (sl_requires l) @ push_words ''wants'' (sl_wants l) @
            push_words ''after'' (sl_after l) @ push_words ''before'' (sl_before l) @
            [[], ''[conditions]'', ''mount_point=!'' @ target, [], ''[mount]'', ''what='' @ fe_source e, ''where='' @ target] @
            (if eq_ignore_ascii_case fstype ''auto'' then [] else [''type='' @ fstype]) @
            options_line e @ optional_line ''timeout'' (mount_timeout e) @ [''directory_mode=0755'']))"

definition swap_option_links :: "string \<Rightarrow> service_links \<Rightarrow> service_links" where
  "swap_option_links option l =
     (if strip_prefix ''x-fractald.before='' option = None then option_links option l else l)"

definition swap_links :: "fstab_entry \<Rightarrow> service_links" where
  "swap_links e = fold swap_option_links (fe_options e) (device_links e first_links)"

definition swap_service :: "fstab_entry \<Rightarrow> string" where
  "swap_service e =
     (let l = swap_links e
      in text_lines
           ([''[service]'', ''kind=swap'', ''remain_after_exit=true'', [], ''[dependencies]''] @
            push_words ''requires'' (sl_requires l) @ push_words ''wants'' (sl_wants l) @ push_words ''after'' (sl_after l) @
            [[], ''[swap]'', ''what='' @ fe_source e] @ options_line e @ optional_line ''priority'' (option_value ''pri'' e)))"

definition storage_prepare_service :: string where
  "storage_prepare_service =
     text_lines [''[service]'', ''kind=oneshot'', ''exec=/usr/bin/fractald storage-prepare'', ''remain_after_exit=true'',
       ''start_timeout=120s'']"

definition profile_service :: "string list \<Rightarrow> string" where
  "profile_service wanted =
     text_lines [''[service]'', ''kind=group'', ''remain_after_exit=true'', [], ''[dependencies]'',
       ''wants='' @ join '' '' wanted, ''after='' @ join '' '' (sort wanted)]"

section \<open>The generator\<close>

definition active_mounts :: "fstab_entry list \<Rightarrow> fstab_entry list" where
  "active_mounts entries =
     filter (\<lambda>e. path_components (fe_target e) \<noteq> [RootDir]) (filter (\<lambda>e. \<not> fe_noauto e \<and> \<not> fe_swap e) entries)"

definition active_swaps :: "fstab_entry list \<Rightarrow> fstab_entry list" where
  "active_swaps entries = filter (\<lambda>e. \<not> fe_noauto e \<and> fe_swap e) entries"

text \<open>The map from targets to names, of which only the check for duplicates is used.\<close>

definition claim_target ::
    "fstab_entry \<Rightarrow> (path_component list \<times> string) list \<Rightarrow> storage_error + (path_component list \<times> string) list" where
  "claim_target e names =
     (case map_of names (path_components (fe_target e)) of
        Some previous \<Rightarrow> Err (StorageError (fe_line e) (DuplicateTarget (fe_target e) previous))
      | None \<Rightarrow> Ok ((path_components (fe_target e), fe_mount_name e) # names))"

definition mount_key :: "fstab_entry \<Rightarrow> nat \<times> path_component list \<times> nat" where
  "mount_key e = (length (path_components (fe_target e)), path_components (fe_target e), fe_line e)"

definition swap_key :: "fstab_entry \<Rightarrow> string \<times> nat" where
  "swap_key e = (fe_source e, fe_line e)"

definition service_file :: "string \<Rightarrow> string" where
  "service_file name = name @ ''.svc''"

definition generate_services :: "fstab_entry list \<Rightarrow> storage_error + generated_service list" where
  "generate_services entries =
     bind_res (fold_try claim_target (active_mounts entries) []) (\<lambda>_.
       let mounts = sort_key mount_key (active_mounts entries); swaps = sort_key swap_key (active_swaps entries);
           targets = map (\<lambda>e. path_components (fe_target e)) mounts;
           wanted = storage_prepare_name # map fe_mount_name mounts @ map fe_swap_name swaps
       in if mounts = [] \<and> swaps = [] then Ok []
          else Ok (sort_key gs_name
            ([\<lparr>gs_name = service_file storage_prepare_name, gs_source = storage_prepare_service\<rparr>] @
             map (\<lambda>e. \<lparr>gs_name = service_file (fe_mount_name e), gs_source = mount_service e targets\<rparr>) mounts @
             map (\<lambda>e. \<lparr>gs_name = service_file (fe_swap_name e), gs_source = swap_service e\<rparr>) swaps @
             [\<lparr>gs_name = service_file storage_profile_name, gs_source = profile_service wanted\<rparr>])))"

end
