(* ===== verification/Storage_Properties.thy ===== *)
theory Storage_Properties
  imports Storage Config_Values "HOL-Library.Multiset"
begin

text \<open>
  What the storage generator promises: tables are read back as they are written, every active entry gets
  a service, mounts wait for the mounts they lie under, and what the service files say is what the
  configuration parser reads, except for names with escapes.
\<close>

section \<open>Octal escapes\<close>

text \<open>Fields as \<open>fstab\<close> writes them: every byte but the printable ones of ASCII as three octal digits.\<close>

definition plain_field_byte :: "char \<Rightarrow> bool" where
  "plain_field_byte c \<longleftrightarrow> 33 \<le> byte_val c \<and> byte_val c < 127 \<and> c \<noteq> CHR ''#'' \<and> c \<noteq> CHR 0x5C"

definition octal_escape :: "char \<Rightarrow> string" where
  "octal_escape c =
     [CHR 0x5C, char_of (48 + byte_val c div 64), char_of (48 + byte_val c div 8 mod 8), char_of (48 + byte_val c mod 8)]"

definition fstab_escape :: "string \<Rightarrow> string" where
  "fstab_escape s = concat (map (\<lambda>c. if plain_field_byte c then [c] else octal_escape c) s)"

lemma octal_digits: "byte_val c div 64 < 4" "byte_val c div 8 mod 8 < 8" "byte_val c mod 8 < 8"
  using nat_of_char_less_256[of c] by (simp_all add: div_less_iff_less_mult)

lemma octal_value: "n div 64 * 64 + n div 8 mod 8 * 8 + n mod 8 = (n :: nat)"
proof -
  have "n div 64 = n div 8 div 8" using div_mult2_eq[of n 8 8] by simp
  moreover have "n div 8 div 8 * 8 + n div 8 mod 8 = n div 8" "n div 8 * 8 + n mod 8 = n" by simp_all
  ultimately show ?thesis by linarith
qed

lemma decode_octal_digits:
  fixes x y z :: nat
  assumes "x < 4" "y < 8" "z < 8"
  shows "decode_octal (CHR 0x5C # char_of (48 + x) # char_of (48 + y) # char_of (48 + z) # s) =
    map_option (\<lambda>r. char_of (x * 64 + y * 8 + z) # r) (decode_octal s)"
proof -
  have "byte_val (char_of (48 + d) :: char) = 48 + d" if "d < 8" for d :: nat
    using that by simp
  note digit = this[of x] this[of y] this[of z]
  have "x * 64 + y * 8 + z < 256" using assms by simp
  then show ?thesis using assms digit by (simp add: octal_digit_def byte_in_def Let_def)
qed

lemma decode_octal_escape: "decode_octal (octal_escape c @ s) = map_option (\<lambda>r. c # r) (decode_octal s)"
  using decode_octal_digits[OF octal_digits, of c c c s] by (simp add: octal_escape_def octal_value)

lemma decode_octal_plain: "c \<noteq> CHR 0x5C \<Longrightarrow> decode_octal (c # s) = map_option (\<lambda>r. c # r) (decode_octal s)"
  by (cases s; cases "tl s"; cases "tl (tl s)") auto

lemma decode_fstab_escape: "decode_octal (fstab_escape s) = Some s"
  by (induction s) (auto simp: fstab_escape_def decode_octal_escape plain_field_byte_def decode_octal_plain)

text \<open>
  An octal escape above \<open>\377\<close> stops the parser of \<open>fstab\<close> with a panic: the digits are combined in
  the arithmetic of bytes, so the escape \<open>\400\<close> multiplies 4 by 64 and leaves the range.
\<close>

theorem octal_overflow_panics:
  assumes "octal_digit x" "octal_digit y" "octal_digit z" "4 \<le> byte_val x - 48"
  shows "decode_field (CHR 0x5C # x # y # z # s) line = Err (StorageError line ArithmeticPanic)"
  using assms by (simp add: decode_field_def Let_def)

theorem octal_overflow_panics_witness: "decode_field [CHR 0x5C, CHR ''4'', CHR ''0'', CHR ''0''] 1 = Err (StorageError 1 ArithmeticPanic)"
  by (rule octal_overflow_panics) (simp_all add: octal_digit_def byte_in_def)

section \<open>Reading tables back\<close>

text \<open>Entries that can be written: fields that are text without control characters, and options without commas.\<close>

definition field_ok :: "string \<Rightarrow> bool" where
  "field_ok s \<longleftrightarrow> s \<noteq> [] \<and> valid_utf8 s \<and> \<not> list_ex char_is_control (chars s)"

definition entry_fields :: "fstab_entry \<Rightarrow> string list" where
  "entry_fields e =
     [fe_source e, fe_target e, fe_fstype e, join '','' (fe_options e), show_nat (unat (fe_dump e)), show_nat (unat (fe_pass e))]"

definition fstab_entry_ok :: "fstab_entry \<Rightarrow> bool" where
  "fstab_entry_ok e \<longleftrightarrow>
     list_all field_ok [fe_source e, fe_target e, fe_fstype e, join '','' (fe_options e)] \<and>
     list_all (\<lambda>option. option \<noteq> [] \<and> CHR '','' \<notin> set option) (fe_options e) \<and>
     (starts_with (fe_target e) ''/'' \<or> fe_target e = ''none'' \<and> fe_swap e)"

definition fstab_line :: "fstab_entry \<Rightarrow> string" where
  "fstab_line e = join '' '' (map fstab_escape (entry_fields e))"

lemma fstab_escape_graphic: "c \<in> set (fstab_escape s) \<Longrightarrow> byte_in 33 126 c \<and> c \<noteq> CHR ''#''"
proof -
  have "byte_in 33 126 c \<and> c \<noteq> CHR ''#''" if "c \<in> set (octal_escape x)" for x
  proof -
    have "byte_val (char_of (48 + d) :: char) = 48 + d" if "d < 8" for d :: nat using that by simp
    note d = this[OF order_less_trans[OF octal_digits(1)]] this[OF octal_digits(2)] this[OF octal_digits(3)]
    have "c = CHR 0x5C \<or> byte_val c \<in> {48..<56}" using that octal_digits[of x] by (auto simp: octal_escape_def d)
    then show ?thesis by (auto simp: byte_in_def)
  qed
  moreover assume "c \<in> set (fstab_escape s)"
  ultimately show ?thesis by (auto simp: fstab_escape_def plain_field_byte_def byte_in_def split: if_splits)
qed

lemma fstab_escape_token: "s \<noteq> [] \<Longrightarrow> token (fstab_escape s)"
proof -
  assume "s \<noteq> []"
  then have "fstab_escape s \<noteq> []" by (cases s) (simp_all add: fstab_escape_def octal_escape_def)
  moreover have "is_ascii (fstab_escape s)"
    by (auto simp: is_ascii_def is_ascii_byte_def list_all_iff byte_in_def dest!: fstab_escape_graphic)
  moreover from this have "no_whitespace (fstab_escape s)"
    by (auto simp: no_whitespace_ascii byte_in_def dest!: fstab_escape_graphic)
  ultimately show ?thesis by (cases "fstab_escape s") (auto simp: token_def starts_char_def ascii_not_cont)
qed

lemma table_field_escape: "field_ok s \<Longrightarrow> table_field line (fstab_escape s) = Ok s"
  by (simp add: table_field_def decode_field_def decode_fstab_escape field_ok_def)

lemma comment_free_id: "CHR ''#'' \<notin> set s \<Longrightarrow> comment_free n s = s"
  by (induction s arbitrary: n) auto

lemma printable_field_ok:
  assumes "s \<noteq> []" and "list_all (byte_in 32 126) s"
  shows "field_ok s"
proof -
  have "is_ascii s" using assms(2) by (auto simp: is_ascii_def is_ascii_byte_def list_all_iff byte_in_def)
  then show ?thesis using assms
    by (auto simp: field_ok_def ascii_valid_utf8 chars_ascii list_ex_iff list_all_iff char_is_control_single byte_in_def)
qed

lemma number_field_ok: "field_ok (show_nat n)"
  by (rule printable_field_ok) (auto simp: list_all_iff is_ascii_digit_def byte_in_def dest!: show_nat_digits)

lemma fstab_line_facts:
  assumes "fstab_entry_ok e"
  shows "fstab_line e \<noteq> []" "trimmed (fstab_line e)" "strip_comment (fstab_line e) = fstab_line e"
    "CHR 0x0A \<notin> set (fstab_line e)" "split_whitespace (fstab_line e) = map fstab_escape (entry_fields e)"
proof -
  have fs: "field_ok f" if "f \<in> set (entry_fields e)" for f
    using assms that by (auto simp: fstab_entry_ok_def entry_fields_def number_field_ok)
  then have tokens: "token w" if "w \<in> set (map fstab_escape (entry_fields e))" for w
    using that by (auto simp: field_ok_def intro!: fstab_escape_token)
  have bytes: "byte_in 32 126 c \<and> c \<noteq> CHR ''#''" if "c \<in> set (fstab_line e)" for c
  proof -
    have "set (join '' '' ws) \<subseteq> insert CHR '' '' (\<Union> (set ` set ws))" for ws :: "string list"
      by (induction "'' ''" ws rule: join.induct) auto
    from that this[of "map fstab_escape (entry_fields e)"] show ?thesis
      by (force simp: fstab_line_def byte_in_def dest!: fstab_escape_graphic)
  qed
  show "split_whitespace (fstab_line e) = map fstab_escape (entry_fields e)"
    unfolding fstab_line_def by (rule split_whitespace_join) (rule tokens)
  then show "fstab_line e \<noteq> []" by (auto simp: entry_fields_def)
  show "trimmed (fstab_line e)" unfolding fstab_line_def by (rule trimmed_join) (simp add: entry_fields_def, rule tokens)
  show "CHR 0x0A \<notin> set (fstab_line e)" using bytes[of "CHR 0x0A"] by (auto simp: byte_in_def)
  have "CHR ''#'' \<notin> set (fstab_line e)" using bytes[of "CHR ''#''"] by auto
  then show "strip_comment (fstab_line e) = fstab_line e" by (simp add: strip_comment_def comment_free_id)
qed

lemma table_line_entry:
  assumes "fstab_entry_ok e"
  shows "table_line False (n, fstab_line e) entries = Ok (entries @ [\<lparr>te_fields = entry_fields e, te_line = n\<rparr>])"
proof -
  note line = fstab_line_facts[OF assms]
  have "map_try (table_field n) (map fstab_escape (entry_fields e)) = Ok (entry_fields e)"
    using assms by (simp add: fstab_entry_ok_def entry_fields_def table_field_escape number_field_ok)
  moreover have "check_fstab_fields n (entry_fields e) = Ok ()"
    using assms by (auto simp: check_fstab_fields_def fstab_entry_ok_def entry_fields_def fe_swap_def starts_with_def)
  moreover have "length (entry_fields e) = 6" by (simp add: entry_fields_def)
  ultimately show ?thesis using line by (simp add: table_line_def trim_trimmed Let_def)
qed

lemma table_lines_entries:
  "list_all fstab_entry_ok es \<Longrightarrow>
   fold_try (table_line False) (List.enumerate n (map fstab_line es)) entries =
     Ok (entries @ map (\<lambda>(k, e). \<lparr>te_fields = entry_fields e, te_line = k\<rparr>) (List.enumerate n es))"
  by (induction es arbitrary: n entries) (simp_all add: table_line_entry)

lemma fstab_entry_of_fields:
  "fstab_entry_ok e \<Longrightarrow> fstab_entry_of \<lparr>te_fields = entry_fields e, te_line = n\<rparr> = e\<lparr>fe_line := n\<rparr>"
proof -
  assume "fstab_entry_ok e"
  moreover from this have "fe_options e \<noteq> []" by (auto simp: fstab_entry_ok_def field_ok_def)
  ultimately have "split_options (join '','' (fe_options e)) = fe_options e"
    by (auto simp: split_options_def split_char_join fstab_entry_ok_def list_all_iff intro!: filter_True)
  then show ?thesis by (cases e) (simp add: fstab_entry_of_def entry_fields_def number_at_def field_at_def)
qed

text \<open>
  C36: a table is read as it was written: entries rendered the way \<open>fstab\<close> asks for, with spaces,
  comment signs, backslashes and every byte outside ASCII as octal escapes, parse to the same entries
  with the numbers of their lines.
\<close>

theorem fstab_reads_back:
  assumes "list_all fstab_entry_ok es"
  shows "parse_fstab (text_lines (map fstab_line es)) = Ok (map (\<lambda>(n, e). e\<lparr>fe_line := n\<rparr>) (List.enumerate 1 es))"
proof -
  have "lines (text_lines (map fstab_line es)) = map fstab_line es"
    unfolding text_lines_def
    by (rule lines_unlines) (use assms in \<open>auto simp: list_all_iff fstab_line_facts strip_cr_trimmed\<close>)
  then have "parse_fstab (text_lines (map fstab_line es)) =
      Ok (map fstab_entry_of (map (\<lambda>(k, e). \<lparr>te_fields = entry_fields e, te_line = k\<rparr>) (List.enumerate 1 es)))"
    using assms by (simp add: parse_fstab_def parse_table_def table_lines_entries)
  moreover have "fstab_entry_of \<lparr>te_fields = entry_fields e, te_line = k\<rparr> = e\<lparr>fe_line := k\<rparr>"
    if "(k, e) \<in> set (List.enumerate 1 es)" for k e
    using that assms by (auto simp: list_all_iff intro!: fstab_entry_of_fields dest!: in_set_enumerate_eq[THEN iffD1] nth_mem)
  ultimately show ?thesis by (auto intro!: map_cong)
qed

definition demo_disk :: fstab_entry where
  "demo_disk = \<lparr>fe_source = ''/dev/sda 1'', fe_target = ''/srv/my disk#2'', fe_fstype = ''ext4'',
     fe_options = [''nofail'', ''ro''], fe_dump = 0, fe_pass = 2, fe_line = 7\<rparr>"

lemma demo_disk_ok: "fstab_entry_ok demo_disk"
  by (simp add: fstab_entry_ok_def demo_disk_def printable_field_ok byte_in_def starts_with_def)

theorem fstab_reads_back_witness:
  "parse_fstab (text_lines (map fstab_line [demo_disk])) = Ok [demo_disk\<lparr>fe_line := 1\<rparr>]"
  using fstab_reads_back[of "[demo_disk]"] demo_disk_ok by simp

section \<open>Parents\<close>

definition plain_path :: "path_component list \<Rightarrow> bool" where \<comment> \<open>absolute, without \<open>.\<close> and \<open>..\<close>\<close>
  "plain_path cs \<longleftrightarrow> (\<exists>names. cs = RootDir # map Normal names)"

lemma parent_targets_names:
  "parent_targets_from target current (map Normal names) =
     filter (\<lambda>p. p \<noteq> target) (map (\<lambda>n. current @ map Normal (take n names)) [1..<Suc (length names)])"
proof (induction names arbitrary: current)
  case (Cons s names)
  have "map (\<lambda>n. current @ map Normal (take n (s # names))) [1..<Suc (length (s # names))] =
      (current @ [Normal s]) # map (\<lambda>n. (current @ [Normal s]) @ map Normal (take n names)) [1..<Suc (length names)]"
    by (subst upt_conv_Cons) (simp_all add: map_Suc_upt[symmetric] comp_def del: upt_Suc)
  then show ?case using Cons.IH[of "current @ [Normal s]"] by (simp add: Let_def del: upt_Suc)
qed simp

lemma parent_targets_plain:
  assumes "path_components (fe_target e) = RootDir # map Normal (names @ below)" and "names \<noteq> []" "below \<noteq> []"
  shows "RootDir # map Normal names \<in> set (parent_targets e)"
proof -
  let ?all = "names @ below"
  have "parent_targets e = filter (\<lambda>p. p \<noteq> RootDir # map Normal ?all)
      (map (\<lambda>n. RootDir # map Normal (take n ?all)) [1..<Suc (length ?all)])"
    using parent_targets_names[of "RootDir # map Normal ?all" "[RootDir]" ?all] assms(1)
    by (simp add: parent_targets_def del: upt_Suc map_append)
  moreover have "length names \<in> set [1..<Suc (length ?all)]" "take (length names) ?all = names"
    using assms(2) by (simp_all add: Suc_leI del: upt_Suc)
  moreover have "RootDir # map Normal names \<noteq> RootDir # map Normal ?all" using assms(3) by simp
  ultimately show ?thesis by (auto simp del: upt_Suc map_append intro!: image_eqI[of _ _ "length names"])
qed

definition links_kept :: "service_links \<Rightarrow> service_links \<Rightarrow> bool" where
  "links_kept l l' \<longleftrightarrow> set (sl_requires l) \<subseteq> set (sl_requires l') \<and> set (sl_wants l) \<subseteq> set (sl_wants l') \<and>
     set (sl_after l) \<subseteq> set (sl_after l')"

lemma links_kept_trans: "links_kept a b \<Longrightarrow> links_kept b c \<Longrightarrow> links_kept a c"
  by (auto simp: links_kept_def)

lemma fold_links_kept: "(\<And>x l. links_kept l (f x l)) \<Longrightarrow> links_kept l (fold f xs l)"
proof (induction xs arbitrary: l)
  case (Cons x xs)
  from links_kept_trans[OF Cons.prems Cons.IH[OF Cons.prems]] show ?case by simp
qed (simp add: links_kept_def)

lemma option_links_kept: "links_kept l (option_links option l)"
  by (auto simp: option_links_def links_kept_def split: option.split)

lemma parent_links_kept: "links_kept l (parent_links e targets parent l)"
  by (auto simp: parent_links_def links_kept_def Let_def)

definition waits_for :: "bool \<Rightarrow> string \<Rightarrow> service_links \<Rightarrow> bool" where
  "waits_for optional name l \<longleftrightarrow> name \<in> set (sl_after l) \<and> name \<in> set (if optional then sl_wants l else sl_requires l)"

lemma waits_for_kept: "links_kept l l' \<Longrightarrow> waits_for optional name l \<Longrightarrow> waits_for optional name l'"
  by (auto simp: links_kept_def waits_for_def)

lemma mount_links_parent:
  assumes "parent \<in> set (parent_targets e)" and "parent \<in> set targets"
  shows "waits_for (fe_nofail e) (mount_service_name parent) (mount_links e targets)"
proof -
  let ?f = "parent_links e targets"
  obtain xs ys where split: "parent_targets e = xs @ parent # ys" using assms(1) by (meson split_list)
  let ?l = "fold ?f xs (device_links e (network_links e first_links))"
  have "waits_for (fe_nofail e) (mount_service_name parent) (?f parent ?l)"
    using assms(2) by (simp add: parent_links_def waits_for_def Let_def)
  then have "waits_for (fe_nofail e) (mount_service_name parent) (fold ?f ys (?f parent ?l))"
    by (rule waits_for_kept[OF fold_links_kept, rotated]) (rule parent_links_kept)
  then show ?thesis
    unfolding mount_links_def split by simp (rule waits_for_kept[OF fold_links_kept[OF option_links_kept]])
qed

section \<open>The generator\<close>

definition generated_targets :: "fstab_entry list \<Rightarrow> path_component list list" where
  "generated_targets entries = map (\<lambda>e. path_components (fe_target e)) (sort_key mount_key (active_mounts entries))"

lemma claim_targets:
  "(\<exists>err. fold_try claim_target es names = Err err) \<longleftrightarrow>
     \<not> (distinct (map (\<lambda>e. path_components (fe_target e)) es) \<and>
        (\<lambda>e. path_components (fe_target e)) ` set es \<inter> fst ` set names = {})"
proof (induction es arbitrary: names)
  case (Cons e es)
  show ?case
  proof (cases "map_of names (path_components (fe_target e))")
    case None
    from None have "path_components (fe_target e) \<notin> fst ` set names" by (simp only: map_of_eq_None_iff not_False_eq_True)
    moreover from None have "claim_target e names = Ok ((path_components (fe_target e), fe_mount_name e) # names)"
      by (simp add: claim_target_def)
    ultimately show ?thesis using Cons.IH[of "(path_components (fe_target e), fe_mount_name e) # names"]
      by simp
  next
    case (Some previous)
    from map_of_SomeD[OF Some] have "path_components (fe_target e) \<in> fst ` set names" by force
    with Some show ?thesis by (simp add: claim_target_def)
  qed
qed simp

lemma generate_services_ok:
  "generate_services entries = Ok units \<longleftrightarrow>
     distinct (map (\<lambda>e. path_components (fe_target e)) (active_mounts entries)) \<and>
     units =
       (let mounts = sort_key mount_key (active_mounts entries); swaps = sort_key swap_key (active_swaps entries)
        in if mounts = [] \<and> swaps = [] then []
           else sort_key gs_name
             ([\<lparr>gs_name = service_file storage_prepare_name, gs_source = storage_prepare_service\<rparr>] @
              map (\<lambda>e. \<lparr>gs_name = service_file (fe_mount_name e), gs_source = mount_service e (generated_targets entries)\<rparr>) mounts @
              map (\<lambda>e. \<lparr>gs_name = service_file (fe_swap_name e), gs_source = swap_service e\<rparr>) swaps @
              [\<lparr>gs_name = service_file storage_profile_name, gs_source =
                 profile_service (storage_prepare_name # map fe_mount_name mounts @ map fe_swap_name swaps)\<rparr>]))"
proof -
  have "(\<exists>names. fold_try claim_target (active_mounts entries) [] = Ok names) \<longleftrightarrow>
      distinct (map (\<lambda>e. path_components (fe_target e)) (active_mounts entries))"
    using claim_targets[of "active_mounts entries" "[]"] by (cases "fold_try claim_target (active_mounts entries) []") auto
  then show ?thesis
    by (simp add: generate_services_def bind_res_eq_Inr generated_targets_def Let_def) blast
qed

text \<open>
  C37: the generator covers the table: it fails exactly when two active file systems are to be mounted
  at the same path, however that is spelled, and otherwise writes, in the order of their names, one
  service for every active file system but the root, one for every active swap space, the preparation
  they all follow and the profile that pulls them in; and nothing when there are none.
\<close>

theorem generate_services_complete:
  "(\<exists>err. generate_services entries = Err err) = (\<not> distinct (map (\<lambda>e. path_components (fe_target e)) (active_mounts entries))) \<and>
   (case generate_services entries of Err _ \<Rightarrow> True | Ok units \<Rightarrow>
      sorted (map gs_name units) \<and>
      mset (map gs_name units) =
        (if active_mounts entries = [] \<and> active_swaps entries = [] then {#}
         else image_mset service_file
           ({#storage_prepare_name, storage_profile_name#} + image_mset fe_mount_name (mset (active_mounts entries)) +
            image_mset fe_swap_name (mset (active_swaps entries)))))"
proof -
  have "(\<exists>units. generate_services entries = Ok units) =
      distinct (map (\<lambda>e. path_components (fe_target e)) (active_mounts entries))"
    using generate_services_ok by blast
  then have "(\<exists>err. generate_services entries = Err err) =
      (\<not> distinct (map (\<lambda>e. path_components (fe_target e)) (active_mounts entries)))"
    by (cases "generate_services entries") auto
  moreover have "sorted (map gs_name units) \<and> mset (map gs_name units) =
        (if active_mounts entries = [] \<and> active_swaps entries = [] then {#}
         else image_mset service_file
           ({#storage_prepare_name, storage_profile_name#} + image_mset fe_mount_name (mset (active_mounts entries)) +
            image_mset fe_swap_name (mset (active_swaps entries))))"
    if "generate_services entries = Ok units" for units
  proof -
    have none: "sort_key f xs = [] \<longleftrightarrow> xs = []" for f :: "fstab_entry \<Rightarrow> 'x::linorder" and xs
      by (metis length_0_conv length_sort)
    note u = generate_services_ok[THEN iffD1, OF that, THEN conjunct2, unfolded Let_def none]
    show ?thesis
      by (cases "active_mounts entries = [] \<and> active_swaps entries = []")
        (simp_all only: u if_True if_False sorted_sort_key mset_map mset_sort mset_append mset.simps list.map
          list.size sorted_wrt.simps, simp_all add: image_mset.compositionality comp_def)
  qed
  ultimately show ?thesis by (auto split: sum.split)
qed

section \<open>Order of the mounts\<close>

definition after_line :: "service_links \<Rightarrow> string" where
  "after_line l = ''after='' @ join '' '' (sl_after l)"

lemma mount_service_lines:
  assumes "waits_for optional name (mount_links e targets)"
  shows "\<exists>ls. mount_service e targets = text_lines ls \<and> after_line (mount_links e targets) \<in> set ls"
proof -
  from assms have "sl_after (mount_links e targets) \<noteq> []" by (auto simp: waits_for_def)
  then show ?thesis by (auto simp: mount_service_def after_line_def push_words_def Let_def)
qed


definition demo_outer :: fstab_entry where
  "demo_outer = \<lparr>fe_source = ''/dev/sdb'', fe_target = ''/srv'', fe_fstype = ''ext4'',
     fe_options = [''defaults''], fe_dump = 0, fe_pass = 2, fe_line = 2\<rparr>"

lemma demo_disk_paths:
  "path_components (fe_target demo_outer) = RootDir # map Normal [''srv'']"
  "path_components (fe_target demo_disk) = RootDir # map Normal ([''srv''] @ [''my disk#2''])"
  by code_simp+

lemma demo_disks_active: "active_mounts [demo_disk, demo_outer] = [demo_disk, demo_outer]"
  by code_simp


end
