(* ===== verification/Supervisor_Base.thy ===== *)
theory Supervisor_Base
  imports Service_Record Dep_Graph
begin

text \<open>
  What the theories of \<open>crates/fractald-supervisor/src/lib.rs\<close> share: its errors, clocks, and the
  shape of a method. A method with \<open>&mut self\<close> that returns a \<open>Result\<close> is a function from the state to
  the result together with the state as the method leaves it: a method that fails half-way has
  changed what it changed before. \<open>bind_prog\<close> is the \<open>?\<close> operator of such methods.

  The contract \<open>step_contract\<close> collects how a relation between the state before and the state after
  is established for a method from its statements; each invariant of the supervisor is an
  interpretation of it.
\<close>

named_theorems prog_defs \<comment> \<open>unfolds the combinators of methods\<close>

section \<open>Errors\<close>

text \<open>
  One value per message of \<open>SupervisorError::new\<close>: \<open>ServiceProblem\<close> for the messages about a single
  named service, \<open>HostFailed\<close> for those that carry the text of an \<open>io::Error\<close>.
\<close>

datatype service_problem =
  UnknownService | DefinedTwice | AliasTaken | AliasIsService | NoDynamicIdentity | RemovesActive
| ChangesActive | IsolationRefused | ManualStartRefused | ManualStopRefused | ConflictsWithItself
| RequisitesOfUnknown | NotRunning | NoReloadCommand | NoRecordedProcess | NoBusName

datatype supervisor_error =
  ServiceProblem service_problem string
| AliasAmbiguous string string string
| DynamicRangeExhausted
| InvalidSpecificationOf spec_error
| CannotPlan string graph_error
| CannotBuildGraph graph_error
| MutuallyConflicting
| RequisiteUnavailable string string
| RequisiteInactive string string
| TransitionRefused string transition_error
| StartLimitExceeded string "32 word" duration
| NoCommand string
| NotItsProcess string "32 word"
| EmptyCommandList
| EnvironmentFileInvalid string nat string
| HostFailed string string

section \<open>Clocks\<close>

text \<open>
  \<open>Instant\<close> in nanoseconds since boot; \<open>checked_add\<close> fails when the seconds leave the range of the
  platform's \<open>timespec\<close>. \<open>duration_since\<close> saturates at zero, as subtraction on \<open>nat\<close> does.
\<close>

type_synonym instant = nat

definition instant_add :: "instant \<Rightarrow> duration \<Rightarrow> instant option" where
  "instant_add now d = (if now + d < 2 ^ 63 * 1000000000 then Some (now + d) else None)"

definition timeout_deadline :: "instant \<Rightarrow> duration \<Rightarrow> instant option" where
  "timeout_deadline now timeout = (if timeout \<noteq> duration_max then instant_add now timeout else None)"

definition saturating_add :: "duration \<Rightarrow> duration \<Rightarrow> duration" where
  "saturating_add a b = min (a + b) duration_max"

definition reached :: "instant option \<Rightarrow> instant \<Rightarrow> bool" where
  "reached deadline now = (case deadline of None \<Rightarrow> False | Some d \<Rightarrow> d \<le> now)"

section \<open>Methods\<close>

type_synonym ('st, 'a) prog = "'st \<Rightarrow> (supervisor_error + 'a) \<times> 'st"

definition return_prog :: "'a \<Rightarrow> ('st, 'a) prog" where
  [prog_defs]: "return_prog a st = (Ok a, st)"

definition raise_prog :: "supervisor_error \<Rightarrow> ('st, 'a) prog" where
  [prog_defs]: "raise_prog e st = (Err e, st)"

definition bind_prog :: "('st, 'a) prog \<Rightarrow> ('a \<Rightarrow> ('st, 'b) prog) \<Rightarrow> ('st, 'b) prog" where
  [prog_defs]: "bind_prog m f st = (case m st of (Err e, st') \<Rightarrow> (Err e, st') | (Ok a, st') \<Rightarrow> f a st')"

text \<open>\<open>match m { ... }\<close>: both results are looked at; \<open>let _ = m;\<close> is \<open>ignore_prog\<close>.\<close>

definition match_prog :: "('st, 'a) prog \<Rightarrow> (supervisor_error + 'a \<Rightarrow> ('st, 'b) prog) \<Rightarrow> ('st, 'b) prog" where
  [prog_defs]: "match_prog m f st = (case m st of (r, st') \<Rightarrow> f r st')"

definition ignore_prog :: "('st, 'a) prog \<Rightarrow> ('st, unit) prog" where
  "ignore_prog m = match_prog m (\<lambda>_. return_prog ())"

definition read_prog :: "('st \<Rightarrow> 'a) \<Rightarrow> ('st, 'a) prog" where
  [prog_defs]: "read_prog f st = (Ok (f st), st)"

definition modify_prog :: "('st \<Rightarrow> 'st) \<Rightarrow> ('st, unit) prog" where
  [prog_defs]: "modify_prog f st = (Ok (), f st)"

text \<open>\<open>if c { m }\<close>, a statement sequence, and \<open>for x in xs { f(x)?; }\<close>.\<close>

definition when_prog :: "('st \<Rightarrow> bool) \<Rightarrow> ('st, unit) prog \<Rightarrow> ('st, unit) prog" where
  [prog_defs]: "when_prog c m st = (if c st then m st else (Ok (), st))"

primrec seq_prog :: "('st, unit) prog list \<Rightarrow> ('st, unit) prog" where
  "seq_prog [] = return_prog ()"
| "seq_prog (m # ms) = bind_prog m (\<lambda>_. seq_prog ms)"

primrec each_prog :: "('a \<Rightarrow> ('st, unit) prog) \<Rightarrow> 'a list \<Rightarrow> ('st, unit) prog" where
  "each_prog f [] = return_prog ()"
| "each_prog f (x # xs) = bind_prog (f x) (\<lambda>_. each_prog f xs)"

text \<open>
  A method whose state is the part \<open>'s\<close> and a world \<open>'w\<close> next to it, run where that part is \<open>get\<close> of a
  larger state and is written back with \<open>put\<close>.
\<close>

definition zoom_prog ::
    "('big \<Rightarrow> 's) \<Rightarrow> ('s \<Rightarrow> 'big \<Rightarrow> 'big) \<Rightarrow> ('s \<times> 'w, 'a) prog \<Rightarrow> ('big \<times> 'w, 'a) prog" where
  "zoom_prog get put m = (\<lambda>(b, w). case m (get b, w) of (r, s', w') \<Rightarrow> (r, put s' b, w'))"

lemma bind_prog_ok: "bind_prog m f st = (Ok b, st'') \<longleftrightarrow>
    (\<exists>a st'. m st = (Ok a, st') \<and> f a st' = (Ok b, st''))"
  by (auto simp: prog_defs split: prod.splits sum.splits)

lemma seq_prog_ok_Cons: "seq_prog (m # ms) st = (Ok u, st'') \<longleftrightarrow>
    (\<exists>st'. m st = (Ok (), st') \<and> seq_prog ms st' = (Ok u, st''))"
  by (auto simp: bind_prog_ok)

lemma return_prog_ok: "return_prog a st = (r, st') \<longleftrightarrow> r = Ok a \<and> st' = st"
  by (auto simp: prog_defs)

lemma modify_prog_ok: "modify_prog f st = (r, st') \<longleftrightarrow> r = Ok () \<and> st' = f st"
  by (auto simp: prog_defs)

lemma read_prog_ok: "read_prog f st = (r, st') \<longleftrightarrow> r = Ok (f st) \<and> st' = st"
  by (auto simp: prog_defs)

lemma raise_prog_ok: "raise_prog e st = (r, st') \<longleftrightarrow> r = Err e \<and> st' = st"
  by (auto simp: prog_defs)

lemmas prog_ok = bind_prog_ok seq_prog_ok_Cons return_prog_ok modify_prog_ok read_prog_ok raise_prog_ok

section \<open>Step contracts\<close>

text \<open>
  \<open>R\<close> relates the states before and after a step and composes. \<open>steps m\<close>: every run of \<open>m\<close>, failing
  ones included, is a step of \<open>R\<close>.
\<close>

locale step_contract =
  fixes R :: "'st \<Rightarrow> 'st \<Rightarrow> bool"
  assumes R_refl: "R st st"
    and R_trans: "R a b \<Longrightarrow> R b c \<Longrightarrow> R a c"
begin

definition steps :: "('st, 'a) prog \<Rightarrow> bool" where
  "steps m \<longleftrightarrow> (\<forall>st. R st (snd (m st)))"

lemma stepsD: "steps m \<Longrightarrow> m st = (r, st') \<Longrightarrow> R st st'"
  unfolding steps_def by (metis snd_conv)

lemma stepsI: "(\<And>st. R st (snd (m st))) \<Longrightarrow> steps m"
  by (simp add: steps_def)

lemma steps_return: "steps (return_prog a)"
  by (rule stepsI) (simp add: prog_defs R_refl)

lemma steps_raise: "steps (raise_prog e)"
  by (rule stepsI) (simp add: prog_defs R_refl)

lemma steps_read: "steps (read_prog f)"
  by (rule stepsI) (simp add: prog_defs R_refl)

lemma steps_modify: "(\<And>st. R st (f st)) \<Longrightarrow> steps (modify_prog f)"
  by (rule stepsI) (simp add: prog_defs)

lemma steps_match:
  assumes "steps m" and "\<And>r. steps (f r)"
  shows "steps (match_prog m f)"
proof (rule stepsI)
  fix st
  obtain r st' where m: "m st = (r, st')" by fastforce
  have "R st' (snd (f r st'))" using assms(2) by (simp add: steps_def)
  with stepsD[OF assms(1) m] show "R st (snd (match_prog m f st))" using m by (auto simp: prog_defs intro: R_trans)
qed

lemma bind_prog_match:
  "bind_prog m f = match_prog m (\<lambda>r. case r of Err e \<Rightarrow> raise_prog e | Ok a \<Rightarrow> f a)"
  by (rule ext) (simp add: prog_defs split: prod.splits sum.splits)

lemma steps_bind:
  assumes "steps m" and "\<And>a. steps (f a)"
  shows "steps (bind_prog m f)"
  unfolding bind_prog_match using assms(2) by (intro steps_match assms(1)) (simp add: steps_raise split: sum.split)

lemma steps_ignore: "steps m \<Longrightarrow> steps (ignore_prog m)"
  unfolding ignore_prog_def by (intro steps_match steps_return)

lemma steps_when: "steps m \<Longrightarrow> steps (when_prog c m)"
  unfolding steps_def by (simp add: prog_defs R_refl)

lemma steps_seq: "list_all steps ms \<Longrightarrow> steps (seq_prog ms)"
  by (induction ms) (auto intro: steps_return steps_bind)

lemma steps_each: "(\<And>x. x \<in> set xs \<Longrightarrow> steps (f x)) \<Longrightarrow> steps (each_prog f xs)"
  by (induction xs) (auto intro: steps_return steps_bind)

lemma steps_if: "(c \<Longrightarrow> steps m) \<Longrightarrow> (\<not> c \<Longrightarrow> steps n) \<Longrightarrow> steps (if c then m else n)"
  by simp

lemma steps_option: "(v = None \<Longrightarrow> steps m) \<Longrightarrow> (\<And>x. v = Some x \<Longrightarrow> steps (f x)) \<Longrightarrow>
    steps (case v of None \<Rightarrow> m | Some x \<Rightarrow> f x)"
  by (cases v) auto

lemma steps_sum: "(\<And>e. v = Inl e \<Longrightarrow> steps (m e)) \<Longrightarrow> (\<And>x. v = Inr x \<Longrightarrow> steps (f x)) \<Longrightarrow>
    steps (case v of Inl e \<Rightarrow> m e | Inr x \<Rightarrow> f x)"
  by (cases v) auto

lemma steps_prod: "(\<And>a b. v = (a, b) \<Longrightarrow> steps (f a b)) \<Longrightarrow> steps (case v of (a, b) \<Rightarrow> f a b)"
  by (cases v) auto

lemma steps_bool: "steps m \<Longrightarrow> steps n \<Longrightarrow> steps (case b of True \<Rightarrow> m | False \<Rightarrow> n)"
  by (cases b) auto

lemma steps_state: "steps m1 \<Longrightarrow> steps m2 \<Longrightarrow> steps m3 \<Longrightarrow> steps m4 \<Longrightarrow> steps m5 \<Longrightarrow> steps m6 \<Longrightarrow>
    steps m7 \<Longrightarrow> steps m8 \<Longrightarrow> steps m9 \<Longrightarrow> steps (case_service_state m1 m2 m3 m4 m5 m6 m7 m8 m9 s)"
  by (cases s) auto

lemma steps_oom: "steps m1 \<Longrightarrow> steps m2 \<Longrightarrow> steps m3 \<Longrightarrow> steps (case_oom_policy m1 m2 m3 p)"
  by (cases p) auto

lemma steps_action: "(\<And>g. steps (f g)) \<Longrightarrow> (\<And>p s. steps (f' p s)) \<Longrightarrow> (\<And>g d. steps (f'' g d)) \<Longrightarrow>
    steps (case_action f f' f'' a)"
  by (cases a) auto

lemma steps_trigger: "(\<And>a b c d e p r t. steps (f a b c d e p r t)) \<Longrightarrow> (\<And>s ws. steps (f' s ws)) \<Longrightarrow>
    steps (case_trigger_spec f f' v)"
  by (cases v) auto

lemma steps_Nil: "list_all steps []"
  by simp

lemma steps_Cons: "steps m \<Longrightarrow> list_all steps ms \<Longrightarrow> list_all steps (m # ms)"
  by simp

lemma steps_append: "list_all steps ms \<Longrightarrow> list_all steps ns \<Longrightarrow> list_all steps (ms @ ns)"
  by simp

lemma steps_map: "(\<And>x. steps (f x)) \<Longrightarrow> list_all steps (map f xs)"
  by (simp add: list_all_iff)

lemma steps_concat: "(\<And>x. list_all steps (f x)) \<Longrightarrow> list_all steps (concat (map f xs))"
  by (simp add: list_all_iff)

lemma steps_run: "steps m \<Longrightarrow> R st (snd (m st))"
  by (simp add: steps_def)

lemmas steps_rules = steps_return steps_raise steps_read steps_match steps_bind steps_ignore
  steps_when steps_seq steps_each steps_if steps_option steps_sum steps_prod
  steps_bool steps_state steps_oom steps_action steps_trigger steps_Nil steps_Cons steps_append steps_map steps_concat

end

text \<open>A relation that contains another one: every method of the finer contract keeps the coarser.\<close>

locale coarser_contract = fine: step_contract R + coarse: step_contract S
  for R S :: "'st \<Rightarrow> 'st \<Rightarrow> bool" +
  assumes coarser: "R st st' \<Longrightarrow> S st st'"
begin

lemma steps_coarser: "fine.steps m \<Longrightarrow> coarse.steps m"
  by (simp add: fine.steps_def coarse.steps_def coarser)

end

end
