(* ===== verification/Supervisor_Text.thy ===== *)
theory Supervisor_Text
  imports Supervisor_Base Config_Values
begin

text \<open>
  The text processing of \<open>crates/fractald-supervisor/src/lib.rs\<close> between a specification and the
  command line of a process: specifiers and environment variables in arguments, the shell script of
  the helper commands, and environment files. The file system, the process environment and the user
  id are what the host shows at the time of the call, the record \<open>platform\<close>.
\<close>

record file_stat =
  fs_is_dir :: bool
  fs_is_file :: bool
  fs_is_symlink :: bool
  fs_len :: nat
  fs_mode :: "32 word"
  fs_modified :: "int option"
  fs_dev :: "64 word"

record platform =
  pf_env :: environment
  pf_read :: "string \<Rightarrow> string option" \<comment> \<open>\<open>fs::read_to_string(path).ok()\<close>\<close>
  pf_not_found :: "string \<Rightarrow> bool" \<comment> \<open>reading it fails with \<open>NotFound\<close>\<close>
  pf_stat :: "string \<Rightarrow> file_stat option" \<comment> \<open>\<open>fs::metadata\<close>\<close>
  pf_lstat :: "string \<Rightarrow> file_stat option" \<comment> \<open>\<open>fs::symlink_metadata\<close>\<close>
  pf_list :: "string \<Rightarrow> string list option" \<comment> \<open>the names \<open>fs::read_dir\<close> yields\<close>
  pf_canonical :: "string \<Rightarrow> string option" \<comment> \<open>\<open>fs::canonicalize\<close>\<close>
  pf_glob :: "string \<Rightarrow> bool" \<comment> \<open>\<open>path_exists_glob\<close>, a walk over directories\<close>
  pf_uid :: "32 word" \<comment> \<open>\<open>fractald_platform::effective_uid()\<close>, zero for root\<close>

section \<open>Replacement\<close>

text \<open>\<open>str::replace\<close> of a non-empty pattern: the matches from the left, none overlapping.\<close>

function replace :: "string \<Rightarrow> string \<Rightarrow> string \<Rightarrow> string" where
  "replace pat new s =
     (if s = [] then []
      else if pat \<noteq> [] \<and> starts_with s pat then new @ replace pat new (drop (length pat) s)
      else hd s # replace pat new (tl s))"
  by auto
termination by (relation "measure (\<lambda>(pat, new, s). length s)") (auto simp: Suc_le_eq)

declare replace.simps [simp del]

definition shell_quote :: "string \<Rightarrow> string" where
  "shell_quote value = [CHR 0x27] @ replace [CHR 0x27] [CHR 0x27, CHR 0x5C, CHR 0x27, CHR 0x27] value @ [CHR 0x27]"

definition expand_main_pid :: "string \<Rightarrow> 32 word \<Rightarrow> string" where
  "expand_main_pid argument pid =
     (let p = show_nat (unat pid) in replace ''$MAINPID'' p (replace ''${MAINPID}'' p argument))"

section \<open>Specifiers\<close>

definition credential_root :: "platform \<Rightarrow> string option" where
  "credential_root pf =
     (let root = (case pf_env pf ''FRACTALD_CREDENTIALS_ROOT'' of
                    Some path \<Rightarrow> path
                  | None \<Rightarrow>
                      if pf_uid pf = 0 then ''/run/credentials''
                      else path_join
                        (env_or (pf_env pf) [''XDG_RUNTIME_DIR''] (''/tmp/fractald-runtime-'' @ show_nat (unat (pf_uid pf))))
                        ''fractald/credentials'')
      in if root = [] then None else Some root)"

definition credential_directory_path :: "platform \<Rightarrow> service_spec \<Rightarrow> string option" where
  "credential_directory_path pf spec = map_option (\<lambda>root. path_join root (sp_name spec)) (credential_root pf)"

definition service_specifier :: "platform \<Rightarrow> service_spec \<Rightarrow> rchar \<Rightarrow> string option" where
  "service_specifier pf spec specifier =
     (let name = sp_name spec; stem = service_stem name;
          (prefix, inst) = (case rsplit_once CHR ''@'' stem of
                              Some (p, i) \<Rightarrow> (p, Some i) | None \<Rightarrow> (stem, None));
          uid = show_nat (unat (pf_uid pf));
          read = (\<lambda>path. map_option trim (pf_read pf path))
      in if specifier = ''n'' then Some name
         else if specifier = ''N'' then Some stem
         else if specifier \<in> {''p'', ''P''} then Some prefix
         else if specifier \<in> {''i'', ''I'', ''f''} then Some (case inst of Some i \<Rightarrow> i | None \<Rightarrow> [])
         else if specifier = ''t'' then
           Some (env_or (pf_env pf) [''FRACTALD_RUNTIME_DIR'', ''XDG_RUNTIME_DIR''] ''/run'')
         else if specifier = ''S'' then
           Some (env_or (pf_env pf) [''FRACTALD_STATE_DIR'', ''XDG_STATE_HOME''] ''/var/lib/fractald'')
         else if specifier = ''d'' then credential_directory_path pf spec
         else if specifier = ''u'' then
           Some (case sp_user spec of Some u \<Rightarrow> u | None \<Rightarrow> env_or (pf_env pf) [''USER''] uid)
         else if specifier = ''U'' then Some uid
         else if specifier = ''h'' then Some (env_or (pf_env pf) [''HOME''] ''/root'')
         else if specifier = ''v'' then read ''/proc/sys/kernel/osrelease''
         else if specifier = ''b'' then read ''/proc/sys/kernel/random/boot_id''
         else if specifier = ''m'' then read ''/etc/machine-id''
         else if specifier = ''H'' then read ''/etc/hostname''
         else None)"

fun expand_specifier_chars :: "(rchar \<Rightarrow> string option) \<Rightarrow> rchar list \<Rightarrow> string" where
  "expand_specifier_chars look [] = []"
| "expand_specifier_chars look (ch # cs) =
     (if ch \<noteq> ''%'' then ch @ expand_specifier_chars look cs
      else (case cs of
              [] \<Rightarrow> ''%''
            | sp # rest \<Rightarrow>
                if sp = ''%'' then ''%'' @ expand_specifier_chars look rest
                else (case look sp of
                        Some v \<Rightarrow> v @ expand_specifier_chars look rest
                      | None \<Rightarrow> ''%'' @ sp @ expand_specifier_chars look rest)))"

definition expand_specifiers :: "platform \<Rightarrow> string \<Rightarrow> service_spec \<Rightarrow> string" where
  "expand_specifiers pf argument spec =
     expand_specifier_chars (service_specifier pf spec) (chars argument)"

section \<open>Environment variables\<close>

definition name_start :: "rchar \<Rightarrow> bool" where
  "name_start = ascii_char (\<lambda>c. is_ascii_alphabetic c \<or> c = CHR ''_'')"

definition name_char :: "rchar \<Rightarrow> bool" where
  "name_char = ascii_char (\<lambda>c. is_ascii_alphanumeric c \<or> c = CHR ''_'')"

text \<open>The value of a variable: of the service, then of the manager, else nothing.\<close>

definition variable_value :: "platform \<Rightarrow> (string, string) bmap \<Rightarrow> string \<Rightarrow> string" where
  "variable_value pf vars name =
     (case map_of vars name of Some v \<Rightarrow> v
      | None \<Rightarrow> (case pf_env pf name of Some v \<Rightarrow> v | None \<Rightarrow> []))"

text \<open>The loop over \<open>characters\<close>, from position \<open>index\<close> on.\<close>

function expand_environment_chars :: "(string \<Rightarrow> string) \<Rightarrow> rchar list \<Rightarrow> string" where
  "expand_environment_chars look [] = []"
| "expand_environment_chars look (c # cs) =
     (if c \<noteq> ''$'' then c @ expand_environment_chars look cs
      else case cs of
             [] \<Rightarrow> ''$'' @ expand_environment_chars look []
           | d # rest \<Rightarrow>
               if d = ''$'' then ''$'' @ expand_environment_chars look rest
               else if d = ''{'' then
                 (let after = dropWhile (\<lambda>c. c \<noteq> ''}'') rest
                  in if after = [] then ''$'' @ expand_environment_chars look (d # rest)
                     else look (concat (takeWhile (\<lambda>c. c \<noteq> ''}'') rest)) @ expand_environment_chars look (tl after))
               else if name_start d then
                 look (concat (d # takeWhile name_char rest)) @ expand_environment_chars look (dropWhile name_char rest)
               else ''$'' @ expand_environment_chars look (d # rest))"
  by pat_completeness auto
termination
  by (relation "measure (\<lambda>(look, cs). length cs)")
    (auto simp: less_Suc_eq_le le_SucI length_dropWhile_le intro: le_trans[OF diff_le_self])

declare expand_environment_chars.simps(2) [simp del]

definition expand_environment :: "platform \<Rightarrow> string \<Rightarrow> (string, string) bmap \<Rightarrow> string" where
  "expand_environment pf argument vars =
     expand_environment_chars (variable_value pf vars) (chars argument)"

definition expand_command_argument ::
    "platform \<Rightarrow> string \<Rightarrow> service_spec \<Rightarrow> (string, string) bmap \<Rightarrow> 32 word option \<Rightarrow> bool \<Rightarrow> string" where
  "expand_command_argument pf argument spec vars main_pid expand =
     (let argument = (case main_pid of Some pid \<Rightarrow> expand_main_pid argument pid | None \<Rightarrow> argument);
          argument = expand_specifiers pf argument spec
      in if expand then expand_environment pf argument vars else argument)"

section \<open>The script of helper commands\<close>

definition command_line :: "platform \<Rightarrow> service_spec \<Rightarrow> (string, string) bmap \<Rightarrow> 32 word option \<Rightarrow> command_spec \<Rightarrow> string" where
  "command_line pf spec vars main_pid command =
     (let expand = (\<lambda>a. shell_quote (expand_command_argument pf a spec vars main_pid (cmd_expand_environment command)))
      in expand (cmd_program command) @ concat (map (\<lambda>a. '' '' @ expand a) (cmd_args command)) @
         (if cmd_ignore_failure command then '' || true'' else []) @ [CHR 0x0A])"

definition shell_script ::
    "platform \<Rightarrow> command_spec list \<Rightarrow> 32 word option \<Rightarrow> service_spec \<Rightarrow> (string, string) bmap \<Rightarrow>
     supervisor_error + string" where
  "shell_script pf commands main_pid spec vars =
     (if commands = [] then Err EmptyCommandList
      else Ok (''set -e'' @ [CHR 0x0A] @ concat (map (command_line pf spec vars main_pid) commands)))"

section \<open>Environment files\<close>

definition unescape_value_char :: "rchar \<Rightarrow> rchar" where
  "unescape_value_char ch =
     (if ch = ''n'' then [CHR 0x0A] else if ch = ''r'' then [CHR 0x0D]
      else if ch = ''t'' then [CHR 0x09] else ch)"

fun parse_value_chars :: "rchar option \<Rightarrow> bool \<Rightarrow> string \<Rightarrow> rchar list \<Rightarrow> string + string" where
  "parse_value_chars quote escaped output [] =
     (if escaped then Err ''value ends with an escape''
      else if quote \<noteq> None then Err ''unterminated quoted value''
      else Ok (trim_end output))"
| "parse_value_chars quote escaped output (ch # cs) =
     (if escaped then parse_value_chars quote False (output @ unescape_value_char ch) cs
      else if quote \<noteq> Some [CHR 0x27] \<and> ch = [CHR 0x5C] then parse_value_chars quote True output cs
      else if quote = Some ch then
        (if list_ex (\<lambda>r. \<not> char_is_whitespace r) cs then Err ''trailing characters after quoted value''
         else Ok output)
      else parse_value_chars quote False (output @ ch) cs)"

definition parse_environment_value :: "string \<Rightarrow> string + string" where
  "parse_environment_value value =
     (case chars value of
        [] \<Rightarrow> Ok []
      | ch # cs \<Rightarrow>
          if ch = [CHR 0x27] \<or> ch = [CHR 0x22] then parse_value_chars (Some ch) False [] cs
          else parse_value_chars None False [] (ch # cs))"

definition parse_environment_line ::
    "string \<Rightarrow> nat \<times> string \<Rightarrow> (string, string) bmap \<Rightarrow> supervisor_error + (string, string) bmap" where
  "parse_environment_line path = (\<lambda>(number, raw) vars.
     (let line = trim raw
      in if line = [] \<or> starts_with line ''#'' \<or> starts_with line '';'' then Ok vars
         else
           (let line = trim_start (case strip_prefix ''export '' line of Some l \<Rightarrow> l | None \<Rightarrow> line)
            in case split_once CHR ''='' line of
                 None \<Rightarrow> Err (EnvironmentFileInvalid path number (''missing '' @ [CHR 0x27, CHR 0x3D, CHR 0x27]))
               | Some (key, value) \<Rightarrow>
                   if \<not> valid_environment_name key
                   then Err (EnvironmentFileInvalid path number ''invalid variable name'')
                   else (case parse_environment_value (trim value) of
                           Err m \<Rightarrow> Err (EnvironmentFileInvalid path number m)
                         | Ok v \<Rightarrow> Ok (bmap_insert key v vars)))))"

definition parse_environment_file ::
    "string \<Rightarrow> string \<Rightarrow> (string, string) bmap \<Rightarrow> supervisor_error + (string, string) bmap" where
  "parse_environment_file source path =
     fold_try (parse_environment_line path) (enumerate 1 (lines source))"

section \<open>Quoting is exact\<close>

text \<open>
  How a POSIX shell splits a line into words: blanks separate, a backslash takes the next character
  literally, single quotes take everything up to the next one literally. Any other character with a
  meaning of its own outside quotes gives \<open>None\<close>.
\<close>

definition shell_special :: string where
  "shell_special = ''|&;<>()$`*?[]#~=%!{}'' @ [CHR 0x22, CHR 0x0A, CHR 0x09]"

fun shell_words :: "string option \<Rightarrow> bool \<Rightarrow> string \<Rightarrow> string list option" where
  "shell_words cur True [] = None"
| "shell_words cur True (c # s) =
     (if c = CHR 0x27 then shell_words cur False s else shell_words (map_option (\<lambda>w. w @ [c]) cur) True s)"
| "shell_words cur False [] = Some (case cur of None \<Rightarrow> [] | Some w \<Rightarrow> [w])"
| "shell_words cur False (c # s) =
     (let w = (case cur of None \<Rightarrow> [] | Some w \<Rightarrow> w)
      in if c = CHR '' '' then map_option ((@) (case cur of None \<Rightarrow> [] | Some w \<Rightarrow> [w])) (shell_words None False s)
         else if c = CHR 0x27 then shell_words (Some w) True s
         else if c = CHR 0x5C then
           (case s of [] \<Rightarrow> None | d # s' \<Rightarrow> shell_words (Some (w @ [d])) False s')
         else if c \<in> set shell_special then None
         else shell_words (Some (w @ [c])) False s)"

lemma replace_Cons:
  "replace [q] new [] = []"
  "replace [q] new (c # s) = (if c = q then new @ replace [q] new s else c # replace [q] new s)"
  by (simp_all add: replace.simps[of "[q]"] starts_with_def)

lemma shell_words_quoted:
  "shell_words (Some w) True (replace [CHR 0x27] [CHR 0x27, CHR 0x5C, CHR 0x27, CHR 0x27] v @ CHR 0x27 # rest) =
     shell_words (Some (w @ v)) False rest"
  by (induction v arbitrary: w) (simp_all add: replace_Cons)

lemma shell_words_shell_quote:
  "shell_words None False (shell_quote v @ rest) = shell_words (Some v) False rest"
  using shell_words_quoted[of "[]" v rest] by (simp add: shell_quote_def)

lemma shell_words_quote_list:
  "shell_words (Some w) False (concat (map (\<lambda>a. '' '' @ shell_quote a) vs)) = Some (w # vs)"
  by (induction vs arbitrary: w) (simp_all add: shell_words_shell_quote)

text \<open>
  C19: a helper command reaches the shell as it is configured: whatever characters the program and
  its arguments contain after expansion, the shell reads back exactly these words, so no value can
  add, split or end a command.
\<close>

theorem command_line_words:
  "\<exists>line. command_line pf spec vars main_pid command =
       line @ (if cmd_ignore_failure command then '' || true'' else []) @ [CHR 0x0A] \<and>
     shell_words None False line =
       Some (map (\<lambda>a. expand_command_argument pf a spec vars main_pid (cmd_expand_environment command))
               (cmd_program command # cmd_args command))"
proof -
  let ?e = "\<lambda>a. expand_command_argument pf a spec vars main_pid (cmd_expand_environment command)"
  let ?line = "shell_quote (?e (cmd_program command)) @ concat (map (\<lambda>a. '' '' @ shell_quote a) (map ?e (cmd_args command)))"
  have "command_line pf spec vars main_pid command =
      ?line @ (if cmd_ignore_failure command then '' || true'' else []) @ [CHR 0x0A]"
    by (simp add: command_line_def Let_def comp_def)
  moreover have "shell_words None False ?line = Some (map ?e (cmd_program command # cmd_args command))"
    unfolding shell_words_shell_quote shell_words_quote_list by simp
  ultimately show ?thesis by blast
qed

end
