(* ===== verification/Calendar.thy ===== *)
theory Calendar
  imports Supervisor_Text
begin

text \<open>
  The calendar expressions of timers, \<open>crates/fractald-supervisor/src/lib.rs\<close>: the civil date of a
  day number, the matching of expressions against a time, and the search for a schedule that was
  missed while the machine was down. A \<open>SystemTime\<close> is its distance from the epoch in nanoseconds.
\<close>

type_synonym system_time = int

definition epoch_secs :: "system_time \<Rightarrow> nat option" where \<comment> \<open>\<open>duration_since(UNIX_EPOCH).ok()?.as_secs()\<close>\<close>
  "epoch_secs now = (if now < 0 then None else Some (nat (now div 1000000000)))"

definition sat_add_u64 :: "nat \<Rightarrow> nat \<Rightarrow> nat" where
  "sat_add_u64 a b = min (a + b) (2 ^ 64 - 1)"

section \<open>Civil dates\<close>

text \<open>The source rounds \<open>shifted / 146_097\<close> towards minus infinity by hand, as \<open>div\<close> does.\<close>

definition civil_date :: "int \<Rightarrow> int \<times> nat \<times> nat" where
  "civil_date days =
     (let shifted = days + 719468;
          era = shifted div 146097;
          day_of_era = shifted - era * 146097;
          year_of_era = (day_of_era - day_of_era div 1460 + day_of_era div 36524 - day_of_era div 146096) div 365;
          year = year_of_era + era * 400;
          day_of_year = day_of_era - (365 * year_of_era + year_of_era div 4 - year_of_era div 100);
          month_part = (5 * day_of_year + 2) div 153;
          day = day_of_year - (153 * month_part + 2) div 5 + 1;
          month = month_part + (if month_part < 10 then 3 else - 9);
          year = year + (if month \<le> 2 then 1 else 0)
      in (signed_take_bit 31 year, nat month, nat day))"

section \<open>Expressions\<close>

record civil_time =
  ct_year :: int
  ct_month :: nat
  ct_day :: nat
  ct_hour :: nat
  ct_minute :: nat
  ct_second :: nat
  ct_weekday :: nat

definition civil_time_of :: "nat \<Rightarrow> civil_time" where
  "civil_time_of seconds =
     (let days = int (seconds div 86400); day_seconds = seconds mod 86400;
          (year, month, day) = civil_date days
      in \<lparr>ct_year = year, ct_month = month, ct_day = day, ct_hour = day_seconds div 3600,
          ct_minute = (day_seconds mod 3600) div 60, ct_second = day_seconds mod 60,
          ct_weekday = nat ((days + 4) mod 7)\<rparr>)"

text \<open>\<open>split("..")\<close> and \<open>split([',', '.'])\<close>.\<close>

fun split_dots :: "string \<Rightarrow> string list" where
  "split_dots [] = [[]]"
| "split_dots [c] = [[c]]"
| "split_dots (c # d # s) =
     (if c = CHR ''.'' \<and> d = CHR ''.'' then [] # split_dots s
      else (case split_dots (d # s) of [] \<Rightarrow> [[c]] | p # ps \<Rightarrow> (c # p) # ps))"

definition split_comma_dot :: "string \<Rightarrow> string list" where
  "split_comma_dot s = concat (map (split_char CHR ''.'') (split_char CHR '','' s))"

definition looks_like_date :: "string \<Rightarrow> bool" where
  "looks_like_date value =
     (let components = split_char CHR ''-'' value
      in length components = 3 \<and>
         list_all (\<lambda>c. c \<noteq> [] \<and> list_all (\<lambda>ch. is_ascii_digit ch \<or> ch \<in> set ''*.,/'') c) components)"

definition weekday_table :: "(string \<times> nat) list" where
  "weekday_table =
     [(''sun'', 0), (''sunday'', 0), (''mon'', 1), (''monday'', 1), (''tue'', 2), (''tuesday'', 2),
      (''wed'', 3), (''wednesday'', 3), (''thu'', 4), (''thursday'', 4), (''fri'', 5), (''friday'', 5),
      (''sat'', 6), (''saturday'', 6)]"

definition weekday_number :: "string \<Rightarrow> nat option" where
  "weekday_number value = map_of weekday_table (to_ascii_lowercase value)"

definition looks_like_weekday :: "string \<Rightarrow> bool" where
  "looks_like_weekday value = list_ex (\<lambda>part. weekday_number part \<noteq> None) (split_comma_dot value)"

definition weekday_part_matches :: "nat \<Rightarrow> string \<Rightarrow> bool" where
  "weekday_part_matches weekday part =
     (case split_dots part of
        [single] \<Rightarrow> weekday_number single = Some weekday
      | [a, b] \<Rightarrow>
          (case (weekday_number a, weekday_number b) of
             (Some f, Some l) \<Rightarrow> if f \<le> l then f \<le> weekday \<and> weekday \<le> l else f \<le> weekday \<or> weekday \<le> l
           | _ \<Rightarrow> False)
      | _ \<Rightarrow> False)"

definition weekday_matches :: "string \<Rightarrow> nat \<Rightarrow> bool" where
  "weekday_matches expression weekday = list_ex (weekday_part_matches weekday) (split_char CHR '','' expression)"

definition component_part_matches :: "nat \<Rightarrow> string \<Rightarrow> bool" where
  "component_part_matches value part =
     (let (base, step) = (case split_once CHR ''/'' part of
                            None \<Rightarrow> (part, 1)
                          | Some (base, step) \<Rightarrow> (base, case parse_u32 step of Some n \<Rightarrow> unat n | None \<Rightarrow> 0))
      in if step = 0 then False
         else if base = ''*'' then value mod step = 0
         else (case split_dots base of
                 [single] \<Rightarrow> (case parse_u32 single of
                    Some n \<Rightarrow> unat n \<le> value \<and> (value - unat n) mod step = 0 | None \<Rightarrow> False)
               | [a, b] \<Rightarrow> (case (parse_u32 a, parse_u32 b) of
                    (Some f, Some l) \<Rightarrow> unat f \<le> value \<and> value \<le> unat l \<and> (value - unat f) mod step = 0
                  | _ \<Rightarrow> False)
               | _ \<Rightarrow> False))"

definition matches_component :: "string \<Rightarrow> nat \<Rightarrow> bool" where
  "matches_component expression value = list_ex (component_part_matches value) (split_char CHR '','' expression)"

section \<open>Matching\<close>

definition calendar_aliases :: "(string \<times> (civil_time \<Rightarrow> bool)) list" where
  "calendar_aliases =
     (let midnight = (\<lambda>t. ct_hour t = 0 \<and> ct_minute t = 0 \<and> ct_second t = 0)
      in [(''minutely'', \<lambda>t. ct_second t = 0),
          (''hourly'', \<lambda>t. ct_minute t = 0 \<and> ct_second t = 0),
          (''daily'', midnight), (''midnight'', midnight),
          (''weekly'', \<lambda>t. ct_weekday t = 0 \<and> midnight t),
          (''monthly'', \<lambda>t. ct_day t = 1 \<and> midnight t),
          (''quarterly'', \<lambda>t. ct_month t \<in> {1, 4, 7, 10} \<and> ct_day t = 1 \<and> midnight t),
          (''yearly'', \<lambda>t. ct_month t = 1 \<and> ct_day t = 1 \<and> midnight t),
          (''annually'', \<lambda>t. ct_month t = 1 \<and> ct_day t = 1 \<and> midnight t)])"

record calendar_fields =
  cf_weekday :: "string option"
  cf_date :: "string option"
  cf_clock :: "string option"

text \<open>One round of the loop over the tokens; \<open>None\<close> is the early return.\<close>

definition add_token :: "string \<Rightarrow> calendar_fields \<Rightarrow> calendar_fields option" where
  "add_token word f =
     (if eq_ignore_ascii_case word ''utc'' \<or> eq_ignore_ascii_case word ''local'' then Some f
      else if CHR '':'' \<in> set word then
        (if cf_clock f \<noteq> None then None else Some (f\<lparr>cf_clock := Some word\<rparr>))
      else if looks_like_date word then
        (if cf_date f \<noteq> None then None else Some (f\<lparr>cf_date := Some word\<rparr>))
      else if looks_like_weekday word then
        (if cf_weekday f \<noteq> None then None else Some (f\<lparr>cf_weekday := Some word\<rparr>))
      else None)"

primrec scan_tokens :: "string list \<Rightarrow> calendar_fields \<Rightarrow> calendar_fields option" where
  "scan_tokens [] f = Some f"
| "scan_tokens (t # ts) f = (case add_token t f of None \<Rightarrow> None | Some f' \<Rightarrow> scan_tokens ts f')"

definition date_matches :: "string \<Rightarrow> civil_time \<Rightarrow> bool" where
  "date_matches date time =
     (case split_char CHR ''-'' date of
        [year, month, day] \<Rightarrow> matches_component year (nat (ct_year time mod 2 ^ 32)) \<and>
          matches_component month (ct_month time) \<and> matches_component day (ct_day time)
      | _ \<Rightarrow> False)"

definition clock_matches :: "string \<Rightarrow> civil_time \<Rightarrow> bool" where
  "clock_matches clock time =
     (let components = split_char CHR '':'' clock
      in if length components \<notin> {2, 3} then False
         else
           (let second = (if length components = 3 then hd (split_char CHR ''.'' (components ! 2)) else ''0'')
            in matches_component (components ! 0) (ct_hour time) \<and>
               matches_component (components ! 1) (ct_minute time) \<and> matches_component second (ct_second time)))"

definition fields_match :: "calendar_fields \<Rightarrow> civil_time \<Rightarrow> bool" where
  "fields_match f time \<longleftrightarrow>
     (case cf_weekday f of Some w \<Rightarrow> weekday_matches w (ct_weekday time) | None \<Rightarrow> True) \<and>
     (case cf_date f of Some d \<Rightarrow> date_matches d time | None \<Rightarrow> True) \<and>
     (case cf_clock f of
        Some c \<Rightarrow> clock_matches c time
      | None \<Rightarrow> (cf_weekday f \<noteq> None \<or> cf_date f \<noteq> None) \<and>
                ct_hour time = 0 \<and> ct_minute time = 0 \<and> ct_second time = 0)"

definition calendar_match_secs :: "string \<Rightarrow> nat \<Rightarrow> bool" where
  "calendar_match_secs raw seconds =
     (let time = civil_time_of seconds; expression = trim raw
      in case map_of calendar_aliases (to_ascii_lowercase expression) of
           Some holds \<Rightarrow> holds time
         | None \<Rightarrow>
             (let tokens = split_whitespace expression
              in tokens \<noteq> [] \<and>
                 (case scan_tokens tokens \<lparr>cf_weekday = None, cf_date = None, cf_clock = None\<rparr> of
                    None \<Rightarrow> False | Some f \<Rightarrow> fields_match f time)))"

definition calendar_match :: "string \<Rightarrow> system_time \<Rightarrow> nat option" where
  "calendar_match expression now =
     (case epoch_secs now of
        None \<Rightarrow> None
      | Some seconds \<Rightarrow> if calendar_match_secs expression seconds then Some seconds else None)"

section \<open>Missed schedules\<close>

definition second_precision :: "string \<Rightarrow> bool" where
  "second_precision expression =
     list_ex (\<lambda>word. case split_char CHR '':'' word of
                _ # _ # third # _ \<Rightarrow> (case parse_u32 (hd (split_char CHR ''.'' third)) of
                                       Some n \<Rightarrow> n \<noteq> 0 | None \<Rightarrow> False)
              | _ \<Rightarrow> False)
       (filter (\<lambda>word. CHR '':'' \<in> set word) (split_whitespace expression))"

definition scan_step :: "bool \<Rightarrow> nat" where
  "scan_step precise = (if precise then 1 else 60)"

text \<open>The \<open>while\<close> loop: is there a match between \<open>candidate\<close> and \<open>scan_end\<close>?\<close>

function scan_calendar :: "string \<Rightarrow> bool \<Rightarrow> nat \<Rightarrow> nat \<Rightarrow> bool" where
  "scan_calendar expression precise scan_end candidate =
     (if scan_end < candidate then False
      else if calendar_match_secs expression candidate then True
      else
        (let next = sat_add_u64 candidate (scan_step precise)
         in if next = 2 ^ 64 - 1 then False else scan_calendar expression precise scan_end next))"
  by auto
termination
  by (relation "measure (\<lambda>(e, p, scan_end, c). Suc scan_end - c)")
    (auto simp: sat_add_u64_def scan_step_def min_def split: if_splits)

declare scan_calendar.simps [simp del]

definition scan_window :: nat where
  "scan_window = 370 * 86400"

definition calendar_missed_since :: "string \<Rightarrow> system_time \<Rightarrow> system_time \<Rightarrow> bool" where
  "calendar_missed_since expression since now =
     (if now \<le> since then False
      else case (epoch_secs now, epoch_secs since) of
             (Some now_seconds, Some last_seconds) \<Rightarrow>
               (let precise = second_precision expression;
                    first = sat_add_u64 last_seconds 1;
                    candidate = (if precise then first else min ((first + 59) div 60 * 60) (2 ^ 64 - 1));
                    scan_end = min now_seconds (sat_add_u64 last_seconds scan_window)
                in scan_calendar expression precise scan_end candidate \<or>
                   sat_add_u64 last_seconds scan_window < now_seconds)
           | _ \<Rightarrow> False)"

section \<open>Timer state\<close>

definition timer_state_directory :: "platform \<Rightarrow> string" where
  "timer_state_directory pf =
     (case pf_env pf ''FRACTALD_TIMER_STATE_DIR'' of
        Some path \<Rightarrow> path
      | None \<Rightarrow>
          (case pf_env pf ''FRACTALD_STATE_DIR'' of
             Some path \<Rightarrow> path_join path ''timers''
           | None \<Rightarrow>
               if pf_uid pf = 0 then ''/var/lib/fractald/timers''
               else (case pf_env pf ''XDG_STATE_HOME'' of
                       Some path \<Rightarrow> path_join path ''fractald/timers''
                     | None \<Rightarrow>
                         (case pf_env pf ''HOME'' of
                            Some home \<Rightarrow> path_join home ''.local/state/fractald/timers''
                          | None \<Rightarrow> ''/tmp/fractald-timers-'' @ show_nat (unat (pf_uid pf))))))"

definition timer_state_path :: "platform \<Rightarrow> service_spec \<Rightarrow> string" where
  "timer_state_path pf spec = path_join (timer_state_directory pf) (sp_name spec @ ''.last'')"

text \<open>\<open>UNIX_EPOCH.checked_add\<close> fails beyond the seconds of the platform's \<open>timespec\<close>.\<close>

definition timer_last_fire :: "platform \<Rightarrow> service_spec \<Rightarrow> system_time option" where
  "timer_last_fire pf spec =
     (case pf_read pf (timer_state_path pf spec) of
        None \<Rightarrow> None
      | Some text \<Rightarrow>
          (case parse_u64 (trim text) of
             None \<Rightarrow> None
           | Some seconds \<Rightarrow> if unat seconds < 2 ^ 63 then Some (int (unat seconds) * 1000000000) else None))"

definition timer_has_missed_schedule :: "platform \<Rightarrow> service_spec \<Rightarrow> system_time \<Rightarrow> bool" where
  "timer_has_missed_schedule pf spec now =
     (case timer_last_fire pf spec of
        None \<Rightarrow> False
      | Some since \<Rightarrow>
          (case sp_trigger spec of
             Some (TriggerTimer _ _ on_unit_active on_unit_inactive on_calendar _ _ _) \<Rightarrow>
               list_ex (\<lambda>expression. calendar_missed_since expression since now) on_calendar \<or>
               list_ex (\<lambda>delay. case delay of None \<Rightarrow> False | Some d \<Rightarrow> since \<le> now \<and> int d \<le> now - since)
                 [on_unit_active, on_unit_inactive]
           | _ \<Rightarrow> False))"

text \<open>\<open>hash\<close> is what \<open>DefaultHasher\<close> makes of the name, the process id and the time.\<close>

definition timer_random_delay :: "64 word \<Rightarrow> duration \<Rightarrow> duration" where
  "timer_random_delay hash maximum =
     (if maximum = 0 then 0 else unat hash mod min (maximum + 1) (2 ^ 128 - 1))"

lemma timer_random_delay_le: "timer_random_delay hash maximum \<le> maximum"
proof -
  have "x mod m \<le> maximum" if "m \<le> maximum + 1" "0 < m" for x m :: nat
    using mod_less_divisor[OF that(2), of x] that(1) by linarith
  from this[of "min (maximum + 1) (2 ^ 128 - 1)"] show ?thesis unfolding timer_random_delay_def by simp
qed

section \<open>Plain numbers in expressions\<close>

lemma show_nat_no: "\<not> is_ascii_digit c \<Longrightarrow> c \<notin> set (show_nat n)"
  using show_nat_digits by blast

lemma split_once_none: "c \<notin> set s \<Longrightarrow> split_once c s = None"
  by (induction s) auto

lemma split_dots_word: "CHR ''.'' \<notin> set w \<Longrightarrow> split_dots w = [w]"
  by (induction w rule: split_dots.induct) auto

lemma parse_u32_number: "n < 2 ^ 32 \<Longrightarrow> parse_u32 (show_nat n) = Some (of_nat n)"
  by (simp add: parse_u32_def parse_unsigned_show_nat)

lemma matches_plain_number:
  assumes "n < 2 ^ 32"
  shows "matches_component (show_nat n) v \<longleftrightarrow> n \<le> v"
proof -
  have no: "CHR '','' \<notin> set (show_nat n)" "CHR ''/'' \<notin> set (show_nat n)" "CHR ''.'' \<notin> set (show_nat n)"
    "CHR ''*'' \<notin> set (show_nat n)"
    by (intro show_nat_no; simp add: byte_class_defs)+
  then have "show_nat n \<noteq> ''*''" by auto
  moreover have "unat (of_nat n :: 32 word) = n" using assms by (simp add: unsigned_of_nat take_bit_nat_eq_self)
  ultimately show ?thesis
    using no assms by (simp add: matches_component_def component_part_matches_def split_char_word split_once_none
        split_dots_word parse_u32_number)
qed

text \<open>
  A plain number in a clock is a lower bound and not an equality: a clock written with three
  numbers matches every time whose hour, minute and second are each at least the number, so a timer
  for two o'clock fires at every second from then to midnight.
\<close>

theorem plain_clock_is_lower_bound:
  assumes "h < 2 ^ 32" and "m < 2 ^ 32" and "s < 2 ^ 32"
  shows "clock_matches (show_nat h @ '':'' @ show_nat m @ '':'' @ show_nat s) t \<longleftrightarrow>
         h \<le> ct_hour t \<and> m \<le> ct_minute t \<and> s \<le> ct_second t"
proof -
  have colon: "CHR '':'' \<notin> set (show_nat k)" "CHR ''.'' \<notin> set (show_nat k)" for k
    by (intro show_nat_no; simp add: byte_class_defs)+
  then have "split_char CHR '':'' (show_nat h @ '':'' @ show_nat m @ '':'' @ show_nat s) = [show_nat h, show_nat m, show_nat s]"
    by (simp add: split_char_append split_char_word)
  then show ?thesis using assms colon by (simp add: clock_matches_def split_char_word matches_plain_number)
qed

theorem plain_clock_is_lower_bound_witness:
  "clock_matches ''2:0:0'' (civil_time_of 18017) \<and> ct_hour (civil_time_of 18017) = 5"
proof -
  have t: "ct_hour (civil_time_of 18017) = 5" "ct_minute (civil_time_of 18017) = 0" "ct_second (civil_time_of 18017) = 17"
    by (simp_all add: civil_time_of_def Let_def split: prod.splits)
  have "clock_matches (show_nat 2 @ '':'' @ show_nat 0 @ '':'' @ show_nat 0) (civil_time_of 18017)"
    by (subst plain_clock_is_lower_bound) (simp_all add: t)
  then show ?thesis using t by (simp add: show_nat.simps digit_char_eval)
qed

section \<open>The search for a missed schedule\<close>

lemma scan_calendar_iff:
  assumes "scan_end < 2 ^ 64 - 61"
  shows "scan_calendar e p scan_end c \<longleftrightarrow>
    (\<exists>k. c + k * scan_step p \<le> scan_end \<and> calendar_match_secs e (c + k * scan_step p))"
  using assms
proof (induction e p scan_end c rule: scan_calendar.induct)
  case (1 e p scan_end c)
  consider "scan_end < c" | "c \<le> scan_end" "calendar_match_secs e c" | "c \<le> scan_end" "\<not> calendar_match_secs e c"
    by linarith
  then show ?case
  proof cases
    case 1
    then show ?thesis by (simp add: scan_calendar.simps[of e p scan_end c])
  next
    case 2
    then show ?thesis by (auto simp: scan_calendar.simps[of e p scan_end c] intro!: exI[of _ 0])
  next
    case 3
    have nxt: "sat_add_u64 c (scan_step p) = c + scan_step p" "c + scan_step p \<noteq> 2 ^ 64 - 1"
      using 3(1) "1.prems" by (auto simp: sat_add_u64_def scan_step_def)
    have "scan_calendar e p scan_end c \<longleftrightarrow> scan_calendar e p scan_end (c + scan_step p)"
      using 3 nxt by (simp add: scan_calendar.simps[of e p scan_end c])
    also have "\<dots> \<longleftrightarrow> (\<exists>k. c + Suc k * scan_step p \<le> scan_end \<and> calendar_match_secs e (c + Suc k * scan_step p))"
      using "1.IH"[of "c + scan_step p"] 3 nxt "1.prems" by (simp add: add.assoc)
    also have "\<dots> \<longleftrightarrow> (\<exists>k. c + k * scan_step p \<le> scan_end \<and> calendar_match_secs e (c + k * scan_step p))"
      using 3(2) by (metis add.right_neutral mult_0 not0_implies_Suc)
    finally show ?thesis .
  qed
qed

lemma grid_after: "(\<exists>k. (l + 1 + 59) div 60 * 60 + k * 60 = t) \<longleftrightarrow> l < t \<and> t mod 60 = (0 :: nat)"
proof
  assume t: "l < t \<and> t mod 60 = 0"
  then obtain q where q: "t = q * 60" by (metis mod_div_mult_eq add_0_right mult.commute mod_0_imp_dvd dvd_def)
  have "(l + 1 + 59) div 60 \<le> q" using t q by (simp add: div_le_mono less_Suc_eq_le[symmetric] div_less_iff_less_mult)
  then show "\<exists>k. (l + 1 + 59) div 60 * 60 + k * 60 = t" using q by (metis le_add_diff_inverse distrib_right)
next
  assume "\<exists>k. (l + 1 + 59) div 60 * 60 + k * 60 = t"
  then show "l < t \<and> t mod 60 = 0" by (auto simp: less_eq_div_iff_mult_less_eq)
qed

lemma scan_start:
  "(\<exists>k. (if p then l + 1 else (l + 1 + 59) div 60 * 60) + k * scan_step p = t) \<longleftrightarrow>
     l < t \<and> (p \<or> t mod 60 = 0)"
proof (cases p)
  case True
  have "(\<exists>k. l + 1 + k = t) \<longleftrightarrow> l < t" by (auto intro: exI[of _ "t - (l + 1)"])
  then show ?thesis using True by (simp add: scan_step_def)
next
  case False
  then show ?thesis using grid_after[of l t] by (simp add: scan_step_def)
qed



section \<open>The civil calendar\<close>

definition leap_year :: "int \<Rightarrow> bool" where
  "leap_year y \<longleftrightarrow> 4 dvd y \<and> (\<not> 100 dvd y \<or> 400 dvd y)"

definition month_lengths :: "int \<Rightarrow> int list" where
  "month_lengths y = [31, if leap_year y then 29 else 28, 31, 30, 31, 30, 31, 31, 30, 31, 30, 31]"

definition days_before_year :: "int \<Rightarrow> int" where
  "days_before_year y = 365 * y + (y - 1) div 4 - (y - 1) div 100 + (y - 1) div 400"

definition day_number :: "int \<Rightarrow> nat \<Rightarrow> nat \<Rightarrow> int" where
  "day_number y m d =
     days_before_year y - days_before_year 1970 + sum_list (take (m - 1) (month_lengths y)) + int d - 1"

definition valid_date :: "int \<Rightarrow> nat \<Rightarrow> nat \<Rightarrow> bool" where
  "valid_date y m d \<longleftrightarrow> 1 \<le> m \<and> m \<le> 12 \<and> 1 \<le> d \<and> int d \<le> month_lengths y ! (m - 1)"

definition year_start :: "int \<Rightarrow> int" where
  "year_start y = 365 * y + y div 4 - y div 100"

definition year_weight :: "int \<Rightarrow> int" where
  "year_weight d = d - d div 1460 + d div 36524 - d div 146096"

lemma year_weight_step:
  assumes "0 \<le> d" "d < 146096"
  shows "year_weight d \<le> year_weight (d + 1)"
proof (cases "d + 1 = 146096")
  case True
  then have "d = 146095" by simp
  then show ?thesis by (simp add: year_weight_def)
next
  case False
  have "(d + 1) div 1460 \<le> (d + 1 * 1460) div 1460" by (rule zdiv_mono1) simp_all
  also have "\<dots> = d div 1460 + 1" by (subst div_mult_self1) simp_all
  finally have quarter: "(d + 1) div 1460 \<le> d div 1460 + 1" .
  have century: "d div 36524 \<le> (d + 1) div 36524" by (rule zdiv_mono1) simp_all
  have "d div 146096 = 0" "(d + 1) div 146096 = 0" using assms False by (simp_all add: div_pos_pos_trivial)
  moreover have "d - q + c - 0 \<le> d + 1 - q' + c' - 0" if "q' \<le> q + 1" "c \<le> c'" for q q' c c' :: int
    using that by simp
  ultimately show ?thesis unfolding year_weight_def using quarter century by metis
qed

lemma year_weight_mono_nat: "0 \<le> a \<Longrightarrow> a + int n < 146097 \<Longrightarrow> year_weight a \<le> year_weight (a + int n)"
proof (induction n)
  case (Suc n)
  have "year_weight (a + int n) \<le> year_weight (a + int n + 1)" using Suc.prems by (intro year_weight_step) auto
  then show ?case using Suc by (simp add: algebra_simps)
qed simp

lemma year_weight_mono: "0 \<le> a \<Longrightarrow> a \<le> b \<Longrightarrow> b < 146097 \<Longrightarrow> year_weight a \<le> year_weight b"
  using year_weight_mono_nat[of a "nat (b - a)"] by simp

lemma year_bounds_check:
  "list_all (\<lambda>y. year_weight (year_start y) div 365 = y \<and> 
     year_weight (year_start (y + 1) - (if y = 399 then 0 else 1)) div 365 = y) [0..399]"
  by code_simp

lemma year_start_mono: "a \<le> b \<Longrightarrow> year_start a \<le> year_start b"
proof -
  assume "a \<le> b"
  moreover have "b div 100 \<le> a div 100 + (b - a)"
    using zdiv_mono1[of b "a + 100 * (b - a)" 100] \<open>a \<le> b\<close> by simp
  ultimately show ?thesis using zdiv_mono1[of a b 4] by (simp add: year_start_def)
qed

lemma year_of_era:
  assumes "0 \<le> d" "d < 146097"
  defines "y \<equiv> year_weight d div 365"
  shows "0 \<le> y" "y \<le> 399" "year_start y \<le> d" "d < year_start (y + 1) + (if y = 399 then 1 else 0)"
proof -
  have ends: "year_weight 0 = 0" "year_weight 146096 = 145999" "year_start 0 = 0" "year_start 400 = 146096"
    by (simp_all add: year_weight_def year_start_def)
  have "0 \<le> year_weight d" using year_weight_mono[of 0 d] assms ends by simp
  then show y0: "0 \<le> y" by (simp add: y_def div_int_pos_iff)
  have "year_weight d \<le> 145999" using year_weight_mono[of d 146096] assms ends by simp
  then show y1: "y \<le> 399" using zdiv_mono1[of "year_weight d" 145999 365] by (simp add: y_def)
  have check: "year_weight (year_start z) div 365 = z"
    "year_weight (year_start (z + 1) - (if z = 399 then 0 else 1)) div 365 = z" if "0 \<le> z" "z \<le> 399" for z
    using year_bounds_check that by (auto simp: list_all_iff)
  have div_mono: "year_weight a div 365 \<le> year_weight b div 365" if "0 \<le> a" "a \<le> b" "b < 146097" for a b
    using year_weight_mono[OF that] by (intro zdiv_mono1) simp_all
  show "year_start y \<le> d"
  proof (rule ccontr)
    assume less: "\<not> year_start y \<le> d"
    then have "y \<noteq> 0" using assms(1) ends by auto
    moreover have "year_start y \<le> 146096" using year_start_mono[of y 400] y1 ends by simp
    ultimately have "y \<le> y - 1"
      using div_mono[of d "year_start y - 1"] check(2)[of "y - 1"] less assms(1) y0 y1 by (simp add: y_def[symmetric])
    then show False by simp
  qed
  show "d < year_start (y + 1) + (if y = 399 then 1 else 0)"
  proof (rule ccontr)
    assume ge: "\<not> d < year_start (y + 1) + (if y = 399 then 1 else 0)"
    then have "y \<noteq> 399" using assms(2) ends by auto
    moreover have "0 \<le> year_start (y + 1)" using year_start_mono[of 0 "y + 1"] y0 ends by simp
    ultimately have "y + 1 \<le> y"
      using div_mono[of "year_start (y + 1)" d] check(1)[of "y + 1"] ge assms(2) y0 y1 by (simp add: y_def[symmetric])
    then show False by simp
  qed
qed

lemma month_check:
  "list_all (\<lambda>n. let p = (5 * n + 2) div 153; d = n - (153 * p + 2) div 5 + 1
     in 0 \<le> p \<and> p \<le> 11 \<and> 1 \<le> d \<and> d \<le> [31, 30, 31, 30, 31, 31, 30, 31, 30, 31, 31, 29] ! nat p) [0..365]"
  by code_simp

lemma leap_count:
  "(y - 1) div 4 - (y - 1) div 100 + (y - 1) div 400 + (if leap_year y then 1 else 0) =
     y div 4 - y div 100 + (y div 400 :: int)"
proof -
  have pred: "(y - 1) div k = y div k - (if k dvd y then 1 else 0)" if "0 < k" for k :: int
  proof (cases "k dvd y")
    case True
    then obtain q where "y = k * q" by blast
    moreover have "(k * q - 1) div k = q - 1" using that by (intro int_div_pos_eq[of _ _ _ "k - 1"]) (simp_all add: algebra_simps)
    ultimately show ?thesis using that by simp
  next
    case False
    then have "0 < y mod k" using that pos_mod_sign[of k y] by (auto simp: dvd_eq_mod_eq_0 order_le_less)
    then have "(y - 1) div k = y div k"
      using that pos_mod_bound[OF that, of y] by (intro int_div_pos_eq[of _ _ _ "y mod k - 1"]) (simp_all add: mult.commute)
    then show ?thesis using False by simp
  qed
  have "(400 :: int) dvd y \<Longrightarrow> 100 dvd y" "(100 :: int) dvd y \<Longrightarrow> 4 dvd y"
    by (auto elim: dvd_trans[rotated] intro: dvd_trans)
  then show ?thesis by (auto simp: pred leap_year_def)
qed

lemma leap_year_era: "leap_year (y + 400 * e) \<longleftrightarrow> leap_year y"
proof -
  have "(400 :: int) dvd 400 * e" "(100 :: int) dvd 400 * e" "(4 :: int) dvd 400 * e"
    by (rule dvd_mult2, simp)+
  then show ?thesis unfolding leap_year_def by (simp add: dvd_add_left_iff)
qed

lemma era_start:
  assumes y: "0 \<le> y" "y < 400"
  shows "365 * (y + 400 * e) + (y + 400 * e) div 4 - (y + 400 * e) div 100 + (y + 400 * e) div 400 =
    year_start y + 146097 * e"
proof -
  have q: "(y + 400 * e) div 4 = 100 * e + y div 4" using div_mult_self2[of 4 y "100 * e"] by simp
  have c: "(y + 400 * e) div 100 = 4 * e + y div 100" using div_mult_self2[of 100 y "4 * e"] by simp
  have f: "(y + 400 * e) div 400 = e + y div 400" by (rule div_mult_self2) simp
  have "365 * (y + 400 * e) + (100 * e + q) - (4 * e + c) + (e + 0) = 365 * y + q - c + 146097 * e" for q c :: int
    by simp
  then show ?thesis unfolding year_start_def q c f div_pos_pos_trivial[OF y] .
qed

lemma year_span:
  assumes "0 \<le> y" "y \<le> 399"
  shows "year_start (y + 1) + (if y = 399 then 1 else 0) = year_start y + 365 + (if leap_year (y + 1) then 1 else 0)"
proof -
  have e: "y div 400 = 0" "(y + 1) div 400 = (if y = 399 then 1 else 0)" using assms by auto
  have step: "365 * (y + 1) + q' - c' + e' = 365 * y + q - c + 365 + l"
    if "q - c + e + l = q' - c' + e'" "e = 0" for q c e q' c' e' l :: int using that by simp
  show ?thesis
    using step[OF leap_count[of "y + 1", unfolded add_diff_cancel_right'] e(1)] by (simp only: year_start_def e(2))
qed

text \<open>The day of a year that starts in March, and what \<open>civil_date\<close> makes of it.\<close>

lemma march_date:
  fixes y n e :: int
  assumes y: "0 \<le> y" "y \<le> 399" and n: "0 \<le> n" "n \<le> 365" "n = 365 \<Longrightarrow> leap_year (y + 1)"
  defines "p \<equiv> (5 * n + 2) div 153"
  defines "d \<equiv> n - (153 * p + 2) div 5 + 1" and "m \<equiv> p + (if p < 10 then 3 else - 9)"
  defines "Y \<equiv> y + 400 * e + (if m \<le> 2 then 1 else 0)"
  shows "valid_date Y (nat m) (nat d) \<and> day_number Y (nat m) (nat d) = year_start y + 146097 * e + n - 719468"
proof -
  have check: "0 \<le> p" "p \<le> 11" "1 \<le> d" "d \<le> [31, 30, 31, 30, 31, 31, 30, 31, 30, 31, 31, 29] ! nat p"
    using month_check n(1,2) by (simp_all add: list_all_iff Let_def p_def d_def)
  have n_eq: "n = (153 * p + 2) div 5 + d - 1" by (simp add: d_def)
  have leap: "leap_year (y + 400 * e + 1) \<longleftrightarrow> leap_year (y + 1)" using leap_year_era[of "y + 1" e] by (simp add: algebra_simps)
  have before: "days_before_year (y + 400 * e) + (if leap_year (y + 400 * e) then 1 else 0) = year_start y + 146097 * e"
    "days_before_year (y + 400 * e + 1) = year_start y + 146097 * e + 365"
  proof -
    have era: "365 * (y + 400 * e) + (y + 400 * e) div 4 - (y + 400 * e) div 100 + (y + 400 * e) div 400 =
        year_start y + 146097 * e" using era_start[OF y(1), of e] y(2) by linarith
    have "x + a - b + c + l = z" if "a - b + c + l = q - r + f" "x + q - r + f = z" for x a b c l q r f z :: int
      using that by linarith
    from this[OF leap_count era] show "days_before_year (y + 400 * e) + (if leap_year (y + 400 * e) then 1 else 0) =
        year_start y + 146097 * e" unfolding days_before_year_def .
    have "365 * (x + 1) + q - r + f = z + 365" if "365 * x + q - r + f = z" for x q r f z :: int using that by simp
    from this[OF era] show "days_before_year (y + 400 * e + 1) = year_start y + 146097 * e + 365"
      unfolding days_before_year_def add_diff_cancel_right' .
  qed
  have base: "days_before_year 1970 = 719527" by (simp add: days_before_year_def)
  have d1: "Suc 0 \<le> nat d" using check(3) by simp
  have feb: "p = 11 \<longrightarrow> \<not> leap_year (y + 1) \<longrightarrow> d \<le> 28" using n(3) n_eq check(4) by (cases "d = 29") auto
  have "p = 0 \<or> p = 1 \<or> p = 2 \<or> p = 3 \<or> p = 4 \<or> p = 5 \<or> p = 6 \<or> p = 7 \<or> p = 8 \<or> p = 9 \<or> p = 10 \<or> p = 11"
    using check(1,2) by presburger
  then show ?thesis
    using check(3,4) before n_eq leap d1 feb
    by (elim disjE) (simp_all split: if_splits add: m_def Y_def valid_date_def day_number_def month_lengths_def base numeral_eq_Suc)
qed

text \<open>
  C21: the calendar is right: the year, month and day computed for a day number are a date of the
  Gregorian calendar, and its distance from 1 January 1970, counted by years and months, is that number.
\<close>

theorem civil_date_correct:
  assumes "civil_date days = (y, m, d)" and "\<bar>days\<bar> < 700000000000"
  shows "valid_date y m d \<and> day_number y m d = days"
proof -
  define e where "e = (days + 719468) div 146097"
  define doe where "doe = (days + 719468) mod 146097"
  have split: "days + 719468 - e * 146097 = doe" "days = e * 146097 + doe - 719468"
    unfolding e_def doe_def by (simp_all add: minus_div_mult_eq_mod)
  have doe: "0 \<le> doe" "doe < 146097" by (simp_all add: doe_def)
  define yoe where "yoe = year_weight doe div 365"
  note yoe = year_of_era[OF doe, folded yoe_def]
  define n where "n = doe - year_start yoe"
  have n: "0 \<le> n" "n \<le> 365" "n = 365 \<Longrightarrow> leap_year (yoe + 1)"
    using yoe(3,4) year_span[OF yoe(1,2)] by (auto simp: n_def split: if_splits)
  define p where "p = (5 * n + 2) div 153"
  define M where "M = p + (if p < 10 then 3 else - 9)"
  define D where "D = n - (153 * p + 2) div 5 + 1"
  define Y where "Y = yoe + 400 * e + (if M \<le> 2 then 1 else 0)"
  have "- 4800000 \<le> e" "e \<le> 4800000"
    using zdiv_mono1[of "- 4800000 * 146097" "days + 719468" 146097] zdiv_mono1[of "days + 719468" "4800000 * 146097" 146097]
      assms(2) by (simp_all add: e_def)
  then have Y: "signed_take_bit 31 Y = Y" using yoe(1,2) by (intro signed_take_bit_int_eq_self) (auto simp: Y_def)
  have "civil_date days = (signed_take_bit 31 Y, nat M, nat D)"
    unfolding civil_date_def Let_def e_def[symmetric] split(1) year_weight_def[symmetric] yoe_def[symmetric]
      year_start_def[symmetric] n_def[symmetric] p_def[symmetric] M_def[symmetric] D_def[symmetric]
    by (simp add: Y_def mult.commute)
  then have "y = Y" "m = nat M" "d = nat D" using assms(1) Y by simp_all
  then show ?thesis
    using march_date[OF yoe(1,2) n, of e, folded p_def, folded M_def D_def, folded Y_def] split(2) by (simp add: n_def)
qed

theorem civil_date_correct_witness:
  "civil_date 19782 = (2024, 2, 29) \<and> day_number 2024 2 29 = 19782"
proof -
  have "civil_date 19782 = (2024, 2, 29)" by code_simp
  from civil_date_correct[OF this] this show ?thesis by simp
qed

end
