(* ===== verification/Glob.thy ===== *)
theory Glob
  imports Rust_Prelude
begin

text \<open>
  What a wildcard pattern means, and the table algorithms that decide it. The sources have several
  matchers that go through the pattern and keep, for every prefix of the value, whether the pattern so
  far matches it; the locale is what a step of any of them does.
\<close>

fun glob :: "'a \<Rightarrow> 'a \<Rightarrow> 'a list \<Rightarrow> 'a list \<Rightarrow> bool" where
  "glob star any [] v \<longleftrightarrow> v = []"
| "glob star any (p # ps) v \<longleftrightarrow>
     (if p = star then list_ex (\<lambda>k. glob star any ps (drop k v)) [0..<Suc (length v)]
      else v \<noteq> [] \<and> (p = any \<or> p = hd v) \<and> glob star any ps (tl v))"

lemma glob_star: "glob star any (star # ps) v \<longleftrightarrow> (\<exists>a b. v = a @ b \<and> glob star any ps b)"
proof
  assume "glob star any (star # ps) v"
  then have "\<exists>k. glob star any ps (drop k v)" by (auto simp: list_ex_iff intro: exI[of _ "length v"])
  then obtain k where "glob star any ps (drop k v)" ..
  then show "\<exists>a b. v = a @ b \<and> glob star any ps b" by (metis append_take_drop_id)
next
  assume "\<exists>a b. v = a @ b \<and> glob star any ps b"
  then obtain a b where "v = a @ b" "glob star any ps b" by blast
  then show "glob star any (star # ps) v" by (auto simp: list_ex_iff intro!: bexI[of _ "length a"])
qed

lemma glob_char:
  "p \<noteq> star \<Longrightarrow> glob star any (p # ps) v \<longleftrightarrow> (\<exists>c b. v = c # b \<and> (p = any \<or> p = c) \<and> glob star any ps b)"
  by (cases v) auto

declare glob.simps(2) [simp del]

lemma glob_append:
  "glob star any (ps @ qs) v \<longleftrightarrow> (\<exists>a b. v = a @ b \<and> glob star any ps a \<and> glob star any qs b)"
proof (induction ps arbitrary: v)
  case (Cons p ps)
  show ?case
  proof (cases "p = star")
    case True
    show ?thesis unfolding True append_Cons glob_star Cons.IH by (metis append.assoc)
  next
    case False
    show ?thesis unfolding append_Cons glob_char[OF False] Cons.IH by (metis append_Cons)
  qed
qed simp

lemma glob_snoc_char:
  assumes "p \<noteq> star"
  shows "glob star any (ps @ [p]) v \<longleftrightarrow> (\<exists>a c. v = a @ [c] \<and> (p = any \<or> p = c) \<and> glob star any ps a)"
  unfolding glob_append glob_char[OF assms] by auto

lemma glob_snoc_star: "glob star any (ps @ [star]) v \<longleftrightarrow> (\<exists>a b. v = a @ b \<and> glob star any ps a)"
  unfolding glob_append glob_star by auto

lemma glob_literal: "star \<notin> set ps \<Longrightarrow> any \<notin> set ps \<Longrightarrow> glob star any ps v \<longleftrightarrow> v = ps"
proof (induction ps arbitrary: v)
  case (Cons p ps)
  then show ?case using glob_char[of p star any ps v] by auto
qed simp

locale glob_table =
  fixes star any :: 'a
    and advance :: "'a list \<Rightarrow> 'a \<Rightarrow> bool list \<Rightarrow> bool list"
  assumes advance_length: "length row = Suc (length v) \<Longrightarrow> length (advance v p row) = Suc (length v)"
    and advance_star: "length row = Suc (length v) \<Longrightarrow> i \<le> length v \<Longrightarrow> advance v star row ! i \<longleftrightarrow> (\<exists>j \<le> i. row ! j)"
    and advance_char: "p \<noteq> star \<Longrightarrow> length row = Suc (length v) \<Longrightarrow> i \<le> length v \<Longrightarrow>
      advance v p row ! i \<longleftrightarrow> (\<exists>k. i = Suc k \<and> row ! k \<and> (p = any \<or> p = v ! k))"
begin

definition row_of :: "'a list \<Rightarrow> 'a list \<Rightarrow> bool list" where
  "row_of v ps = map (\<lambda>i. glob star any ps (take i v)) [0..<Suc (length v)]"

lemma row_of_length [simp]: "length (row_of v ps) = Suc (length v)"
  by (simp add: row_of_def)

lemma row_of_nth: "i \<le> length v \<Longrightarrow> row_of v ps ! i = glob star any ps (take i v)"
  by (simp add: row_of_def del: upt_Suc)

lemma prefix_matches:
  assumes "i \<le> length v"
  shows "(\<exists>j \<le> i. glob star any ps (take j v)) \<longleftrightarrow> (\<exists>a b. take i v = a @ b \<and> glob star any ps a)"
proof
  assume "\<exists>j \<le> i. glob star any ps (take j v)"
  then obtain j where "j \<le> i" "glob star any ps (take j v)" by blast
  moreover have "take i v = take j v @ take (i - j) (drop j v)"
    using \<open>j \<le> i\<close> by (metis le_add_diff_inverse take_add)
  ultimately show "\<exists>a b. take i v = a @ b \<and> glob star any ps a" by blast
next
  assume "\<exists>a b. take i v = a @ b \<and> glob star any ps a"
  then obtain a b where ab: "take i v = a @ b" "glob star any ps a" by blast
  then have "length a \<le> i" by (metis length_append length_take le_add1 min.cobounded2 order_trans)
  moreover have "take (length a) v = a" using ab(1) \<open>length a \<le> i\<close> by (metis append_eq_conv_conj min.absorb1 take_take)
  ultimately show "\<exists>j \<le> i. glob star any ps (take j v)" using ab(2) by metis
qed

lemma advance_row: "advance v p (row_of v ps) = row_of v (ps @ [p])"
proof (rule nth_equalityI)
  show len: "length (advance v p (row_of v ps)) = length (row_of v (ps @ [p]))" by (simp add: advance_length)
  fix i assume "i < length (advance v p (row_of v ps))"
  then have i: "i \<le> length v" using len by simp
  show "advance v p (row_of v ps) ! i = row_of v (ps @ [p]) ! i"
  proof (cases "p = star")
    case True
    then show ?thesis using i prefix_matches[OF i]
      by (simp add: advance_star row_of_nth glob_snoc_star cong: conj_cong)
  next
    case False
    have row: "advance v p (row_of v ps) ! i \<longleftrightarrow> (\<exists>k. i = Suc k \<and> row_of v ps ! k \<and> (p = any \<or> p = v ! k))"
      by (rule advance_char[OF False row_of_length i])
    have "(\<exists>a c. take i v = a @ [c] \<and> (p = any \<or> p = c) \<and> glob star any ps a) \<longleftrightarrow>
        (\<exists>k. i = Suc k \<and> glob star any ps (take k v) \<and> (p = any \<or> p = v ! k))"
    proof (cases i)
      case (Suc k)
      then have "take i v = take k v @ [v ! k]" using i by (simp add: take_Suc_conv_app_nth)
      then show ?thesis using Suc by auto
    qed simp
    then show ?thesis unfolding row using i False by (auto simp: row_of_nth glob_snoc_char cong: conj_cong)
  qed
qed

lemma table_is_glob: "last (fold (advance v) ps (True # replicate (length v) False)) \<longleftrightarrow> glob star any ps v"
proof -
  have rows: "fold (advance v) ps (row_of v qs) = row_of v (qs @ ps)" for qs
    by (induction ps arbitrary: qs) (simp_all add: advance_row)
  have "True # replicate (length v) False = row_of v []"
    by (rule nth_equalityI) (auto simp: row_of_nth nth_Cons split: nat.split)
  moreover have "last (row_of v ps) = glob star any ps v"
    by (simp add: last_conv_nth row_of_nth flip: length_0_conv)
  ultimately show ?thesis using rows[of "[]"] by simp
qed

end

end
