(* ===== verification/Host_Conditions.thy ===== *)
theory Host_Conditions
  imports Supervisor_Text Glob
begin

text \<open>
  The conditions and assertions of a service and the facts about the host they read,
  \<open>condition_matches\<close> and its helpers in \<open>crates/fractald-supervisor/src/lib.rs\<close>, with the wildcard
  matcher of glob patterns and of the credential store.
\<close>

section \<open>Text helpers\<close>

text \<open>\<open>split_once\<close> and \<open>rsplit_once\<close> on a text, and \<open>contains\<close>.\<close>

fun split_once_str :: "string \<Rightarrow> string \<Rightarrow> (string \<times> string) option" where
  "split_once_str pat [] = (if pat = [] then Some ([], []) else None)"
| "split_once_str pat (c # s) =
     (if starts_with (c # s) pat then Some ([], drop (length pat) (c # s))
      else map_option (\<lambda>(a, b). (c # a, b)) (split_once_str pat s))"

definition rsplit_once_str :: "string \<Rightarrow> string \<Rightarrow> (string \<times> string) option" where
  "rsplit_once_str pat s = map_option (\<lambda>(b, a). (rev a, rev b)) (split_once_str (rev pat) (rev s))"

definition contains_str :: "string \<Rightarrow> string \<Rightarrow> bool" where
  "contains_str s pat \<longleftrightarrow> split_once_str pat s \<noteq> None"

section \<open>Wildcards\<close>

text \<open>
  \<open>wildcard_match\<close> fills a table row by row: row \<open>i\<close> says for each prefix of the value whether the
  first \<open>i\<close> characters of the pattern match it. A row is a list of flags; \<open>star_row\<close> is the forward pass
  of the branch for \<open>*\<close>, which sets flags further right in the row it reads.
\<close>

fun star_row :: "bool \<Rightarrow> bool list \<Rightarrow> bool list" where
  "star_row carry [] = []"
| "star_row carry (b # bs) = (carry \<or> b) # star_row (carry \<or> b) bs"

definition shift_row :: "(rchar \<Rightarrow> bool) \<Rightarrow> rchar list \<Rightarrow> bool list \<Rightarrow> bool list" where
  "shift_row ok value row = False # map2 (\<lambda>c b. b \<and> ok c) value row"

definition next_row :: "rchar list \<Rightarrow> rchar \<Rightarrow> bool list \<Rightarrow> bool list" where
  "next_row value p row =
     (if p = ''*'' then star_row False row
      else if p = ''?'' then shift_row (\<lambda>_. True) value row
      else shift_row (\<lambda>c. c = p) value row)"

definition wildcard_match :: "string \<Rightarrow> string \<Rightarrow> bool" where
  "wildcard_match pattern value =
     (let cs = chars value
      in last (fold (next_row cs) (chars pattern) (True # replicate (length cs) False)))"

section \<open>Files and mounts\<close>

definition path_exists :: "platform \<Rightarrow> string \<Rightarrow> bool" where
  "path_exists pf path = (pf_stat pf path \<noteq> None)"

definition stat_holds :: "platform \<Rightarrow> string \<Rightarrow> (file_stat \<Rightarrow> bool) \<Rightarrow> bool" where
  "stat_holds pf path P = (case pf_stat pf path of None \<Rightarrow> False | Some m \<Rightarrow> P m)"

definition is_octal_digit :: "char \<Rightarrow> bool" where
  "is_octal_digit c \<longleftrightarrow> 48 \<le> byte_val c \<and> byte_val c \<le> 55"

fun decode_mountinfo_path :: "string \<Rightarrow> string" where
  "decode_mountinfo_path (c # x # y # z # s) =
     (if c = CHR 0x5C \<and> is_octal_digit x \<and> is_octal_digit y \<and> is_octal_digit z
      then char_of (((byte_val x - 48) * 64 + (byte_val y - 48) * 8 + (byte_val z - 48)) mod 256) # decode_mountinfo_path s
      else c # decode_mountinfo_path (x # y # z # s))"
| "decode_mountinfo_path s = s"

definition has_option :: "string \<Rightarrow> string \<Rightarrow> bool" where
  "has_option options name \<longleftrightarrow> name \<in> set (split_char CHR '','' options)"

text \<open>One line of \<open>/proc/self/mountinfo\<close>: the mount point and whether it is read-only.\<close>

definition mountinfo_line :: "string \<Rightarrow> (string \<times> bool) option" where
  "mountinfo_line line =
     (case split_once_str '' - '' line of
        None \<Rightarrow> None
      | Some (left, right) \<Rightarrow>
          (let fields = split_whitespace left; super = split_whitespace right
           in if length fields < 6 then None
              else Some (decode_mountinfo_path (fields ! 4),
                     has_option (fields ! 5) ''ro'' \<or> (2 < length super \<and> has_option (super ! 2) ''ro''))))"

definition better_mount ::
    "string \<Rightarrow> string \<Rightarrow> (string \<times> bool) option \<Rightarrow> (string \<times> bool) option" where
  "better_mount path line best =
     (case mountinfo_line line of
        None \<Rightarrow> best
      | Some (point, read_only) \<Rightarrow>
          if \<not> path_starts_with (path_components path) (path_components point) then best
          else (case best of
                  None \<Rightarrow> Some (point, read_only)
                | Some (b, _) \<Rightarrow>
                    if length (path_components b) < length (path_components point) then Some (point, read_only) else best))"

definition mount_info_for :: "platform \<Rightarrow> string \<Rightarrow> (string \<times> bool) option" where
  "mount_info_for pf path =
     (case (pf_canonical pf path, pf_read pf ''/proc/self/mountinfo'') of
        (Some p, Some contents) \<Rightarrow> fold (better_mount p) (lines contents) None
      | _ \<Rightarrow> None)"

text \<open>\<open>Path::parent\<close> of a canonical path\<close>

definition canonical_parent :: "string \<Rightarrow> string option" where
  "canonical_parent p =
     (case rsplit_once CHR ''/'' p of
        None \<Rightarrow> None
      | Some (front, name) \<Rightarrow> if name = [] then None else Some (if front = [] then ''/'' else front))"

definition path_is_mount_point :: "platform \<Rightarrow> string \<Rightarrow> bool" where
  "path_is_mount_point pf path =
     (case mount_info_for pf path of
        Some (point, _) \<Rightarrow> (case pf_canonical pf path of Some p \<Rightarrow> path_eq p point | None \<Rightarrow> False)
      | None \<Rightarrow>
          if path_eq path ''/'' then path_exists pf path
          else (case pf_canonical pf path of
                  None \<Rightarrow> False
                | Some p \<Rightarrow>
                    (case canonical_parent p of
                       None \<Rightarrow> False
                     | Some parent \<Rightarrow>
                         (case (pf_stat pf p, pf_stat pf parent) of
                            (Some a, Some b) \<Rightarrow> fs_dev a \<noteq> fs_dev b
                          | _ \<Rightarrow> False))))"

definition skipped_mount_is_available :: "platform \<Rightarrow> service_spec \<Rightarrow> bool" where
  "skipped_mount_is_available pf spec =
     list_ex (\<lambda>cond. case cond of
                PathIsMountPoint path True \<Rightarrow> path_is_mount_point pf (expand_specifiers pf path spec)
              | _ \<Rightarrow> False) (sp_conditions spec)"

definition path_is_read_write :: "platform \<Rightarrow> string \<Rightarrow> bool" where
  "path_is_read_write pf path =
     (if \<not> path_exists pf path then False
      else (case mount_info_for pf path of
              Some (_, read_only) \<Rightarrow> \<not> read_only
            | None \<Rightarrow> stat_holds pf path (\<lambda>m. and (fs_mode m) 146 \<noteq> 0)))"

definition needs_update_against :: "platform \<Rightarrow> string \<Rightarrow> string \<Rightarrow> bool" where
  "needs_update_against pf path usr =
     (case Option.bind (pf_stat pf usr) fs_modified of
        None \<Rightarrow> False
      | Some usr_modified \<Rightarrow>
          (case Option.bind (pf_stat pf (path_join path ''.updated'')) fs_modified of
             Some updated \<Rightarrow> updated < usr_modified
           | None \<Rightarrow> True))"

definition needs_update :: "platform \<Rightarrow> string \<Rightarrow> bool" where
  "needs_update pf path = needs_update_against pf path ''/usr''"

section \<open>The machine\<close>

definition kernel_command_line_contains :: "platform \<Rightarrow> string \<Rightarrow> bool" where
  "kernel_command_line_contains pf argument =
     (case pf_read pf ''/proc/cmdline'' of
        None \<Rightarrow> False
      | Some text \<Rightarrow>
          list_ex (\<lambda>word. word = argument \<or>
              (CHR ''='' \<notin> set argument \<and>
               (case strip_prefix argument word of Some suffix \<Rightarrow> starts_with suffix ''='' | None \<Rightarrow> False)))
            (split_whitespace text))"

definition container_table :: "(string \<times> string) list" where
  "container_table =
     [(''docker'', ''docker''), (''podman'', ''podman''), (''libpod'', ''podman''), (''lxc'', ''lxc''),
      (''kubepods'', ''kubernetes''), (''containerd'', ''containerd'')]"

definition first_marker :: "(string \<times> string) list \<Rightarrow> string \<Rightarrow> string option" where
  "first_marker table text = map_option snd (List.find (\<lambda>(marker, _). contains_str text marker) table)"

definition container_entry :: "string \<Rightarrow> string option" where
  "container_entry entry =
     (case strip_prefix ''container='' entry of
        Some value \<Rightarrow> if value \<noteq> [] then Some (to_ascii_lowercase value) else None
      | None \<Rightarrow> None)"

definition first_some :: "('a \<Rightarrow> 'b option) \<Rightarrow> 'a list \<Rightarrow> 'b option" where
  "first_some f xs = (case List.find (\<lambda>x. f x \<noteq> None) xs of Some x \<Rightarrow> f x | None \<Rightarrow> None)"

definition detect_container :: "platform \<Rightarrow> string option" where
  "detect_container pf =
     (let configured = (case pf_read pf ''/run/fractald/container'' of
             Some v \<Rightarrow> if trim v \<noteq> [] then Some (to_ascii_lowercase (trim v)) else None | None \<Rightarrow> None);
          environ = (case pf_read pf ''/proc/1/environ'' of
             Some v \<Rightarrow> first_some container_entry (split_char CHR 0x00 v) | None \<Rightarrow> None)
      in if configured \<noteq> None then configured
         else if environ \<noteq> None then environ
         else (case pf_read pf ''/proc/1/cgroup'' of
                 None \<Rightarrow> None
               | Some cgroup \<Rightarrow> first_marker container_table (to_ascii_lowercase cgroup)))"

definition vendor_table :: "(string \<times> string) list" where
  "vendor_table =
     [(''vmware'', ''vmware''), (''virtualbox'', ''oracle''), (''kvm'', ''kvm''), (''qemu'', ''qemu''),
      (''bochs'', ''bochs''), (''microsoft'', ''microsoft''), (''hyper-v'', ''microsoft''), (''xen'', ''xen''),
      (''google'', ''google'')]"

definition detect_virtual_machine :: "platform \<Rightarrow> string option" where
  "detect_virtual_machine pf =
     (let hypervisor = (case pf_read pf ''/sys/hypervisor/type'' of
             Some v \<Rightarrow> if trim v \<noteq> [] then Some (to_ascii_lowercase (trim v)) else None | None \<Rightarrow> None);
          product = (case pf_read pf ''/sys/class/dmi/id/product_name'' of
             Some v \<Rightarrow> Some v | None \<Rightarrow> pf_read pf ''/sys/devices/virtual/dmi/id/product_name'')
      in if hypervisor \<noteq> None then hypervisor
         else (case product of None \<Rightarrow> None | Some p \<Rightarrow> first_marker vendor_table (to_ascii_lowercase p)))"

definition virtualization_matches :: "platform \<Rightarrow> string \<Rightarrow> bool" where
  "virtualization_matches pf value =
     (let expected = to_ascii_lowercase value
      in if expected = ''container'' then detect_container pf \<noteq> None
         else if expected = ''no'' then detect_container pf = None \<and> detect_virtual_machine pf = None
         else detect_container pf = Some expected \<or> detect_virtual_machine pf = Some expected)"

definition security_enabled :: "platform \<Rightarrow> string \<Rightarrow> bool" where
  "security_enabled pf value =
     (let v = to_ascii_lowercase value
      in if v = ''selinux'' then path_exists pf ''/sys/fs/selinux''
         else if v = ''apparmor'' then path_exists pf ''/sys/module/apparmor''
         else if v = ''smack'' then path_exists pf ''/sys/fs/smackfs''
         else if v = ''tomoyo'' then path_exists pf ''/sys/kernel/security/tomoyo''
         else if v = ''landlock'' then
           (case pf_read pf ''/sys/kernel/security/lsm'' of
              None \<Rightarrow> False
            | Some lsm \<Rightarrow> list_ex (\<lambda>entry. trim entry = ''landlock'') (split_char CHR '','' lsm))
         else False)"

text \<open>The loop over the power supplies: an adapter was seen, a battery was seen, an adapter is online.\<close>

definition add_power_supply :: "platform \<Rightarrow> string \<Rightarrow> bool \<times> bool \<times> bool \<Rightarrow> bool \<times> bool \<times> bool" where
  "add_power_supply pf entry = (\<lambda>(has_ac, has_battery, ac_online).
     (let name = to_ascii_lowercase entry
      in if starts_with name ''ac'' \<or> starts_with name ''adp'' \<or> starts_with name ''mains''
         then (True, has_battery, ac_online \<or>
                (case pf_read pf (''/sys/class/power_supply/'' @ entry @ ''/online'') of
                   Some v \<Rightarrow> trim v = ''1'' | None \<Rightarrow> False))
         else if starts_with name ''bat'' then (has_ac, True, ac_online)
         else (has_ac, has_battery, ac_online)))"

definition ac_power_state :: "platform \<Rightarrow> bool" where
  "ac_power_state pf =
     (case pf_list pf ''/sys/class/power_supply'' of
        None \<Rightarrow> True
      | Some entries \<Rightarrow>
          (let (has_ac, has_battery, ac_online) = fold (add_power_supply pf) entries (False, False, False)
           in if has_ac then ac_online else \<not> has_battery))"

definition effective_capabilities :: "platform \<Rightarrow> nat option" where
  "effective_capabilities pf =
     (case pf_read pf ''/proc/self/status'' of
        None \<Rightarrow> None
      | Some status \<Rightarrow>
          (case first_some (strip_prefix ''CapEff:'') (lines status) of
             None \<Rightarrow> None | Some v \<Rightarrow> parse_unsigned 16 128 (trim v)))"

definition capability_available :: "platform \<Rightarrow> string \<Rightarrow> bool" where
  "capability_available pf value =
     (let name = to_ascii_uppercase value;
          base = (case strip_prefix ''CAP_'' name of Some b \<Rightarrow> b | None \<Rightarrow> name)
      in case map_of capability_table (''CAP_'' @ base) of
           None \<Rightarrow> False
         | Some n \<Rightarrow> (case effective_capabilities pf of None \<Rightarrow> False | Some caps \<Rightarrow> odd (caps div 2 ^ n)))"

definition kernel_module_loaded :: "platform \<Rightarrow> string \<Rightarrow> bool" where
  "kernel_module_loaded pf name =
     (let module = replace ''-'' ''_'' name
      in case pf_read pf ''/proc/modules'' of
           None \<Rightarrow> False
         | Some modules \<Rightarrow>
             list_ex (\<lambda>line. case split_whitespace line of n # _ \<Rightarrow> n = module | [] \<Rightarrow> False) (lines modules))"

definition firmware_matches :: "platform \<Rightarrow> string \<Rightarrow> bool" where
  "firmware_matches pf value =
     (let v = to_ascii_lowercase value
      in if v = ''uefi'' then path_exists pf ''/sys/firmware/efi''
         else if v = ''bios'' then \<not> path_exists pf ''/sys/firmware/efi''
         else False)"

definition first_boot_state :: "platform \<Rightarrow> bool" where
  "first_boot_state pf = (case pf_read pf ''/etc/machine-id'' of Some v \<Rightarrow> trim v = [] | None \<Rightarrow> True)"

definition control_group_controller_available :: "platform \<Rightarrow> string \<Rightarrow> bool" where
  "control_group_controller_available pf value =
     (let controller = to_ascii_lowercase value
      in if controller = ''v2'' then path_exists pf ''/sys/fs/cgroup/cgroup.controllers''
         else (case pf_read pf ''/sys/fs/cgroup/cgroup.controllers'' of
                 None \<Rightarrow> False
               | Some controllers \<Rightarrow> controller \<in> set (split_whitespace controllers)))"

section \<open>The credential store\<close>

definition credential_import_dirs :: "platform \<Rightarrow> string list" where
  "credential_import_dirs pf =
     (case pf_env pf ''FRACTALD_CREDENTIAL_STORE_PATH'' of
        Some configured \<Rightarrow> filter (\<lambda>path. path \<noteq> []) (split_char CHR '':'' configured)
      | None \<Rightarrow> [''/run/credentials/@system'', ''/run/fractald/credentials'', ''/etc/credstore'',
                 ''/run/credstore'', ''/usr/lib/credstore''])"

definition expand_credential_import :: "platform \<Rightarrow> credential_import_spec \<Rightarrow> service_spec \<Rightarrow> credential_import_spec" where
  "expand_credential_import pf import spec =
     \<lparr>ci_pattern = expand_specifiers pf (ci_pattern import) spec,
      ci_rename = map_option (\<lambda>r. expand_specifiers pf r spec) (ci_rename import)\<rparr>"

definition is_credential_store_file :: "platform \<Rightarrow> string \<Rightarrow> bool" where
  "is_credential_store_file pf path = (case pf_lstat pf path of Some m \<Rightarrow> fs_is_file m | None \<Rightarrow> False)"

definition safe_credential_name :: "string \<Rightarrow> bool" where
  "safe_credential_name value \<longleftrightarrow>
     value \<noteq> [] \<and> value \<noteq> ''.'' \<and> value \<noteq> ''..'' \<and> value \<noteq> ''.fractald-owner'' \<and>
     list_all (\<lambda>b. is_ascii_alphanumeric b \<or> b \<in> set ''_-.'') value"

definition add_import_candidate ::
    "platform \<Rightarrow> string \<Rightarrow> string \<Rightarrow> string \<Rightarrow> (string, string) bmap \<Rightarrow> (string, string) bmap" where
  "add_import_candidate pf prefix directory name candidates =
     (if \<not> starts_with name prefix \<or> \<not> safe_credential_name name then candidates
      else if is_credential_store_file pf (path_join directory name) \<and> map_of candidates name = None
      then bmap_insert name (path_join directory name) candidates
      else candidates)"

definition credential_import_candidates ::
    "platform \<Rightarrow> credential_import_spec \<Rightarrow> string list \<Rightarrow> (string, string) bmap" where
  "credential_import_candidates pf import dirs =
     (case strip_suffix ''*'' (ci_pattern import) of
        Some prefix \<Rightarrow>
          fold (\<lambda>directory candidates.
                  case pf_list pf directory of
                    None \<Rightarrow> candidates
                  | Some entries \<Rightarrow> fold (add_import_candidate pf prefix directory) entries candidates) dirs []
      | None \<Rightarrow>
          (case List.find (\<lambda>directory. is_credential_store_file pf (path_join directory (ci_pattern import))) dirs of
             Some directory \<Rightarrow> [(ci_pattern import, path_join directory (ci_pattern import))]
           | None \<Rightarrow> []))"

definition credential_store_entry :: "platform \<Rightarrow> string \<Rightarrow> string list \<Rightarrow> string option" where
  "credential_store_entry pf name dirs =
     map_option (\<lambda>directory. path_join directory name)
       (List.find (\<lambda>directory. is_credential_store_file pf (path_join directory name)) dirs)"

definition imported_credential_name :: "credential_import_spec \<Rightarrow> string \<Rightarrow> string" where
  "imported_credential_name import source_name =
     (case strip_suffix ''*'' (ci_pattern import) of
        Some prefix \<Rightarrow> (case ci_rename import of Some r \<Rightarrow> r | None \<Rightarrow> prefix) @
          (case strip_prefix prefix source_name of Some rest \<Rightarrow> rest | None \<Rightarrow> source_name)
      | None \<Rightarrow> (case ci_rename import of Some r \<Rightarrow> r | None \<Rightarrow> source_name))"

definition declared_credential :: "platform \<Rightarrow> service_spec \<Rightarrow> string \<Rightarrow> credential_spec \<Rightarrow> bool" where
  "declared_credential pf spec credential entry =
     (if cr_name entry \<noteq> credential then False
      else (case cr_source entry of
              CredentialValue _ \<Rightarrow> True
            | CredentialFile path \<Rightarrow> stat_holds pf (expand_specifiers pf path spec) fs_is_file
            | CredentialStore store_name \<Rightarrow>
                (let name = expand_specifiers pf store_name spec
                 in safe_credential_name name \<and> credential_store_entry pf name (credential_import_dirs pf) \<noteq> None)))"

definition credential_available :: "platform \<Rightarrow> service_spec \<Rightarrow> string \<Rightarrow> bool" where
  "credential_available pf spec credential \<longleftrightarrow>
     list_ex (declared_credential pf spec credential) (sp_credentials spec) \<or>
     list_ex (\<lambda>root. path_exists pf (path_join (path_join root (sp_name spec)) credential))
       [''/run/credentials'', ''/run/fractald/credentials''] \<or>
     list_ex (\<lambda>import.
         let import = expand_credential_import pf import spec
         in list_ex (\<lambda>source_name. imported_credential_name import source_name = credential)
              (bmap_keys (credential_import_candidates pf import (credential_import_dirs pf))))
       (sp_credential_imports spec)"

section \<open>Conditions\<close>

text \<open>What a condition other than \<open>Any\<close> asks, before its negation, and that negation.\<close>

fun condition_fact :: "platform \<Rightarrow> service_spec \<Rightarrow> condition \<Rightarrow> bool \<times> bool" where
  "condition_fact pf spec (PathExists path negate) = (path_exists pf (expand_specifiers pf path spec), negate)"
| "condition_fact pf spec (PathExistsGlob pattern negate) = (pf_glob pf (expand_specifiers pf pattern spec), negate)"
| "condition_fact pf spec (DirectoryNotEmpty path negate) =
     ((case pf_list pf (expand_specifiers pf path spec) of Some entries \<Rightarrow> entries \<noteq> [] | None \<Rightarrow> False), negate)"
| "condition_fact pf spec (FileIsExecutable path negate) =
     (stat_holds pf (expand_specifiers pf path spec) (\<lambda>m. fs_is_file m \<and> and (fs_mode m) 73 \<noteq> 0), negate)"
| "condition_fact pf spec (PathIsReadWrite path negate) = (path_is_read_write pf (expand_specifiers pf path spec), negate)"
| "condition_fact pf spec (PathIsDirectory path negate) = (stat_holds pf (expand_specifiers pf path spec) fs_is_dir, negate)"
| "condition_fact pf spec (FileNotEmpty path negate) =
     (stat_holds pf (expand_specifiers pf path spec) (\<lambda>m. fs_is_file m \<and> 0 < fs_len m), negate)"
| "condition_fact pf spec (PathIsMountPoint path negate) = (path_is_mount_point pf (expand_specifiers pf path spec), negate)"
| "condition_fact pf spec (PathIsSymbolicLink path negate) =
     ((case pf_lstat pf (expand_specifiers pf path spec) of Some m \<Rightarrow> fs_is_symlink m | None \<Rightarrow> False), negate)"
| "condition_fact pf spec (KernelCommandLine argument negate) =
     (kernel_command_line_contains pf (expand_specifiers pf argument spec), negate)"
| "condition_fact pf spec (Virtualization value negate) = (virtualization_matches pf value, negate)"
| "condition_fact pf spec (Security value negate) = (security_enabled pf value, negate)"
| "condition_fact pf spec (ACPower on_ac_power negate) = (ac_power_state pf = on_ac_power, negate)"
| "condition_fact pf spec (Capability capability negate) = (capability_available pf capability, negate)"
| "condition_fact pf spec (KernelModuleLoaded module negate) =
     (kernel_module_loaded pf (expand_specifiers pf module spec), negate)"
| "condition_fact pf spec (Firmware value negate) = (firmware_matches pf value, negate)"
| "condition_fact pf spec (FirstBoot first_boot negate) = (first_boot_state pf = first_boot, negate)"
| "condition_fact pf spec (CondCredential credential negate) =
     (credential_available pf spec (expand_specifiers pf credential spec), negate)"
| "condition_fact pf spec (ControlGroupController controller negate) =
     (control_group_controller_available pf controller, negate)"
| "condition_fact pf spec (CondEnvironment name expected negate) =
     ((case (pf_env pf name, expected) of
         (Some actual, Some e) \<Rightarrow> actual = e | (Some _, None) \<Rightarrow> True | (None, _) \<Rightarrow> False), negate)"
| "condition_fact pf spec (NeedsUpdate path negate) = (needs_update pf (expand_specifiers pf path spec), negate)"
| "condition_fact pf spec (CondAny conditions) = (False, False)"

fun condition_matches :: "platform \<Rightarrow> service_spec \<Rightarrow> condition \<Rightarrow> bool" where
  "condition_matches pf spec (CondAny conditions) = list_ex (condition_matches pf spec) conditions"
| "condition_matches pf spec cond =
     (let (matched, negate) = condition_fact pf spec cond in if negate then \<not> matched else matched)"

section \<open>Wildcards are glob patterns\<close>

lemma star_row_length [simp]: "length (star_row c row) = length row"
  by (induction c row rule: star_row.induct) auto

lemma star_row_nth: "i < length row \<Longrightarrow> star_row c row ! i \<longleftrightarrow> c \<or> (\<exists>j \<le> i. row ! j)"
proof (induction c row arbitrary: i rule: star_row.induct)
  case (2 c b bs)
  show ?case
  proof (cases i)
    case (Suc k)
    have "(\<exists>j \<le> Suc k. (b # bs) ! j) \<longleftrightarrow> b \<or> (\<exists>j \<le> k. bs ! j)"
      by (metis le_zero_eq less_eq_nat.simps(1) not0_implies_Suc nth_Cons_0 nth_Cons_Suc Suc_le_mono)
    then show ?thesis using 2 Suc by auto
  qed simp
qed simp

lemma shift_row_nth:
  assumes "length row = Suc (length value)" "i < Suc (length value)"
  shows "shift_row ok value row ! i \<longleftrightarrow> (\<exists>k. i = Suc k \<and> row ! k \<and> ok (value ! k))"
  using assms by (cases i) (auto simp: shift_row_def)

interpretation wildcard: glob_table "''*''" "''?''" next_row
proof unfold_locales
  fix p :: rchar and v :: "rchar list" and row :: "bool list" and i :: nat
  assume row: "length row = Suc (length v)"
  show "length (next_row v p row) = Suc (length v)" using row by (simp add: next_row_def shift_row_def)
  assume i: "i \<le> length v"
  show "next_row v ''*'' row ! i \<longleftrightarrow> (\<exists>j \<le> i. row ! j)" using row i by (simp add: next_row_def star_row_nth)
  assume "p \<noteq> ''*''"
  then show "next_row v p row ! i \<longleftrightarrow> (\<exists>k. i = Suc k \<and> row ! k \<and> (p = ''?'' \<or> p = v ! k))"
    using row i by (auto simp: next_row_def shift_row_nth)
qed

text \<open>
  C20: wildcards mean what they say: the table that \<open>wildcard_match\<close> fills answers exactly whether the
  value matches the pattern, for every pattern and value.
\<close>

theorem wildcard_match_is_glob:
  "wildcard_match pattern value \<longleftrightarrow> glob ''*'' ''?'' (chars pattern) (chars value)"
  by (simp add: wildcard_match_def Let_def wildcard.table_is_glob)

end
