(* ===== verification/Managed_State.thy ===== *)
theory Managed_State
  imports Calendar Host_Conditions
begin

text \<open>
  The state of \<open>ManagedService\<close> in \<open>crates/fractald-supervisor/src/lib.rs\<close>, the host it acts on, and
  its queries. Process, pidfd and socket handles are the numbers that name them.

  The host is the record \<open>host\<close> of operations over an arbitrary world \<open>'w\<close>: one \<open>host_call\<close> per system
  call whose only result is success or an \<open>io::Error\<close>, and one field per function that the model does
  not look into. Every operation returns the world it leaves, so the model fixes which operations run,
  in which order and with which arguments, and leaves open what they answer.
\<close>

section \<open>State\<close>

datatype exit_kind = KindExited int | KindSignaled int | KindCoreDumped int

datatype managed_listener =
  ManagedTcp nat
| ManagedUdp nat
| ManagedUnixStream nat string
| ManagedUnixDatagram nat string
| ManagedFifo nat string
| ManagedSeqPacket nat string
| ManagedNetlink nat
| ManagedSpecial nat

fun listener_fd :: "managed_listener \<Rightarrow> nat" where
  "listener_fd (ManagedTcp fd) = fd"
| "listener_fd (ManagedUdp fd) = fd"
| "listener_fd (ManagedUnixStream fd _) = fd"
| "listener_fd (ManagedUnixDatagram fd _) = fd"
| "listener_fd (ManagedFifo fd _) = fd"
| "listener_fd (ManagedSeqPacket fd _) = fd"
| "listener_fd (ManagedNetlink fd) = fd"
| "listener_fd (ManagedSpecial fd) = fd"

text \<open>The path that \<open>remove_path\<close> and \<open>Drop\<close> remove, when there is one.\<close>

fun listener_socket_path :: "managed_listener \<Rightarrow> string option" where
  "listener_socket_path (ManagedUnixStream _ path) = (if path \<noteq> [] then Some path else None)"
| "listener_socket_path (ManagedUnixDatagram _ path) = (if path \<noteq> [] then Some path else None)"
| "listener_socket_path (ManagedFifo _ path) = (if path \<noteq> [] then Some path else None)"
| "listener_socket_path (ManagedSeqPacket _ path) = (if path \<noteq> [] then Some path else None)"
| "listener_socket_path _ = None"

record helper_process =
  hp_child :: "32 word"
  hp_pidfd :: "32 word option"
  hp_pid :: "32 word"

record managed_directory =
  md_path :: string
  md_kind :: directory_kind
  md_cleanup :: bool

record private_tmp_paths =
  pt_tmp :: string
  pt_var_tmp :: string

record path_observation =
  po_exists :: bool
  po_is_directory :: bool
  po_length :: nat
  po_modified :: "int option"
  po_directory_nonempty :: bool

record dynamic_identity =
  di_uid :: "32 word"
  di_gid :: "32 word"

record managed_service =
  ms_record :: service_record
  ms_child :: "32 word option"
  ms_pidfd :: "32 word option"
  ms_process_group :: "32 word option"
  ms_forking_pending :: bool
  ms_forking_parent_exited :: bool
  ms_adopted_pid :: "32 word option"
  ms_notify_socket :: "nat option"
  ms_notify_path :: "string option"
  ms_notify_ready :: bool
  ms_dbus_ready :: bool
  ms_dbus_probe :: "32 word option"
  ms_dbus_probe_index :: nat
  ms_dbus_probe_at :: "instant option"
  ms_watchdog_deadline :: "instant option"
  ms_listeners :: "managed_listener list"
  ms_activation_fd_names :: "string list"
  ms_activation_fds :: "nat list"
  ms_activation_owned_fds :: "nat list"
  ms_stop_child :: "32 word option"
  ms_stop_pidfd :: "32 word option"
  ms_stop_pid :: "32 word option"
  ms_reload_child :: "32 word option"
  ms_reload_pidfd :: "32 word option"
  ms_reload_pid :: "32 word option"
  ms_reload_failed :: bool
  ms_start_helper :: "helper_process option"
  ms_exec_condition_helper :: "helper_process option"
  ms_exec_conditions_done :: bool
  ms_start_post_helper :: "helper_process option"
  ms_active_stop_helper :: "helper_process option"
  ms_stop_post_helper :: "helper_process option"
  ms_stop_signal :: "int option"
  ms_stop_signal_sent :: bool
  ms_start_deadline :: "instant option"
  ms_stop_deadline :: "instant option"
  ms_runtime_deadline :: "instant option"
  ms_restart_at :: "instant option"
  ms_restart_after_stop :: bool
  ms_wants_running :: bool
  ms_start_attempts :: "instant list"
  ms_cgroup_path :: "string option"
  ms_oom_events :: "64 word option"
  ms_directories :: "managed_directory list"
  ms_credential_directory :: "string option"
  ms_private_tmp_paths :: "private_tmp_paths option"
  ms_trigger_started :: "instant option"
  ms_trigger_last_fire :: "instant option"
  ms_timer_boot_fired :: bool
  ms_timer_persistent_pending :: bool
  ms_timer_random_delay :: duration
  ms_timer_accuracy_delay :: duration
  ms_calendar_fires :: "(string, nat) bmap"
  ms_calendar_pending :: "(string, nat \<times> system_time) bmap"
  ms_path_observations :: "path_observation list"
  ms_path_initial_check :: bool

abbreviation ms_spec :: "managed_service \<Rightarrow> service_spec" where
  "ms_spec m \<equiv> rc_spec (ms_record m)"

abbreviation ms_state :: "managed_service \<Rightarrow> service_state" where
  "ms_state m \<equiv> rc_state (ms_record m)"

abbreviation ms_pid :: "managed_service \<Rightarrow> 32 word option" where
  "ms_pid m \<equiv> rc_pid (ms_record m)"

section \<open>A new service\<close>

text \<open>The implied settings of \<open>dynamic_user\<close>.\<close>

definition with_identity :: "dynamic_identity \<Rightarrow> service_spec \<Rightarrow> service_spec" where
  "with_identity identity spec =
     spec\<lparr>sp_user := Some (show_nat (unat (di_uid identity))),
          sp_group := Some (show_nat (unat (di_gid identity))),
          sp_supplementary_groups :=
            (case sp_supplementary_groups spec of None \<Rightarrow> Some [] | Some gs \<Rightarrow> Some gs),
          sp_protect_system := (if sp_protect_system spec = ProtectSystemNo then ProtectSystemStrict else sp_protect_system spec),
          sp_protect_home := (if sp_protect_home spec = ProtectHomeNo then ProtectHomeReadOnly else sp_protect_home spec),
          sp_private_tmp := (if sp_private_tmp spec = PrivateTmpNo then PrivateTmpYes else sp_private_tmp spec)\<rparr>"

definition ms_of_record :: "service_record \<Rightarrow> managed_service" where
  "ms_of_record record = \<lparr>ms_record = record, ms_child = None, ms_pidfd = None, ms_process_group = None,
     ms_forking_pending = False, ms_forking_parent_exited = False, ms_adopted_pid = None,
     ms_notify_socket = None, ms_notify_path = None, ms_notify_ready = True, ms_dbus_ready = True,
     ms_dbus_probe = None, ms_dbus_probe_index = 0, ms_dbus_probe_at = None, ms_watchdog_deadline = None,
     ms_listeners = [], ms_activation_fd_names = [], ms_activation_fds = [], ms_activation_owned_fds = [],
     ms_stop_child = None, ms_stop_pidfd = None, ms_stop_pid = None, ms_reload_child = None,
     ms_reload_pidfd = None, ms_reload_pid = None, ms_reload_failed = False, ms_start_helper = None,
     ms_exec_condition_helper = None, ms_exec_conditions_done = False, ms_start_post_helper = None,
     ms_active_stop_helper = None, ms_stop_post_helper = None, ms_stop_signal = None,
     ms_stop_signal_sent = False, ms_start_deadline = None, ms_stop_deadline = None,
     ms_runtime_deadline = None, ms_restart_at = None, ms_restart_after_stop = False,
     ms_wants_running = False, ms_start_attempts = [], ms_cgroup_path = None, ms_oom_events = None,
     ms_directories = [], ms_credential_directory = None, ms_private_tmp_paths = None,
     ms_trigger_started = None, ms_trigger_last_fire = None, ms_timer_boot_fired = False,
     ms_timer_persistent_pending = False, ms_timer_random_delay = 0, ms_timer_accuracy_delay = 0,
     ms_calendar_fires = [], ms_calendar_pending = [], ms_path_observations = [],
     ms_path_initial_check = True\<rparr>"

definition ms_new :: "service_spec \<Rightarrow> dynamic_identity option \<Rightarrow> supervisor_error + managed_service" where
  "ms_new spec identity =
     bind_res (if sp_dynamic_user spec
               then (case identity of
                       None \<Rightarrow> Err (ServiceProblem NoDynamicIdentity (sp_name spec))
                     | Some i \<Rightarrow> Ok (with_identity i spec))
               else Ok spec) (\<lambda>spec.
       case record_new spec of
         Err e \<Rightarrow> Err (InvalidSpecificationOf e)
       | Ok record \<Rightarrow> Ok (ms_of_record record))"

section \<open>Queries\<close>

record service_snapshot =
  ss_name :: string
  ss_state :: service_state
  ss_pid :: "32 word option"
  ss_generation :: "64 word"
  ss_restart_count :: "32 word"
  ss_last_exit :: "exit_reason option"

definition ms_snapshot :: "managed_service \<Rightarrow> service_snapshot" where
  "ms_snapshot m = \<lparr>ss_name = sp_name (ms_spec m), ss_state = ms_state m, ss_pid = ms_pid m,
     ss_generation = rc_generation (ms_record m), ss_restart_count = rc_restart_count (ms_record m),
     ss_last_exit = rc_last_exit (ms_record m)\<rparr>"

definition mount_is_lost :: "platform \<Rightarrow> managed_service \<Rightarrow> bool" where
  "mount_is_lost pf m \<longleftrightarrow>
     sp_service_type (ms_spec m) = TypeMount \<and> ms_state m = StActive \<and>
     (case sp_mount_where (ms_spec m) of None \<Rightarrow> False | Some path \<Rightarrow> \<not> path_is_mount_point pf path)"

definition device_is_lost :: "platform \<Rightarrow> managed_service \<Rightarrow> bool" where
  "device_is_lost pf m \<longleftrightarrow>
     ms_state m = StActive \<and>
     (case sp_device_path (ms_spec m) of None \<Rightarrow> False | Some path \<Rightarrow> \<not> path_exists pf path)"

definition some_list :: "'a option \<Rightarrow> 'a list" where
  "some_list v = (case v of None \<Rightarrow> [] | Some x \<Rightarrow> [x])"

definition direct_child_pids :: "managed_service \<Rightarrow> 32 word list" where
  "direct_child_pids m =
     concat (map some_list
       [ms_pid m, ms_child m, ms_stop_pid m, ms_stop_child m, ms_reload_pid m, ms_reload_child m, ms_dbus_probe m]) @
     map hp_pid (concat (map some_list
       [ms_start_helper m, ms_exec_condition_helper m, ms_start_post_helper m, ms_active_stop_helper m,
        ms_stop_post_helper m]))"

definition ready_for_dependency :: "managed_service \<Rightarrow> bool" where
  "ready_for_dependency m =
     (if ms_state m \<noteq> StRunning \<or> ms_forking_pending m \<or> ms_start_post_helper m \<noteq> None then False
      else (case sp_service_type (ms_spec m) of
              TypeOneshot \<Rightarrow> False | TypeMount \<Rightarrow> False | TypeSwap \<Rightarrow> False
            | TypeNotify \<Rightarrow> ms_notify_ready m
            | TypeDbus \<Rightarrow> ms_dbus_ready m
            | _ \<Rightarrow> True))"

definition conditions_met :: "platform \<Rightarrow> managed_service \<Rightarrow> bool" where
  "conditions_met pf m = list_all (condition_matches pf (ms_spec m)) (sp_conditions (ms_spec m))"

definition assertions_met :: "platform \<Rightarrow> managed_service \<Rightarrow> bool" where
  "assertions_met pf m = list_all (condition_matches pf (ms_spec m)) (sp_assertions (ms_spec m))"

text \<open>No process, socket or helper is left.\<close>

definition ms_idle :: "managed_service \<Rightarrow> bool" where
  "ms_idle m \<longleftrightarrow>
     ms_child m = None \<and> ms_pidfd m = None \<and> ms_process_group m = None \<and> \<not> ms_forking_pending m \<and>
     \<not> ms_forking_parent_exited m \<and> ms_adopted_pid m = None \<and> ms_notify_socket m = None \<and>
     ms_dbus_probe m = None \<and> ms_watchdog_deadline m = None \<and> ms_listeners m = [] \<and>
     ms_activation_fd_names m = [] \<and> ms_activation_fds m = [] \<and> ms_activation_owned_fds m = [] \<and>
     ms_stop_child m = None \<and> ms_stop_pidfd m = None \<and> ms_reload_child m = None \<and>
     ms_reload_pidfd m = None \<and> ms_start_helper m = None \<and> ms_exec_condition_helper m = None \<and>
     ms_start_post_helper m = None \<and> ms_active_stop_helper m = None \<and> ms_stop_post_helper m = None"

definition ms_is_stopped :: "managed_service \<Rightarrow> bool" where
  "ms_is_stopped m \<longleftrightarrow>
     ms_idle m \<and> ms_state m \<in> {StDefined, StExited, StSkipped, StFailed} \<and>
     ms_restart_at m = None \<and> ms_runtime_deadline m = None \<and> ms_credential_directory m = None \<and>
     ms_private_tmp_paths m = None"

definition ms_reload_state :: "managed_service \<Rightarrow> string" where
  "ms_reload_state m =
     (if ms_reload_pid m \<noteq> None \<or> ms_reload_pidfd m \<noteq> None \<or> ms_reload_child m \<noteq> None then ''pending''
      else if ms_reload_failed m then ''failed'' else ''done'')"

definition service_was_up :: "service_state \<Rightarrow> bool" where
  "service_was_up state \<longleftrightarrow> state \<in> {StStarting, StRunning, StActive}"

definition service_is_down :: "service_state \<Rightarrow> bool" where
  "service_is_down state \<longleftrightarrow> \<not> service_was_up state"

definition effective_notify_access :: "service_spec \<Rightarrow> notify_access" where
  "effective_notify_access spec =
     (if sp_notify_access spec = NotifyNone \<and> (sp_service_type spec = TypeNotify \<or> sp_watchdog spec \<noteq> None)
      then NotifyMain else sp_notify_access spec)"

section \<open>What the host shows of processes\<close>

definition exit_is_success :: "exit_kind \<Rightarrow> bool" where
  "exit_is_success exit \<longleftrightarrow> exit = KindExited 0"

definition proc_path :: "32 word \<Rightarrow> string \<Rightarrow> string" where
  "proc_path pid name = ''/proc/'' @ show_nat (unat pid) @ name"

definition process_exists :: "platform \<Rightarrow> 32 word \<Rightarrow> bool" where
  "process_exists pf pid = stat_holds pf (proc_path pid []) fs_is_dir"

text \<open>The fields of \<open>/proc/<pid>/stat\<close> after the name: state, parent, group.\<close>

definition stat_fields :: "platform \<Rightarrow> 32 word \<Rightarrow> string list option" where
  "stat_fields pf pid =
     (case pf_read pf (proc_path pid ''/stat'') of
        None \<Rightarrow> None
      | Some stat \<Rightarrow> map_option (\<lambda>(_, fields). split_whitespace fields) (rsplit_once_str '') '' stat))"

definition process_group_id :: "platform \<Rightarrow> 32 word \<Rightarrow> 32 word option" where
  "process_group_id pf pid =
     (case stat_fields pf pid of Some (_ # _ # grp # _) \<Rightarrow> parse_u32 grp | _ \<Rightarrow> None)"

definition group_member :: "platform \<Rightarrow> 32 word \<Rightarrow> 32 word \<Rightarrow> bool" where
  "group_member pf process_group pid \<longleftrightarrow>
     pid \<noteq> process_group \<and>
     (case stat_fields pf pid of
        Some (state # _ # grp # _) \<Rightarrow> parse_u32 grp = Some process_group \<and> state \<noteq> ''Z''
      | _ \<Rightarrow> False)"

definition pid_file_process :: "platform \<Rightarrow> service_spec \<Rightarrow> 32 word option" where
  "pid_file_process pf spec =
     (case sp_pid_file spec of
        None \<Rightarrow> None
      | Some path \<Rightarrow>
          (case map_option split_whitespace (pf_read pf (expand_specifiers pf path spec)) of
             Some (word # _) \<Rightarrow>
               (case parse_u32 word of
                  Some pid \<Rightarrow> if pid \<noteq> 0 \<and> process_exists pf pid then Some pid else None | None \<Rightarrow> None)
           | _ \<Rightarrow> None))"

definition forking_process_candidate :: "platform \<Rightarrow> service_spec \<Rightarrow> 32 word \<Rightarrow> 32 word option" where
  "forking_process_candidate pf spec process_group =
     (case pid_file_process pf spec of
        Some pid \<Rightarrow> Some pid
      | None \<Rightarrow>
          (case pf_list pf ''/proc'' of
             None \<Rightarrow> None
           | Some entries \<Rightarrow>
               (case sort (filter (group_member pf process_group) (concat (map (some_list \<circ> parse_u32) entries))) of
                  [] \<Rightarrow> None | pid # _ \<Rightarrow> Some pid)))"

text \<open>\<open>split_once(char::is_whitespace)\<close>\<close>

definition split_at_space :: "string \<Rightarrow> (string \<times> string) option" where
  "split_at_space line =
     (case dropWhile (\<lambda>c. \<not> char_is_whitespace c) (chars line) of
        [] \<Rightarrow> None
      | _ # rest \<Rightarrow> Some (concat (takeWhile (\<lambda>c. \<not> char_is_whitespace c) (chars line)), concat rest))"

definition read_cgroup_oom_events :: "platform \<Rightarrow> string \<Rightarrow> 64 word option" where
  "read_cgroup_oom_events pf path =
     (case pf_read pf (path_join path ''memory.events'') of
        None \<Rightarrow> None
      | Some text \<Rightarrow>
          first_some (\<lambda>line. case split_at_space line of
              Some (key, value) \<Rightarrow> if key = ''oom'' then parse_u64 (trim value) else None | None \<Rightarrow> None)
            (lines text))"

end
