(* ===== verification/Managed_Ops.thy ===== *)
theory Managed_Ops
  imports Managed_State
begin

text \<open>
  The host of \<open>ManagedService\<close> and its smaller operations: signals, helper processes, environment,
  cleanup, transitions. A method is a \<open>prog\<close> over the service and the world.
\<close>

section \<open>The host\<close>

text \<open>\<open>raw_os_error()\<close> and the text of an \<open>io::Error\<close>.\<close>

record io_error =
  io_code :: "int option"
  io_text :: string

datatype host_call =
  SignalProcess "32 word" int
| SignalGroup "32 word" int
| PidfdSignal "32 word" int
| KillChild "32 word"
| WaitChild "32 word"
| RemoveFile string
| RemoveDir string
| RemoveDirAll string
| CloseFd nat
| CleanupCgroup string
| KillCgroup string
| AttachToCgroup string "32 word"
| RecordTimerFire string
| AttachOutput "32 word" \<comment> \<open>the journal forwarders of the standard streams\<close>

text \<open>The waitable status of a child: its code, or its signal.\<close>

type_synonym wait_status = "int option \<times> int option"

record 'w host =
  h_platform :: "'w \<Rightarrow> platform"
  h_now :: "'w \<Rightarrow> instant \<times> 'w"
  h_wall_clock :: "'w \<Rightarrow> system_time \<times> 'w"
  h_hash :: "service_spec \<Rightarrow> 'w \<Rightarrow> 64 word \<times> 'w"
  h_name_hash :: "string \<Rightarrow> 64 word" \<comment> \<open>\<open>DefaultHasher\<close> of a name\<close>
  h_call :: "host_call \<Rightarrow> 'w \<Rightarrow> (io_error + unit) \<times> 'w"
  h_pidfd_wait :: "32 word \<Rightarrow> 'w \<Rightarrow> (io_error + exit_kind option) \<times> 'w"
  h_child_wait :: "32 word \<Rightarrow> 'w \<Rightarrow> (io_error + wait_status option) \<times> 'w"
  h_pidfd_open :: "32 word \<Rightarrow> 'w \<Rightarrow> (io_error + 32 word) \<times> 'w"
  h_prepare_credentials :: "service_spec \<Rightarrow> 'w \<Rightarrow> (io_error + string option) \<times> 'w"
  h_prepare_directories :: "service_spec \<Rightarrow> 'w \<Rightarrow> (io_error + managed_directory list) \<times> 'w"
  h_prepare_private_tmp :: "service_spec \<Rightarrow> 'w \<Rightarrow> (io_error + private_tmp_paths option) \<times> 'w"
  h_open_listeners :: "service_spec \<Rightarrow> 'w \<Rightarrow> (io_error + managed_listener list) \<times> 'w"
  h_accept :: "managed_listener \<Rightarrow> 'w \<Rightarrow> (io_error + nat option) \<times> 'w"
  h_notify_socket :: "service_spec \<Rightarrow> 64 word \<Rightarrow> 'w \<Rightarrow> (io_error + nat \<times> string) \<times> 'w"
  h_receive :: "nat \<Rightarrow> 'w \<Rightarrow> ((string \<times> 32 word) list \<times> io_error option) \<times> 'w"
    \<comment> \<open>the datagrams read until the socket is empty, or fails for good\<close>
  h_prepare_cgroup :: "service_spec \<Rightarrow> 'w \<Rightarrow> (io_error + string option) \<times> 'w"
  h_open_stdio :: "service_spec \<Rightarrow> (string, string) bmap \<Rightarrow> nat option \<Rightarrow> 'w \<Rightarrow> (supervisor_error + unit) \<times> 'w"
  h_settings :: "service_spec \<Rightarrow> 'w \<Rightarrow> (supervisor_error + unit) \<times> 'w"
    \<comment> \<open>the checks of user, group, supplementary groups and system call filter\<close>
  h_spawn_main :: "service_spec \<Rightarrow> (string, string) bmap \<Rightarrow> nat list \<Rightarrow> string list \<Rightarrow> string option \<Rightarrow> 'w \<Rightarrow>
    (io_error + 32 word) \<times> 'w"
  h_spawn_helper :: "service_spec \<Rightarrow> (string, string) bmap \<Rightarrow> string option \<Rightarrow> string \<Rightarrow> 'w \<Rightarrow>
    (supervisor_error + helper_process) \<times> 'w"
  h_spawn_command :: "service_spec \<Rightarrow> (string, string) bmap \<Rightarrow> string \<Rightarrow> string list \<Rightarrow> 32 word \<Rightarrow> 'w \<Rightarrow>
    (supervisor_error + 32 word \<times> 32 word option) \<times> 'w"
  h_spawn_probe :: "string \<Rightarrow> 'w \<Rightarrow> (io_error + 32 word) \<times> 'w"
  h_cgroup_contains :: "string \<Rightarrow> 32 word \<Rightarrow> 'w \<Rightarrow> bool" \<comment> \<open>\<open>cgroup_contains_pid\<close>, a walk over cgroups\<close>

type_synonym ('w, 'a) ms_prog = "(managed_service \<times> 'w, 'a) prog"

definition ms_read :: "(managed_service \<Rightarrow> 'a) \<Rightarrow> ('w, 'a) ms_prog" where
  "ms_read f = read_prog (\<lambda>(m, w). f m)"

definition ms_update :: "(managed_service \<Rightarrow> managed_service) \<Rightarrow> ('w, unit) ms_prog" where
  "ms_update f = modify_prog (\<lambda>(m, w). (f m, w))"

definition ms_io :: "('w \<Rightarrow> 'a \<times> 'w) \<Rightarrow> ('w, 'a) ms_prog" where
  "ms_io op = (\<lambda>(m, w). case op w of (a, w') \<Rightarrow> (Ok a, m, w'))"

text \<open>The service and the host at once.\<close>

definition ms_with :: "'w host \<Rightarrow> (managed_service \<Rightarrow> platform \<Rightarrow> ('w, 'a) ms_prog) \<Rightarrow> ('w, 'a) ms_prog" where
  "ms_with h f = (\<lambda>(m, w). f m (h_platform h w) (m, w))"

definition ms_call :: "'w host \<Rightarrow> host_call \<Rightarrow> ('w, io_error + unit) ms_prog" where
  "ms_call h call = ms_io (h_call h call)"

definition ms_do :: "'w host \<Rightarrow> host_call \<Rightarrow> ('w, unit) ms_prog" where
  "ms_do h call = bind_prog (ms_call h call) (\<lambda>_. return_prog ())"

definition lift_res :: "supervisor_error + 'a \<Rightarrow> ('st, 'a) prog" where
  "lift_res r = (case r of Err e \<Rightarrow> raise_prog e | Ok a \<Rightarrow> return_prog a)"

definition ms_transition :: "string \<Rightarrow> event \<Rightarrow> ('w, action list) ms_prog" where
  "ms_transition label ev = (\<lambda>(m, w).
     case transition ev (ms_record m) of
       (Err e, r) \<Rightarrow> (Err (TransitionRefused label e), m\<lparr>ms_record := r\<rparr>, w)
     | (Ok actions, r) \<Rightarrow> (Ok actions, m\<lparr>ms_record := r\<rparr>, w))"

definition ms_step :: "string \<Rightarrow> event \<Rightarrow> ('w, unit) ms_prog" where \<comment> \<open>a transition whose actions are dropped\<close>
  "ms_step label ev = bind_prog (ms_transition label ev) (\<lambda>_. return_prog ())"

section \<open>Helper processes\<close>

definition exit_of_status :: "wait_status \<Rightarrow> exit_kind" where
  "exit_of_status = (\<lambda>(code, signal).
     case code of Some c \<Rightarrow> KindExited c
     | None \<Rightarrow> (case signal of Some s \<Rightarrow> KindSignaled s | None \<Rightarrow> KindExited 1))"

definition host_error :: "string \<Rightarrow> io_error \<Rightarrow> supervisor_error" where
  "host_error label e = HostFailed label (io_text e)"

text \<open>\<open>try_wait\<close> through the pidfd when there is one, else through the child.\<close>

definition wait_handles :: "'w host \<Rightarrow> string \<Rightarrow> 32 word option \<Rightarrow> 32 word option \<Rightarrow> ('w, exit_kind option) ms_prog" where
  "wait_handles h label pidfd child =
     (case pidfd of
        Some fd \<Rightarrow> bind_prog (ms_io (h_pidfd_wait h fd)) (\<lambda>r.
          case r of Err e \<Rightarrow> raise_prog (host_error label e) | Ok exit \<Rightarrow> return_prog exit)
      | None \<Rightarrow>
          (case child of
             None \<Rightarrow> return_prog None
           | Some c \<Rightarrow> bind_prog (ms_io (h_child_wait h c)) (\<lambda>r.
               case r of Err e \<Rightarrow> raise_prog (host_error label e)
               | Ok status \<Rightarrow> return_prog (map_option exit_of_status status))))"

definition observe_helper :: "'w host \<Rightarrow> string \<Rightarrow> helper_process option \<Rightarrow> ('w, exit_kind option) ms_prog" where
  "observe_helper h label helper =
     (case helper of None \<Rightarrow> return_prog None
      | Some hp \<Rightarrow> wait_handles h label (hp_pidfd hp) (Some (hp_child hp)))"

definition kill_handles :: "'w host \<Rightarrow> 32 word option \<Rightarrow> 32 word option \<Rightarrow> 32 word option \<Rightarrow> ('w, unit) ms_prog" where
  "kill_handles h group_pid pidfd child = seq_prog
     (map (\<lambda>pid. ms_do h (SignalGroup pid SIGKILL)) (some_list group_pid) @
      map (\<lambda>fd. ms_do h (PidfdSignal fd SIGKILL)) (some_list pidfd) @
      concat (map (\<lambda>c. [ms_do h (KillChild c), ms_do h (WaitChild c)]) (some_list child)))"

definition kill_helper :: "'w host \<Rightarrow> helper_process \<Rightarrow> ('w, unit) ms_prog" where
  "kill_helper h hp = kill_handles h (Some (hp_pid hp)) (hp_pidfd hp) (Some (hp_child hp))"

text \<open>\<open>if let Some(mut helper) = self.slot.take() { helper.kill(); }\<close>\<close>

definition kill_slot ::
    "'w host \<Rightarrow> (managed_service \<Rightarrow> helper_process option) \<Rightarrow> (managed_service \<Rightarrow> managed_service) \<Rightarrow> ('w, unit) ms_prog" where
  "kill_slot h slot clear =
     bind_prog (ms_read slot) (\<lambda>helper.
     case helper of
       None \<Rightarrow> return_prog ()
     | Some hp \<Rightarrow> bind_prog (ms_update clear) (\<lambda>_. kill_helper h hp))"

definition kill_start_helper :: "'w host \<Rightarrow> ('w, unit) ms_prog" where
  "kill_start_helper h = kill_slot h ms_start_helper (\<lambda>m. m\<lparr>ms_start_helper := None\<rparr>)"

definition kill_exec_condition_helper :: "'w host \<Rightarrow> ('w, unit) ms_prog" where
  "kill_exec_condition_helper h = kill_slot h ms_exec_condition_helper (\<lambda>m. m\<lparr>ms_exec_condition_helper := None\<rparr>)"

definition kill_start_post_helper :: "'w host \<Rightarrow> ('w, unit) ms_prog" where
  "kill_start_post_helper h = kill_slot h ms_start_post_helper (\<lambda>m. m\<lparr>ms_start_post_helper := None\<rparr>)"

definition kill_active_stop_helper :: "'w host \<Rightarrow> ('w, unit) ms_prog" where
  "kill_active_stop_helper h = kill_slot h ms_active_stop_helper (\<lambda>m. m\<lparr>ms_active_stop_helper := None\<rparr>)"

definition kill_stop_post_helper :: "'w host \<Rightarrow> ('w, unit) ms_prog" where
  "kill_stop_post_helper h = kill_slot h ms_stop_post_helper (\<lambda>m. m\<lparr>ms_stop_post_helper := None\<rparr>)"

definition kill_dbus_probe :: "'w host \<Rightarrow> ('w, unit) ms_prog" where
  "kill_dbus_probe h =
     bind_prog (ms_read ms_dbus_probe) (\<lambda>probe.
     bind_prog (ms_update (\<lambda>m. m\<lparr>ms_dbus_probe := None\<rparr>)) (\<lambda>_.
     bind_prog (kill_handles h None None probe) (\<lambda>_.
       ms_update (\<lambda>m. m\<lparr>ms_dbus_probe_at := None\<rparr>))))"

definition kill_stop_command :: "'w host \<Rightarrow> ('w, unit) ms_prog" where
  "kill_stop_command h =
     bind_prog (ms_read id) (\<lambda>m.
     bind_prog (kill_handles h (ms_stop_pid m) (ms_stop_pidfd m) (ms_stop_child m)) (\<lambda>_.
       ms_update (\<lambda>m. m\<lparr>ms_stop_pid := None, ms_stop_pidfd := None, ms_stop_child := None\<rparr>)))"

definition kill_reload_command :: "'w host \<Rightarrow> ('w, unit) ms_prog" where
  "kill_reload_command h =
     bind_prog (ms_read id) (\<lambda>m.
     bind_prog (kill_handles h (ms_reload_pid m) (ms_reload_pidfd m) (ms_reload_child m)) (\<lambda>_.
       ms_update (\<lambda>n. n\<lparr>ms_reload_pid := None, ms_reload_pidfd := None, ms_reload_child := None,
         ms_reload_failed := (ms_reload_failed n \<or> ms_reload_state m = ''pending'')\<rparr>)))"

section \<open>Signals\<close>

text \<open>No such process (\<open>ESRCH\<close>) counts as delivered.\<close>

definition no_such_process :: "io_error \<Rightarrow> bool" where
  "no_such_process e \<longleftrightarrow> io_code e = Some 3"

definition pidfd_unavailable :: "io_error \<Rightarrow> bool" where
  "pidfd_unavailable e \<longleftrightarrow> io_code e \<in> {Some 22, Some 38, Some 95}"

definition pidfd_signal :: "'w host \<Rightarrow> 32 word \<Rightarrow> int \<Rightarrow> ('w, unit) ms_prog" where
  "pidfd_signal h fd signal =
     bind_prog (ms_call h (PidfdSignal fd signal)) (\<lambda>r.
     case r of
       Ok _ \<Rightarrow> return_prog ()
     | Err e \<Rightarrow> if no_such_process e then return_prog () else raise_prog (host_error ''cannot signal'' e))"

definition send_process_signal :: "'w host \<Rightarrow> 32 word \<Rightarrow> int \<Rightarrow> ('w, unit) ms_prog" where
  "send_process_signal h pid signal =
     bind_prog (ms_call h (SignalProcess pid signal)) (\<lambda>r.
     case r of
       Ok _ \<Rightarrow> return_prog ()
     | Err e \<Rightarrow>
         if no_such_process e then return_prog ()
         else bind_prog (ms_read ms_pidfd) (\<lambda>pidfd.
           case pidfd of
             Some fd \<Rightarrow> pidfd_signal h fd signal
           | None \<Rightarrow> raise_prog (host_error ''cannot send signal'' e)))"

definition send_group_signal :: "'w host \<Rightarrow> 32 word \<Rightarrow> int \<Rightarrow> ('w, unit) ms_prog" where
  "send_group_signal h pid signal =
     bind_prog (ms_read id) (\<lambda>m.
     bind_prog (ms_call h (SignalGroup (case ms_process_group m of Some g \<Rightarrow> g | None \<Rightarrow> pid) signal)) (\<lambda>r.
     case r of
       Ok _ \<Rightarrow> return_prog ()
     | Err e \<Rightarrow>
         if no_such_process e then return_prog ()
         else (case ms_pidfd m of
                 Some fd \<Rightarrow> pidfd_signal h fd signal
               | None \<Rightarrow>
                   if signal = SIGKILL then
                     (case ms_child m of
                        None \<Rightarrow> return_prog ()
                      | Some c \<Rightarrow> bind_prog (ms_call h (KillChild c)) (\<lambda>r.
                          case r of Ok _ \<Rightarrow> return_prog () | Err e \<Rightarrow> raise_prog (host_error ''cannot kill'' e)))
                   else raise_prog (host_error ''cannot send signal'' e))))"

definition send_signal_raw :: "'w host \<Rightarrow> 32 word \<Rightarrow> int \<Rightarrow> ('w, unit) ms_prog" where
  "send_signal_raw h pid signal =
     bind_prog (ms_read id) (\<lambda>m.
     if ms_pid m \<noteq> Some pid then raise_prog (NotItsProcess (sp_name (ms_spec m)) pid)
     else (case sp_kill_mode (ms_spec m) of
             KillNone \<Rightarrow> return_prog ()
           | KillProcess \<Rightarrow> send_process_signal h pid signal
           | KillMixed \<Rightarrow> if signal \<noteq> SIGKILL then send_process_signal h pid signal else send_group_signal h pid signal
           | KillControlGroup \<Rightarrow> send_group_signal h pid signal))"

text \<open>A stop may replace the configured signal, and is followed by \<open>SIGHUP\<close> the first time it is sent.\<close>

definition effective_signal :: "managed_service \<Rightarrow> int \<Rightarrow> int" where
  "effective_signal m signal =
     (if ms_state m = StStopping \<and> signal = sp_kill_signal (ms_spec m)
      then (case ms_stop_signal m of Some s \<Rightarrow> s | None \<Rightarrow> signal) else signal)"

definition send_signal :: "'w host \<Rightarrow> 32 word \<Rightarrow> int \<Rightarrow> ('w, unit) ms_prog" where
  "send_signal h pid signal =
     bind_prog (ms_read id) (\<lambda>m.
     let sig = effective_signal m signal;
         initial = (ms_state m = StStopping \<and> ms_stop_signal m = Some sig \<and> \<not> ms_stop_signal_sent m)
     in bind_prog (send_signal_raw h pid sig) (\<lambda>_.
          if initial then
            bind_prog (ms_update (\<lambda>m. m\<lparr>ms_stop_signal_sent := True\<rparr>)) (\<lambda>_.
              if sp_send_sighup (ms_spec m) \<and> sig \<noteq> SIGHUP then send_signal_raw h pid SIGHUP else return_prog ())
          else return_prog ()))"

definition apply_action :: "'w host \<Rightarrow> action \<Rightarrow> ('w, unit) ms_prog" where
  "apply_action h action =
     (case action of SendSignal pid signal \<Rightarrow> send_signal h pid signal | _ \<Rightarrow> return_prog ())"

definition apply_actions :: "'w host \<Rightarrow> action list \<Rightarrow> ('w, unit) ms_prog" where
  "apply_actions h actions = each_prog (apply_action h) actions"

section \<open>Cleanup\<close>

definition cleanup_directories :: "'w host \<Rightarrow> ('w, unit) ms_prog" where
  "cleanup_directories h =
     bind_prog (ms_read id) (\<lambda>m.
     bind_prog (ms_update (\<lambda>m. m\<lparr>ms_directories := [], ms_credential_directory := None, ms_private_tmp_paths := None\<rparr>)) (\<lambda>_.
     seq_prog
       (map (\<lambda>d. ms_do h (RemoveDir (md_path d))) (filter md_cleanup (rev (ms_directories m))) @
        map (\<lambda>p. ms_do h (RemoveDirAll p)) (some_list (ms_credential_directory m)) @
        concat (map (\<lambda>p. [ms_do h (RemoveDirAll (pt_tmp p)), ms_do h (RemoveDirAll (pt_var_tmp p))])
          (some_list (ms_private_tmp_paths m))))))"

definition clear_activation_fds :: "'w host \<Rightarrow> ('w, unit) ms_prog" where
  "clear_activation_fds h =
     bind_prog (ms_read ms_activation_owned_fds) (\<lambda>fds.
     bind_prog (ms_update (\<lambda>m. m\<lparr>ms_activation_owned_fds := []\<rparr>)) (\<lambda>_.
     bind_prog (each_prog (\<lambda>fd. ms_do h (CloseFd fd)) fds) (\<lambda>_.
       ms_update (\<lambda>m. m\<lparr>ms_activation_fd_names := [], ms_activation_fds := []\<rparr>))))"

text \<open>
  A listener that is dropped removes its path, so the paths are removed once more unless
  \<open>disarm_path_removal\<close> has cleared them.
\<close>

definition close_listeners :: "'w host \<Rightarrow> bool \<Rightarrow> ('w, unit) ms_prog" where
  "close_listeners h remove_on_stop =
     bind_prog (ms_read ms_listeners) (\<lambda>listeners.
     let paths = (if remove_on_stop then concat (map (some_list \<circ> listener_socket_path) listeners) else [])
     in bind_prog (each_prog (\<lambda>p. ms_do h (RemoveFile p)) paths) (\<lambda>_.
        bind_prog (ms_update (\<lambda>m. m\<lparr>ms_listeners := []\<rparr>)) (\<lambda>_.
          each_prog (\<lambda>p. ms_do h (RemoveFile p)) paths)))"

definition reset_trigger_state :: "('w, unit) ms_prog" where
  "reset_trigger_state = ms_update (\<lambda>m. m\<lparr>ms_trigger_started := None, ms_trigger_last_fire := None,
     ms_timer_boot_fired := False, ms_timer_persistent_pending := False, ms_timer_random_delay := 0,
     ms_timer_accuracy_delay := 0, ms_calendar_fires := [], ms_calendar_pending := [],
     ms_path_observations := [], ms_path_initial_check := True\<rparr>)"

definition mark_spawn_failed :: "'w host \<Rightarrow> 64 word \<Rightarrow> instant \<Rightarrow> ('w, unit) ms_prog" where
  "mark_spawn_failed h generation now =
     bind_prog (kill_exec_condition_helper h) (\<lambda>_.
     bind_prog (clear_activation_fds h) (\<lambda>_.
     bind_prog (cleanup_directories h) (\<lambda>_.
     bind_prog (ms_transition ''cannot record spawn failure'' (SpawnFailed generation)) (\<lambda>actions.
       each_prog (\<lambda>action. case action of
           ScheduleRestart _ after \<Rightarrow> ms_update (\<lambda>m. m\<lparr>ms_restart_at :=
             (case instant_add now after of Some t \<Rightarrow> Some t | None \<Rightarrow> Some now)\<rparr>)
         | SendSignal pid signal \<Rightarrow> send_signal h pid signal
         | Spawn _ \<Rightarrow> return_prog ()) actions))))"

section \<open>Environment and helper commands\<close>

definition directory_variables :: "(string \<times> directory_kind) list" where
  "directory_variables =
     [(''CONFIGURATION_DIRECTORY'', DirConfiguration), (''RUNTIME_DIRECTORY'', DirRuntime),
      (''STATE_DIRECTORY'', DirState), (''CACHE_DIRECTORY'', DirCache), (''LOGS_DIRECTORY'', DirLogs)]"

definition read_environment_file ::
    "platform \<Rightarrow> service_spec \<Rightarrow> environment_file_spec \<Rightarrow> (string, string) bmap \<Rightarrow> supervisor_error + (string, string) bmap" where
  "read_environment_file pf spec entry vars =
     (let path = expand_specifiers pf (ef_path entry) spec
      in case pf_read pf path of
           Some source \<Rightarrow> parse_environment_file source path vars
         | None \<Rightarrow>
             if ef_optional entry \<and> pf_not_found pf path then Ok vars
             else Err (HostFailed ''cannot read EnvironmentFile'' path))"

definition add_directory_variable ::
    "managed_service \<Rightarrow> string \<times> directory_kind \<Rightarrow> (string, string) bmap \<Rightarrow> (string, string) bmap" where
  "add_directory_variable m = (\<lambda>(name, kind) vars.
     (let paths = map md_path (filter (\<lambda>d. md_kind d = kind) (ms_directories m))
      in if paths = [] then vars else bmap_insert name (join '' '' paths) vars))"

definition effective_environment :: "platform \<Rightarrow> managed_service \<Rightarrow> supervisor_error + (string, string) bmap" where
  "effective_environment pf m =
     (let spec = ms_spec m
      in map_res (\<lambda>vars.
           let vars = fold (add_directory_variable m) directory_variables vars;
               vars = fold (\<lambda>(n, v). bmap_insert n v) (sp_environment spec) vars;
               vars = fold (\<lambda>n. bmap_insert n []) (sp_unset_environment spec) vars
           in (case ms_credential_directory m of
                 None \<Rightarrow> vars | Some path \<Rightarrow> bmap_insert ''CREDENTIALS_DIRECTORY'' path vars))
         (fold_try (read_environment_file pf spec) (sp_environment_files spec) []))"

definition native_toolbox_directory :: "platform \<Rightarrow> string option" where
  "native_toolbox_directory pf =
     (case pf_env pf ''FRACTALD_TOOLBOX_DIR'' of
        Some path \<Rightarrow> Some path
      | None \<Rightarrow> List.find (\<lambda>path. stat_holds pf path fs_is_dir)
          [''/usr/lib/fractald/toolbox'', ''/usr/libexec/fractald/toolbox'',
           ''/usr/local/lib/fractald/toolbox'', ''/usr/local/libexec/fractald/toolbox''])"

text \<open>\<open>env::join_paths\<close> refuses a path that contains the separator.\<close>

definition prepend_toolbox_path :: "platform \<Rightarrow> (string, string) bmap \<Rightarrow> (string, string) bmap" where
  "prepend_toolbox_path pf vars =
     (case native_toolbox_directory pf of
        None \<Rightarrow> vars
      | Some directory \<Rightarrow>
          (let existing = (case map_of vars ''PATH'' of Some p \<Rightarrow> Some p | None \<Rightarrow> pf_env pf ''PATH'');
               paths = directory # (case existing of None \<Rightarrow> [] | Some p \<Rightarrow> split_char CHR '':'' p)
           in if list_ex (\<lambda>p. CHR '':'' \<in> set p) paths then vars
              else bmap_insert ''PATH'' (join '':'' paths) vars))"

definition spawn_script ::
    "'w host \<Rightarrow> command_spec list \<Rightarrow> 32 word option \<Rightarrow> ('w, helper_process) ms_prog" where
  "spawn_script h commands main_pid =
     ms_with h (\<lambda>m pf.
     bind_prog (lift_res (effective_environment pf m)) (\<lambda>vars.
     let vars = prepend_toolbox_path pf vars in
     bind_prog (lift_res (shell_script pf commands main_pid (ms_spec m) vars)) (\<lambda>script.
     bind_prog (ms_io (h_spawn_helper h (ms_spec m) vars (ms_notify_path m) script)) lift_res)))"

definition spawn_start_post :: "'w host \<Rightarrow> 32 word \<Rightarrow> ('w, unit) ms_prog" where
  "spawn_start_post h pid =
     bind_prog (ms_read id) (\<lambda>m.
     if sp_start_post (ms_spec m) = [] \<or> ms_start_post_helper m \<noteq> None then return_prog ()
     else match_prog (spawn_script h (sp_start_post (ms_spec m)) (Some pid)) (\<lambda>r.
       case r of
         Ok helper \<Rightarrow> ms_update (\<lambda>m. m\<lparr>ms_start_post_helper := Some helper\<rparr>)
       | Err e \<Rightarrow> bind_prog (ignore_prog (send_signal h pid (sp_kill_signal (ms_spec m)))) (\<lambda>_. raise_prog e)))"

definition spawn_stop_post :: "'w host \<Rightarrow> 32 word option \<Rightarrow> ('w, unit) ms_prog" where
  "spawn_stop_post h pid =
     bind_prog (ms_read ms_spec) (\<lambda>spec.
     if sp_stop_post spec = [] then return_prog ()
     else bind_prog (kill_stop_post_helper h) (\<lambda>_.
       match_prog (spawn_script h (sp_stop_post spec) pid) (\<lambda>r.
         case r of
           Ok helper \<Rightarrow> ms_update (\<lambda>m. m\<lparr>ms_stop_post_helper := Some helper\<rparr>)
         | Err _ \<Rightarrow> return_prog ())))"

definition spawn_active_stop :: "'w host \<Rightarrow> ('w, unit) ms_prog" where
  "spawn_active_stop h =
     bind_prog (ms_read ms_spec) (\<lambda>spec.
     case sp_stop spec of
       None \<Rightarrow> raise_prog (NoCommand ''stop'')
     | Some command \<Rightarrow> bind_prog (spawn_script h [command] None) (\<lambda>helper.
         ms_update (\<lambda>m. m\<lparr>ms_active_stop_helper := Some helper\<rparr>)))"

text \<open>The stop and the reload command: the same steps on the respective fields.\<close>

definition spawn_command ::
    "'w host \<Rightarrow> string \<Rightarrow> command_spec option \<Rightarrow> 32 word \<Rightarrow> ('w, 32 word \<times> 32 word option) ms_prog" where
  "spawn_command h label command pid =
     ms_with h (\<lambda>m pf.
     bind_prog (lift_res (effective_environment pf m)) (\<lambda>vars.
     case command of
       None \<Rightarrow> raise_prog (NoCommand label)
     | Some c \<Rightarrow>
         (let expand = (\<lambda>a. expand_command_argument pf a (ms_spec m) vars (Some pid) (cmd_expand_environment c))
          in bind_prog (ms_io (h_spawn_command h (ms_spec m) vars (expand (cmd_program c)) (map expand (cmd_args c)) pid)) lift_res)))"

definition spawn_stop_command :: "'w host \<Rightarrow> 32 word \<Rightarrow> ('w, unit) ms_prog" where
  "spawn_stop_command h pid =
     bind_prog (ms_read (\<lambda>m. sp_stop (ms_spec m))) (\<lambda>command.
     bind_prog (spawn_command h ''stop'' command pid) (\<lambda>(child, pidfd).
       ms_update (\<lambda>m. m\<lparr>ms_stop_child := Some child, ms_stop_pidfd := pidfd, ms_stop_pid := Some child\<rparr>)))"

definition spawn_reload_command :: "'w host \<Rightarrow> 32 word \<Rightarrow> ('w, unit) ms_prog" where
  "spawn_reload_command h pid =
     bind_prog (ms_read (\<lambda>m. sp_reload (ms_spec m))) (\<lambda>command.
     bind_prog (spawn_command h ''reload'' command pid) (\<lambda>(child, pidfd).
       ms_update (\<lambda>m. m\<lparr>ms_reload_child := Some child, ms_reload_pidfd := pidfd, ms_reload_pid := Some child\<rparr>)))"

section \<open>Deadlines\<close>

definition arm_watchdog :: "instant \<Rightarrow> managed_service \<Rightarrow> managed_service" where
  "arm_watchdog now m =
     m\<lparr>ms_watchdog_deadline := Option.bind (sp_watchdog (ms_spec m)) (instant_add now)\<rparr>"

definition arm_runtime_limit :: "instant \<Rightarrow> managed_service \<Rightarrow> managed_service" where
  "arm_runtime_limit now m =
     m\<lparr>ms_runtime_deadline := (case sp_runtime_max (ms_spec m) of
        None \<Rightarrow> None | Some d \<Rightarrow> if d = 0 then None else timeout_deadline now d)\<rparr>"

text \<open>\<open>if stopping with a pid { self.stop_deadline = timeout_deadline(now, stop_timeout) }\<close>\<close>

definition arm_stop_deadline :: "instant \<Rightarrow> managed_service \<Rightarrow> managed_service" where
  "arm_stop_deadline now m =
     (if ms_state m = StStopping \<and> ms_pid m \<noteq> None
      then m\<lparr>ms_stop_deadline := timeout_deadline now (sp_stop_timeout (ms_spec m))\<rparr> else m)"

section \<open>The start limit\<close>

definition start_limit_of :: "service_spec \<Rightarrow> (duration \<times> 32 word) option" where
  "start_limit_of spec =
     (if sp_start_limit_interval spec = None \<and> sp_start_limit_burst spec = None then None
      else Some (case sp_start_limit_interval spec of Some d \<Rightarrow> d | None \<Rightarrow> from_secs 10,
                 case sp_start_limit_burst spec of Some b \<Rightarrow> b | None \<Rightarrow> 5))"

definition enforce_start_limit :: "'w host \<Rightarrow> instant \<Rightarrow> ('w, unit) ms_prog" where
  "enforce_start_limit h now =
     bind_prog (ms_read id) (\<lambda>m.
     case start_limit_of (ms_spec m) of
       None \<Rightarrow> return_prog ()
     | Some (interval, burst) \<Rightarrow>
         if interval = 0 \<or> burst = 0 then ms_update (\<lambda>m. m\<lparr>ms_start_attempts := []\<rparr>)
         else
           (let attempts = dropWhile (\<lambda>attempt. interval \<le> now - attempt) (ms_start_attempts m)
            in bind_prog (ms_update (\<lambda>m. m\<lparr>ms_start_attempts := attempts\<rparr>)) (\<lambda>_.
               if unat burst \<le> length attempts then
                 bind_prog (ms_step ''cannot record start limit'' (StartLimitHit (rc_generation (ms_record m)))) (\<lambda>_.
                 bind_prog (ms_update (\<lambda>m. m\<lparr>ms_wants_running := False, ms_restart_at := None\<rparr>)) (\<lambda>_.
                 bind_prog reset_trigger_state (\<lambda>_.
                 bind_prog (cleanup_directories h) (\<lambda>_.
                   raise_prog (StartLimitExceeded (sp_name (ms_spec m)) burst interval)))))
               else ms_update (\<lambda>m. m\<lparr>ms_start_attempts := attempts @ [now]\<rparr>))))"

end
