(* ===== verification/Managed_Spawn.thy ===== *)
theory Managed_Spawn
  imports Managed_Ops
begin

text \<open>
  How \<open>ManagedService\<close> brings a service up: \<open>spawn_main\<close>, \<open>spawn_socket\<close>, \<open>spawn_trigger\<close>, \<open>spawn\<close>,
  \<open>start\<close>, and how it takes it down: \<open>stop_with_signal\<close>, \<open>restart\<close>, \<open>reload\<close>, \<open>reset_failed\<close>,
  \<open>mark_job_timeout\<close>. Dropping a process handle, a pidfd or the notify socket is the update that
  clears its field.
\<close>

section \<open>The main process\<close>

text \<open>What a failing \<open>spawn_main\<close> undoes before it records the failure and returns the error.\<close>

definition drop_notify :: "'w host \<Rightarrow> (nat \<times> string) option \<Rightarrow> ('w, unit) ms_prog list" where
  "drop_notify h notify = map (\<lambda>(_, path). ms_do h (RemoveFile path)) (some_list notify)"

definition drop_cgroup :: "'w host \<Rightarrow> string option \<Rightarrow> ('w, unit) ms_prog list" where
  "drop_cgroup h cgroup = map (\<lambda>path. ms_do h (CleanupCgroup path)) (some_list cgroup)"

definition kill_spawned :: "'w host \<Rightarrow> 32 word \<Rightarrow> ('w, unit) ms_prog list" where
  "kill_spawned h pid = [ms_do h (SignalGroup pid SIGKILL), ms_do h (KillChild pid), ms_do h (WaitChild pid)]"

definition fail_spawn ::
    "'w host \<Rightarrow> 64 word \<Rightarrow> instant \<Rightarrow> ('w, unit) ms_prog list \<Rightarrow> supervisor_error \<Rightarrow> ('w, 'a) ms_prog" where
  "fail_spawn h generation now undo e =
     bind_prog (seq_prog (undo @ [mark_spawn_failed h generation now])) (\<lambda>_. raise_prog e)"

text \<open>\<open>match r { Ok(v) => v, Err(e) => { undo; self.mark_spawn_failed(..)?; return Err(e) } }\<close>\<close>

definition or_fail ::
    "'w host \<Rightarrow> 64 word \<Rightarrow> instant \<Rightarrow> ('w, unit) ms_prog list \<Rightarrow> supervisor_error + 'a \<Rightarrow>
      ('a \<Rightarrow> ('w, 'b) ms_prog) \<Rightarrow> ('w, 'b) ms_prog" where
  "or_fail h generation now undo r k = (case r of Err e \<Rightarrow> fail_spawn h generation now undo e | Ok a \<Rightarrow> k a)"

definition io_result :: "string \<Rightarrow> io_error + 'a \<Rightarrow> supervisor_error + 'a" where
  "io_result label r = (case r of Err e \<Rightarrow> Err (host_error label e) | Ok a \<Rightarrow> Ok a)"

definition wants_notify_socket :: "service_spec \<Rightarrow> bool" where
  "wants_notify_socket spec \<longleftrightarrow>
     sp_service_type spec = TypeNotify \<or> sp_watchdog spec \<noteq> None \<or> effective_notify_access spec \<noteq> NotifyNone"

definition prepare_notify ::
    "'w host \<Rightarrow> service_spec \<Rightarrow> 64 word \<Rightarrow> ('w, supervisor_error + (nat \<times> string) option) ms_prog" where
  "prepare_notify h spec generation =
     (if wants_notify_socket spec
      then bind_prog (ms_io (h_notify_socket h spec generation)) (\<lambda>r.
        return_prog (map_res Some (io_result ''cannot prepare readiness socket'' r)))
      else return_prog (Ok None))"

text \<open>The activation descriptors are taken from the service; the owned ones are closed after the spawn.\<close>

definition take_activation :: "('w, nat list \<times> string list \<times> nat list) ms_prog" where
  "take_activation =
     bind_prog (ms_read (\<lambda>m. (ms_activation_fds m, ms_activation_fd_names m, ms_activation_owned_fds m))) (\<lambda>taken.
     bind_prog (ms_update (\<lambda>m. m\<lparr>ms_activation_fds := [], ms_activation_fd_names := [], ms_activation_owned_fds := []\<rparr>)) (\<lambda>_.
       return_prog taken))"

text \<open>The pidfd of a process, \<open>None\<close> where the kernel has none.\<close>

definition open_pidfd :: "'w host \<Rightarrow> 32 word \<Rightarrow> ('w, io_error + 32 word option) ms_prog" where
  "open_pidfd h pid =
     bind_prog (ms_io (h_pidfd_open h pid)) (\<lambda>r.
       return_prog (case r of Ok fd \<Rightarrow> Ok (Some fd)
                    | Err e \<Rightarrow> if pidfd_unavailable e then Ok None else Err e))"

definition forward_output ::
    "'w host \<Rightarrow> 64 word \<Rightarrow> instant \<Rightarrow> ('w, unit) ms_prog list \<Rightarrow> 32 word \<Rightarrow> output_mode \<Rightarrow> ('w, unit) ms_prog" where
  "forward_output h generation now undo pid mode =
     (if mode \<noteq> OutputJournal then return_prog ()
      else bind_prog (ms_call h (AttachOutput pid)) (\<lambda>r.
        or_fail h generation now (kill_spawned h pid @ undo) (io_result ''cannot forward journal output'' r) return_prog))"

definition attach_main ::
    "'w host \<Rightarrow> 64 word \<Rightarrow> instant \<Rightarrow> (nat \<times> string) option \<Rightarrow> string option \<Rightarrow> 32 word \<Rightarrow> ('w, unit) ms_prog" where
  "attach_main h generation now notify cgroup pid =
     (case cgroup of
        None \<Rightarrow> return_prog ()
      | Some path \<Rightarrow> bind_prog (ms_call h (AttachToCgroup path pid)) (\<lambda>r.
          or_fail h generation now (kill_spawned h pid @ drop_cgroup h cgroup @ drop_notify h notify)
            (io_result ''cannot attach to cgroup'' r) return_prog))"

text \<open>The fields that the new process sets, after its \<open>Spawned\<close> event.\<close>

definition install_main ::
    "instant \<Rightarrow> (nat \<times> string) option \<Rightarrow> string option \<Rightarrow> 64 word option \<Rightarrow> 32 word \<Rightarrow> 32 word option \<Rightarrow>
      managed_service \<Rightarrow> managed_service" where
  "install_main now notify cgroup oom pid pidfd m =
     (let spec = ms_spec m; kind = sp_service_type spec;
          m = m\<lparr>ms_child := Some pid, ms_pidfd := pidfd, ms_process_group := Some pid,
                ms_forking_pending := (kind = TypeForking), ms_forking_parent_exited := False,
                ms_notify_ready := (kind \<noteq> TypeNotify), ms_dbus_ready := (kind \<noteq> TypeDbus),
                ms_dbus_probe_index := 0, ms_dbus_probe_at := None, ms_watchdog_deadline := None\<rparr>;
          m = (if ms_state m = StRunning \<and> kind \<notin> {TypeForking, TypeDbus}
               then arm_runtime_limit now m else m\<lparr>ms_runtime_deadline := None\<rparr>);
          m = (case notify of None \<Rightarrow> m
               | Some (socket, path) \<Rightarrow> m\<lparr>ms_notify_socket := Some socket, ms_notify_path := Some path\<rparr>)
      in m\<lparr>ms_cgroup_path := cgroup, ms_oom_events := oom,
           ms_start_deadline := (case ms_start_deadline m of
              Some d \<Rightarrow> Some d | None \<Rightarrow> timeout_deadline now (sp_start_timeout spec))\<rparr>)"

text \<open>From the spawned child to the end of \<open>spawn_main\<close>.\<close>

definition register_main ::
    "'w host \<Rightarrow> 64 word \<Rightarrow> instant \<Rightarrow> (nat \<times> string) option \<Rightarrow> string option \<Rightarrow> 32 word \<Rightarrow> ('w, unit) ms_prog" where
  "register_main h generation now notify cgroup pid =
     ms_with h (\<lambda>_ pf.
     let oom = Option.bind cgroup (read_cgroup_oom_events pf) in
     bind_prog (open_pidfd h pid) (\<lambda>r.
     or_fail h generation now
       (drop_notify h notify @ [ms_do h (KillChild pid), ms_do h (WaitChild pid)] @ drop_cgroup h cgroup)
       (io_result ''cannot open pidfd'' r) (\<lambda>pidfd.
     match_prog (ms_step ''cannot register'' (Spawned pid generation)) (\<lambda>spawned.
     case spawned of
       Err e \<Rightarrow> bind_prog (seq_prog
           ([ms_do h (case pidfd of Some fd \<Rightarrow> PidfdSignal fd SIGKILL | None \<Rightarrow> KillChild pid),
             ms_do h (WaitChild pid)] @ drop_cgroup h cgroup @ drop_notify h notify)) (\<lambda>_. raise_prog e)
     | Ok _ \<Rightarrow>
         bind_prog (ms_update (install_main now notify cgroup oom pid pidfd)) (\<lambda>_.
         bind_prog (ms_read ms_spec) (\<lambda>spec.
           if sp_start_post spec \<noteq> [] \<and> sp_service_type spec \<notin> {TypeForking, TypeDbus}
           then spawn_start_post h pid else return_prog ()))))))"

definition spawn_main :: "'w host \<Rightarrow> 64 word \<Rightarrow> instant \<Rightarrow> ('w, unit) ms_prog" where
  "spawn_main h generation now =
     ms_with h (\<lambda>m pf.
     let spec = ms_spec m in
     or_fail h generation now [] (effective_environment pf m) (\<lambda>vars.
     bind_prog (prepare_notify h spec generation) (\<lambda>r. or_fail h generation now [] r (\<lambda>notify.
     bind_prog (ms_io (h_prepare_cgroup h spec)) (\<lambda>r.
     or_fail h generation now (drop_notify h notify) (io_result ''cannot prepare cgroup'' r) (\<lambda>cgroup.
     let undo = drop_notify h notify @ drop_cgroup h cgroup in
     bind_prog (ms_io (h_open_stdio h spec vars (case ms_activation_fds m of [] \<Rightarrow> None | fd # _ \<Rightarrow> Some fd))) (\<lambda>r.
     or_fail h generation now undo r (\<lambda>_.
     bind_prog take_activation (\<lambda>(fds, names, owned).
     bind_prog (ms_io (h_settings h spec)) (\<lambda>r. or_fail h generation now undo r (\<lambda>_.
     bind_prog (ms_io (h_spawn_main h spec vars fds names (map_option snd notify))) (\<lambda>r.
     bind_prog (each_prog (\<lambda>fd. ms_do h (CloseFd fd)) owned) (\<lambda>_.
     or_fail h generation now undo (io_result ''cannot execute'' r) (\<lambda>pid.
     seq_prog
       [forward_output h generation now undo pid (sp_stdout spec),
        forward_output h generation now undo pid (sp_stderr spec),
        attach_main h generation now notify cgroup pid,
        register_main h generation now notify cgroup pid]))))))))))))))"

section \<open>Sockets and triggers\<close>

definition spawn_socket :: "'w host \<Rightarrow> 64 word \<Rightarrow> instant \<Rightarrow> ('w, unit) ms_prog" where
  "spawn_socket h generation now =
     bind_prog (ms_read ms_spec) (\<lambda>spec.
     bind_prog (ms_io (h_open_listeners h spec)) (\<lambda>r.
     or_fail h generation now [] (io_result ''cannot open socket listeners'' r) (\<lambda>listeners.
     let paths = concat (map (some_list \<circ> listener_socket_path) listeners) in
     match_prog (ms_step ''cannot activate socket'' (Activated generation)) (\<lambda>activated.
     case activated of
       Err e \<Rightarrow> bind_prog (each_prog (\<lambda>p. ms_do h (RemoveFile p)) paths) (\<lambda>_. raise_prog e)
     | Ok _ \<Rightarrow> ms_update (\<lambda>m. m\<lparr>ms_listeners := listeners, ms_start_deadline := None\<rparr>)))))"

definition observe_path_watch :: "platform \<Rightarrow> service_spec \<Rightarrow> path_watch \<Rightarrow> path_observation" where
  "observe_path_watch pf spec watch =
     (let missing = \<lparr>po_exists = False, po_is_directory = False, po_length = 0, po_modified = None,
                     po_directory_nonempty = False\<rparr>;
          observe = (\<lambda>path. case pf_stat pf path of
             None \<Rightarrow> missing
           | Some st \<Rightarrow>
               \<lparr>po_exists = True, po_is_directory = fs_is_dir st, po_length = fs_len st,
                po_modified = fs_modified st,
                po_directory_nonempty =
                  (fs_is_dir st \<and> (case pf_list pf path of None \<Rightarrow> False | Some names \<Rightarrow> names \<noteq> []))\<rparr>)
      in (case watch of
            WatchExistsGlob pattern \<Rightarrow> missing\<lparr>po_exists := pf_glob pf (expand_specifiers pf pattern spec)\<rparr>
          | WatchChanged path \<Rightarrow> observe (expand_specifiers pf path spec)
          | WatchModified path \<Rightarrow> observe (expand_specifiers pf path spec)
          | WatchExists path \<Rightarrow> observe (expand_specifiers pf path spec)
          | WatchDirectoryNotEmpty path \<Rightarrow> observe (expand_specifiers pf path spec)))"

text \<open>The delay \<open>Some(max)\<close> of a timer draws at random.\<close>

definition draw_delay :: "'w host \<Rightarrow> duration option \<Rightarrow> ('w, duration) ms_prog" where
  "draw_delay h maximum =
     (case maximum of
        None \<Rightarrow> return_prog 0
      | Some d \<Rightarrow> bind_prog (ms_read ms_spec) (\<lambda>spec. bind_prog (ms_io (h_hash h spec)) (\<lambda>hash.
          return_prog (timer_random_delay hash d))))"

definition spawn_trigger :: "'w host \<Rightarrow> 64 word \<Rightarrow> instant \<Rightarrow> ('w, unit) ms_prog" where
  "spawn_trigger h generation now =
     bind_prog (ms_step ''cannot activate trigger'' (Activated generation)) (\<lambda>_.
     ms_with h (\<lambda>m pf.
     let spec = ms_spec m;
         persistent = (case sp_trigger spec of Some (TriggerTimer _ _ _ _ _ p _ _) \<Rightarrow> p | _ \<Rightarrow> False);
         delays = (case sp_trigger spec of Some (TriggerTimer _ _ _ _ _ _ randomized accuracy) \<Rightarrow> (randomized, accuracy)
                   | _ \<Rightarrow> (None, None));
         watches = (case sp_trigger spec of Some (TriggerPath _ ws) \<Rightarrow> ws | _ \<Rightarrow> [])
     in
     bind_prog (ms_update (\<lambda>m. m\<lparr>ms_start_deadline := None, ms_trigger_started := Some now,
       ms_trigger_last_fire := None, ms_timer_boot_fired := False\<rparr>)) (\<lambda>_.
     bind_prog (if persistent then ms_io (h_wall_clock h) else return_prog 0) (\<lambda>clock.
     bind_prog (ms_update (\<lambda>m. m\<lparr>ms_timer_persistent_pending :=
       (persistent \<and> timer_has_missed_schedule pf spec clock)\<rparr>)) (\<lambda>_.
     bind_prog (draw_delay h (fst delays)) (\<lambda>random.
     bind_prog (draw_delay h (snd delays)) (\<lambda>accuracy.
       ms_update (\<lambda>m. m\<lparr>ms_timer_random_delay := random, ms_timer_accuracy_delay := accuracy,
         ms_calendar_fires := [], ms_calendar_pending := [], ms_path_initial_check := True,
         ms_path_observations := map (observe_path_watch pf spec) watches\<rparr>))))))))"

section \<open>Spawning\<close>

text \<open>A helper that runs before the main process: its failure is recorded as a failed spawn.\<close>

definition spawn_before ::
    "'w host \<Rightarrow> 64 word \<Rightarrow> instant \<Rightarrow> command_spec list \<Rightarrow>
      (helper_process \<Rightarrow> managed_service \<Rightarrow> managed_service) \<Rightarrow> ('w, unit) ms_prog" where
  "spawn_before h generation now commands store =
     match_prog (spawn_script h commands None) (\<lambda>r. or_fail h generation now [] r (\<lambda>helper. ms_update (store helper)))"

definition spawn :: "'w host \<Rightarrow> 64 word \<Rightarrow> instant \<Rightarrow> ('w, unit) ms_prog" where
  "spawn h generation now =
     bind_prog (ms_read id) (\<lambda>m.
     let spec = ms_spec m in
     if sp_service_type spec = TypeSocket then spawn_socket h generation now
     else if sp_service_type spec \<in> {TypeTimer, TypePath} then spawn_trigger h generation now
     else if sp_exec_conditions spec \<noteq> [] \<and> \<not> ms_exec_conditions_done m then
       spawn_before h generation now (sp_exec_conditions spec) (\<lambda>hp m. m\<lparr>ms_exec_condition_helper := Some hp\<rparr>)
     else if sp_start_pre spec \<noteq> [] then
       spawn_before h generation now (sp_start_pre spec) (\<lambda>hp m. m\<lparr>ms_start_helper := Some hp\<rparr>)
     else spawn_main h generation now)"

definition apply_start_actions :: "'w host \<Rightarrow> action list \<Rightarrow> instant \<Rightarrow> ('w, unit) ms_prog" where
  "apply_start_actions h actions now =
     each_prog (\<lambda>action. case action of Spawn generation \<Rightarrow> spawn h generation now
                | other \<Rightarrow> apply_actions h [other]) actions"

section \<open>Starting\<close>

text \<open>One of the three preparations: what it makes is kept, its failure fails the start.\<close>

definition prepare_part ::
    "'w host \<Rightarrow> 64 word \<Rightarrow> instant \<Rightarrow> string \<Rightarrow> (service_spec \<Rightarrow> 'w \<Rightarrow> (io_error + 'a) \<times> 'w) \<Rightarrow>
      ('a \<Rightarrow> managed_service \<Rightarrow> managed_service) \<Rightarrow> ('w, unit) ms_prog" where
  "prepare_part h generation now label op store =
     bind_prog (ms_read ms_spec) (\<lambda>spec.
     bind_prog (ms_io (op spec)) (\<lambda>r.
     or_fail h generation now [cleanup_directories h] (io_result label r) (\<lambda>v. ms_update (store v))))"

definition prepare_start :: "'w host \<Rightarrow> 64 word \<Rightarrow> instant \<Rightarrow> ('w, unit) ms_prog" where
  "prepare_start h generation now = seq_prog
     [prepare_part h generation now ''cannot prepare credentials'' (h_prepare_credentials h)
        (\<lambda>v m. m\<lparr>ms_credential_directory := v\<rparr>),
      prepare_part h generation now ''cannot prepare service directories'' (h_prepare_directories h)
        (\<lambda>v m. m\<lparr>ms_directories := v\<rparr>),
      prepare_part h generation now ''cannot prepare private temporary directories'' (h_prepare_private_tmp h)
        (\<lambda>v m. m\<lparr>ms_private_tmp_paths := v\<rparr>)]"

text \<open>A condition or an assertion that fails ends the start with an event of its own.\<close>

definition end_start :: "string \<Rightarrow> (64 word \<Rightarrow> event) \<Rightarrow> ('w, unit) ms_prog" where
  "end_start label ev =
     bind_prog (ms_read (\<lambda>m. rc_generation (ms_record m))) (\<lambda>generation.
     bind_prog (ms_step label (ev generation)) (\<lambda>_.
       ms_update (\<lambda>m. m\<lparr>ms_start_deadline := None\<rparr>)))"

definition ms_start :: "'w host \<Rightarrow> instant \<Rightarrow> ('w, unit) ms_prog" where
  "ms_start h now =
     bind_prog (ms_update (\<lambda>m. m\<lparr>ms_wants_running := True, ms_restart_after_stop := False, ms_restart_at := None\<rparr>)) (\<lambda>_.
     bind_prog (ms_read id) (\<lambda>m.
     if ms_state m \<in> {StRunning, StStarting, StActive} then return_prog ()
     else if ms_state m = StStopping \<or>
         ms_state m = StExited \<and> (ms_active_stop_helper m \<noteq> None \<or> ms_stop_post_helper m \<noteq> None) then
       ms_update (\<lambda>m. m\<lparr>ms_restart_after_stop := True\<rparr>)
     else
       bind_prog (enforce_start_limit h now) (\<lambda>_.
       bind_prog (ms_update (\<lambda>m. m\<lparr>ms_stop_signal := None, ms_stop_signal_sent := False, ms_runtime_deadline := None\<rparr>)) (\<lambda>_.
       bind_prog (ms_transition ''cannot start'' StartRequested) (\<lambda>actions.
       ms_with h (\<lambda>m pf.
       if \<not> conditions_met pf m then end_start ''cannot skip after a false condition'' ConditionSkipped
       else if \<not> assertions_met pf m then end_start ''cannot fail after a false assertion'' StartFailed
       else
         bind_prog (ms_update (\<lambda>m. m\<lparr>ms_exec_conditions_done := False\<rparr>)) (\<lambda>_.
         bind_prog (prepare_start h (rc_generation (ms_record m)) now) (\<lambda>_.
         bind_prog (ms_update (\<lambda>m. m\<lparr>ms_start_deadline := timeout_deadline now (sp_start_timeout (ms_spec m))\<rparr>)) (\<lambda>_.
           apply_start_actions h actions now)))))))))"

section \<open>Stopping\<close>

definition clear_wants :: "('w, unit) ms_prog" where
  "clear_wants = ms_update (\<lambda>m. m\<lparr>ms_wants_running := False, ms_restart_after_stop := False,
     ms_restart_at := None, ms_runtime_deadline := None\<rparr>)"

text \<open>The parts of \<open>stop_with_signal\<close> after its event, in their order.\<close>

definition stop_sockets :: "'w host \<Rightarrow> ('w, unit) ms_prog" where
  "stop_sockets h =
     bind_prog (ms_read ms_spec) (\<lambda>spec.
       if sp_service_type spec = TypeSocket
       then bind_prog (close_listeners h (sp_remove_on_stop spec)) (\<lambda>_. clear_activation_fds h)
       else return_prog ())"

definition stop_without_process :: "'w host \<Rightarrow> ('w, unit) ms_prog" where
  "stop_without_process h =
     bind_prog (ms_read id) (\<lambda>m.
       if ms_state m = StStopping \<and> ms_pid m = None then
         seq_prog [kill_exec_condition_helper h, kill_start_helper h, kill_start_post_helper h,
           ms_update (\<lambda>m. m\<lparr>ms_start_deadline := None\<rparr>), ms_step ''cannot complete stop'' StopCompleted]
       else return_prog ())"

definition stop_active :: "'w host \<Rightarrow> instant \<Rightarrow> bool \<Rightarrow> ('w, unit) ms_prog" where
  "stop_active h now was_active =
     bind_prog (ms_read id) (\<lambda>m.
       if was_active \<and> ms_state m = StExited then
         (if sp_stop (ms_spec m) \<noteq> None
          then bind_prog (spawn_active_stop h) (\<lambda>_.
            ms_update (\<lambda>m. m\<lparr>ms_stop_deadline := timeout_deadline now (sp_stop_timeout (ms_spec m))\<rparr>))
          else spawn_stop_post h None)
       else return_prog ())"

definition stop_cleanup :: "'w host \<Rightarrow> ('w, unit) ms_prog" where
  "stop_cleanup h =
     bind_prog (ms_read ms_state) (\<lambda>state.
       if state = StExited then
         bind_prog reset_trigger_state (\<lambda>_. bind_prog (ms_read id) (\<lambda>m.
           if ms_active_stop_helper m = None \<and> ms_stop_post_helper m = None
           then cleanup_directories h else return_prog ()))
       else return_prog ())"

definition stop_process :: "'w host \<Rightarrow> int \<Rightarrow> ('w, unit) ms_prog" where
  "stop_process h signal =
     bind_prog (ms_read id) (\<lambda>m.
       case ms_pid m of
         None \<Rightarrow> return_prog ()
       | Some pid \<Rightarrow>
           if sp_stop (ms_spec m) = None then return_prog ()
           else match_prog (spawn_stop_command h pid) (\<lambda>r.
             case r of
               Ok _ \<Rightarrow> return_prog ()
             | Err _ \<Rightarrow> bind_prog (ms_read ms_stop_signal) (\<lambda>s.
                 send_signal h pid (case s of Some s \<Rightarrow> s | None \<Rightarrow> signal))))"

definition stop_timer :: "instant \<Rightarrow> managed_service \<Rightarrow> managed_service" where
  "stop_timer now m =
     m\<lparr>ms_stop_deadline :=
        (if ms_state m = StStopping \<and> ms_pid m \<noteq> None
         then (if sp_stop_timeout (ms_spec m) = duration_max then None
               else instant_add now (sp_stop_timeout (ms_spec m)))
         else None)\<rparr>"

definition stop_with_signal :: "'w host \<Rightarrow> instant \<Rightarrow> int \<Rightarrow> ('w, unit) ms_prog" where
  "stop_with_signal h now signal =
     bind_prog clear_wants (\<lambda>_.
     bind_prog (kill_dbus_probe h) (\<lambda>_.
     bind_prog (ms_update (\<lambda>m. if ms_state m \<in> {StStarting, StRunning}
       then m\<lparr>ms_stop_signal := Some signal, ms_stop_signal_sent := False\<rparr> else m)) (\<lambda>_.
     bind_prog (ms_read (\<lambda>m. ms_state m = StActive)) (\<lambda>was_active.
     bind_prog (ms_transition ''cannot stop'' StopRequested) (\<lambda>actions.
     seq_prog [apply_actions h actions, stop_sockets h, stop_without_process h, stop_active h now was_active,
       stop_cleanup h, stop_process h signal, ms_update (stop_timer now)])))))"

definition ms_stop :: "'w host \<Rightarrow> instant \<Rightarrow> ('w, unit) ms_prog" where
  "ms_stop h now = bind_prog (ms_read ms_spec) (\<lambda>spec. stop_with_signal h now (sp_kill_signal spec))"

definition stop_for_restart :: "'w host \<Rightarrow> instant \<Rightarrow> ('w, unit) ms_prog" where
  "stop_for_restart h now = bind_prog (ms_read ms_spec) (\<lambda>spec.
     stop_with_signal h now (case sp_restart_kill_signal spec of Some s \<Rightarrow> s | None \<Rightarrow> sp_kill_signal spec))"

text \<open>The \<open>Running | Starting\<close> arm of \<open>restart\<close>.\<close>

definition restart_live :: "'w host \<Rightarrow> instant \<Rightarrow> ('w, unit) ms_prog" where
  "restart_live h now =
     bind_prog (stop_for_restart h now) (\<lambda>_.
     bind_prog (ms_update (\<lambda>m. m\<lparr>ms_wants_running := True, ms_restart_after_stop := True\<rparr>)) (\<lambda>_.
     bind_prog (ms_read ms_state) (\<lambda>state.
       if state = StExited
       then bind_prog (ms_update (\<lambda>m. m\<lparr>ms_restart_after_stop := False\<rparr>)) (\<lambda>_. ms_start h now)
       else return_prog ())))"

definition ms_restart :: "'w host \<Rightarrow> instant \<Rightarrow> ('w, unit) ms_prog" where
  "ms_restart h now =
     bind_prog (ms_update (\<lambda>m. m\<lparr>ms_wants_running := True, ms_restart_at := None\<rparr>)) (\<lambda>_.
     bind_prog (ms_read ms_state) (\<lambda>state.
     case state of
       StRunning \<Rightarrow> restart_live h now
     | StStarting \<Rightarrow> restart_live h now
     | StStopping \<Rightarrow> ms_update (\<lambda>m. m\<lparr>ms_restart_after_stop := True\<rparr>)
     | StBackoff \<Rightarrow> bind_prog (ms_step ''cannot restart'' StopRequested) (\<lambda>_. ms_start h now)
     | StActive \<Rightarrow> bind_prog (ms_stop h now) (\<lambda>_. ms_start h now)
     | _ \<Rightarrow> ms_start h now))"

definition ms_reload :: "'w host \<Rightarrow> ('w, unit) ms_prog" where
  "ms_reload h =
     bind_prog (ms_read id) (\<lambda>m.
     let name = sp_name (ms_spec m) in
     if ms_state m \<noteq> StRunning then raise_prog (ServiceProblem NotRunning name)
     else if sp_reload (ms_spec m) = None then raise_prog (ServiceProblem NoReloadCommand name)
     else if ms_reload_child m \<noteq> None \<or> ms_reload_pidfd m \<noteq> None then return_prog ()
     else (case ms_pid m of
             None \<Rightarrow> raise_prog (ServiceProblem NoRecordedProcess name)
           | Some pid \<Rightarrow> bind_prog (ms_update (\<lambda>m. m\<lparr>ms_reload_failed := False\<rparr>)) (\<lambda>_. spawn_reload_command h pid)))"

definition ms_reset_failed :: "'w host \<Rightarrow> ('w, unit) ms_prog" where
  "ms_reset_failed h =
     bind_prog (ms_read ms_state) (\<lambda>state.
     if state \<noteq> StFailed then return_prog ()
     else seq_prog [ms_step ''cannot reset'' EvReset, reset_trigger_state,
       ms_update (\<lambda>m. m\<lparr>ms_start_attempts := [], ms_runtime_deadline := None\<rparr>), cleanup_directories h])"

text \<open>The helpers of a start that is given up.\<close>

definition abandon_start :: "'w host \<Rightarrow> instant \<Rightarrow> ('w, unit) ms_prog" where
  "abandon_start h now = seq_prog
     [ms_update (\<lambda>m. m\<lparr>ms_start_deadline := None\<rparr>), kill_start_helper h, kill_exec_condition_helper h,
      kill_start_post_helper h, ms_update (arm_stop_deadline now)]"

definition mark_job_timeout :: "'w host \<Rightarrow> instant \<Rightarrow> ('w, unit) ms_prog" where
  "mark_job_timeout h now =
     bind_prog clear_wants (\<lambda>_.
     bind_prog (kill_dbus_probe h) (\<lambda>_.
     bind_prog (ms_read (\<lambda>m. (ms_state m, rc_generation (ms_record m)))) (\<lambda>(state, generation).
     case state of
       StStarting \<Rightarrow> bind_prog (ms_transition ''cannot time out start job'' (StartTimedOut generation)) (\<lambda>actions.
         bind_prog (apply_actions h actions) (\<lambda>_. abandon_start h now))
     | StRunning \<Rightarrow> bind_prog (ms_transition ''cannot fail timed out job'' (StartFailed generation)) (\<lambda>actions.
         bind_prog (apply_actions h actions) (\<lambda>_. abandon_start h now))
     | StActive \<Rightarrow> return_prog ()
     | StStopping \<Rightarrow> return_prog ()
     | _ \<Rightarrow> seq_prog [ms_step ''cannot record job timeout'' JobTimedOut,
         ms_update (\<lambda>m. m\<lparr>ms_start_deadline := None\<rparr>), cleanup_directories h])))"

definition mark_lost :: "'w host \<Rightarrow> (platform \<Rightarrow> managed_service \<Rightarrow> bool) \<Rightarrow> string \<Rightarrow> ('w, unit) ms_prog" where
  "mark_lost h lost label =
     ms_with h (\<lambda>m pf.
     if \<not> lost pf m then return_prog ()
     else seq_prog [ms_update (\<lambda>m. m\<lparr>ms_wants_running := False\<rparr>), ms_step label StopRequested, cleanup_directories h])"

definition mark_mount_lost :: "'w host \<Rightarrow> ('w, unit) ms_prog" where
  "mark_mount_lost h = mark_lost h mount_is_lost ''cannot record lost mount''"

definition mark_device_lost :: "'w host \<Rightarrow> ('w, unit) ms_prog" where
  "mark_device_lost h = mark_lost h device_is_lost ''cannot record lost device''"

end
