(* ===== verification/Managed_Poll.thy ===== *)
theory Managed_Poll
  imports Managed_Spawn
begin

text \<open>
  \<open>ManagedService::poll\<close> and what it is made of: notifications, D-Bus readiness, out-of-memory events,
  watchdog and runtime limit, the exits of helpers, commands and the main process, adoption of forked
  processes, the deadlines; and \<open>trigger_due\<close>, which the supervisor polls timers and path watches with.
\<close>

section \<open>Notifications\<close>

definition process_belongs_to_service :: "'w host \<Rightarrow> 'w \<Rightarrow> managed_service \<Rightarrow> 32 word \<Rightarrow> bool" where
  "process_belongs_to_service h w m pid \<longleftrightarrow>
     (case ms_cgroup_path m of None \<Rightarrow> False | Some path \<Rightarrow> h_cgroup_contains h path pid w) \<or>
     (case ms_process_group m of
        None \<Rightarrow> False
      | Some grp \<Rightarrow> process_group_id (h_platform h w) pid = Some grp)"

definition notification_sender_allowed :: "'w host \<Rightarrow> 'w \<Rightarrow> managed_service \<Rightarrow> 32 word \<Rightarrow> bool" where
  "notification_sender_allowed h w m sender \<longleftrightarrow>
     (case effective_notify_access (ms_spec m) of
        NotifyNone \<Rightarrow> False
      | NotifyMain \<Rightarrow> ms_pid m = Some sender
      | NotifyExec \<Rightarrow>
          Some sender \<in> {ms_pid m, ms_stop_pid m, ms_reload_pid m} \<or>
          sender \<in> hp_pid ` (\<Union>slot \<in> {ms_start_helper, ms_exec_condition_helper, ms_start_post_helper,
            ms_active_stop_helper, ms_stop_post_helper}. set_option (slot m))
      | NotifyAll \<Rightarrow> process_belongs_to_service h w m sender)"

definition has_line :: "string \<Rightarrow> string \<Rightarrow> bool" where
  "has_line message wanted = list_ex (\<lambda>line. trim line = wanted) (lines message)"

definition accept_ready :: "'w host \<Rightarrow> instant \<Rightarrow> ('w, unit) ms_prog" where
  "accept_ready h now =
     bind_prog (ms_read id) (\<lambda>m.
     case ms_pid m of
       None \<Rightarrow> return_prog ()
     | Some pid \<Rightarrow>
         if ms_state m \<noteq> StStarting then return_prog ()
         else seq_prog
           [ms_step ''cannot accept readiness notification'' (Ready pid (rc_generation (ms_record m))),
            ms_update (\<lambda>m. arm_runtime_limit now (arm_watchdog now (m\<lparr>ms_notify_ready := True, ms_start_deadline := None\<rparr>))),
            spawn_start_post h pid])"

definition handle_message :: "'w host \<Rightarrow> instant \<Rightarrow> string \<Rightarrow> ('w, unit) ms_prog" where
  "handle_message h now message =
     bind_prog (if has_line message ''READY=1'' then accept_ready h now else return_prog ()) (\<lambda>_.
       ms_update (\<lambda>m. if has_line message ''WATCHDOG=1'' \<and> ms_state m = StRunning then arm_watchdog now m else m))"

definition observe_notify :: "'w host \<Rightarrow> instant \<Rightarrow> ('w, unit) ms_prog" where
  "observe_notify h now =
     bind_prog (ms_read id) (\<lambda>m.
     case ms_notify_socket m of
       None \<Rightarrow> return_prog ()
     | Some socket \<Rightarrow>
         bind_prog (ms_io (\<lambda>w. case h_receive h socket w of ((messages, failure), w') \<Rightarrow>
           ((filter (\<lambda>(_, sender). notification_sender_allowed h w m sender) messages, failure), w'))) (\<lambda>(messages, failure).
         case failure of
           Some e \<Rightarrow> raise_prog (host_error ''cannot receive readiness notification'' e)
         | None \<Rightarrow> each_prog (\<lambda>(message, _). handle_message h now message) messages))"

section \<open>D-Bus readiness\<close>

definition dbus_probe_done :: "'w host \<Rightarrow> instant \<Rightarrow> wait_status \<Rightarrow> ('w, unit) ms_prog" where
  "dbus_probe_done h now status =
     bind_prog (ms_update (\<lambda>m. m\<lparr>ms_dbus_probe := None\<rparr>)) (\<lambda>_.
     bind_prog (ms_read id) (\<lambda>m.
     case ms_pid m of
       None \<Rightarrow> raise_prog (ServiceProblem NoRecordedProcess (sp_name (ms_spec m)))
     | Some pid \<Rightarrow> seq_prog
         [ms_step ''cannot accept D-Bus readiness'' (Ready pid (rc_generation (ms_record m))),
          ms_update (\<lambda>m. arm_runtime_limit now (m\<lparr>ms_dbus_ready := True, ms_dbus_probe_index := 0,
            ms_dbus_probe_at := None, ms_start_deadline := None\<rparr>)),
          spawn_start_post h pid]))"

text \<open>The next bus name, or the first one again after a pause.\<close>

definition dbus_next_name :: "instant \<Rightarrow> managed_service \<Rightarrow> managed_service" where
  "dbus_next_name now m =
     (let index = ms_dbus_probe_index m + 1
      in if length (sp_bus_names (ms_spec m)) \<le> index
         then m\<lparr>ms_dbus_probe := None, ms_dbus_probe_index := 0, ms_dbus_probe_at := instant_add now 100000000\<rparr>
         else m\<lparr>ms_dbus_probe := None, ms_dbus_probe_index := index, ms_dbus_probe_at := Some now\<rparr>)"

definition dbus_start_probe :: "'w host \<Rightarrow> instant \<Rightarrow> ('w, unit) ms_prog" where
  "dbus_start_probe h now =
     bind_prog (ms_read id) (\<lambda>m.
     if ms_dbus_probe m \<noteq> None \<or> (case ms_dbus_probe_at m of None \<Rightarrow> False | Some at \<Rightarrow> now < at)
     then return_prog ()
     else if length (sp_bus_names (ms_spec m)) \<le> ms_dbus_probe_index m
     then raise_prog (ServiceProblem NoBusName (sp_name (ms_spec m)))
     else bind_prog (ms_io (h_spawn_probe h (sp_bus_names (ms_spec m) ! ms_dbus_probe_index m))) (\<lambda>r.
       ms_update (\<lambda>m. case r of
           Ok probe \<Rightarrow> m\<lparr>ms_dbus_probe := Some probe, ms_dbus_probe_at := None\<rparr>
         | Err _ \<Rightarrow> m\<lparr>ms_dbus_probe_at := instant_add now 1000000000\<rparr>)))"

definition observe_dbus :: "'w host \<Rightarrow> instant \<Rightarrow> ('w, unit) ms_prog" where
  "observe_dbus h now =
     bind_prog (ms_read id) (\<lambda>m.
     if sp_service_type (ms_spec m) \<noteq> TypeDbus \<or> ms_dbus_ready m \<or> ms_state m \<noteq> StStarting then return_prog ()
     else (case ms_dbus_probe m of
             None \<Rightarrow> dbus_start_probe h now
           | Some probe \<Rightarrow> bind_prog (ms_io (h_child_wait h probe)) (\<lambda>r.
               case r of
                 Ok (Some status) \<Rightarrow>
                   if fst status = Some 0 then dbus_probe_done h now status
                   else bind_prog (ms_update (dbus_next_name now)) (\<lambda>_. dbus_start_probe h now)
               | Ok None \<Rightarrow> return_prog ()
               | Err e \<Rightarrow>
                   bind_prog (ms_update (\<lambda>m. m\<lparr>ms_dbus_probe := None, ms_dbus_probe_at := instant_add now 100000000\<rparr>)) (\<lambda>_.
                     raise_prog (host_error ''cannot poll D-Bus readiness'' e)))))"

section \<open>Limits of a running service\<close>

definition check_watchdog :: "'w host \<Rightarrow> instant \<Rightarrow> ('w, unit) ms_prog" where
  "check_watchdog h now =
     bind_prog (ms_read id) (\<lambda>m.
     if ms_state m \<noteq> StRunning \<or> \<not> reached (ms_watchdog_deadline m) now then return_prog ()
     else bind_prog (ms_update (\<lambda>m. m\<lparr>ms_watchdog_deadline := None\<rparr>)) (\<lambda>_.
       case ms_pid m of None \<Rightarrow> return_prog () | Some pid \<Rightarrow> send_signal h pid SIGABRT))"

definition check_runtime_limit :: "'w host \<Rightarrow> instant \<Rightarrow> ('w, unit) ms_prog" where
  "check_runtime_limit h now =
     bind_prog (ms_read id) (\<lambda>m.
     if ms_state m \<noteq> StRunning \<or> \<not> reached (ms_runtime_deadline m) now then return_prog ()
     else
       bind_prog (ms_update (\<lambda>m. m\<lparr>ms_runtime_deadline := None\<rparr>)) (\<lambda>_.
       bind_prog (ms_transition ''cannot time out runtime'' (RuntimeTimedOut (rc_generation (ms_record m)))) (\<lambda>actions.
       bind_prog (apply_actions h actions) (\<lambda>_. ms_update (arm_stop_deadline now)))))"

definition handle_oom :: "'w host \<Rightarrow> instant \<Rightarrow> string \<Rightarrow> ('w, unit) ms_prog" where
  "handle_oom h now path =
     bind_prog (ms_read id) (\<lambda>m.
     case sp_oom_policy (ms_spec m) of
       OomContinue \<Rightarrow> return_prog ()
     | OomStop \<Rightarrow> ms_stop h now
     | OomKill \<Rightarrow> bind_prog (ms_call h (KillCgroup path)) (\<lambda>r.
         case r of
           Ok _ \<Rightarrow> return_prog ()
         | Err _ \<Rightarrow> (case ms_pid m of None \<Rightarrow> return_prog () | Some pid \<Rightarrow> send_signal h pid SIGKILL)))"

definition check_oom :: "'w host \<Rightarrow> instant \<Rightarrow> ('w, unit) ms_prog" where
  "check_oom h now =
     ms_with h (\<lambda>m pf.
     case ms_cgroup_path m of
       None \<Rightarrow> return_prog ()
     | Some path \<Rightarrow>
         (case read_cgroup_oom_events pf path of
            None \<Rightarrow> return_prog ()
          | Some current \<Rightarrow>
              bind_prog (ms_update (\<lambda>m. m\<lparr>ms_oom_events := Some current\<rparr>)) (\<lambda>_.
                case ms_oom_events m of
                  None \<Rightarrow> return_prog ()
                | Some previous \<Rightarrow>
                    if current \<le> previous \<or> ms_state m \<noteq> StRunning then return_prog ()
                    else handle_oom h now path)))"

section \<open>Exits of helpers\<close>

definition complete_stop :: "('w, unit) ms_prog" where
  "complete_stop = bind_prog (ms_step ''cannot complete stop'' StopCompleted) (\<lambda>_.
     ms_update (\<lambda>m. m\<lparr>ms_start_deadline := None\<rparr>))"

definition handle_start_helper_exit :: "'w host \<Rightarrow> instant \<Rightarrow> exit_kind \<Rightarrow> ('w, unit) ms_prog" where
  "handle_start_helper_exit h now exit =
     bind_prog (ms_update (\<lambda>m. m\<lparr>ms_start_helper := None\<rparr>)) (\<lambda>_.
     bind_prog (ms_read id) (\<lambda>m.
     let generation = rc_generation (ms_record m) in
     if ms_state m = StStopping then complete_stop
     else if \<not> exit_is_success exit then
       bind_prog (ms_update (\<lambda>m. m\<lparr>ms_start_deadline := None\<rparr>)) (\<lambda>_. mark_spawn_failed h generation now)
     else if ms_state m = StStarting then spawn_main h generation now
     else return_prog ()))"

definition handle_exec_condition_exit :: "'w host \<Rightarrow> instant \<Rightarrow> exit_kind \<Rightarrow> ('w, unit) ms_prog" where
  "handle_exec_condition_exit h now exit =
     bind_prog (ms_update (\<lambda>m. m\<lparr>ms_exec_condition_helper := None\<rparr>)) (\<lambda>_.
     bind_prog (ms_read id) (\<lambda>m.
     let generation = rc_generation (ms_record m) in
     if ms_state m = StStopping then bind_prog complete_stop (\<lambda>_. cleanup_directories h)
     else if exit = KindExited 0 then
       bind_prog (ms_update (\<lambda>m. m\<lparr>ms_exec_conditions_done := True\<rparr>)) (\<lambda>_.
         if ms_state m = StStarting then spawn h generation now else return_prog ())
     else
       bind_prog (ms_update (\<lambda>m. m\<lparr>ms_start_deadline := None\<rparr>)) (\<lambda>_.
         if (case exit of KindExited code \<Rightarrow> 1 \<le> code \<and> code \<le> 254 | _ \<Rightarrow> False) then
           bind_prog (ms_step ''cannot skip after ExecCondition'' (ConditionSkipped generation)) (\<lambda>_. cleanup_directories h)
         else mark_spawn_failed h generation now)))"

definition handle_start_post_exit :: "'w host \<Rightarrow> instant \<Rightarrow> exit_kind \<Rightarrow> ('w, unit) ms_prog" where
  "handle_start_post_exit h now exit =
     bind_prog (ms_update (\<lambda>m. m\<lparr>ms_start_post_helper := None\<rparr>)) (\<lambda>_.
     bind_prog (ms_read id) (\<lambda>m.
     if exit_is_success exit \<or> ms_state m \<noteq> StRunning then return_prog ()
     else
       bind_prog (ms_transition ''cannot record failed start-post'' (StartFailed (rc_generation (ms_record m)))) (\<lambda>actions.
       bind_prog (apply_actions h actions) (\<lambda>_.
         ms_update (\<lambda>m. m\<lparr>ms_start_deadline := None,
           ms_stop_deadline := (if ms_state m = StStopping \<and> ms_pid m \<noteq> None
             then timeout_deadline now (sp_stop_timeout (ms_spec m)) else None)\<rparr>)))))"

definition maybe_start_after_teardown :: "'w host \<Rightarrow> instant \<Rightarrow> ('w, unit) ms_prog" where
  "maybe_start_after_teardown h now =
     bind_prog (ms_read id) (\<lambda>m.
     if ms_restart_after_stop m \<and> ms_wants_running m \<and> ms_state m = StExited \<and>
        ms_active_stop_helper m = None \<and> ms_stop_post_helper m = None
     then bind_prog (ms_update (\<lambda>m. m\<lparr>ms_restart_after_stop := False\<rparr>)) (\<lambda>_. ms_start h now)
     else return_prog ())"

definition handle_stop_post_exit :: "'w host \<Rightarrow> instant \<Rightarrow> exit_kind \<Rightarrow> ('w, unit) ms_prog" where
  "handle_stop_post_exit h now exit = seq_prog
     [ms_update (\<lambda>m. m\<lparr>ms_stop_post_helper := None, ms_stop_deadline := None\<rparr>),
      cleanup_directories h, maybe_start_after_teardown h now]"

text \<open>\<open>self.spawn_stop_post(None); if none runs { self.cleanup_directories(); } self.maybe_start_after_teardown(now)\<close>\<close>

definition cleanup_unless_stop_post :: "'w host \<Rightarrow> ('w, unit) ms_prog" where
  "cleanup_unless_stop_post h =
     bind_prog (ms_read ms_stop_post_helper) (\<lambda>helper.
       if helper = None then cleanup_directories h else return_prog ())"

definition handle_active_stop_exit :: "'w host \<Rightarrow> instant \<Rightarrow> exit_kind \<Rightarrow> ('w, unit) ms_prog" where
  "handle_active_stop_exit h now exit = seq_prog
     [ms_update (\<lambda>m. m\<lparr>ms_active_stop_helper := None, ms_stop_deadline := None\<rparr>),
      spawn_stop_post h None, cleanup_unless_stop_post h, maybe_start_after_teardown h now]"

section \<open>Exits of the main process and of commands\<close>

definition observe_exit :: "'w host \<Rightarrow> ('w, exit_kind option) ms_prog" where
  "observe_exit h =
     ms_with h (\<lambda>m pf.
     case ms_adopted_pid m of
       Some pid \<Rightarrow> return_prog (if process_exists pf pid then None else Some (KindExited 1))
     | None \<Rightarrow> wait_handles h ''cannot observe'' (ms_pidfd m) (ms_child m))"

definition observe_stop_exit :: "'w host \<Rightarrow> ('w, exit_kind option) ms_prog" where
  "observe_stop_exit h = bind_prog (ms_read id) (\<lambda>m.
     wait_handles h ''cannot observe stop command'' (ms_stop_pidfd m) (ms_stop_child m))"

definition observe_reload_exit :: "'w host \<Rightarrow> ('w, exit_kind option) ms_prog" where
  "observe_reload_exit h = bind_prog (ms_read id) (\<lambda>m.
     wait_handles h ''cannot observe reload command'' (ms_reload_pidfd m) (ms_reload_child m))"

definition handle_reload_exit :: "exit_kind \<Rightarrow> ('w, unit) ms_prog" where
  "handle_reload_exit exit = ms_update (\<lambda>m. m\<lparr>ms_reload_failed := (\<not> exit_is_success exit),
     ms_reload_child := None, ms_reload_pidfd := None, ms_reload_pid := None\<rparr>)"

definition handle_stop_exit :: "'w host \<Rightarrow> ('w, unit) ms_prog" where
  "handle_stop_exit h =
     bind_prog (ms_update (\<lambda>m. m\<lparr>ms_stop_child := None, ms_stop_pidfd := None, ms_stop_pid := None\<rparr>)) (\<lambda>_.
     bind_prog (ms_read id) (\<lambda>m.
     case ms_pid m of
       None \<Rightarrow> return_prog ()
     | Some pid \<Rightarrow> send_signal h pid (case ms_stop_signal m of Some s \<Rightarrow> s | None \<Rightarrow> sp_kill_signal (ms_spec m))))"

definition exit_reason_of :: "service_spec \<Rightarrow> exit_kind \<Rightarrow> exit_reason" where
  "exit_reason_of spec exit =
     (let reason = (case exit of KindExited code \<Rightarrow> Exited code | KindSignaled s \<Rightarrow> Signaled s
                    | KindCoreDumped s \<Rightarrow> CoreDumped s)
      in if sp_main_ignore_failure spec \<and> \<not> is_success reason then Exited 0 else reason)"

text \<open>The first half of \<open>handle_exit\<close>: everything of the ended process is dropped.\<close>

definition release_process :: "'w host \<Rightarrow> ('w, unit) ms_prog" where
  "release_process h =
     bind_prog (kill_stop_command h) (\<lambda>_.
     bind_prog (kill_reload_command h) (\<lambda>_.
     bind_prog (ms_update (\<lambda>m. m\<lparr>ms_pidfd := None, ms_child := None, ms_process_group := None,
       ms_forking_pending := False, ms_forking_parent_exited := False, ms_adopted_pid := None,
       ms_notify_socket := None\<rparr>)) (\<lambda>_.
     bind_prog (kill_dbus_probe h) (\<lambda>_.
     bind_prog (ms_read id) (\<lambda>m.
     bind_prog (ms_update (\<lambda>m. m\<lparr>ms_dbus_ready := True, ms_dbus_probe_index := 0, ms_watchdog_deadline := None,
       ms_runtime_deadline := None, ms_notify_path := None, ms_notify_ready := True, ms_cgroup_path := None,
       ms_oom_events := None, ms_start_deadline := None, ms_stop_deadline := None\<rparr>)) (\<lambda>_.
       seq_prog (map (\<lambda>path. ms_do h (RemoveFile path)) (some_list (ms_notify_path m)) @
                 drop_cgroup h (ms_cgroup_path m))))))))"

text \<open>The end of \<open>handle_exit\<close>: an automatic restart is scheduled, a requested one done at once.\<close>

definition restart_after_exit :: "'w host \<Rightarrow> instant \<Rightarrow> ('w, unit) ms_prog" where
  "restart_after_exit h now =
     bind_prog (ms_read id) (\<lambda>m.
     if ms_state m = StBackoff \<and> ms_wants_running m then
       ms_update (\<lambda>m. m\<lparr>ms_restart_at := (case instant_add now (sp_restart_backoff (ms_spec m)) of
         Some t \<Rightarrow> Some t | None \<Rightarrow> Some now)\<rparr>)
     else if ms_restart_after_stop m \<and> ms_wants_running m then
       bind_prog (ms_update (\<lambda>m. m\<lparr>ms_restart_after_stop := False\<rparr>)) (\<lambda>_.
       match_prog (enforce_start_limit h now) (\<lambda>r.
       case r of
         Err _ \<Rightarrow> return_prog ()
       | Ok _ \<Rightarrow> bind_prog (ms_transition ''cannot restart'' StartRequested) (\<lambda>actions.
           apply_start_actions h actions now)))
     else return_prog ())"

definition handle_exit :: "'w host \<Rightarrow> instant \<Rightarrow> exit_kind \<Rightarrow> ('w, unit) ms_prog" where
  "handle_exit h now exit =
     bind_prog (ms_read id) (\<lambda>m.
     case ms_pid m of
       None \<Rightarrow> raise_prog (ServiceProblem NoRecordedProcess (sp_name (ms_spec m)))
     | Some pid \<Rightarrow>
         bind_prog (release_process h) (\<lambda>_.
         bind_prog (ms_transition ''cannot commit exit''
           (EvExited pid (rc_generation (ms_record m)) (exit_reason_of (ms_spec m) exit))) (\<lambda>actions.
         bind_prog (apply_actions h actions) (\<lambda>_.
         bind_prog (ms_read ms_state) (\<lambda>state.
         bind_prog (if state \<noteq> StActive
           then bind_prog (spawn_stop_post h (Some pid)) (\<lambda>_. cleanup_unless_stop_post h)
           else return_prog ()) (\<lambda>_.
           restart_after_exit h now))))))"

section \<open>Forking services\<close>

definition adopt_forked :: "'w host \<Rightarrow> instant \<Rightarrow> 32 word \<Rightarrow> 32 word option \<Rightarrow> ('w, unit) ms_prog" where
  "adopt_forked h now pid pidfd =
     bind_prog (ms_read id) (\<lambda>m.
     bind_prog (ms_step ''cannot adopt process'' (Adopted pid (rc_generation (ms_record m)))) (\<lambda>_.
     bind_prog (case ms_cgroup_path m of
         None \<Rightarrow> return_prog (Ok ())
       | Some path \<Rightarrow> ms_call h (AttachToCgroup path pid)) (\<lambda>r.
     case r of
       Err e \<Rightarrow> bind_prog (seq_prog (map (\<lambda>fd. ms_do h (PidfdSignal fd SIGKILL)) (some_list pidfd))) (\<lambda>_.
         raise_prog (host_error ''cannot attach forked process to cgroup'' e))
     | Ok _ \<Rightarrow> seq_prog
         [ms_update (\<lambda>m. arm_runtime_limit now (m\<lparr>ms_pidfd := pidfd, ms_forking_pending := False,
            ms_forking_parent_exited := False, ms_adopted_pid := Some pid, ms_start_deadline := None\<rparr>)),
          spawn_start_post h pid])))"

definition try_adopt_forking :: "'w host \<Rightarrow> instant \<Rightarrow> ('w, unit) ms_prog" where
  "try_adopt_forking h now =
     ms_with h (\<lambda>m pf.
     let give_up = ms_update (\<lambda>m. m\<lparr>ms_forking_pending := False, ms_forking_parent_exited := False\<rparr>) in
     case ms_process_group m of
       None \<Rightarrow> bind_prog give_up (\<lambda>_. raise_prog (ServiceProblem NoRecordedProcess (sp_name (ms_spec m))))
     | Some parent \<Rightarrow>
         (case forking_process_candidate pf (ms_spec m) parent of
            None \<Rightarrow>
              if reached (ms_start_deadline m) now
              then bind_prog give_up (\<lambda>_. handle_exit h now (KindExited 1)) else return_prog ()
          | Some pid \<Rightarrow>
              if pid = parent then return_prog ()
              else bind_prog (open_pidfd h pid) (\<lambda>r.
                case r of
                  Ok pidfd \<Rightarrow> adopt_forked h now pid pidfd
                | Err e \<Rightarrow> if no_such_process e then return_prog ()
                    else raise_prog (host_error ''cannot open forked process'' e))))"

definition handle_forking_parent_exit :: "'w host \<Rightarrow> instant \<Rightarrow> exit_kind \<Rightarrow> ('w, unit) ms_prog" where
  "handle_forking_parent_exit h now exit =
     (if \<not> exit_is_success exit then
        bind_prog (ms_update (\<lambda>m. m\<lparr>ms_forking_pending := False, ms_forking_parent_exited := False\<rparr>)) (\<lambda>_.
          handle_exit h now exit)
      else
        bind_prog (ms_update (\<lambda>m. m\<lparr>ms_child := None, ms_pidfd := None, ms_forking_parent_exited := True\<rparr>)) (\<lambda>_.
          try_adopt_forking h now))"

section \<open>Deadlines\<close>

definition check_stop_deadline :: "'w host \<Rightarrow> instant \<Rightarrow> ('w, unit) ms_prog" where
  "check_stop_deadline h now =
     bind_prog (ms_read id) (\<lambda>m.
     if ms_state m = StStopping \<and> reached (ms_stop_deadline m) now then
       bind_prog (ms_transition ''cannot escalate'' (StopTimedOut (rc_generation (ms_record m)))) (\<lambda>actions.
       seq_prog [apply_actions h actions, kill_start_helper h, kill_exec_condition_helper h, kill_start_post_helper h,
         kill_dbus_probe h, kill_stop_command h, ms_update (\<lambda>m. m\<lparr>ms_stop_deadline := None\<rparr>)])
     else return_prog ())"

definition check_active_stop_deadline :: "'w host \<Rightarrow> instant \<Rightarrow> ('w, unit) ms_prog" where
  "check_active_stop_deadline h now =
     bind_prog (ms_read id) (\<lambda>m.
     if ms_state m = StExited \<and> ms_active_stop_helper m \<noteq> None \<and> reached (ms_stop_deadline m) now then
       seq_prog [kill_active_stop_helper h, ms_update (\<lambda>m. m\<lparr>ms_stop_deadline := None\<rparr>), spawn_stop_post h None,
         cleanup_unless_stop_post h, maybe_start_after_teardown h now]
     else return_prog ())"

definition check_start_deadline :: "'w host \<Rightarrow> instant \<Rightarrow> ('w, unit) ms_prog" where
  "check_start_deadline h now =
     bind_prog (ms_read id) (\<lambda>m.
     if ms_state m = StStarting \<and> reached (ms_start_deadline m) now then
       bind_prog (ms_transition ''cannot time out'' (StartTimedOut (rc_generation (ms_record m)))) (\<lambda>actions.
       seq_prog [apply_actions h actions, ms_update (\<lambda>m. m\<lparr>ms_start_deadline := None\<rparr>), kill_start_helper h,
         kill_start_post_helper h, kill_dbus_probe h, ms_update (arm_stop_deadline now)])
     else return_prog ())"

definition check_restart :: "'w host \<Rightarrow> instant \<Rightarrow> ('w, unit) ms_prog" where
  "check_restart h now =
     bind_prog (ms_read id) (\<lambda>m.
     if ms_wants_running m \<and> ms_state m = StBackoff \<and> reached (ms_restart_at m) now then
       bind_prog (ms_update (\<lambda>m. m\<lparr>ms_restart_at := None\<rparr>)) (\<lambda>_.
       match_prog (enforce_start_limit h now) (\<lambda>r.
       case r of
         Err _ \<Rightarrow> return_prog ()
       | Ok _ \<Rightarrow> bind_prog (ms_transition ''cannot restart'' (RestartDue (rc_generation (ms_record m)))) (\<lambda>actions.
           apply_start_actions h actions now)))
     else return_prog ())"

section \<open>Polling\<close>

text \<open>\<open>if let Some(exit) = observe()? { handle(exit)?; }\<close>\<close>

definition on_exit ::
    "('w, exit_kind option) ms_prog \<Rightarrow> (exit_kind \<Rightarrow> ('w, unit) ms_prog) \<Rightarrow> ('w, unit) ms_prog" where
  "on_exit observe handle =
     bind_prog observe (\<lambda>exit. case exit of None \<Rightarrow> return_prog () | Some e \<Rightarrow> handle e)"

definition observe_slot :: "'w host \<Rightarrow> string \<Rightarrow> (managed_service \<Rightarrow> helper_process option) \<Rightarrow> ('w, exit_kind option) ms_prog" where
  "observe_slot h label slot = bind_prog (ms_read slot) (observe_helper h label)"

definition handle_main_exit :: "'w host \<Rightarrow> instant \<Rightarrow> exit_kind \<Rightarrow> ('w, unit) ms_prog" where
  "handle_main_exit h now exit =
     bind_prog (ms_read (\<lambda>m. ms_forking_pending m \<and> \<not> ms_forking_parent_exited m)) (\<lambda>launching.
       if launching then handle_forking_parent_exit h now exit else handle_exit h now exit)"

definition adopt_pending :: "'w host \<Rightarrow> instant \<Rightarrow> ('w, unit) ms_prog" where
  "adopt_pending h now =
     bind_prog (ms_read (\<lambda>m. ms_forking_pending m \<and> ms_forking_parent_exited m)) (\<lambda>pending.
       if pending then try_adopt_forking h now else return_prog ())"

definition ms_poll :: "'w host \<Rightarrow> instant \<Rightarrow> ('w, unit) ms_prog" where
  "ms_poll h now = seq_prog
     [observe_notify h now,
      observe_dbus h now,
      check_oom h now,
      check_watchdog h now,
      check_runtime_limit h now,
      on_exit (observe_slot h ''cannot observe exec-condition'' ms_exec_condition_helper) (handle_exec_condition_exit h now),
      on_exit (observe_slot h ''cannot observe start-pre'' ms_start_helper) (handle_start_helper_exit h now),
      on_exit (observe_slot h ''cannot observe start-post'' ms_start_post_helper) (handle_start_post_exit h now),
      on_exit (observe_slot h ''cannot observe stop'' ms_active_stop_helper) (handle_active_stop_exit h now),
      on_exit (observe_slot h ''cannot observe stop-post'' ms_stop_post_helper) (handle_stop_post_exit h now),
      on_exit (observe_reload_exit h) handle_reload_exit,
      on_exit (observe_stop_exit h) (\<lambda>_. handle_stop_exit h),
      on_exit (observe_exit h) (handle_main_exit h now),
      adopt_pending h now,
      check_stop_deadline h now,
      check_active_stop_deadline h now,
      check_start_deadline h now,
      check_restart h now]"

section \<open>Triggers\<close>

definition fire_timer :: "'w host \<Rightarrow> string \<Rightarrow> instant \<Rightarrow> ('w, string option) ms_prog" where
  "fire_timer h service now =
     ms_with h (\<lambda>m pf.
     bind_prog (ms_update (\<lambda>m. m\<lparr>ms_trigger_last_fire := Some now\<rparr>)) (\<lambda>_.
     bind_prog (case sp_trigger (ms_spec m) of
         Some (TriggerTimer _ _ _ _ _ True _ _) \<Rightarrow> ms_do h (RecordTimerFire (timer_state_path pf (ms_spec m)))
       | _ \<Rightarrow> return_prog ()) (\<lambda>_.
       return_prog (Some service))))"

definition boot_due :: "duration option \<Rightarrow> duration \<Rightarrow> instant \<Rightarrow> instant \<Rightarrow> managed_service \<Rightarrow> bool" where
  "boot_due on_boot delay started now m \<longleftrightarrow>
     (case on_boot of None \<Rightarrow> False
      | Some d \<Rightarrow> \<not> ms_timer_boot_fired m \<and> saturating_add d delay \<le> now - started)"

definition interval_due :: "duration \<Rightarrow> instant \<Rightarrow> instant \<Rightarrow> duration \<Rightarrow> bool" where
  "interval_due delay reference now d \<longleftrightarrow> saturating_add d delay \<le> now - reference"

text \<open>\<open>wall_clock.checked_add(delay).unwrap_or(wall_clock)\<close>\<close>

definition wall_clock_add :: "system_time \<Rightarrow> duration \<Rightarrow> system_time" where
  "wall_clock_add clock delay =
     (if clock + int delay < 2 ^ 63 * 1000000000 then clock + int delay else clock)"

text \<open>One turn of the loop over \<open>on_calendar\<close>; the loop ends with the first expression that fires.\<close>

fun calendar_due ::
    "'w host \<Rightarrow> string \<Rightarrow> instant \<Rightarrow> duration \<Rightarrow> system_time \<Rightarrow> string list \<Rightarrow> ('w, string option) ms_prog" where
  "calendar_due h service now delay clock [] = return_prog None"
| "calendar_due h service now delay clock (expression # rest) =
     bind_prog (ms_read id) (\<lambda>m.
     case map_of (ms_calendar_pending m) expression of
       Some (bucket, due) \<Rightarrow>
         if due \<le> clock then
           bind_prog (ms_update (\<lambda>m. m\<lparr>ms_calendar_pending := filter (\<lambda>(k, _). k \<noteq> expression) (ms_calendar_pending m),
             ms_calendar_fires := bmap_insert expression bucket (ms_calendar_fires m)\<rparr>)) (\<lambda>_. fire_timer h service now)
         else calendar_due h service now delay clock rest
     | None \<Rightarrow>
         (case calendar_match expression clock of
            None \<Rightarrow> calendar_due h service now delay clock rest
          | Some bucket \<Rightarrow>
              if map_of (ms_calendar_fires m) expression = Some bucket then calendar_due h service now delay clock rest
              else if ms_timer_random_delay m \<noteq> 0 then
                bind_prog (ms_update (\<lambda>m. m\<lparr>ms_calendar_pending :=
                  bmap_insert expression (bucket, wall_clock_add clock delay) (ms_calendar_pending m)\<rparr>)) (\<lambda>_.
                  calendar_due h service now delay clock rest)
              else
                bind_prog (ms_update (\<lambda>m. m\<lparr>ms_calendar_fires := bmap_insert expression bucket (ms_calendar_fires m)\<rparr>)) (\<lambda>_.
                  fire_timer h service now)))"

definition timer_due ::
    "'w host \<Rightarrow> instant \<Rightarrow> string \<Rightarrow> duration option \<Rightarrow> duration option \<Rightarrow> duration option \<Rightarrow> string list \<Rightarrow>
      ('w, string option) ms_prog" where
  "timer_due h now service on_boot on_active on_inactive on_calendar =
     bind_prog (ms_read id) (\<lambda>m.
     let started = (case ms_trigger_started m of Some t \<Rightarrow> t | None \<Rightarrow> now);
         delay = saturating_add (ms_timer_random_delay m) (ms_timer_accuracy_delay m);
         reference = (case ms_trigger_last_fire m of Some t \<Rightarrow> t | None \<Rightarrow> started)
     in
       if ms_timer_persistent_pending m \<and> delay \<le> now - started then
         bind_prog (ms_update (\<lambda>m. m\<lparr>ms_timer_persistent_pending := False\<rparr>)) (\<lambda>_. fire_timer h service now)
       else if boot_due on_boot delay started now m then
         bind_prog (ms_update (\<lambda>m. m\<lparr>ms_timer_boot_fired := True\<rparr>)) (\<lambda>_. fire_timer h service now)
       else if list_ex (interval_due delay reference now) (some_list on_active @ some_list on_inactive) then
         fire_timer h service now
       else bind_prog (ms_io (h_wall_clock h)) (\<lambda>clock. calendar_due h service now delay clock on_calendar))"

definition watch_due :: "bool \<Rightarrow> path_observation list \<Rightarrow> nat \<times> path_watch \<times> path_observation \<Rightarrow> bool" where
  "watch_due initial previous = (\<lambda>(index, watch, current).
     if initial then
       (case watch of
          WatchExists _ \<Rightarrow> po_exists current | WatchExistsGlob _ \<Rightarrow> po_exists current
        | WatchDirectoryNotEmpty _ \<Rightarrow> po_directory_nonempty current | _ \<Rightarrow> False)
     else if length previous \<le> index then True
     else (let before = previous ! index
           in case watch of
                WatchExists _ \<Rightarrow> po_exists current \<and> \<not> po_exists before
              | WatchExistsGlob _ \<Rightarrow> po_exists current \<and> \<not> po_exists before
              | WatchDirectoryNotEmpty _ \<Rightarrow> po_directory_nonempty current \<and> \<not> po_directory_nonempty before
              | _ \<Rightarrow> current \<noteq> before))"

definition path_due :: "'w host \<Rightarrow> string \<Rightarrow> path_watch list \<Rightarrow> ('w, string option) ms_prog" where
  "path_due h service watches =
     ms_with h (\<lambda>m pf.
     let current = map (observe_path_watch pf (ms_spec m)) watches;
         due = list_ex (watch_due (ms_path_initial_check m) (ms_path_observations m))
                 (zip [0..<length watches] (zip watches current))
     in bind_prog (ms_update (\<lambda>m. m\<lparr>ms_path_initial_check := False, ms_path_observations := current\<rparr>)) (\<lambda>_.
          return_prog (if due then Some service else None)))"

definition trigger_due :: "'w host \<Rightarrow> instant \<Rightarrow> ('w, string option) ms_prog" where
  "trigger_due h now =
     bind_prog (ms_read id) (\<lambda>m.
     if ms_state m \<noteq> StActive then return_prog None
     else (case sp_trigger (ms_spec m) of
             None \<Rightarrow> return_prog None
           | Some (TriggerTimer service on_boot on_active on_inactive on_calendar _ _ _) \<Rightarrow>
               timer_due h now service on_boot on_active on_inactive on_calendar
           | Some (TriggerPath service watches) \<Rightarrow> path_due h service watches))"

section \<open>Socket activation\<close>

definition set_activation_fds :: "'w host \<Rightarrow> nat list \<Rightarrow> string list \<Rightarrow> ('w, unit) ms_prog" where
  "set_activation_fds h fds names =
     bind_prog (ms_read id) (\<lambda>m.
     if ms_child m = None \<and> ms_state m \<noteq> StRunning then
       bind_prog (clear_activation_fds h) (\<lambda>_.
         ms_update (\<lambda>m. m\<lparr>ms_activation_fd_names := names, ms_activation_fds := fds\<rparr>))
     else return_prog ())"

definition set_activation_connection :: "'w host \<Rightarrow> nat \<Rightarrow> ('w, unit) ms_prog" where
  "set_activation_connection h fd =
     bind_prog (ms_read id) (\<lambda>m.
     if ms_child m = None \<and> ms_state m \<noteq> StRunning then
       bind_prog (clear_activation_fds h) (\<lambda>_.
         ms_update (\<lambda>m. m\<lparr>ms_activation_fds := [fd], ms_activation_owned_fds := [fd]\<rparr>))
     else ms_do h (CloseFd fd))"

end
