(* ===== verification/Managed_Contracts.thy ===== *)
theory Managed_Contracts
  imports Managed_Poll
begin

text \<open>
  What the methods of \<open>ManagedService\<close> may change. Three relations, each coarser than the one before:
  \<open>quiet\<close> methods leave the record, the wishes to run and to restart, and the start attempts alone and at most drop what
  a start has prepared; \<open>held\<close> methods change the record by lifecycle events only and at most drop what
  a start has prepared; \<open>driven\<close> methods change the record by lifecycle events only. All three are
  interpretations of \<open>step_contract\<close>, and each method is shown to meet the finest that it can.
\<close>

named_theorems quiet_ops \<comment> \<open>methods of the first kind\<close>
named_theorems held_ops \<comment> \<open>methods of the second kind\<close>
named_theorems driven_ops \<comment> \<open>methods of the third kind\<close>

section \<open>The relations\<close>

inductive evolves :: "service_record \<Rightarrow> service_record \<Rightarrow> bool" where
  unchanged: "evolves r r"
| event: "evolves r r' \<Longrightarrow> evolves r (snd (transition ev r'))"

lemma evolves_trans: "evolves b c \<Longrightarrow> evolves a b \<Longrightarrow> evolves a c"
  by (induction rule: evolves.induct) (auto intro: evolves.intros)

lemma evolves_spec: "evolves r r' \<Longrightarrow> rc_spec r' = rc_spec r"
  by (induction rule: evolves.induct) simp_all

lemma evolves_reachable: "evolves r r' \<Longrightarrow> reachable_record r \<Longrightarrow> reachable_record r'"
  by (induction rule: evolves.induct) (auto intro: stepped)

text \<open>What a start has prepared is kept or dropped, never made.\<close>

definition drops :: "managed_service \<Rightarrow> managed_service \<Rightarrow> bool" where
  "drops m m' \<longleftrightarrow>
     ms_directories m' \<in> {ms_directories m, []} \<and>
     ms_credential_directory m' \<in> {ms_credential_directory m, None} \<and>
     ms_private_tmp_paths m' \<in> {ms_private_tmp_paths m, None}"

lemma drops_refl: "drops m m"
  by (simp add: drops_def)

lemma drops_trans: "drops a b \<Longrightarrow> drops b c \<Longrightarrow> drops a c"
  by (auto simp: drops_def)

definition calm :: "managed_service \<Rightarrow> managed_service \<Rightarrow> bool" where
  "calm m m' \<longleftrightarrow>
     ms_record m' = ms_record m \<and> ms_wants_running m' = ms_wants_running m \<and>
     ms_restart_after_stop m' = ms_restart_after_stop m \<and> ms_start_attempts m' = ms_start_attempts m \<and> drops m m'"

definition quiet_step :: "managed_service \<times> 'w \<Rightarrow> managed_service \<times> 'w \<Rightarrow> bool" where
  "quiet_step st st' \<longleftrightarrow> calm (fst st) (fst st')"

definition held_step :: "managed_service \<times> 'w \<Rightarrow> managed_service \<times> 'w \<Rightarrow> bool" where
  "held_step st st' \<longleftrightarrow> evolves (ms_record (fst st)) (ms_record (fst st')) \<and> drops (fst st) (fst st')"

definition driven_step :: "managed_service \<times> 'w \<Rightarrow> managed_service \<times> 'w \<Rightarrow> bool" where
  "driven_step st st' \<longleftrightarrow> evolves (ms_record (fst st)) (ms_record (fst st'))"

interpretation quiet: step_contract quiet_step
  by unfold_locales (auto simp: quiet_step_def calm_def drops_refl intro: drops_trans)

interpretation held: step_contract held_step
  by unfold_locales (auto simp: held_step_def drops_refl intro: unchanged evolves_trans drops_trans)

interpretation driven: step_contract driven_step
  by unfold_locales (auto simp: driven_step_def intro: unchanged evolves_trans)

interpretation quiet_held: coarser_contract quiet_step held_step
  by unfold_locales (simp add: quiet_step_def held_step_def calm_def unchanged)

interpretation held_driven: coarser_contract held_step driven_step
  by unfold_locales (simp add: held_step_def driven_step_def)

section \<open>The primitives\<close>

lemma quiet_read [quiet_ops]: "quiet.steps (ms_read f)"
  unfolding ms_read_def by (rule quiet.steps_read)

lemma quiet_io [quiet_ops]: "quiet.steps (ms_io op)"
  by (rule quiet.stepsI) (simp add: ms_io_def quiet_step_def calm_def drops_refl split: prod.split)

lemma quiet_call [quiet_ops]: "quiet.steps (ms_call h call)"
  unfolding ms_call_def by (rule quiet_io)

lemma quiet_do [quiet_ops]: "quiet.steps (ms_do h call)"
  unfolding ms_do_def by (intro quiet.steps_bind quiet_call quiet.steps_return)

lemma quiet_lift [quiet_ops]: "quiet.steps (lift_res r)"
  unfolding lift_res_def by (intro quiet.steps_rules)

lemma quiet_with [quiet_ops]: "(\<And>m pf. quiet.steps (f m pf)) \<Longrightarrow> quiet.steps (ms_with h f)"
  unfolding quiet.steps_def by (simp add: ms_with_def split: prod.split)

lemma held_with [held_ops]: "(\<And>m pf. held.steps (f m pf)) \<Longrightarrow> held.steps (ms_with h f)"
  unfolding held.steps_def by (simp add: ms_with_def split: prod.split)

lemma driven_with [driven_ops]: "(\<And>m pf. driven.steps (f m pf)) \<Longrightarrow> driven.steps (ms_with h f)"
  unfolding driven.steps_def by (simp add: ms_with_def split: prod.split)

lemma quiet_update: "(\<And>m. calm m (f m)) \<Longrightarrow> quiet.steps (ms_update f)"
  by (rule quiet.stepsI) (simp add: ms_update_def prog_defs quiet_step_def split: prod.split)

lemma held_update: "(\<And>m. ms_record (f m) = ms_record m \<and> drops m (f m)) \<Longrightarrow> held.steps (ms_update f)"
  by (rule held.stepsI) (simp add: ms_update_def prog_defs held_step_def unchanged split: prod.split)

lemma driven_update: "(\<And>m. ms_record (f m) = ms_record m) \<Longrightarrow> driven.steps (ms_update f)"
  by (rule driven.stepsI) (simp add: ms_update_def prog_defs driven_step_def unchanged split: prod.split)

lemma held_transition [held_ops]: "held.steps (ms_transition label ev)"
proof (rule held.stepsI)
  fix st :: "managed_service \<times> 'a"
  obtain m w where st: "st = (m, w)" by fastforce
  obtain res r where t: "transition ev (ms_record m) = (res, r)" by fastforce
  then have "evolves (ms_record m) r" using event[OF unchanged, of "ms_record m" ev] by simp
  with t show "held_step st (snd (ms_transition label ev st))"
    by (cases res) (simp_all add: st ms_transition_def held_step_def drops_def)
qed

lemma held_event [held_ops]: "held.steps (ms_step label ev)"
  unfolding ms_step_def by (intro held.steps_bind held_transition held.steps_return)

section \<open>Quiet methods\<close>

lemmas calm_simps = calm_def drops_def

lemma quiet_wait [quiet_ops]: "quiet.steps (wait_handles h label pidfd child)"
  unfolding wait_handles_def by (intro quiet.steps_rules quiet_ops)

lemma quiet_observe [quiet_ops]: "quiet.steps (observe_helper h label helper)"
  unfolding observe_helper_def by (intro quiet.steps_rules quiet_ops)

lemma quiet_kill_handles [quiet_ops]: "quiet.steps (kill_handles h g p c)"
  unfolding kill_handles_def by (intro quiet.steps_rules quiet_ops)

lemma quiet_kill_helper [quiet_ops]: "quiet.steps (kill_helper h hp)"
  unfolding kill_helper_def by (rule quiet_kill_handles)

lemma quiet_kill_slot: "(\<And>m. calm m (clear m)) \<Longrightarrow> quiet.steps (kill_slot h slot clear)"
  unfolding kill_slot_def by (intro quiet.steps_rules quiet_ops quiet_update)

lemma quiet_kills [quiet_ops]:
  "quiet.steps (kill_start_helper h)" "quiet.steps (kill_exec_condition_helper h)"
  "quiet.steps (kill_start_post_helper h)" "quiet.steps (kill_active_stop_helper h)"
  "quiet.steps (kill_stop_post_helper h)"
  unfolding kill_start_helper_def kill_exec_condition_helper_def kill_start_post_helper_def
    kill_active_stop_helper_def kill_stop_post_helper_def
  by (intro quiet_kill_slot, simp add: calm_simps)+

lemma quiet_kill_commands [quiet_ops]:
  "quiet.steps (kill_dbus_probe h)" "quiet.steps (kill_stop_command h)" "quiet.steps (kill_reload_command h)"
  unfolding kill_dbus_probe_def kill_stop_command_def kill_reload_command_def
  by (intro quiet.steps_rules quiet_ops quiet_update, simp_all add: calm_simps)+

lemma quiet_pidfd_signal [quiet_ops]: "quiet.steps (pidfd_signal h fd signal)"
  unfolding pidfd_signal_def by (intro quiet.steps_rules quiet_ops)

lemma quiet_process_signal [quiet_ops]: "quiet.steps (send_process_signal h pid signal)"
  unfolding send_process_signal_def by (intro quiet.steps_rules quiet_ops)

lemma quiet_group_signal [quiet_ops]: "quiet.steps (send_group_signal h pid signal)"
  unfolding send_group_signal_def by (intro quiet.steps_rules quiet_ops)

lemma quiet_signal_raw [quiet_ops]: "quiet.steps (send_signal_raw h pid signal)"
  unfolding send_signal_raw_def
  by (intro quiet.steps_rules quiet_ops, simp split: kill_mode.split)
    (intro conjI impI quiet.steps_rules quiet_ops)

lemma quiet_signal [quiet_ops]: "quiet.steps (send_signal h pid signal)"
  unfolding send_signal_def Let_def
  by (intro quiet.steps_rules quiet_ops quiet_update) (simp add: calm_simps)

lemma quiet_action [quiet_ops]: "quiet.steps (apply_action h action)"
  unfolding apply_action_def by (cases action) (simp_all add: quiet_signal quiet.steps_return)

lemma quiet_actions [quiet_ops]: "quiet.steps (apply_actions h actions)"
  unfolding apply_actions_def by (intro quiet.steps_each quiet_action)

lemma quiet_cleanup [quiet_ops]: "quiet.steps (cleanup_directories h)"
  unfolding cleanup_directories_def
  by (intro quiet.steps_rules quiet_ops quiet_update) (simp add: calm_simps)

lemma quiet_clear_fds [quiet_ops]: "quiet.steps (clear_activation_fds h)"
  unfolding clear_activation_fds_def
  by (intro quiet.steps_rules quiet_ops quiet_update, simp_all add: calm_simps)

lemma quiet_close_listeners [quiet_ops]: "quiet.steps (close_listeners h r)"
  unfolding close_listeners_def Let_def
  by (intro quiet.steps_rules quiet_ops quiet_update) (simp add: calm_simps)

lemma quiet_reset_trigger [quiet_ops]: "quiet.steps reset_trigger_state"
  unfolding reset_trigger_state_def by (intro quiet_update) (simp add: calm_simps)

lemma quiet_script [quiet_ops]: "quiet.steps (spawn_script h commands pid)"
  unfolding spawn_script_def Let_def by (intro quiet.steps_rules quiet_ops)

lemma quiet_start_post [quiet_ops]: "quiet.steps (spawn_start_post h pid)"
  unfolding spawn_start_post_def
  by (intro quiet.steps_rules quiet_ops quiet_update) (simp add: calm_simps)

lemma quiet_stop_post [quiet_ops]: "quiet.steps (spawn_stop_post h pid)"
  unfolding spawn_stop_post_def
  by (intro quiet.steps_rules quiet_ops quiet_update) (simp add: calm_simps)

lemma quiet_active_stop [quiet_ops]: "quiet.steps (spawn_active_stop h)"
  unfolding spawn_active_stop_def
  by (intro quiet.steps_rules quiet_ops quiet_update) (simp add: calm_simps)

lemma quiet_spawn_command [quiet_ops]: "quiet.steps (spawn_command h label command pid)"
  unfolding spawn_command_def Let_def by (intro quiet.steps_rules quiet_ops)

lemma quiet_stop_command [quiet_ops]: "quiet.steps (spawn_stop_command h pid)"
  unfolding spawn_stop_command_def
  by (intro quiet.steps_rules quiet_ops quiet_update) (simp add: calm_simps)

lemma quiet_reload_command [quiet_ops]: "quiet.steps (spawn_reload_command h pid)"
  unfolding spawn_reload_command_def
  by (intro quiet.steps_rules quiet_ops quiet_update) (simp add: calm_simps)

lemma arm_watchdog_calm: "calm m (arm_watchdog now m)"
  by (simp add: calm_simps arm_watchdog_def)

lemma arm_runtime_limit_calm: "calm m (arm_runtime_limit now m)"
  by (simp add: calm_simps arm_runtime_limit_def)

lemma arm_stop_deadline_calm: "calm m (arm_stop_deadline now m)"
  by (simp add: calm_simps arm_stop_deadline_def)

section \<open>Methods that hold on to what is prepared\<close>

lemmas held_quiet = quiet_held.steps_coarser
lemmas quiet_as_held [held_ops] = quiet_ops [THEN held_quiet]

lemma held_spawn_failed [held_ops]: "held.steps (mark_spawn_failed h generation now)"
  unfolding mark_spawn_failed_def
  by (intro held.steps_rules held_ops held_update; simp add: drops_def)

lemma held_start_limit [held_ops]: "held.steps (enforce_start_limit h now)"
  unfolding enforce_start_limit_def Let_def
  by (intro held.steps_rules held_ops held_update, simp_all add: drops_def)

lemma held_fail [held_ops]: "list_all held.steps undo \<Longrightarrow> held.steps (fail_spawn h g now undo e)"
  unfolding fail_spawn_def by (intro held.steps_rules held_ops)

lemma held_or_fail: "list_all held.steps undo \<Longrightarrow> (\<And>a. held.steps (k a)) \<Longrightarrow> held.steps (or_fail h g now undo r k)"
  unfolding or_fail_def by (intro held.steps_rules held_ops)

lemma held_undo:
  "list_all held.steps (drop_notify h notify)" "list_all held.steps (drop_cgroup h cgroup)"
  "list_all held.steps (kill_spawned h pid)"
  unfolding drop_notify_def drop_cgroup_def kill_spawned_def
  by (intro held.steps_rules held_ops)+

lemma held_prepare_notify [held_ops]: "held.steps (prepare_notify h spec g)"
  unfolding prepare_notify_def by (intro held.steps_rules held_ops)

lemma held_take [held_ops]: "held.steps take_activation"
  unfolding take_activation_def by (intro held.steps_rules held_ops held_update) (simp add: drops_def)

lemma held_pidfd [held_ops]: "held.steps (open_pidfd h pid)"
  unfolding open_pidfd_def by (intro held.steps_rules held_ops)

lemma held_forward [held_ops]:
  "list_all held.steps undo \<Longrightarrow> held.steps (forward_output h g now undo pid mode)"
  unfolding forward_output_def by (intro held.steps_rules held_or_fail held_undo held_ops)

lemma held_attach [held_ops]: "held.steps (attach_main h g now notify cgroup pid)"
  unfolding attach_main_def by (intro held.steps_rules held_or_fail held_undo held_ops)

lemma install_main_drops: "ms_record (install_main now notify cgroup oom pid pidfd m) = ms_record m \<and>
    drops m (install_main now notify cgroup oom pid pidfd m)"
  by (simp add: install_main_def Let_def drops_def arm_runtime_limit_def split: option.split prod.split)

lemma held_register [held_ops]: "held.steps (register_main h g now notify cgroup pid)"
  unfolding register_main_def Let_def
  by (intro held.steps_rules held_or_fail held_undo held_ops held_update install_main_drops)

lemma held_spawn_main [held_ops]: "held.steps (spawn_main h generation now)"
  unfolding spawn_main_def Let_def
  by (intro held.steps_rules held_or_fail held_undo held_ops)

lemma held_spawn_socket [held_ops]: "held.steps (spawn_socket h generation now)"
  unfolding spawn_socket_def Let_def
  by (intro held.steps_rules held_or_fail held_undo held_ops held_update) (simp add: drops_def)

lemma held_draw [held_ops]: "held.steps (draw_delay h maximum)"
  unfolding draw_delay_def by (intro held.steps_rules held_ops)

lemma held_spawn_trigger [held_ops]: "held.steps (spawn_trigger h generation now)"
  unfolding spawn_trigger_def Let_def
  by (intro held.steps_rules held_ops held_update, simp_all add: drops_def)

lemma held_before: "(\<And>hp m. ms_record (store hp m) = ms_record m \<and> drops m (store hp m)) \<Longrightarrow>
    held.steps (spawn_before h generation now commands store)"
  unfolding spawn_before_def by (intro held.steps_rules held_or_fail held_undo held_ops held_update)

lemma held_spawn [held_ops]: "held.steps (spawn h generation now)"
  unfolding spawn_def Let_def
  by (intro held.steps_rules held_ops held_before, simp_all add: drops_def)

lemma held_start_actions [held_ops]: "held.steps (apply_start_actions h actions now)"
  unfolding apply_start_actions_def by (intro held.steps_rules held_ops)

section \<open>Stopping\<close>

lemma held_stop_parts [held_ops]:
  "held.steps clear_wants" "held.steps (stop_sockets h)" "held.steps (stop_without_process h)"
  "held.steps (stop_active h now was_active)" "held.steps (stop_cleanup h)" "held.steps (stop_process h signal)"
  unfolding clear_wants_def stop_sockets_def stop_without_process_def stop_active_def stop_cleanup_def
    stop_process_def
  by (intro held.steps_rules held_ops held_update; simp add: drops_def)+

lemma held_stop_signal [held_ops]: "held.steps (stop_with_signal h now signal)"
  unfolding stop_with_signal_def
  by (intro held.steps_rules held_ops held_update) (simp_all add: drops_def stop_timer_def)

lemma held_stops [held_ops]: "held.steps (ms_stop h now)" "held.steps (stop_for_restart h now)"
  unfolding ms_stop_def stop_for_restart_def by (intro held.steps_rules held_ops)+

lemma held_reload [held_ops]: "held.steps (ms_reload h)"
  unfolding ms_reload_def Let_def
  by (intro held.steps_rules held_ops held_update) (simp add: drops_def)

lemma held_reset_failed [held_ops]: "held.steps (ms_reset_failed h)"
  unfolding ms_reset_failed_def
  by (intro held.steps_rules held_ops held_update) (simp add: drops_def)

lemma held_abandon [held_ops]: "held.steps (abandon_start h now)"
  unfolding abandon_start_def
  by (intro held.steps_rules held_ops held_update) (simp_all add: drops_def arm_stop_deadline_def)

lemma held_job_timeout [held_ops]: "held.steps (mark_job_timeout h now)"
  unfolding mark_job_timeout_def
  by (intro held.steps_rules held_ops held_update; simp add: drops_def)

lemma held_lost [held_ops]: "held.steps (mark_mount_lost h)" "held.steps (mark_device_lost h)"
  unfolding mark_mount_lost_def mark_device_lost_def mark_lost_def
  by (intro held.steps_rules held_ops held_update; simp add: drops_def)+

section \<open>Observations and exits\<close>

lemma arm_drops: "ms_record (arm_runtime_limit now m) = ms_record m" "drops n (arm_runtime_limit now m) = drops n m"
  "ms_record (arm_watchdog now m) = ms_record m" "drops n (arm_watchdog now m) = drops n m"
  "ms_record (arm_stop_deadline now m) = ms_record m" "drops n (arm_stop_deadline now m) = drops n m"
  by (simp_all add: drops_def arm_runtime_limit_def arm_watchdog_def arm_stop_deadline_def)

lemma held_ready [held_ops]: "held.steps (accept_ready h now)"
  unfolding accept_ready_def
  by (intro held.steps_rules held_ops held_update) (simp add: arm_drops, simp add: drops_def)

lemma held_message [held_ops]: "held.steps (handle_message h now message)"
  unfolding handle_message_def
  by (intro held.steps_rules held_ops held_update) (simp add: arm_drops drops_refl)

lemma held_notify [held_ops]: "held.steps (observe_notify h now)"
  unfolding observe_notify_def by (intro held.steps_rules held_ops)

lemma held_dbus_parts [held_ops]:
  "held.steps (dbus_probe_done h now status)" "held.steps (dbus_start_probe h now)"
  "held.steps (ms_update (dbus_next_name now))"
  unfolding dbus_probe_done_def dbus_start_probe_def
  by (intro held.steps_rules held_ops held_update;
      simp add: arm_drops drops_def dbus_next_name_def Let_def arm_runtime_limit_def split: sum.split)+

lemma held_dbus [held_ops]: "held.steps (observe_dbus h now)"
  unfolding observe_dbus_def
  by (intro held.steps_rules held_ops held_update) (simp add: drops_def)

lemma held_limits [held_ops]:
  "held.steps (check_watchdog h now)" "held.steps (check_runtime_limit h now)"
  unfolding check_watchdog_def check_runtime_limit_def
  by (intro held.steps_rules held_ops held_update; simp add: arm_drops drops_def arm_stop_deadline_def)+

lemma held_handle_oom [held_ops]: "held.steps (handle_oom h now path)"
  unfolding handle_oom_def by (intro held.steps_rules held_ops)

lemma held_oom [held_ops]: "held.steps (check_oom h now)"
  unfolding check_oom_def
  by (intro held.steps_rules held_ops held_update) (simp add: drops_def)

lemma held_complete_stop [held_ops]: "held.steps complete_stop"
  unfolding complete_stop_def by (intro held.steps_rules held_ops held_update) (simp add: drops_def)

lemma held_helper_exits [held_ops]:
  "held.steps (handle_start_helper_exit h now exit)" "held.steps (handle_exec_condition_exit h now exit)"
  "held.steps (handle_start_post_exit h now exit)"
  unfolding handle_start_helper_exit_def handle_exec_condition_exit_def handle_start_post_exit_def Let_def
  by (intro held.steps_rules held_ops held_update; simp add: drops_def)+

lemma held_observations [held_ops]:
  "held.steps (observe_exit h)" "held.steps (observe_stop_exit h)" "held.steps (observe_reload_exit h)"
  "held.steps (observe_slot h label slot)"
  unfolding observe_exit_def observe_stop_exit_def observe_reload_exit_def observe_slot_def
  by (intro held.steps_rules held_ops)+

lemma held_command_exits [held_ops]:
  "held.steps (handle_reload_exit exit)" "held.steps (handle_stop_exit h)"
  unfolding handle_reload_exit_def handle_stop_exit_def
  by (intro held.steps_rules held_ops held_update; simp add: drops_def)+

lemma quiet_release: "quiet.steps (release_process h)"
  unfolding release_process_def drop_cgroup_def
  by (intro quiet.steps_rules quiet_ops quiet_update) (simp_all add: calm_simps)

lemmas held_release [held_ops] = held_quiet[OF quiet_release]

lemma held_restart_after_exit [held_ops]: "held.steps (restart_after_exit h now)"
  unfolding restart_after_exit_def
  by (intro held.steps_rules held_ops held_update) (simp_all add: drops_def)

lemma held_unless_stop_post [held_ops]: "held.steps (cleanup_unless_stop_post h)"
  unfolding cleanup_unless_stop_post_def by (intro held.steps_rules held_ops)

lemma held_exit [held_ops]: "held.steps (handle_exit h now exit)"
  unfolding handle_exit_def by (intro held.steps_rules held_ops)

lemma held_adopt [held_ops]: "held.steps (adopt_forked h now pid pidfd)"
  unfolding adopt_forked_def
  by (intro held.steps_rules held_ops held_update) (simp add: arm_drops, simp add: drops_def)

lemma held_forking [held_ops]:
  "held.steps (try_adopt_forking h now)" "held.steps (handle_forking_parent_exit h now exit)"
proof -
  show "held.steps (try_adopt_forking h now)"
    unfolding try_adopt_forking_def Let_def
    by (intro held.steps_rules held_ops held_update) (simp_all add: drops_def)
  then show "held.steps (handle_forking_parent_exit h now exit)"
    unfolding handle_forking_parent_exit_def
    by (intro held.steps_rules held_ops held_update) (simp_all add: drops_def)
qed

lemma held_main_exits [held_ops]: "held.steps (handle_main_exit h now exit)" "held.steps (adopt_pending h now)"
  unfolding handle_main_exit_def adopt_pending_def by (intro held.steps_rules held_ops)+

lemma held_deadlines [held_ops]:
  "held.steps (check_stop_deadline h now)" "held.steps (check_start_deadline h now)" "held.steps (check_restart h now)"
  unfolding check_stop_deadline_def check_start_deadline_def check_restart_def
  by (intro held.steps_rules held_ops held_update; simp add: arm_drops drops_def arm_stop_deadline_def)+

section \<open>Triggers and activation\<close>

lemma held_fire [held_ops]: "held.steps (fire_timer h service now)"
  unfolding fire_timer_def by (intro held.steps_rules held_ops held_update) (simp add: drops_def)

lemma held_calendar_due [held_ops]: "held.steps (calendar_due h service now delay clock expressions)"
  by (induction expressions)
    (simp_all, (intro held.steps_rules held_ops held_update; simp add: drops_def)+)

lemma held_trigger [held_ops]: "held.steps (timer_due h now service a b c d)" "held.steps (path_due h service watches)"
  unfolding timer_due_def path_due_def Let_def
  by (intro held.steps_rules held_ops held_update; simp add: drops_def)+

lemma held_trigger_due [held_ops]: "held.steps (trigger_due h now)"
  unfolding trigger_due_def by (intro held.steps_rules held_ops)

lemma held_activation [held_ops]:
  "held.steps (set_activation_fds h fds names)" "held.steps (set_activation_connection h fd)"
  unfolding set_activation_fds_def set_activation_connection_def
  by (intro held.steps_rules held_ops held_update; simp add: drops_def)+

section \<open>Methods that start\<close>

lemmas driven_held = held_driven.steps_coarser
lemmas held_as_driven [driven_ops] = held_ops [THEN driven_held]

lemma driven_or_fail: "list_all driven.steps undo \<Longrightarrow> (\<And>a. driven.steps (k a)) \<Longrightarrow>
    driven.steps (or_fail h g now undo r k)"
  unfolding or_fail_def fail_spawn_def by (intro driven.steps_rules driven_ops)

lemma driven_prepare [driven_ops]: "driven.steps (prepare_start h generation now)"
  unfolding prepare_start_def prepare_part_def
  by (intro driven.steps_rules driven_or_fail driven_ops driven_update, simp_all)

lemma driven_start [driven_ops]: "driven.steps (ms_start h now)"
  unfolding ms_start_def end_start_def
  by (intro driven.steps_rules driven_ops driven_update, simp_all)

lemma driven_restart [driven_ops]: "driven.steps (ms_restart h now)"
  unfolding ms_restart_def restart_live_def
  by (intro driven.steps_rules driven_ops driven_update; simp)

lemma driven_teardown [driven_ops]: "driven.steps (maybe_start_after_teardown h now)"
  unfolding maybe_start_after_teardown_def by (intro driven.steps_rules driven_ops driven_update) simp

lemma driven_stop_exits [driven_ops]:
  "driven.steps (handle_stop_post_exit h now exit)" "driven.steps (handle_active_stop_exit h now exit)"
  "driven.steps (check_active_stop_deadline h now)"
  unfolding handle_stop_post_exit_def handle_active_stop_exit_def check_active_stop_deadline_def
  by (intro driven.steps_rules driven_ops driven_update; simp)+

lemma driven_poll [driven_ops]: "driven.steps (ms_poll h now)"
  unfolding ms_poll_def on_exit_def
  by (intro driven.steps_rules driven_ops)

end
