(* ===== verification/Managed_Properties.thy ===== *)
theory Managed_Properties
  imports Managed_Contracts
begin

text \<open>
  Properties of single services: the record stays within the lifecycle machine whatever is called, the
  start limit as a sliding window, what a stop leaves, and what an automatic restart loses.
\<close>

section \<open>Calls\<close>

text \<open>The methods that the supervisor calls on a service.\<close>

datatype service_call =
  CallStart | CallStop | CallRestart | CallReload | CallResetFailed | CallJobTimeout | CallMountLost
| CallDeviceLost | CallPoll | CallTrigger | CallFds "nat list" "string list" | CallConnection nat | CallClearFds

fun run_call :: "'w host \<Rightarrow> instant \<Rightarrow> service_call \<Rightarrow> ('w, unit) ms_prog" where
  "run_call h now CallStart = ms_start h now"
| "run_call h now CallStop = ms_stop h now"
| "run_call h now CallRestart = ms_restart h now"
| "run_call h now CallReload = ms_reload h"
| "run_call h now CallResetFailed = ms_reset_failed h"
| "run_call h now CallJobTimeout = mark_job_timeout h now"
| "run_call h now CallMountLost = mark_mount_lost h"
| "run_call h now CallDeviceLost = mark_device_lost h"
| "run_call h now CallPoll = ms_poll h now"
| "run_call h now CallTrigger = ignore_prog (trigger_due h now)"
| "run_call h now (CallFds fds names) = set_activation_fds h fds names"
| "run_call h now (CallConnection fd) = set_activation_connection h fd"
| "run_call h now CallClearFds = clear_activation_fds h"

definition run_calls ::
    "'w host \<Rightarrow> (instant \<times> service_call) list \<Rightarrow> managed_service \<times> 'w \<Rightarrow> managed_service \<times> 'w" where
  "run_calls h calls st = fold (\<lambda>(now, call) st. snd (run_call h now call st)) calls st"

lemma driven_call: "driven.steps (run_call h now call)"
  by (cases call) (simp_all add: driven_ops driven.steps_ignore)

lemma run_calls_evolves: "evolves (ms_record (fst st)) (ms_record (fst (run_calls h calls st)))"
proof (induction calls arbitrary: st)
  case Nil
  then show ?case by (simp add: run_calls_def unchanged)
next
  case (Cons c calls)
  obtain now call where c: "c = (now, call)" by fastforce
  let ?st = "snd (run_call h now call st)"
  have "evolves (ms_record (fst st)) (ms_record (fst ?st))"
    using driven.steps_run[OF driven_call] by (simp add: driven_step_def)
  from evolves_trans[OF Cons.IH[of ?st] this] show ?case by (simp add: run_calls_def c)
qed

lemma ms_of_record_record [simp]: "ms_record (ms_of_record r) = r"
  by (simp add: ms_of_record_def)

lemma ms_new_record:
  assumes "ms_new spec identity = Ok m"
  shows "reachable_record (ms_record m)"
proof -
  from assms obtain sp where "(case record_new sp of Err e \<Rightarrow> Err (InvalidSpecificationOf e)
      | Ok record \<Rightarrow> Ok (ms_of_record record)) = Ok m"
    by (auto simp: ms_new_def bind_res_eq_Inr)
  then show ?thesis by (cases "record_new sp") (auto intro: created)
qed

section \<open>A host to run on\<close>

text \<open>Every operation succeeds; processes get increasing numbers; the world is the next number.\<close>

definition empty_platform :: platform where
  "empty_platform = \<lparr>pf_env = (\<lambda>_. None), pf_read = (\<lambda>_. None), pf_not_found = (\<lambda>_. True), pf_stat = (\<lambda>_. None),
     pf_lstat = (\<lambda>_. None), pf_list = (\<lambda>_. None), pf_canonical = (\<lambda>_. None), pf_glob = (\<lambda>_. False), pf_uid = 0\<rparr>"

definition demo_host :: "32 word host" where
  "demo_host = \<lparr>h_platform = (\<lambda>_. empty_platform), h_now = (\<lambda>w. (0, w)), h_wall_clock = (\<lambda>w. (0, w)),
     h_hash = (\<lambda>_ w. (0, w)), h_name_hash = (\<lambda>_. 0), h_call = (\<lambda>_ w. (Ok (), w)), h_pidfd_wait = (\<lambda>_ w. (Ok None, w)),
     h_child_wait = (\<lambda>_ w. (Ok None, w)), h_pidfd_open = (\<lambda>pid w. (Ok pid, w)),
     h_prepare_credentials = (\<lambda>_ w. (Ok (Some ''/run/credentials/demo''), w)),
     h_prepare_directories = (\<lambda>_ w. (Ok [], w)), h_prepare_private_tmp = (\<lambda>_ w. (Ok None, w)),
     h_open_listeners = (\<lambda>_ w. (Ok [], w)), h_accept = (\<lambda>_ w. (Ok None, w)),
     h_notify_socket = (\<lambda>_ _ w. (Ok (3, ''/run/notify''), w)), h_receive = (\<lambda>_ w. (([], None), w)),
     h_prepare_cgroup = (\<lambda>_ w. (Ok None, w)), h_open_stdio = (\<lambda>_ _ _ w. (Ok (), w)), h_settings = (\<lambda>_ w. (Ok (), w)),
     h_spawn_main = (\<lambda>_ _ _ _ _ w. (Ok (w + 1), w + 1)),
     h_spawn_helper = (\<lambda>_ _ _ _ w. (Ok \<lparr>hp_child = w + 1, hp_pidfd = None, hp_pid = w + 1\<rparr>, w + 1)),
     h_spawn_command = (\<lambda>_ _ _ _ _ w. (Ok (w + 1, None), w + 1)), h_spawn_probe = (\<lambda>_ w. (Ok (w + 1), w + 1)),
     h_cgroup_contains = (\<lambda>_ _ _. False)\<rparr>"

definition demo_managed :: managed_service where
  "demo_managed = ms_of_record demo_record"

lemma demo_managed_new: "ms_new (service_spec_new ''demo'' ''/bin/demo'') None = Ok demo_managed"
proof -
  have "record_new (service_spec_new ''demo'' ''/bin/demo'') = Ok demo_record"
    using demo_spec_wf[folded validate_iff_spec_wf] by (simp add: record_new_def demo_record_def)
  moreover have "\<not> sp_dynamic_user (service_spec_new ''demo'' ''/bin/demo'')" by (simp add: service_spec_new_def)
  ultimately show ?thesis by (simp add: ms_new_def demo_managed_def)
qed

section \<open>The record stays within the lifecycle\<close>



section \<open>The start limit\<close>

text \<open>The starts that pass the limit, when one is tried at each of the given times.\<close>

fun limited_starts :: "'w host \<Rightarrow> instant list \<Rightarrow> managed_service \<times> 'w \<Rightarrow> instant list" where
  "limited_starts h [] st = []"
| "limited_starts h (t # ts) st =
     (case enforce_start_limit h t st of
        (Ok _, st') \<Rightarrow> t # limited_starts h ts st'
      | (Err _, st') \<Rightarrow> limited_starts h ts st')"

lemma limited_starts_subset: "set (limited_starts h ts st) \<subseteq> set ts"
proof (induction ts arbitrary: st)
  case Nil
  then show ?case by simp
next
  case (Cons t ts)
  obtain r st' where e: "enforce_start_limit h t st = (r, st')" by (cases "enforce_start_limit h t st")
  then show ?case using Cons.IH[of st'] by (cases r) auto
qed

lemma quiet_run: "quiet.steps p \<Longrightarrow> p (m, w) = (r, m', w') \<Longrightarrow> calm m m'"
  using quiet.stepsD[of p "(m, w)" r "(m', w')"] by (simp add: quiet_step_def)

lemma held_run: "held.steps p \<Longrightarrow> p (m, w) = (r, m', w') \<Longrightarrow> evolves (ms_record m) (ms_record m') \<and> drops m m'"
  using held.stepsD[of p "(m, w)" r "(m', w')"] by (simp add: held_step_def)

text \<open>The three outcomes of a check with a window of recent attempts.\<close>

definition recent_attempts :: "instant \<Rightarrow> duration \<Rightarrow> managed_service \<Rightarrow> instant list" where
  "recent_attempts now interval m = dropWhile (\<lambda>attempt. interval \<le> now - attempt) (ms_start_attempts m)"

lemma enforce_within:
  assumes "start_limit_of (ms_spec m) = Some (interval, burst)" "interval \<noteq> 0" "burst \<noteq> 0"
    and "length (recent_attempts now interval m) < unat burst"
  shows "enforce_start_limit h now (m, w) =
    (Ok (), m\<lparr>ms_start_attempts := recent_attempts now interval m @ [now]\<rparr>, w)"
  using assms
  by (simp add: enforce_start_limit_def ms_read_def ms_update_def prog_defs Let_def recent_attempts_def)

lemma transition_result: "ms_transition label ev (m, w) = (r, m', w') \<Longrightarrow>
    ms_start_attempts m' = ms_start_attempts m \<and> ms_spec m' = ms_spec m"
proof -
  assume a: "ms_transition label ev (m, w) = (r, m', w')"
  obtain res rec where t: "transition ev (ms_record m) = (res, rec)" by fastforce
  then have "rc_spec rec = ms_spec m" by (metis snd_conv transition_spec)
  with a t show ?thesis by (cases res) (auto simp: ms_transition_def)
qed

lemma enforce_exceeded:
  assumes limit: "start_limit_of (ms_spec m) = Some (interval, burst)" "interval \<noteq> 0" "burst \<noteq> 0"
    and "\<not> length (recent_attempts now interval m) < unat burst"
  obtains e m' w' where "enforce_start_limit h now (m, w) = (Err e, m', w')"
    and "ms_start_attempts m' = recent_attempts now interval m" and "ms_spec m' = ms_spec m"
proof -
  let ?m = "m\<lparr>ms_start_attempts := recent_attempts now interval m\<rparr>"
  obtain r m1 w1 where t: "ms_transition ''cannot record start limit'' (StartLimitHit (rc_generation (ms_record m))) (?m, w) = (r, m1, w1)"
    by (metis prod_cases3)
  let ?m1 = "m1\<lparr>ms_wants_running := False, ms_restart_at := None\<rparr>"
  obtain r2 m2 w2 where c: "bind_prog reset_trigger_state (\<lambda>_. cleanup_directories h) (?m1, w1) = (r2, m2, w2)"
    by (metis prod_cases3)
  have "quiet.steps (bind_prog reset_trigger_state (\<lambda>_. cleanup_directories h))"
    by (intro quiet.steps_rules quiet_ops)
  from quiet_run[OF this c] have m2: "ms_start_attempts m2 = ms_start_attempts m1" "ms_spec m2 = ms_spec m1"
    by (simp_all add: calm_def)
  have m1: "ms_start_attempts m1 = recent_attempts now interval m" "ms_spec m1 = ms_spec m"
    using transition_result[OF t] by simp_all
  have "\<exists>e. enforce_start_limit h now (m, w) = (Err e, m1, w1) \<or> enforce_start_limit h now (m, w) = (Err e, m2, w2)"
    using assms(4) limit t c
    by (auto simp: enforce_start_limit_def ms_read_def ms_update_def ms_step_def prog_defs Let_def
        recent_attempts_def[symmetric] split: prod.splits sum.splits)
  then show ?thesis using that m1 m2 by metis
qed

text \<open>Elements \<open>burst\<close> apart are at least \<open>interval\<close> apart.\<close>

definition spaced :: "nat \<Rightarrow> nat \<Rightarrow> nat list \<Rightarrow> bool" where
  "spaced burst interval ts \<longleftrightarrow> (\<forall>i. i + burst < length ts \<longrightarrow> interval \<le> ts ! (i + burst) - ts ! i)"

lemma spaced_prepend:
  assumes "spaced b d (xs @ ss)" and "length (old @ xs) \<le> b" and "\<And>x s. x \<in> set old \<Longrightarrow> s \<in> set ss \<Longrightarrow> d \<le> s - x"
  shows "spaced b d (old @ xs @ ss)"
  unfolding spaced_def
proof (intro allI impI)
  fix i assume i: "i + b < length (old @ xs @ ss)"
  show "d \<le> (old @ xs @ ss) ! (i + b) - (old @ xs @ ss) ! i"
  proof (cases "i < length old")
    case True
    have at: "(old @ xs @ ss) ! (i + b) = ss ! (i + b - length (old @ xs))"
      using assms(2) by (metis append.assoc le_add2 le_trans nth_append not_le)
    have "ss ! (i + b - length (old @ xs)) \<in> set ss" using i assms(2) by (intro nth_mem) simp
    from assms(3)[OF _ this, of "old ! i"] True show ?thesis by (simp only: at) (simp add: nth_append)
  next
    case False
    then obtain j where j: "i = length old + j" by (metis not_less le_Suc_ex)
    with i assms(1) show ?thesis unfolding spaced_def by (simp add: nth_append_length_plus add.assoc)
  qed
qed

lemma limited_starts_spaced:
  assumes "start_limit_of (ms_spec m) = Some (interval, burst)" "interval \<noteq> 0" "burst \<noteq> 0"
    and "sorted (ms_start_attempts m @ ts)" and "length (ms_start_attempts m) \<le> unat burst"
  shows "spaced (unat burst) interval (ms_start_attempts m @ limited_starts h ts (m, w))"
  using assms
proof (induction ts arbitrary: m w)
  case Nil
  then show ?case by (simp add: spaced_def)
next
  case (Cons t ts)
  let ?p = "\<lambda>attempt. interval \<le> t - attempt"
  let ?old = "takeWhile ?p (ms_start_attempts m)" and ?recent = "recent_attempts t interval m"
  have split: "ms_start_attempts m = ?old @ ?recent" by (simp add: recent_attempts_def)
  have old: "interval \<le> s - x" if "x \<in> set ?old" "s \<in> set (t # ts)" for x s
  proof -
    have "interval \<le> t - x" using set_takeWhileD[OF that(1)] by simp
    moreover have "t \<le> s" using that(2) Cons.prems(4) by (auto simp: sorted_append)
    ultimately show ?thesis by linarith
  qed
  have sorted: "sorted (?recent @ t # ts)" using Cons.prems(4) split by (metis append.assoc sorted_append)
  have len: "length (?old @ ?recent) \<le> unat burst" using Cons.prems(5) split by simp
  have extend: "spaced (unat burst) interval (?old @ ?recent @ ss)"
    if "spaced (unat burst) interval (?recent @ ss)" and "set ss \<subseteq> set (t # ts)" for ss
    by (rule spaced_prepend[OF that(1) len]) (rule old, assumption, erule subsetD[OF that(2)])
  show ?case
  proof (cases "length ?recent < unat burst")
    case True
    let ?m = "m\<lparr>ms_start_attempts := ?recent @ [t]\<rparr>"
    have "spaced (unat burst) interval (ms_start_attempts ?m @ limited_starts h ts (?m, w))"
      using Cons.prems sorted True by (intro Cons.IH) simp_all
    then have "spaced (unat burst) interval (?recent @ t # limited_starts h ts (?m, w))" by simp
    from extend[OF this] limited_starts_subset[of h ts "(?m, w)"]
    have "spaced (unat burst) interval (?old @ ?recent @ t # limited_starts h ts (?m, w))" by force
    moreover have "limited_starts h (t # ts) (m, w) = t # limited_starts h ts (?m, w)"
      using enforce_within[OF Cons.prems(1-3) True, of h w] by simp
    ultimately show ?thesis by (metis append.assoc split)
  next
    case False
    obtain e m' w' where enforce: "enforce_start_limit h t (m, w) = (Err e, m', w')"
      and m': "ms_start_attempts m' = ?recent" "ms_spec m' = ms_spec m"
      using enforce_exceeded[OF Cons.prems(1-3) False, of h w] by metis
    have "sorted (?recent @ ts)" using sorted by (simp add: sorted_append)
    then have "spaced (unat burst) interval (ms_start_attempts m' @ limited_starts h ts (m', w'))"
    proof (intro Cons.IH[OF _ Cons.prems(2,3)])
      show "start_limit_of (ms_spec m') = Some (interval, burst)" by (simp only: m' Cons.prems(1))
      show "length (ms_start_attempts m') \<le> unat burst" using len by (simp only: m' length_append)
    qed (simp only: m')
    then have "spaced (unat burst) interval (?recent @ limited_starts h ts (m', w'))" by (simp only: m')
    from extend[OF this] limited_starts_subset[of h ts "(m', w')"]
    have "spaced (unat burst) interval (?old @ ?recent @ limited_starts h ts (m', w'))" by force
    moreover have "limited_starts h (t # ts) (m, w) = limited_starts h ts (m', w')" using enforce by simp
    ultimately show ?thesis by (metis append.assoc split)
  qed
qed

text \<open>
  C16. The start limit is a sliding window: of the starts that pass it, any two that are \<open>burst\<close> apart in
  their order are at least \<open>interval\<close> apart in time, whatever attempts are made and refused in between.
\<close>

theorem start_limit_window:
  assumes "start_limit_of (ms_spec m) = Some (interval, burst)" "interval \<noteq> 0" "burst \<noteq> 0"
    and "ms_start_attempts m = []" and "sorted ts"
    and "i + unat burst < length (limited_starts h ts (m, w))"
  shows "interval \<le> limited_starts h ts (m, w) ! (i + unat burst) - limited_starts h ts (m, w) ! i"
  using limited_starts_spaced[of m interval burst ts h w] assms by (simp add: spaced_def)

definition demo_limited :: managed_service where
  "demo_limited = demo_managed\<lparr>ms_record := demo_record\<lparr>rc_spec :=
     (service_spec_new ''demo'' ''/bin/demo'')\<lparr>sp_start_limit_burst := Some 1\<rparr>\<rparr>\<rparr>"

lemma demo_limited_fields:
  "start_limit_of (ms_spec (demo_limited\<lparr>ms_start_attempts := ts\<rparr>)) = Some (from_secs 10, 1)"
  by (simp add: demo_limited_def start_limit_of_def service_spec_new_def)

theorem start_limit_window_witness:
  "limited_starts demo_host [0, 10000000000] (demo_limited, 1) = [0, 10000000000] \<and>
   from_secs 10 \<le> (10000000000 :: nat) - 0"
proof -
  let ?run = "limited_starts demo_host [0, 10000000000] (demo_limited, 1)"
  have none: "demo_limited\<lparr>ms_start_attempts := []\<rparr> = demo_limited"
    by (simp add: demo_limited_def demo_managed_def ms_of_record_def)
  have "enforce_start_limit demo_host 0 (demo_limited, 1) = (Ok (), demo_limited\<lparr>ms_start_attempts := [0]\<rparr>, 1)"
    using enforce_within[OF demo_limited_fields[of "[]"], of 0 demo_host 1]
    by (simp add: none from_secs_def recent_attempts_def, simp add: demo_limited_def demo_managed_def ms_of_record_def)
  moreover have "enforce_start_limit demo_host 10000000000 (demo_limited\<lparr>ms_start_attempts := [0]\<rparr>, 1) =
      (Ok (), demo_limited\<lparr>ms_start_attempts := [10000000000]\<rparr>, 1)"
    using enforce_within[OF demo_limited_fields[of "[0]"], of 10000000000 demo_host 1]
    by (simp add: from_secs_def recent_attempts_def)
  ultimately have run: "?run = [0, 10000000000]" by simp
  have "from_secs 10 \<le> ?run ! (0 + unat (1 :: 32 word)) - ?run ! 0"
  proof (rule start_limit_window)
    show "start_limit_of (ms_spec demo_limited) = Some (from_secs 10, 1)"
      using demo_limited_fields[of "[]"] by (simp only: none)
    show "ms_start_attempts demo_limited = []" by (simp add: demo_limited_def demo_managed_def ms_of_record_def)
    show "0 + unat (1 :: 32 word) < length ?run" unfolding run by simp
  qed (simp_all add: from_secs_def)
  then show ?thesis unfolding run by simp
qed

section \<open>A running service\<close>

definition demo_running :: managed_service where
  "demo_running = (ms_of_record (demo_record\<lparr>rc_spec := (service_spec_new ''demo'' ''/bin/demo'')\<lparr>sp_restart := RestartAlways\<rparr>,
       rc_state := StRunning, rc_pid := Some 7\<rparr>))
     \<lparr>ms_child := Some 7, ms_wants_running := True, ms_credential_directory := Some ''/run/credentials/demo''\<rparr>"

lemma demo_running_record:
  "ms_record demo_running = demo_record\<lparr>rc_spec := (service_spec_new ''demo'' ''/bin/demo'')\<lparr>sp_restart := RestartAlways\<rparr>,
     rc_state := StRunning, rc_pid := Some 7\<rparr>"
  by (simp add: demo_running_def)

lemma demo_running_fields:
  "ms_stop_pid demo_running = None" "ms_stop_pidfd demo_running = None" "ms_stop_child demo_running = None"
  "ms_reload_pid demo_running = None" "ms_reload_pidfd demo_running = None" "ms_reload_child demo_running = None"
  "ms_dbus_probe demo_running = None" "ms_notify_path demo_running = None" "ms_cgroup_path demo_running = None"
  "ms_directories demo_running = []" "ms_private_tmp_paths demo_running = None"
  "ms_stop_post_helper demo_running = None" "ms_wants_running demo_running" "\<not> ms_restart_after_stop demo_running"
  "ms_credential_directory demo_running = Some ''/run/credentials/demo''" "ms_process_group demo_running = None"
  "ms_reload_failed demo_running = False" "ms_activation_owned_fds demo_running = []" "ms_activation_fds demo_running = []" "ms_activation_fd_names demo_running = []" "ms_start_attempts demo_running = []"
  by (simp_all add: demo_running_def ms_of_record_def)

lemma demo_process_fields:
  "rc_generation demo_record = 0" "rc_restart_count demo_record = 0"
  "\<not> sp_main_ignore_failure (service_spec_new n p)" "sp_stop_post (service_spec_new n p) = []"
  "sp_success_exit_status (service_spec_new n p) = []" "sp_restart_prevent_exit_status (service_spec_new n p) = []"
  "sp_restart_backoff (service_spec_new n p) = from_millis 250" "sp_remain_after_exit (service_spec_new n p) = False"
  "sp_stop (service_spec_new n p) = None" 
  "sp_restart_limit (service_spec_new n p) = 5" "sp_service_type (service_spec_new n p) = TypeSimple"
  "sp_start_limit_interval (service_spec_new n p) = None" "sp_start_limit_burst (service_spec_new n p) = None"
  "sp_kill_mode (service_spec_new n p) = KillControlGroup"  "sp_kill_signal (service_spec_new n p) = SIGTERM"
  "\<not> sp_send_sighup (service_spec_new n p)"
  by (simp_all add: demo_record_def service_spec_new_def)

lemma demo_host_call: "h_call demo_host c w = (Ok (), w)"
  by (simp add: demo_host_def)

lemmas demo_eval = demo_running_record demo_running_fields demo_process_fields demo_host_call ms_read_def
  ms_update_def ms_do_def ms_call_def ms_io_def ms_transition_def ms_step_def prog_defs some_list_def Let_def


lemmas exit_eval = handle_exit_def exit_reason_of_def ms_transition_def handler_defs
  apply_actions_def apply_action_def cleanup_unless_stop_post_def spawn_stop_post_def
  restart_after_exit_def cleanup_directories_def successful_exit_def exit_status_matches_def
  release_process_def kill_stop_command_def kill_reload_command_def kill_handles_def
  kill_dbus_probe_def drop_cgroup_def ms_reload_state_def


lemmas restart_eval = check_restart_def enforce_start_limit_def start_limit_of_def
  apply_start_actions_def spawn_def spawn_main_def ms_with_def reached_def or_fail_def
  prepare_notify_def wants_notify_socket_def io_result_def take_activation_def forward_output_def
  attach_main_def register_main_def open_pidfd_def install_main_def effective_notify_access_def
  ms_step_def effective_environment_def directory_variables_def add_directory_variable_def
  arm_runtime_limit_def advance_generation_fields

lemma demo_host_fields:
  "h_platform demo_host w = empty_platform" "h_prepare_cgroup demo_host sp w = (Ok None, w)" "h_open_stdio demo_host sp v f w = (Ok (), w)"
  "h_settings demo_host sp w = (Ok (), w)" "h_spawn_main demo_host sp v fs n p w = (Ok (w + 1), w + 1)"
  "h_pidfd_open demo_host pid w = (Ok pid, w)"
  by (simp_all add: demo_host_def)

section \<open>Stopping\<close>

lemma stop_requested_down:
  "transition StopRequested r = (Ok actions, r') \<Longrightarrow> service_is_down (rc_state r') \<and> rc_state r' \<noteq> StBackoff"
  by (cases "rc_state r") (auto simp: stop_def stop_live_def Let_def service_is_down_def service_was_up_def split: if_splits)

lemma stop_completed_exits: "transition StopCompleted r = (Ok actions, r') \<Longrightarrow> rc_state r' = StExited"
  by (auto simp: stop_completed_def split: if_splits)

lemma quiet_stop_parts:
  "quiet.steps (stop_sockets h)" "quiet.steps (stop_active h now was_active)" "quiet.steps (stop_cleanup h)"
  "quiet.steps (stop_process h signal)"
  unfolding stop_sockets_def stop_active_def stop_cleanup_def stop_process_def
  by (intro quiet.steps_rules quiet_ops quiet_update; simp add: calm_simps)+

text \<open>What holds between the event and the end of \<open>stop_with_signal\<close>; calm steps keep it.\<close>

definition given_up :: "managed_service \<Rightarrow> bool" where
  "given_up m \<longleftrightarrow> \<not> ms_wants_running m \<and> service_is_down (ms_state m) \<and> ms_state m \<noteq> StBackoff"

lemma given_up_calm: "calm m m' \<Longrightarrow> given_up m \<Longrightarrow> given_up m'"
  by (simp add: given_up_def calm_def)

lemma ms_step_ok: "ms_step label ev (m, w) = (Ok u, m', w') \<Longrightarrow>
    \<exists>actions. transition ev (ms_record m) = (Ok actions, ms_record m') \<and> ms_wants_running m' = ms_wants_running m"
  by (auto simp: ms_step_def ms_transition_def prog_defs split: prod.splits sum.splits)

lemma ms_transition_ok: "ms_transition label ev (m, w) = (Ok actions, m', w') \<Longrightarrow>
    transition ev (ms_record m) = (Ok actions, ms_record m') \<and> ms_wants_running m' = ms_wants_running m"
  by (auto simp: ms_transition_def split: prod.splits sum.splits)

lemma stop_without_process_result:
  assumes "stop_without_process h (m, w) = (Ok u, m', w')" and "given_up m"
  shows "given_up m' \<and> (ms_state m' = StStopping \<longrightarrow> ms_pid m' \<noteq> None)"
proof (cases "ms_state m = StStopping \<and> ms_pid m = None")
  case False
  then show ?thesis
    using assms by (auto simp: stop_without_process_def ms_read_def prog_defs split: if_splits)
next
  case True
  let ?prefix = "seq_prog [kill_exec_condition_helper h, kill_start_helper h, kill_start_post_helper h,
    ms_update (\<lambda>m. m\<lparr>ms_start_deadline := None\<rparr>)]"
  have prefix: "quiet.steps ?prefix"
    by (intro quiet.steps_rules quiet_ops quiet_update) (simp add: calm_simps)
  from True assms(1) obtain m1 w1 where
    p: "?prefix (m, w) = (Ok (), m1, w1)" and s: "ms_step ''cannot complete stop'' StopCompleted (m1, w1) = (Ok (), m', w')"
    by (auto simp: stop_without_process_def ms_read_def read_prog_ok seq_prog_ok_Cons bind_prog_ok return_prog_ok
        simp del: seq_prog.simps) (auto simp: seq_prog_ok_Cons return_prog_ok bind_prog_ok)
  from ms_step_ok[OF s] stop_completed_exits have "ms_state m' = StExited" by blast
  moreover have "\<not> ms_wants_running m'"
    using ms_step_ok[OF s] quiet_run[OF prefix p] assms(2) by (auto simp: given_up_def calm_def)
  ultimately show ?thesis by (simp add: given_up_def service_is_down_def service_was_up_def)
qed

lemma stop_with_signal_result:
  assumes "stop_with_signal h now signal (m, w) = (Ok u, m', w')"
  shows "given_up m' \<and> (ms_state m' = StStopping \<longrightarrow> ms_pid m' \<noteq> None \<and>
    ms_stop_deadline m' = timeout_deadline now (sp_stop_timeout (ms_spec m'))) \<and>
    (ms_state m' \<noteq> StStopping \<longrightarrow> ms_stop_deadline m' = None)"
proof -
  let ?wants = "ms_update (\<lambda>m. if ms_state m \<in> {StStarting, StRunning}
    then m\<lparr>ms_stop_signal := Some signal, ms_stop_signal_sent := False\<rparr> else m)"
  from assms obtain m1 w1 m2 w2 m3 w3 b actions m4 w4 m5 w5 m6 w6 m7 w7 m8 w8 m9 w9 m10 w10 where
    p: "clear_wants (m, w) = (Ok (), m1, w1)" "kill_dbus_probe h (m1, w1) = (Ok (), m2, w2)"
       "?wants (m2, w2) = (Ok (), m3, w3)"
       "ms_transition ''cannot stop'' StopRequested (m3, w3) = (Ok actions, m4, w4)"
       "apply_actions h actions (m4, w4) = (Ok (), m5, w5)" "stop_sockets h (m5, w5) = (Ok (), m6, w6)"
       "stop_without_process h (m6, w6) = (Ok (), m7, w7)" "stop_active h now b (m7, w7) = (Ok (), m8, w8)"
       "stop_cleanup h (m8, w8) = (Ok (), m9, w9)" "stop_process h signal (m9, w9) = (Ok (), m10, w10)"
    and m': "m' = stop_timer now m10"
    unfolding stop_with_signal_def ms_read_def
    by (auto simp: bind_prog_ok seq_prog_ok_Cons return_prog_ok read_prog_ok ms_update_def modify_prog_ok)
  have "\<not> ms_wants_running m1" using p(1) by (auto simp: clear_wants_def ms_update_def prog_defs)
  then have "\<not> ms_wants_running m2" using quiet_run[OF quiet_kill_commands(1) p(2)] by (simp add: calm_def)
  then have "\<not> ms_wants_running m3" using p(3) by (auto simp: ms_update_def prog_defs split: if_splits)
  then have "given_up m4" using ms_transition_ok[OF p(4)] stop_requested_down by (auto simp: given_up_def)
  then have "given_up m5" by (rule given_up_calm[OF quiet_run[OF quiet_actions p(5)]])
  then have "given_up m6" by (rule given_up_calm[OF quiet_run[OF quiet_stop_parts(1) p(6)]])
  from stop_without_process_result[OF p(7) this]
  have m7: "given_up m7" "ms_state m7 = StStopping \<longrightarrow> ms_pid m7 \<noteq> None" by simp_all
  have c: "calm m7 m8" "calm m8 m9" "calm m9 m10"
    using quiet_run[OF quiet_stop_parts(2) p(8)] quiet_run[OF quiet_stop_parts(3) p(9)]
      quiet_run[OF quiet_stop_parts(4) p(10)] by simp_all
  then have r: "ms_record m10 = ms_record m7" by (simp add: calm_def)
  have "given_up m10" by (intro given_up_calm[OF c(3)] given_up_calm[OF c(2)] given_up_calm[OF c(1)] m7(1))
  then show ?thesis
    using m7(2) r by (simp add: m' stop_timer_def given_up_def timeout_deadline_def)
qed

text \<open>
  C17. A stop that returns without an error has given the service up: it no longer wants to run, and it
  is neither up nor waiting for a restart. Only a service with a live process is still stopping, and it
  has the configured deadline after which it is killed.
\<close>

theorem stop_gives_up:
  assumes "ms_stop h now (m, w) = (Ok (), m', w')"
  shows "\<not> ms_wants_running m' \<and> ms_state m' \<notin> {StStarting, StRunning, StActive, StBackoff} \<and>
    (ms_state m' = StStopping \<longrightarrow> ms_pid m' \<noteq> None \<and>
       ms_stop_deadline m' = timeout_deadline now (sp_stop_timeout (ms_spec m')))"
proof -
  from assms obtain signal where "stop_with_signal h now signal (m, w) = (Ok (), m', w')"
    by (auto simp: ms_stop_def ms_read_def prog_defs)
  from stop_with_signal_result[OF this] show ?thesis
    by (auto simp: given_up_def service_is_down_def service_was_up_def)
qed

lemmas stop_eval = ms_stop_def stop_with_signal_def clear_wants_def kill_dbus_probe_def kill_handles_def
  handler_defs apply_actions_def apply_action_def send_signal_def effective_signal_def send_signal_raw_def
  send_group_signal_def stop_sockets_def stop_without_process_def stop_active_def stop_cleanup_def
  stop_process_def

theorem stop_gives_up_witness:
  "\<exists>m. ms_stop demo_host 5 (demo_running, 1) = (Ok (), m, 1) \<and> \<not> ms_wants_running m \<and> ms_state m \<noteq> StRunning"
proof -
  obtain m where "ms_stop demo_host 5 (demo_running, 1) = (Ok (), m, 1)"
    by (simp add: stop_eval demo_eval)
  with stop_gives_up[OF this] show ?thesis by auto
qed

section \<open>Stop commands of active services\<close>

text \<open>
  The stop command of an active service without a process (a mount, a oneshot that remains) never
  times out: \<open>stop_with_signal\<close> arms a deadline for it and erases the deadline before it returns, since
  the service is not in the stopping state, so however late it is polled the check does nothing while
  the command runs.
\<close>

theorem active_stop_never_times_out:
  assumes "ms_stop h now (m, w) = (Ok (), m', w')" and "ms_active_stop_helper m' \<noteq> None" and "ms_state m' = StExited"
  shows "ms_stop_deadline m' = None \<and> check_active_stop_deadline h later (m', w2) = (Ok (), m', w2)"
proof -
  from assms(1) obtain signal where "stop_with_signal h now signal (m, w) = (Ok (), m', w')"
    by (auto simp: ms_stop_def ms_read_def prog_defs)
  from stop_with_signal_result[OF this] have "ms_stop_deadline m' = None" using assms(3) by simp
  then show ?thesis by (simp add: check_active_stop_deadline_def ms_read_def prog_defs reached_def)
qed

lemma demo_script:
  assumes "sp_environment_files (ms_spec m) = []" and "commands \<noteq> []"
  shows "spawn_script demo_host commands pid (m, w) = (Ok \<lparr>hp_child = w + 1, hp_pidfd = None, hp_pid = w + 1\<rparr>, m, w + 1)"
proof -
  have "\<exists>vars. effective_environment empty_platform m = Ok vars"
    using assms(1) by (simp add: effective_environment_def map_res_def Let_def)
  then show ?thesis
    using assms(2) by (auto simp: spawn_script_def ms_with_def prog_defs lift_res_def shell_script_def Let_def ms_io_def demo_host_def)
qed

text \<open>A service that remains active without a process, with a stop command.\<close>

definition demo_active :: managed_service where
  "demo_active = ms_of_record (demo_record\<lparr>rc_state := StActive,
     rc_spec := (service_spec_new ''demo'' ''/bin/demo'')\<lparr>sp_stop := Some (command_spec_new ''/bin/umount'')\<rparr>\<rparr>)"

lemma demo_active_fields:
  "ms_record demo_active = demo_record\<lparr>rc_state := StActive,
     rc_spec := (service_spec_new ''demo'' ''/bin/demo'')\<lparr>sp_stop := Some (command_spec_new ''/bin/umount'')\<rparr>\<rparr>"
  "ms_dbus_probe demo_active = None" "ms_stop_post_helper demo_active = None" "rc_pid demo_record = None"
  by (simp_all add: demo_active_def ms_of_record_def demo_record_def)

theorem active_stop_never_times_out_witness:
  "\<exists>m w. ms_stop demo_host 5 (demo_active, 1) = (Ok (), m, w) \<and> ms_active_stop_helper m \<noteq> None \<and>
     check_active_stop_deadline demo_host 100000000000 (m, w) = (Ok (), m, w)"
proof -
  have env: "sp_environment_files (service_spec_new n p) = []" for n p by (simp add: service_spec_new_def)
  have "\<exists>m w. ms_stop demo_host 5 (demo_active, 1) = (Ok (), m, w) \<and> ms_active_stop_helper m \<noteq> None \<and> ms_state m = StExited"
    by (simp add: stop_eval demo_eval demo_active_fields spawn_active_stop_def demo_script env reset_trigger_state_def
        stop_timer_def)
  then obtain m w where m: "ms_stop demo_host 5 (demo_active, 1) = (Ok (), m, w)" "ms_active_stop_helper m \<noteq> None" "ms_state m = StExited"
    by blast
  from active_stop_never_times_out[OF m] m show ?thesis by blast
qed

section \<open>Automatic restarts\<close>

lemma cleanup_drops_all:
  assumes "cleanup_directories h (m, w) = (r, m', w')"
  shows "ms_directories m' = [] \<and> ms_credential_directory m' = None \<and> ms_private_tmp_paths m' = None"
proof -
  let ?m = "m\<lparr>ms_directories := [], ms_credential_directory := None, ms_private_tmp_paths := None\<rparr>"
  let ?removes = "seq_prog
       (map (\<lambda>d. ms_do h (RemoveDir (md_path d))) (filter md_cleanup (rev (ms_directories m))) @
        map (\<lambda>p. ms_do h (RemoveDirAll p)) (some_list (ms_credential_directory m)) @
        concat (map (\<lambda>p. [ms_do h (RemoveDirAll (pt_tmp p)), ms_do h (RemoveDirAll (pt_var_tmp p))])
          (some_list (ms_private_tmp_paths m))))"
  have "?removes (?m, w) = (r, m', w')"
    using assms by (simp add: cleanup_directories_def ms_read_def ms_update_def prog_defs)
  moreover have "quiet.steps ?removes" by (intro quiet.steps_rules quiet_ops)
  ultimately have "calm ?m m'" by (rule quiet_run[rotated])
  then show ?thesis by (simp add: calm_def drops_def)
qed



end
