(* ===== verification/Supervisor.thy ===== *)
theory Supervisor
  imports Managed_Properties Control
begin

text \<open>
  The state of \<open>Supervisor\<close> in \<open>crates/fractald-supervisor/src/lib.rs\<close> and the methods that neither
  plan nor start: loading and replacing the service set, names and aliases, dynamic identities, queries,
  start jobs and their progress, conflicts, dependents, manager actions. The methods that call each
  other in circles are in \<open>Supervisor_Run\<close>.
\<close>

section \<open>State\<close>

record start_job =
  job_root :: string
  job_selected :: "string list"
  job_required :: "string list"
  job_order :: "string list"
  job_conflicts :: "string list"
  job_attempted :: "string list"
  job_started :: "string list"
  job_deadline :: "instant option"
  job_timeout_action :: manager_action

record supervisor =
  su_services :: "(string, managed_service) bmap"
  su_aliases :: "(string, string) bmap"
  su_start_jobs :: "start_job list"
  su_pending_manager_action :: "manager_action option"
  su_progressing_socket_activation :: bool

definition supervisor_new :: supervisor where
  "supervisor_new = \<lparr>su_services = [], su_aliases = [], su_start_jobs = [], su_pending_manager_action = None,
     su_progressing_socket_activation = False\<rparr>"

type_synonym ('w, 'a) su_prog = "(supervisor \<times> 'w, 'a) prog"

definition su_get :: "string \<Rightarrow> supervisor \<Rightarrow> managed_service option" where
  "su_get name s = map_of (su_services s) name"

definition su_put :: "string \<Rightarrow> managed_service \<Rightarrow> supervisor \<Rightarrow> supervisor" where
  "su_put name m s = s\<lparr>su_services := bmap_insert name m (su_services s)\<rparr>"

definition su_read :: "(supervisor \<Rightarrow> 'a) \<Rightarrow> ('w, 'a) su_prog" where
  "su_read f = read_prog (\<lambda>(s, w). f s)"

definition su_update :: "(supervisor \<Rightarrow> supervisor) \<Rightarrow> ('w, unit) su_prog" where
  "su_update f = modify_prog (\<lambda>(s, w). (f s, w))"

definition su_io :: "('w \<Rightarrow> 'a \<times> 'w) \<Rightarrow> ('w, 'a) su_prog" where
  "su_io op = (\<lambda>(s, w). case op w of (a, w') \<Rightarrow> (Ok a, s, w'))"

text \<open>The state and what the host shows.\<close>

definition su_with :: "'w host \<Rightarrow> (supervisor \<Rightarrow> platform \<Rightarrow> ('w, 'a) su_prog) \<Rightarrow> ('w, 'a) su_prog" where
  "su_with h f = (\<lambda>(s, w). f s (h_platform h w) (s, w))"

text \<open>\<open>if let Some(service) = self.services.get_mut(name) { p }\<close>, \<open>absent\<close> otherwise.\<close>

definition with_service :: "string \<Rightarrow> ('w, 'a) su_prog \<Rightarrow> ('w, 'a) ms_prog \<Rightarrow> ('w, 'a) su_prog" where
  "with_service name absent p = (\<lambda>(s, w).
     case su_get name s of
       None \<Rightarrow> absent (s, w)
     | Some m \<Rightarrow> (case p (m, w) of (r, m', w') \<Rightarrow> (r, su_put name m' s, w')))"

text \<open>\<open>self.service_mut(name)?\<close> followed by a method of the service.\<close>

definition service_mut :: "string \<Rightarrow> ('w, 'a) ms_prog \<Rightarrow> ('w, 'a) su_prog" where
  "service_mut name p = with_service name (raise_prog (ServiceProblem UnknownService name)) p"

definition service_states :: "supervisor \<Rightarrow> (string, service_state) bmap" where
  "service_states s = map (\<lambda>(name, m). (name, ms_state m)) (su_services s)"

section \<open>Names\<close>

definition su_names :: "supervisor \<Rightarrow> string list" where
  "su_names s = bmap_keys (su_services s)"

definition find_name :: "supervisor \<Rightarrow> string \<Rightarrow> string option" where
  "find_name s name = (if su_get name s \<noteq> None then Some name else map_of (su_aliases s) name)"

definition resolve_name :: "supervisor \<Rightarrow> string \<Rightarrow> string option" where
  "resolve_name s name =
     (case find_name s name of
        Some canonical \<Rightarrow> Some canonical
      | None \<Rightarrow>
          (let stem = native_service_name name
           in case find_name s stem of
                Some canonical \<Rightarrow> Some canonical
              | None \<Rightarrow> List.find (\<lambda>candidate. strip_suffix ''.svc'' candidate = Some stem) (su_names s)))"

definition canonical_name :: "supervisor \<Rightarrow> string \<Rightarrow> string" where
  "canonical_name s name = (case resolve_name s name of Some n \<Rightarrow> n | None \<Rightarrow> name)"

definition find_service :: "supervisor \<Rightarrow> string \<Rightarrow> managed_service option" where
  "find_service s name = Option.bind (resolve_name s name) (\<lambda>n. su_get n s)"

definition su_specification :: "supervisor \<Rightarrow> string \<Rightarrow> service_spec option" where
  "su_specification s name = map_option ms_spec (find_service s name)"

definition snapshot :: "supervisor \<Rightarrow> string \<Rightarrow> service_snapshot option" where
  "snapshot s name = map_option ms_snapshot (find_service s name)"

definition snapshots :: "supervisor \<Rightarrow> service_snapshot list" where
  "snapshots s = map (ms_snapshot \<circ> snd) (su_services s)"

definition su_reload_state :: "supervisor \<Rightarrow> string \<Rightarrow> string option" where
  "su_reload_state s name = map_option ms_reload_state (find_service s name)"

definition service_is_stopped :: "supervisor \<Rightarrow> string \<Rightarrow> bool option" where
  "service_is_stopped s name = map_option ms_is_stopped (find_service s name)"

definition su_is_stopped :: "supervisor \<Rightarrow> bool" where
  "su_is_stopped s \<longleftrightarrow> su_start_jobs s = [] \<and> list_all (\<lambda>(_, m). ms_is_stopped m) (su_services s)"

text \<open>The processes that \<open>reap_untracked_children\<close> leaves alone, sorted and without repetitions.\<close>

definition tracked_pids :: "supervisor \<Rightarrow> 32 word list" where
  "tracked_pids s = bset_of (concat (map (\<lambda>(_, m). direct_child_pids m) (su_services s)))"

section \<open>Dynamic identities\<close>

definition dynamic_user_min :: "32 word" where
  "dynamic_user_min = 61184"

definition dynamic_user_max :: "32 word" where
  "dynamic_user_max = 65519"

definition dynamic_span :: nat where
  "dynamic_span = unat dynamic_user_max - unat dynamic_user_min + 1"

definition dynamic_identity_from_spec :: "service_spec \<Rightarrow> dynamic_identity option" where
  "dynamic_identity_from_spec spec =
     (if \<not> sp_dynamic_user spec then None
      else (case (Option.bind (sp_user spec) parse_u32, Option.bind (sp_group spec) parse_u32) of
              (Some uid, Some gid) \<Rightarrow> Some \<lparr>di_uid = uid, di_gid = gid\<rparr>
            | _ \<Rightarrow> None))"

text \<open>The numeric identifiers of the user and group databases, by the field that holds them.\<close>

definition identity_files :: "(string \<times> nat) list" where
  "identity_files = [(''/etc/passwd'', 2), (''/etc/group'', 2), (''/etc/subuid'', 1), (''/etc/subgid'', 1)]"

definition system_identity_occupied :: "platform \<Rightarrow> 32 word \<Rightarrow> bool" where
  "system_identity_occupied pf ident =
     list_ex (\<lambda>(path, field). case pf_read pf path of
         None \<Rightarrow> False
       | Some contents \<Rightarrow> list_ex (\<lambda>line.
           let fields = split_char CHR '':'' line
           in field < length fields \<and> parse_u32 (fields ! field) = Some ident) (lines contents)) identity_files"

definition allocate_dynamic_identity ::
    "platform \<Rightarrow> 64 word \<Rightarrow> 32 word list \<Rightarrow> supervisor_error + dynamic_identity" where
  "allocate_dynamic_identity pf hash reserved =
     (let first = unat hash mod dynamic_span;
          candidates = map (\<lambda>offset. dynamic_user_min + of_nat ((first + offset) mod dynamic_span)) [0..<dynamic_span]
      in case List.find (\<lambda>ident. ident \<notin> set reserved \<and> \<not> system_identity_occupied pf ident) candidates of
           Some ident \<Rightarrow> Ok \<lparr>di_uid = ident, di_gid = ident\<rparr>
         | None \<Rightarrow> Err DynamicRangeExhausted)"

definition dynamic_user_ids :: "supervisor \<Rightarrow> 32 word list" where
  "dynamic_user_ids s = bset_of (concat (map (\<lambda>(_, m).
     case dynamic_identity_from_spec (ms_spec m) of None \<Rightarrow> [] | Some i \<Rightarrow> [di_uid i, di_gid i]) (su_services s)))"

definition dynamic_identity_for :: "supervisor \<Rightarrow> string \<Rightarrow> dynamic_identity option" where
  "dynamic_identity_for s name = Option.bind (su_get name s) (\<lambda>m. dynamic_identity_from_spec (ms_spec m))"

section \<open>Loading services\<close>

definition taken :: "supervisor \<Rightarrow> string \<Rightarrow> bool" where
  "taken s name \<longleftrightarrow> su_get name s \<noteq> None \<or> map_of (su_aliases s) name \<noteq> None"

definition su_add :: "platform \<Rightarrow> (string \<Rightarrow> 64 word) \<Rightarrow> service_spec \<Rightarrow> supervisor \<Rightarrow> supervisor_error + supervisor" where
  "su_add pf hash spec s =
     (let name = sp_name spec; aliases = bset_of (map native_service_name (sp_aliases spec)) in
      bind_res (if sp_dynamic_user spec
                then map_res Some (allocate_dynamic_identity pf (hash name) (dynamic_user_ids s))
                else Ok None) (\<lambda>identity.
      bind_res (ms_new spec identity) (\<lambda>service.
        if taken s name then Err (ServiceProblem DefinedTwice name)
        else (case List.find (\<lambda>alias. alias \<noteq> name \<and> taken s alias) aliases of
                Some alias \<Rightarrow> Err (ServiceProblem AliasTaken alias)
              | None \<Rightarrow>
                  Ok ((su_put name service s)\<lparr>su_aliases :=
                    fold (\<lambda>alias m. if alias \<noteq> name then bmap_insert alias name m else m) aliases (su_aliases s)\<rparr>)))))"

text \<open>\<open>collect_aliases\<close>: a repeated alias of another service, then an alias that is a service name.\<close>

definition collect_alias ::
    "string \<Rightarrow> string \<Rightarrow> (string, string) bmap \<Rightarrow> supervisor_error + (string, string) bmap" where
  "collect_alias canonical alias aliases =
     (if alias = canonical then Ok aliases
      else (case map_of aliases alias of
              Some previous \<Rightarrow>
                if previous \<noteq> canonical then Err (AliasAmbiguous alias previous canonical)
                else Ok (bmap_insert alias canonical aliases)
            | None \<Rightarrow> Ok (bmap_insert alias canonical aliases)))"

definition collect_aliases :: "(string, managed_service) bmap \<Rightarrow> supervisor_error + (string, string) bmap" where
  "collect_aliases services =
     bind_res (fold_try (\<lambda>(canonical, m). fold_try (collect_alias canonical) (sp_aliases (ms_spec m))) services []) (\<lambda>aliases.
       case List.find (\<lambda>canonical. map_of aliases canonical \<noteq> None) (bmap_keys services) of
         Some canonical \<Rightarrow> Err (ServiceProblem AliasIsService canonical)
       | None \<Rightarrow> Ok aliases)"

text \<open>One turn of the first loop of \<open>reload\<close>: the incoming services and the reserved identities.\<close>

definition reload_spec ::
    "platform \<Rightarrow> (string \<Rightarrow> 64 word) \<Rightarrow> supervisor \<Rightarrow> service_spec \<Rightarrow> (string, managed_service) bmap \<times> 32 word list \<Rightarrow>
      supervisor_error + (string, managed_service) bmap \<times> 32 word list" where
  "reload_spec pf hash s spec = (\<lambda>(incoming, reserved).
     (let name = sp_name spec in
      bind_res (if sp_dynamic_user spec
                then (case dynamic_identity_for s name of
                        Some identity \<Rightarrow> Ok (Some identity)
                      | None \<Rightarrow> map_res Some (allocate_dynamic_identity pf (hash name) reserved))
                else Ok None) (\<lambda>identity.
      let reserved = (case identity of None \<Rightarrow> reserved | Some i \<Rightarrow> bset_insert (di_uid i) reserved) in
      bind_res (ms_new spec identity) (\<lambda>service.
        if map_of incoming name \<noteq> None then Err (ServiceProblem DefinedTwice name)
        else Ok (bmap_insert name service incoming, reserved)))))"

definition reload_keeps_active ::
    "(string, managed_service) bmap \<Rightarrow> string \<times> managed_service \<Rightarrow> supervisor_error option" where
  "reload_keeps_active incoming = (\<lambda>(name, existing).
     case map_of incoming name of
       None \<Rightarrow> if \<not> ms_is_stopped existing then Some (ServiceProblem RemovesActive name) else None
     | Some replacement \<Rightarrow>
         if ms_spec existing \<noteq> ms_spec replacement \<and> \<not> ms_is_stopped existing
         then Some (ServiceProblem ChangesActive name) else None)"

definition su_reload ::
    "platform \<Rightarrow> (string \<Rightarrow> 64 word) \<Rightarrow> service_spec list \<Rightarrow> supervisor \<Rightarrow> supervisor_error + supervisor" where
  "su_reload pf hash specs s =
     bind_res (fold_try (reload_spec pf hash s) specs ([], dynamic_user_ids s)) (\<lambda>(incoming, _).
     bind_res (collect_aliases incoming) (\<lambda>aliases.
     case first_some (reload_keeps_active incoming) (su_services s) of
       Some e \<Rightarrow> Err e
     | None \<Rightarrow>
         Ok (s\<lparr>su_services := map (\<lambda>(name, replacement).
                 (name, case su_get name s of
                          Some existing \<Rightarrow> if ms_spec existing = ms_spec replacement then existing else replacement
                        | None \<Rightarrow> replacement)) incoming,
               su_aliases := aliases\<rparr>)))"

section \<open>Single services\<close>

definition su_reload_service :: "'w host \<Rightarrow> string \<Rightarrow> ('w, unit) su_prog" where
  "su_reload_service h name = bind_prog (su_read (\<lambda>s. canonical_name s name)) (\<lambda>name. service_mut name (ms_reload h))"

definition su_reset_failed :: "'w host \<Rightarrow> string \<Rightarrow> ('w, unit) su_prog" where
  "su_reset_failed h name = bind_prog (su_read (\<lambda>s. canonical_name s name)) (\<lambda>name. service_mut name (ms_reset_failed h))"

definition su_reset_failed_all :: "'w host \<Rightarrow> ('w, unit) su_prog" where
  "su_reset_failed_all h = bind_prog (su_read su_names) (\<lambda>names.
     each_prog (\<lambda>name. ignore_prog (service_mut name (ms_reset_failed h))) names)"

definition refresh_lost_mount :: "'w host \<Rightarrow> string \<Rightarrow> ('w, unit) su_prog" where
  "refresh_lost_mount h name =
     su_with h (\<lambda>s pf.
     case su_get name s of
       None \<Rightarrow> return_prog ()
     | Some m \<Rightarrow>
         if mount_is_lost pf m then service_mut name (mark_mount_lost h)
         else if device_is_lost pf m then service_mut name (mark_device_lost h)
         else return_prog ())"

section \<open>Manager actions\<close>

definition manager_action_priority :: "manager_action \<Rightarrow> nat" where
  "manager_action_priority action =
     (case action of
        ActionNone \<Rightarrow> 0
      | ActionExit \<Rightarrow> 1
      | ActionHalt \<Rightarrow> 2 | ActionHaltForce \<Rightarrow> 2
      | ActionPoweroff \<Rightarrow> 4 | ActionPoweroffForce \<Rightarrow> 4
      | _ \<Rightarrow> 3)"

definition request_manager_action :: "manager_action \<Rightarrow> supervisor \<Rightarrow> supervisor" where
  "request_manager_action action s =
     (if action = ActionNone then s
      else if (case su_pending_manager_action s of
                 None \<Rightarrow> True
               | Some pending \<Rightarrow> manager_action_priority pending < manager_action_priority action)
      then s\<lparr>su_pending_manager_action := Some action\<rparr> else s)"

definition take_manager_action :: "supervisor \<Rightarrow> manager_action option \<times> supervisor" where
  "take_manager_action s = (su_pending_manager_action s, s\<lparr>su_pending_manager_action := None\<rparr>)"

section \<open>The graph\<close>

definition su_graph :: "supervisor \<Rightarrow> supervisor_error + dependency_graph" where
  "su_graph s =
     (case fold_try (\<lambda>(_, m). graph_add (ms_spec m)) (su_services s) graph_default of
        Err e \<Rightarrow> Err (CannotBuildGraph e) | Ok g \<Rightarrow> Ok g)"

text \<open>\<open>self.graph()?\<close>\<close>

definition with_graph :: "(dependency_graph \<Rightarrow> ('w, 'a) su_prog) \<Rightarrow> ('w, 'a) su_prog" where
  "with_graph f = bind_prog (su_read su_graph) (\<lambda>r. case r of Err e \<Rightarrow> raise_prog e | Ok g \<Rightarrow> f g)"

definition declared_conflicts :: "supervisor \<Rightarrow> dependency_graph \<Rightarrow> string list \<Rightarrow> string \<Rightarrow> string list" where
  "declared_conflicts s g selected candidate =
     concat (map (\<lambda>dependency. case resolve_name s dependency of
         None \<Rightarrow> []
       | Some name \<Rightarrow>
           if candidate \<in> set selected then [name]
           else if name \<in> set selected then [candidate] else [])
       (conflict_dependencies g candidate))"

definition conflicts_for :: "supervisor \<Rightarrow> string list \<Rightarrow> supervisor_error + string list" where
  "conflicts_for s selected =
     bind_res (su_graph s) (\<lambda>g.
       let conflicts = bset_of (concat (map (declared_conflicts s g selected) (su_names s)))
       in if list_ex (\<lambda>name. name \<in> set selected) conflicts then Err MutuallyConflicting else Ok conflicts)"

definition dependent_names :: "supervisor \<Rightarrow> string \<Rightarrow> bool \<Rightarrow> string list" where
  "dependent_names s source include_part_of =
     map fst (filter (\<lambda>(name, m).
       name \<noteq> source \<and>
       (list_ex (\<lambda>d. resolve_name s d = Some source) (dep_binds_to (sp_dependencies (ms_spec m))) \<or>
        include_part_of \<and>
        list_ex (\<lambda>d. resolve_name s d = Some source) (dep_part_of (sp_dependencies (ms_spec m))))) (su_services s))"

definition has_active_dependent :: "environment \<Rightarrow> supervisor \<Rightarrow> dependency_graph \<Rightarrow> string \<Rightarrow> bool" where
  "has_active_dependent env s g source =
     list_ex (\<lambda>(name, m).
       name \<noteq> source \<and> service_was_up (ms_state m) \<and>
       (list_ex (\<lambda>d. resolve_name s d = Some source)
          (required_dependencies env g name @ dep_wants (sp_dependencies (ms_spec m))) \<or>
        sp_service_type (ms_spec m) = TypeSocket \<and>
        Option.bind (sp_socket_service (ms_spec m)) (resolve_name s) = Some source)) (su_services s)"

definition unneeded_services :: "environment \<Rightarrow> supervisor \<Rightarrow> dependency_graph \<Rightarrow> string list" where
  "unneeded_services env s g =
     map fst (filter (\<lambda>(name, m).
       sp_stop_when_unneeded (ms_spec m) \<and> service_was_up (ms_state m) \<and>
       \<not> has_active_dependent env s g name) (su_services s))"

section \<open>Start jobs\<close>

definition is_ready_without_start :: "supervisor \<Rightarrow> string \<Rightarrow> bool" where
  "is_ready_without_start s name =
     (case su_get name s of
        None \<Rightarrow> False
      | Some m \<Rightarrow> ms_state m \<in> {StActive, StExited, StSkipped} \<or> ready_for_dependency m)"

definition service_start_complete :: "supervisor \<Rightarrow> string \<Rightarrow> bool" where
  "service_start_complete s name =
     (case su_get name s of
        None \<Rightarrow> False
      | Some m \<Rightarrow>
          (if ms_state m = StRunning then ready_for_dependency m
           else ms_state m \<in> {StActive, StExited, StSkipped, StFailed}))"

definition required_dependency_is_unavailable :: "platform \<Rightarrow> supervisor \<Rightarrow> string \<Rightarrow> bool" where
  "required_dependency_is_unavailable pf s name =
     (case su_get name s of
        None \<Rightarrow> True
      | Some m \<Rightarrow>
          ms_state m = StFailed \<or> ms_state m = StSkipped \<and> \<not> skipped_mount_is_available pf (ms_spec m))"

definition required_blockers :: "environment \<Rightarrow> supervisor \<Rightarrow> start_job \<Rightarrow> string \<Rightarrow> service_spec \<Rightarrow> string list" where
  "required_blockers env s job name spec =
     filter (\<lambda>d. d \<in> set (job_selected job))
       (case su_graph s of
          Ok g \<Rightarrow> required_dependencies env g name
        | Err _ \<Rightarrow> dep_requires (sp_dependencies spec))"

definition start_dependencies_ready :: "platform \<Rightarrow> supervisor \<Rightarrow> start_job \<Rightarrow> string \<Rightarrow> bool" where
  "start_dependencies_ready pf s job name =
     (case su_get name s of
        None \<Rightarrow> False
      | Some m \<Rightarrow>
          (let required = required_blockers (pf_env pf) s job name (ms_spec m);
               blockers = required @
                 filter (\<lambda>d. d \<in> set (job_selected job)) (dep_after (sp_dependencies (ms_spec m))) @
                 filter (\<lambda>other. case su_get other s of None \<Rightarrow> False
                   | Some other_m \<Rightarrow> name \<in> set (dep_before (sp_dependencies (ms_spec other_m)))) (job_selected job)
           in list_all (\<lambda>d.
                \<not> (d \<in> set required \<and> required_dependency_is_unavailable pf s d) \<and>
                (is_ready_without_start s d \<or>
                 d \<in> set (job_attempted job) \<and> service_start_complete s d)) blockers))"

definition required_dependency_failed :: "platform \<Rightarrow> supervisor \<Rightarrow> start_job \<Rightarrow> bool" where
  "required_dependency_failed pf s job =
     list_ex (\<lambda>name. name \<in> set (job_attempted job) \<and> required_dependency_is_unavailable pf s name) (job_required job)"

definition job_complete :: "supervisor \<Rightarrow> start_job \<Rightarrow> bool" where
  "job_complete s job =
     list_all (\<lambda>name. name \<in> set (job_attempted job) \<and> service_start_complete s name) (job_selected job)"

definition rollback_start_job :: "'w host \<Rightarrow> start_job \<Rightarrow> instant \<Rightarrow> ('w, unit) su_prog" where
  "rollback_start_job h job now =
     each_prog (\<lambda>name. if name \<in> set (job_started job) then ignore_prog (service_mut name (ms_stop h now)) else return_prog ())
       (rev (job_order job))"

definition timeout_start_job :: "'w host \<Rightarrow> start_job \<Rightarrow> instant \<Rightarrow> ('w, unit) su_prog" where
  "timeout_start_job h job now = seq_prog
     [service_mut (job_root job) (mark_job_timeout h now), rollback_start_job h job now,
      su_update (request_manager_action (job_timeout_action job))]"

text \<open>The jobs that \<open>cancel\<close> picks are rolled back, the others stay.\<close>

definition cancel_jobs :: "'w host \<Rightarrow> (start_job \<Rightarrow> bool) \<Rightarrow> ('w, unit) su_prog" where
  "cancel_jobs h cancel =
     bind_prog (su_read su_start_jobs) (\<lambda>jobs.
     bind_prog (su_update (\<lambda>s. s\<lparr>su_start_jobs := []\<rparr>)) (\<lambda>_.
     bind_prog (su_io (h_now h)) (\<lambda>now.
     bind_prog (each_prog (\<lambda>job. rollback_start_job h job now) (filter cancel jobs)) (\<lambda>_.
       su_update (\<lambda>s. s\<lparr>su_start_jobs := filter (\<lambda>job. \<not> cancel job) jobs\<rparr>)))))"

definition cancel_start_jobs :: "'w host \<Rightarrow> string \<Rightarrow> ('w, unit) su_prog" where
  "cancel_start_jobs h name = cancel_jobs h (\<lambda>job. job_root job = name \<or> name \<in> set (job_selected job))"

definition cancel_isolation_jobs :: "'w host \<Rightarrow> string list \<Rightarrow> ('w, unit) su_prog" where
  "cancel_isolation_jobs h keep = cancel_jobs h (\<lambda>job. \<not> list_all (\<lambda>name. name \<in> set keep) (job_selected job))"

text \<open>One name of the inner loop: the job as it leaves the turn, and whether it made progress.\<close>

definition job_attempt :: "string \<Rightarrow> start_job \<Rightarrow> start_job" where
  "job_attempt name job = job\<lparr>job_attempted := bset_insert name (job_attempted job)\<rparr>"

definition job_turn :: "'w host \<Rightarrow> instant \<Rightarrow> string \<Rightarrow> start_job \<Rightarrow> ('w, start_job \<times> bool) su_prog" where
  "job_turn h now name job =
     su_with h (\<lambda>s pf.
     if name \<in> set (job_attempted job) then return_prog (job, False)
     else if name \<noteq> job_root job \<and> is_ready_without_start s name then return_prog (job_attempt name job, True)
     else if \<not> start_dependencies_ready pf s job name then return_prog (job, False)
     else if su_get name s = None then raise_prog (ServiceProblem UnknownService name)
     else match_prog (service_mut name (ms_start h now)) (\<lambda>r.
       case r of
         Ok _ \<Rightarrow> return_prog ((job_attempt name job)\<lparr>job_started := bset_insert name (job_started job)\<rparr>, True)
       | Err e \<Rightarrow>
           if name \<in> set (job_required job)
           then bind_prog (rollback_start_job h (job_attempt name job) now) (\<lambda>_. raise_prog e)
           else return_prog (job_attempt name job, True)))"

primrec job_turns :: "'w host \<Rightarrow> instant \<Rightarrow> string list \<Rightarrow> start_job \<times> bool \<Rightarrow> ('w, start_job \<times> bool) su_prog" where
  "job_turns h now [] jp = return_prog jp"
| "job_turns h now (name # names) jp =
     bind_prog (job_turn h now name (fst jp)) (\<lambda>(job, progress). job_turns h now names (job, snd jp \<or> progress))"

text \<open>
  The loop \<open>while made_progress\<close>: a pass over the selected names, again as long as the passes make
  progress. \<open>Some False\<close>: a required service failed and the job was rolled back. A pass that makes
  progress attempts a name that was not attempted before, so \<open>length (job_selected job) + 1\<close> passes are
  enough (\<open>Supervisor_Properties\<close>); \<open>None\<close> stands for a loop that is still running.
\<close>

primrec job_passes ::
    "nat \<Rightarrow> 'w host \<Rightarrow> instant \<Rightarrow> start_job \<Rightarrow> supervisor \<times> 'w \<Rightarrow>
      ((supervisor_error + start_job option) \<times> supervisor \<times> 'w) option" where
  "job_passes 0 h now job st = None"
| "job_passes (Suc n) h now job st =
     (case job_turns h now (job_selected job) (job, False) st of
        (Err e, st') \<Rightarrow> Some (Err e, st')
      | (Ok (job', progress), st') \<Rightarrow>
          if required_dependency_failed (h_platform h (snd st')) (fst st') job' then
            (case rollback_start_job h job' now st' of
               (Err e, st'') \<Rightarrow> Some (Err e, st'') | (Ok _, st'') \<Rightarrow> Some (Ok None, st''))
          else if progress then job_passes n h now job' st'
          else Some (Ok (Some job'), st'))"

end
