(* ===== verification/Supervisor_Run.thy ===== *)
theory Supervisor_Run
  imports Supervisor
begin

text \<open>
  The methods of \<open>Supervisor\<close> that start services. Starting a service runs its jobs, jobs may activate
  sockets and triggers, and outcomes are propagated to \<open>OnSuccess\<close> and \<open>OnFailure\<close> units, all of which
  starts services again. The model passes the inner call as the parameter \<open>launch\<close> and ties the knot
  with fuel in \<open>start_with_origin\<close>; a method of this theory is a \<open>run\<close>, where \<open>None\<close> stands for a call
  that has not returned: recursion deeper than the fuel, a loop that goes on, or a panic.
\<close>

section \<open>Methods that may not return\<close>

type_synonym ('st, 'a) run = "'st \<Rightarrow> ((supervisor_error + 'a) \<times> 'st) option"

named_theorems run_defs \<comment> \<open>unfolds the combinators of runs\<close>

definition run_prog :: "('st, 'a) prog \<Rightarrow> ('st, 'a) run" where
  [run_defs]: "run_prog p st = Some (p st)"

definition return_run :: "'a \<Rightarrow> ('st, 'a) run" where
  "return_run a = run_prog (return_prog a)"

definition raise_run :: "supervisor_error \<Rightarrow> ('st, 'a) run" where
  "raise_run e = run_prog (raise_prog e)"

definition match_run :: "('st, 'a) run \<Rightarrow> (supervisor_error + 'a \<Rightarrow> ('st, 'b) run) \<Rightarrow> ('st, 'b) run" where
  [run_defs]: "match_run m f st = (case m st of None \<Rightarrow> None | Some (r, st') \<Rightarrow> f r st')"

definition bind_run :: "('st, 'a) run \<Rightarrow> ('a \<Rightarrow> ('st, 'b) run) \<Rightarrow> ('st, 'b) run" where
  "bind_run m f = match_run m (\<lambda>r. case r of Err e \<Rightarrow> raise_run e | Ok a \<Rightarrow> f a)"

definition ignore_run :: "('st, 'a) run \<Rightarrow> ('st, unit) run" where
  "ignore_run m = match_run m (\<lambda>_. return_run ())"

primrec seq_run :: "('st, unit) run list \<Rightarrow> ('st, unit) run" where
  "seq_run [] = return_run ()"
| "seq_run (m # ms) = bind_run m (\<lambda>_. seq_run ms)"

primrec each_run :: "('a \<Rightarrow> ('st, unit) run) \<Rightarrow> 'a list \<Rightarrow> ('st, unit) run" where
  "each_run f [] = return_run ()"
| "each_run f (x # xs) = bind_run (f x) (\<lambda>_. each_run f xs)"

type_synonym ('w, 'a) su_run = "(supervisor \<times> 'w, 'a) run"

text \<open>A computation that panics is a run that does not return.\<close>

definition planned :: "string \<Rightarrow> (graph_error + 'a) option \<Rightarrow> ('st, 'a) run" where
  "planned name plan st =
     (case plan of None \<Rightarrow> None | Some (Err e) \<Rightarrow> raise_run (CannotPlan name e) st | Some (Ok a) \<Rightarrow> return_run a st)"

abbreviation look :: "(supervisor \<Rightarrow> 'a) \<Rightarrow> ('w, 'a) su_run" where
  "look f \<equiv> run_prog (su_read f)"

definition env_of :: "'w host \<Rightarrow> ('w, environment) su_run" where
  "env_of h = run_prog (su_with h (\<lambda>_ pf. return_prog (pf_env pf)))"

definition graph_run :: "('w, dependency_graph) su_run" where
  "graph_run = run_prog (with_graph return_prog)"

section \<open>Progress of start jobs\<close>

definition has_live_conflict :: "supervisor \<Rightarrow> start_job \<Rightarrow> bool" where
  "has_live_conflict s job =
     list_ex (\<lambda>name. case su_get name s of None \<Rightarrow> False | Some m \<Rightarrow> \<not> ms_is_stopped m) (job_conflicts job)"

text \<open>\<open>Ok(true)\<close> with the job that is still pending, \<open>Ok(false)\<close> without one.\<close>

definition progress_start_job :: "'w host \<Rightarrow> instant \<Rightarrow> start_job \<Rightarrow> ('w, start_job option) su_run" where
  "progress_start_job h now job =
     bind_run (look id) (\<lambda>s.
     if \<not> job_complete s job \<and> reached (job_deadline job) now then
       bind_run (run_prog (timeout_start_job h job now)) (\<lambda>_. return_run None)
     else if has_live_conflict s job then return_run (Some job)
     else bind_run (job_passes (Suc (length (job_selected job))) h now job) (\<lambda>passed.
       case passed of
         None \<Rightarrow> return_run None
       | Some job' \<Rightarrow> bind_run (look id) (\<lambda>s. return_run (if job_complete s job' then None else Some job'))))"

primrec progress_jobs :: "'w host \<Rightarrow> instant \<Rightarrow> start_job list \<Rightarrow> ('w, start_job list) su_run" where
  "progress_jobs h now [] = return_run []"
| "progress_jobs h now (job # jobs) =
     bind_run (progress_start_job h now job) (\<lambda>pending.
     bind_run (progress_jobs h now jobs) (\<lambda>rest. return_run (some_list pending @ rest)))"

section \<open>Socket activation\<close>

record socket_activation =
  sa_socket :: string
  sa_target :: "string option"
  sa_accept :: bool
  sa_fd_name :: string
  sa_fds :: "nat list"

definition socket_activations :: "supervisor \<Rightarrow> socket_activation list" where
  "socket_activations s =
     map (\<lambda>(_, m). let spec = ms_spec m in
         \<lparr>sa_socket = sp_name spec, sa_target = sp_socket_service spec, sa_accept = sp_socket_accept spec,
          sa_fd_name = (case sp_file_descriptor_name spec of
             Some name \<Rightarrow> name | None \<Rightarrow> if sp_socket_accept spec then ''connection'' else sp_name spec),
          sa_fds = map listener_fd (ms_listeners m)\<rparr>)
       (filter (\<lambda>(_, m). sp_service_type (ms_spec m) = TypeSocket \<and> ms_state m = StActive \<and> ms_listeners m \<noteq> [])
         (su_services s))"

definition activatable :: "supervisor \<Rightarrow> string \<Rightarrow> bool" where
  "activatable s name =
     (case su_get name s of None \<Rightarrow> False | Some m \<Rightarrow> ms_state m \<in> {StDefined, StExited, StSkipped, StFailed})"

text \<open>The service to start for a target name: one that exists and is down for good.\<close>

definition activation_target :: "supervisor \<Rightarrow> string \<Rightarrow> string option" where
  "activation_target s target =
     (case resolve_name s target of None \<Rightarrow> None | Some name \<Rightarrow> if activatable s name then Some name else None)"

definition activate :: "(string \<Rightarrow> ('w, unit) su_run) \<Rightarrow> 'w host \<Rightarrow> string \<Rightarrow> ('w, unit) su_run" where
  "activate launch h target =
     match_run (launch target) (\<lambda>r. case r of
         Ok _ \<Rightarrow> return_run ()
       | Err _ \<Rightarrow> run_prog (with_service target (return_prog ()) (clear_activation_fds h)))"

type_synonym ordinary_activations = "(string, nat list \<times> string list) bmap"

definition add_ordinary :: "string \<Rightarrow> socket_activation \<Rightarrow> ordinary_activations \<Rightarrow> ordinary_activations" where
  "add_ordinary target act ordinary =
     (let entry = (case map_of ordinary target of None \<Rightarrow> ([], []) | Some e \<Rightarrow> e)
      in bmap_insert target
           (fst entry @ sa_fds act, snd entry @ replicate (length (sa_fds act)) (sa_fd_name act)) ordinary)"

definition accept_connection :: "'w host \<Rightarrow> string \<Rightarrow> ('w, nat option) su_run" where
  "accept_connection h socket =
     bind_run (look (su_get socket)) (\<lambda>m.
     case Option.bind m (\<lambda>m. case ms_listeners m of [] \<Rightarrow> None | l # _ \<Rightarrow> Some l) of
       None \<Rightarrow> return_run None
     | Some listener \<Rightarrow> bind_run (run_prog (su_io (h_accept h listener))) (\<lambda>r.
         case r of Err e \<Rightarrow> raise_run (host_error ''cannot accept a connection'' e) | Ok fd \<Rightarrow> return_run fd))"

primrec activate_sockets ::
    "(string \<Rightarrow> ('w, unit) su_run) \<Rightarrow> 'w host \<Rightarrow> socket_activation list \<Rightarrow> ordinary_activations \<Rightarrow>
      ('w, ordinary_activations) su_run" where
  "activate_sockets launch h [] ordinary = return_run ordinary"
| "activate_sockets launch h (act # acts) ordinary =
     bind_run (look id) (\<lambda>s.
     case Option.bind (sa_target act) (activation_target s) of
       None \<Rightarrow> activate_sockets launch h acts ordinary
     | Some target \<Rightarrow>
         if \<not> sa_accept act then activate_sockets launch h acts (add_ordinary target act ordinary)
         else bind_run (accept_connection h (sa_socket act)) (\<lambda>fd.
           case fd of
             None \<Rightarrow> activate_sockets launch h acts ordinary
           | Some fd \<Rightarrow>
               bind_run (run_prog (with_service target (return_prog ()) (set_activation_connection h fd))) (\<lambda>_.
               bind_run (activate launch h target) (\<lambda>_. activate_sockets launch h acts ordinary))))"

definition progress_socket_activation_inner ::
    "(string \<Rightarrow> ('w, unit) su_run) \<Rightarrow> 'w host \<Rightarrow> ('w, unit) su_run" where
  "progress_socket_activation_inner launch h =
     bind_run (look socket_activations) (\<lambda>acts.
     bind_run (activate_sockets launch h acts []) (\<lambda>ordinary.
       each_run (\<lambda>(target, fds, names).
         bind_run (run_prog (with_service target (return_prog ()) (set_activation_fds h fds names))) (\<lambda>_.
           activate launch h target)) ordinary))"

definition progress_socket_activation ::
    "(string \<Rightarrow> ('w, unit) su_run) \<Rightarrow> 'w host \<Rightarrow> ('w, unit) su_run" where
  "progress_socket_activation launch h =
     bind_run (look su_progressing_socket_activation) (\<lambda>progressing.
     if progressing then return_run ()
     else
       bind_run (run_prog (su_update (\<lambda>s. s\<lparr>su_progressing_socket_activation := True\<rparr>))) (\<lambda>_.
       match_run (progress_socket_activation_inner launch h) (\<lambda>r.
       bind_run (run_prog (su_update (\<lambda>s. s\<lparr>su_progressing_socket_activation := False\<rparr>))) (\<lambda>_.
         run_prog (lift_res r)))))"

section \<open>Triggers\<close>

primrec due_targets :: "'w host \<Rightarrow> instant \<Rightarrow> string list \<Rightarrow> ('w, string list) su_prog" where
  "due_targets h now [] = return_prog []"
| "due_targets h now (name # names) =
     bind_prog (service_mut name (trigger_due h now)) (\<lambda>target.
     bind_prog (due_targets h now names) (\<lambda>targets. return_prog (some_list target @ targets)))"

definition progress_trigger_activation ::
    "(string \<Rightarrow> ('w, unit) su_run) \<Rightarrow> 'w host \<Rightarrow> instant \<Rightarrow> ('w, unit) su_run" where
  "progress_trigger_activation launch h now =
     bind_run (look su_names) (\<lambda>names.
     bind_run (run_prog (due_targets h now names)) (\<lambda>targets.
       each_run (\<lambda>target. bind_run (look (\<lambda>s. activation_target s target)) (\<lambda>t.
         case t of None \<Rightarrow> return_run () | Some name \<Rightarrow> ignore_run (launch name))) targets))"

definition progress_start_jobs ::
    "(string \<Rightarrow> ('w, unit) su_run) \<Rightarrow> 'w host \<Rightarrow> instant \<Rightarrow> ('w, unit) su_run" where
  "progress_start_jobs launch h now =
     bind_run (look su_start_jobs) (\<lambda>jobs.
     bind_run (run_prog (su_update (\<lambda>s. s\<lparr>su_start_jobs := []\<rparr>))) (\<lambda>_.
     bind_run (progress_jobs h now jobs) (\<lambda>pending.
       seq_run [run_prog (su_update (\<lambda>s. s\<lparr>su_start_jobs := pending\<rparr>)), progress_socket_activation launch h,
         progress_trigger_activation launch h now])))"

section \<open>Propagation\<close>

definition stop_dependents :: "'w host \<Rightarrow> string \<Rightarrow> bool \<Rightarrow> instant \<Rightarrow> ('w, unit) su_prog" where
  "stop_dependents h source include_part_of now =
     bind_prog (su_read (\<lambda>s. dependent_names s source include_part_of)) (\<lambda>dependents.
       each_prog (\<lambda>dependent. seq_prog [cancel_start_jobs h dependent, service_mut dependent (ms_stop h now)]) dependents)"

text \<open>The services that went down since \<open>before\<close>, and whether they are meant to stay down.\<close>

definition gone_down :: "(string, service_state) bmap \<Rightarrow> supervisor \<Rightarrow> (string \<times> bool) list" where
  "gone_down before s =
     concat (map (\<lambda>(source, previous). case su_get source s of
         None \<Rightarrow> []
       | Some m \<Rightarrow>
           if service_was_up previous \<and> service_is_down (ms_state m) then [(source, \<not> ms_wants_running m)] else []) before)"

definition propagate_bindings :: "'w host \<Rightarrow> (string, service_state) bmap \<Rightarrow> instant \<Rightarrow> ('w, unit) su_prog" where
  "propagate_bindings h before now =
     bind_prog (su_read (gone_down before)) (\<lambda>sources.
       each_prog (\<lambda>(source, part_of). stop_dependents h source part_of now) sources)"

type_synonym outcome = "manager_action \<times> string list"

definition new_failures :: "(string, service_state) bmap \<Rightarrow> supervisor \<Rightarrow> outcome list" where
  "new_failures before s =
     concat (map (\<lambda>(source, previous). case su_get source s of
         None \<Rightarrow> []
       | Some m \<Rightarrow>
           if previous = StFailed \<or> ms_state m \<noteq> StFailed then []
           else [(sp_failure_action (ms_spec m), dep_on_failure (sp_dependencies (ms_spec m)))]) before)"

definition new_successes :: "(string, service_state) bmap \<Rightarrow> supervisor \<Rightarrow> outcome list" where
  "new_successes before s =
     concat (map (\<lambda>(source, previous). case su_get source s of
         None \<Rightarrow> []
       | Some m \<Rightarrow>
           (let exit = rc_last_exit (ms_record m) in
            if previous \<in> {StActive, StExited} \<or> ms_state m \<notin> {StActive, StExited} \<or>
               (case exit of None \<Rightarrow> False | Some e \<Rightarrow> \<not> is_success e) then []
            else [(if exit \<noteq> None then sp_success_action (ms_spec m) else ActionNone,
                   dep_on_success (sp_dependencies (ms_spec m)))])) before)"

definition propagate_outcomes ::
    "(string \<Rightarrow> ('w, unit) su_run) \<Rightarrow> (supervisor \<Rightarrow> outcome list) \<Rightarrow> ('w, unit) su_run" where
  "propagate_outcomes launch outcomes =
     bind_run (look outcomes) (\<lambda>found.
       each_run (\<lambda>(action, dependencies).
         bind_run (run_prog (su_update (request_manager_action action))) (\<lambda>_.
           each_run (\<lambda>dependency. bind_run (look (\<lambda>s. resolve_name s dependency)) (\<lambda>name.
             case name of None \<Rightarrow> return_run () | Some n \<Rightarrow> ignore_run (launch n))) dependencies)) found)"

section \<open>Services that nothing needs\<close>

definition stop_unneeded :: "'w host \<Rightarrow> instant \<Rightarrow> string list \<Rightarrow> ('w, unit) su_prog" where
  "stop_unneeded h now names =
     each_prog (\<lambda>name. bind_prog (su_read (su_get name)) (\<lambda>m.
       if (case m of None \<Rightarrow> False | Some m \<Rightarrow> sp_stop_when_unneeded (ms_spec m))
       then seq_prog [cancel_start_jobs h name, service_mut name (ms_stop h now)] else return_prog ())) names"

primrec reap_loop :: "nat \<Rightarrow> 'w host \<Rightarrow> instant \<Rightarrow> ('w, unit) su_run" where
  "reap_loop 0 h now = (\<lambda>_. None)"
| "reap_loop (Suc n) h now =
     bind_run graph_run (\<lambda>g.
     bind_run (env_of h) (\<lambda>env.
     bind_run (look (\<lambda>s. unneeded_services env s g)) (\<lambda>names.
       if names = [] then return_run ()
       else bind_run (run_prog (stop_unneeded h now names)) (\<lambda>_. reap_loop n h now))))"

definition reap_unneeded :: "'w host \<Rightarrow> instant \<Rightarrow> ('w, unit) su_run" where
  "reap_unneeded h now =
     bind_run (look id) (\<lambda>s.
       if su_start_jobs s \<noteq> [] then return_run () else reap_loop (Suc (length (su_services s))) h now)"

section \<open>Starting\<close>

definition check_requisite :: "supervisor \<Rightarrow> string \<Rightarrow> string \<Rightarrow> supervisor_error option" where
  "check_requisite s name requisite =
     (case resolve_name s requisite of
        None \<Rightarrow> Some (RequisiteUnavailable requisite name)
      | Some other \<Rightarrow>
          (case su_get other s of
             None \<Rightarrow> Some (RequisiteUnavailable other name)
           | Some m \<Rightarrow>
               if ms_state m \<in> {StActive, StExited} \<or> ready_for_dependency m then None
               else Some (RequisiteInactive other name)))"

definition check_requisites :: "supervisor \<Rightarrow> string \<Rightarrow> supervisor_error + unit" where
  "check_requisites s name =
     (case su_get name s of
        None \<Rightarrow> Err (ServiceProblem RequisitesOfUnknown name)
      | Some m \<Rightarrow>
          (case first_some (check_requisite s name) (dep_requisite (sp_dependencies (ms_spec m))) of
             None \<Rightarrow> Ok () | Some e \<Rightarrow> Err e))"

definition stop_conflicts :: "'w host \<Rightarrow> instant \<Rightarrow> string list \<Rightarrow> ('w, unit) su_prog" where
  "stop_conflicts h now conflicts =
     each_prog (\<lambda>conflict. seq_prog
       [cancel_start_jobs h conflict, with_service conflict (return_prog ()) (ms_stop h now),
        stop_dependents h conflict True now]) conflicts"

definition new_start_job ::
    "supervisor \<Rightarrow> instant \<Rightarrow> string \<Rightarrow> string list \<Rightarrow> string list \<Rightarrow> string list \<Rightarrow> start_job" where
  "new_start_job s now name needed order conflicts =
     (let spec = map_option ms_spec (su_get name s) in
      \<lparr>job_root = name, job_selected = bset_of order, job_required = needed, job_order = order,
       job_conflicts = conflicts, job_attempted = [], job_started = [],
       job_deadline = Option.bind (Option.bind spec sp_job_timeout) (timeout_deadline now),
       job_timeout_action = (case spec of None \<Rightarrow> ActionNone | Some sp \<Rightarrow> sp_job_timeout_action sp)\<rparr>)"

text \<open>The planning half of \<open>start_with_origin\<close>: it changes nothing but a lost mount.\<close>

definition plan_job :: "'w host \<Rightarrow> string \<Rightarrow> bool \<Rightarrow> ('w, instant \<times> start_job) su_run" where
  "plan_job h name manual =
     bind_run (run_prog (refresh_lost_mount h name)) (\<lambda>_.
     bind_run (look id) (\<lambda>s.
     if manual \<and> (case su_get name s of None \<Rightarrow> False | Some m \<Rightarrow> sp_refuse_manual_start (ms_spec m))
     then raise_run (ServiceProblem ManualStartRefused name)
     else
       bind_run (run_prog (lift_res (check_requisites s name))) (\<lambda>_.
       bind_run graph_run (\<lambda>g.
       bind_run (env_of h) (\<lambda>env.
       bind_run (planned name (Some (required_closure env g name))) (\<lambda>needed.
       bind_run (planned name (plan_start env g name)) (\<lambda>order.
       bind_run (run_prog (lift_res (conflicts_for s (bset_of order)))) (\<lambda>conflicts.
       if name \<in> set conflicts then raise_run (ServiceProblem ConflictsWithItself name)
       else bind_run (run_prog (su_io (h_now h))) (\<lambda>now.
         return_run (now, new_start_job s now name needed order conflicts))))))))))"

definition start_body ::
    "(string \<Rightarrow> ('w, unit) su_run) \<Rightarrow> 'w host \<Rightarrow> string \<Rightarrow> bool \<Rightarrow> ('w, unit) su_run" where
  "start_body launch h wanted manual =
     bind_run (look (\<lambda>s. canonical_name s wanted)) (\<lambda>name.
     bind_run (plan_job h name manual) (\<lambda>(now, job).
     bind_run (look service_states) (\<lambda>before. seq_run
       [run_prog (stop_conflicts h now (job_conflicts job)),
        run_prog (su_update (\<lambda>s. s\<lparr>su_start_jobs := su_start_jobs s @ [job]\<rparr>)),
        progress_start_jobs launch h now,
        run_prog (propagate_bindings h before now),
        propagate_outcomes launch (new_successes before),
        propagate_outcomes launch (new_failures before),
        reap_unneeded h now])))"

primrec start_with_origin :: "nat \<Rightarrow> 'w host \<Rightarrow> string \<Rightarrow> bool \<Rightarrow> ('w, unit) su_run" where
  "start_with_origin 0 h name manual = (\<lambda>_. None)"
| "start_with_origin (Suc fuel) h name manual = start_body (\<lambda>name. start_with_origin fuel h name False) h name manual"

definition su_start :: "nat \<Rightarrow> 'w host \<Rightarrow> string \<Rightarrow> ('w, unit) su_run" where
  "su_start fuel h name = start_with_origin fuel h name True"

section \<open>Isolation\<close>

primrec keep_ignored :: "environment \<Rightarrow> dependency_graph \<Rightarrow> string list \<Rightarrow> string list \<Rightarrow> ('w, string list) su_run" where
  "keep_ignored env g [] keep = return_run keep"
| "keep_ignored env g (candidate # rest) keep =
     match_run (planned candidate (plan_start env g candidate)) (\<lambda>r.
       keep_ignored env g rest
         (bset_extend (case r of Ok order \<Rightarrow> order | Err _ \<Rightarrow> []) (bset_insert candidate keep)))"

definition names_where :: "(string \<Rightarrow> service_spec \<Rightarrow> bool) \<Rightarrow> supervisor \<Rightarrow> string list" where
  "names_where P s = map fst (filter (\<lambda>(name, m). P name (ms_spec m)) (su_services s))"

definition su_isolate :: "nat \<Rightarrow> 'w host \<Rightarrow> string \<Rightarrow> ('w, unit) su_run" where
  "su_isolate fuel h wanted =
     bind_run (look id) (\<lambda>s.
     let name = canonical_name s wanted in
     case su_get name s of
       None \<Rightarrow> raise_run (ServiceProblem UnknownService name)
     | Some m \<Rightarrow>
         if \<not> sp_allow_isolate (ms_spec m) then raise_run (ServiceProblem IsolationRefused name)
         else
           bind_run graph_run (\<lambda>g.
           bind_run (env_of h) (\<lambda>env.
           bind_run (planned name (plan_start env g name)) (\<lambda>order.
           bind_run (keep_ignored env g (names_where (\<lambda>_. sp_ignore_on_isolate) s) (bset_of order)) (\<lambda>keep.
           bind_run (run_prog (cancel_isolation_jobs h keep)) (\<lambda>_.
           bind_run (start_with_origin fuel h name True) (\<lambda>_.
           bind_run (run_prog (su_io (h_now h))) (\<lambda>now.
           bind_run (look (names_where (\<lambda>n sp. n \<notin> set keep \<and> \<not> sp_ignore_on_isolate sp))) (\<lambda>names.
           bind_run (run_prog (each_prog (\<lambda>n. seq_prog [cancel_start_jobs h n, service_mut n (ms_stop h now)]) names)) (\<lambda>_.
             reap_unneeded h now))))))))))"

section \<open>Stopping and restarting\<close>

definition su_stop_for_reconfigure :: "'w host \<Rightarrow> string \<Rightarrow> ('w, unit) su_prog" where
  "su_stop_for_reconfigure h wanted =
     bind_prog (su_read (\<lambda>s. canonical_name s wanted)) (\<lambda>name.
     bind_prog (cancel_start_jobs h name) (\<lambda>_.
     bind_prog (su_io (h_now h)) (\<lambda>now.
       seq_prog [service_mut name (ms_stop h now), stop_dependents h name True now])))"

definition su_stop :: "'w host \<Rightarrow> string \<Rightarrow> ('w, unit) su_prog" where
  "su_stop h wanted =
     bind_prog (su_read id) (\<lambda>s.
     let name = canonical_name s wanted in
     if (case su_get name s of None \<Rightarrow> False | Some m \<Rightarrow> sp_refuse_manual_stop (ms_spec m))
     then raise_prog (ServiceProblem ManualStopRefused name)
     else
       bind_prog (cancel_start_jobs h name) (\<lambda>_.
       bind_prog (su_io (h_now h)) (\<lambda>now.
         seq_prog [service_mut name (ms_stop h now), stop_dependents h name True now])))"

definition restart_body :: "nat \<Rightarrow> 'w host \<Rightarrow> string \<Rightarrow> ('w, unit) su_run" where
  "restart_body fuel h name =
     bind_run (look service_states) (\<lambda>before.
     bind_run (run_prog (cancel_start_jobs h name)) (\<lambda>_.
     bind_run (run_prog (su_io (h_now h))) (\<lambda>now. seq_run
       [run_prog (stop_dependents h name True now),
        run_prog (service_mut name (ms_restart h now)),
        run_prog (propagate_bindings h before now),
        propagate_outcomes (\<lambda>n. start_with_origin fuel h n False) (new_failures before),
        reap_unneeded h now])))"

definition su_restart :: "nat \<Rightarrow> 'w host \<Rightarrow> string \<Rightarrow> ('w, unit) su_run" where
  "su_restart fuel h wanted =
     bind_run (look (\<lambda>s. canonical_name s wanted)) (\<lambda>name.
     bind_run (run_prog (refresh_lost_mount h name)) (\<lambda>_.
     bind_run (look id) (\<lambda>s.
     case map_option ms_spec (su_get name s) of
       Some sp \<Rightarrow>
         if sp_refuse_manual_start sp then raise_run (ServiceProblem ManualStartRefused name)
         else if sp_refuse_manual_stop sp then raise_run (ServiceProblem ManualStopRefused name)
         else restart_body fuel h name
     | None \<Rightarrow> restart_body fuel h name)))"

definition su_stop_all :: "'w host \<Rightarrow> ('w, unit) su_run" where
  "su_stop_all h =
     bind_run (run_prog (su_update (\<lambda>s. s\<lparr>su_start_jobs := []\<rparr>))) (\<lambda>_.
     bind_run graph_run (\<lambda>g.
     bind_run (env_of h) (\<lambda>env.
     bind_run (case plan_all_stop env g of
         Some (Err (Cycle _)) \<Rightarrow> planned ''shutdown'' (map_option Ok (plan_all_stop_best_effort env g))
       | plan \<Rightarrow> planned ''shutdown'' plan) (\<lambda>names.
     bind_run (run_prog (su_io (h_now h))) (\<lambda>now.
       run_prog (each_prog (\<lambda>name. seq_prog [service_mut name (ms_stop h now), stop_dependents h name True now]) names))))))"

section \<open>Polling\<close>

definition su_poll :: "nat \<Rightarrow> 'w host \<Rightarrow> ('w, unit) su_run" where
  "su_poll fuel h =
     bind_run (look id) (\<lambda>s.
     bind_run (run_prog (su_io (h_now h))) (\<lambda>now.
     let launch = (\<lambda>name. start_with_origin fuel h name False); before = service_states s in
     seq_run
       [run_prog (each_prog (\<lambda>name. seq_prog [refresh_lost_mount h name, service_mut name (ms_poll h now)]) (su_names s)),
        progress_start_jobs launch h now,
        run_prog (propagate_bindings h before now),
        propagate_outcomes launch (new_successes before),
        propagate_outcomes launch (new_failures before),
        reap_unneeded h now]))"

end
