(* ===== verification/Supervisor_Contracts.thy ===== *)
theory Supervisor_Contracts
  imports Supervisor_Run
begin

text \<open>
  What the methods of \<open>Supervisor\<close> other than \<open>add\<close> and \<open>reload\<close> may change: the set of services and the
  aliases stay, and each service changes by the lifecycle events of \<open>Managed_Contracts\<close> only. The rules
  for runs extend \<open>step_contract\<close>; the relation \<open>su_step\<close> is an interpretation of it.
\<close>

section \<open>Contracts for runs\<close>

context step_contract
begin

definition runs :: "('st, 'a) run \<Rightarrow> bool" where
  "runs m \<longleftrightarrow> (\<forall>st r st'. m st = Some (r, st') \<longrightarrow> R st st')"

lemma runsD: "runs m \<Longrightarrow> m st = Some (r, st') \<Longrightarrow> R st st'"
  by (simp add: runs_def)

lemma runs_prog: "steps p \<Longrightarrow> runs (run_prog p)"
  unfolding runs_def run_prog_def using stepsD by blast

lemma runs_return: "runs (return_run a)"
  unfolding return_run_def by (rule runs_prog[OF steps_return])

lemma runs_raise: "runs (raise_run e)"
  unfolding raise_run_def by (rule runs_prog[OF steps_raise])

lemma runs_match:
  assumes "runs m" and "\<And>r. runs (f r)"
  shows "runs (match_run m f)"
  unfolding runs_def
proof (intro allI impI)
  fix st r st'
  assume a: "match_run m f st = Some (r, st')"
  then obtain r1 st1 where m: "m st = Some (r1, st1)" by (auto simp: match_run_def split: option.splits)
  with a have "f r1 st1 = Some (r, st')" by (simp add: match_run_def)
  then show "R st st'" using runsD[OF assms(1) m] runsD[OF assms(2)] R_trans by blast
qed

lemma runs_bind: "runs m \<Longrightarrow> (\<And>a. runs (f a)) \<Longrightarrow> runs (bind_run m f)"
  unfolding bind_run_def by (intro runs_match) (auto intro: runs_raise split: sum.split)

lemma runs_ignore: "runs m \<Longrightarrow> runs (ignore_run m)"
  unfolding ignore_run_def by (intro runs_match runs_return)

lemma runs_seq: "list_all runs ms \<Longrightarrow> runs (seq_run ms)"
  by (induction ms) (auto intro: runs_return runs_bind)

lemma runs_each: "(\<And>x. x \<in> set xs \<Longrightarrow> runs (f x)) \<Longrightarrow> runs (each_run f xs)"
  by (induction xs) (auto intro: runs_return runs_bind)

lemma runs_planned: "runs (planned name plan)"
  using runs_raise[of _, THEN runsD] runs_return[of _, THEN runsD]
  by (auto simp: runs_def planned_def split: option.splits sum.splits)

lemma runs_none: "runs (\<lambda>_. None)"
  by (simp add: runs_def)

lemma runs_if: "(c \<Longrightarrow> runs m) \<Longrightarrow> (\<not> c \<Longrightarrow> runs n) \<Longrightarrow> runs (if c then m else n)"
  by simp

lemma runs_option: "runs m \<Longrightarrow> (\<And>x. runs (f x)) \<Longrightarrow> runs (case v of None \<Rightarrow> m | Some x \<Rightarrow> f x)"
  by (cases v) auto

lemma runs_sum: "(\<And>e. runs (m e)) \<Longrightarrow> (\<And>x. runs (f x)) \<Longrightarrow> runs (case v of Inl e \<Rightarrow> m e | Inr x \<Rightarrow> f x)"
  by (cases v) auto

lemma runs_prod: "(\<And>a b. runs (f a b)) \<Longrightarrow> runs (case v of (a, b) \<Rightarrow> f a b)"
  by (cases v) auto

lemma runs_Nil: "list_all runs []"
  by simp

lemma runs_Cons: "runs m \<Longrightarrow> list_all runs ms \<Longrightarrow> list_all runs (m # ms)"
  by simp

lemmas runs_rules = runs_return runs_raise runs_match runs_bind runs_ignore runs_seq runs_each
  runs_planned runs_none runs_if runs_option runs_sum runs_prod runs_Nil runs_Cons

end

section \<open>Start jobs under any contract\<close>

text \<open>
  What the progress of start jobs does to the supervisor is calls of service methods and the request of
  a manager action: a relation that holds for these holds for start jobs. It is interpreted on
  \<open>su_step\<close> below and on the list of start jobs in \<open>Supervisor_Jobs\<close>.
\<close>

locale job_contract = step_contract R for R :: "supervisor \<times> 'w \<Rightarrow> supervisor \<times> 'w \<Rightarrow> bool" +
  assumes R_service: "driven.steps (p :: ('w, unit) ms_prog) \<Longrightarrow> R st (snd (service_mut name p st))"
    and R_action: "R st (request_manager_action action (fst st), snd st)"
begin

lemma steps_service: "driven.steps (p :: ('w, unit) ms_prog) \<Longrightarrow> steps (service_mut name p)"
  by (rule stepsI) (rule R_service)

lemma steps_su_read: "steps (su_read f)"
  unfolding su_read_def by (rule steps_read)

lemma steps_su_with: "(\<And>s pf. steps (f s pf)) \<Longrightarrow> steps (su_with h f)"
  unfolding steps_def by (simp add: su_with_def split: prod.split)

lemma steps_action_request: "steps (su_update (request_manager_action action))"
  by (rule stepsI) (use R_action in \<open>auto simp: su_update_def prog_defs split: prod.split\<close>)

lemma steps_rollback: "steps (rollback_start_job h job now)"
  unfolding rollback_start_job_def by (intro steps_rules steps_service driven_ops)

lemma steps_timeout: "steps (timeout_start_job h job now)"
  unfolding timeout_start_job_def by (intro steps_rules steps_service steps_rollback steps_action_request driven_ops)

lemma steps_job_turn: "steps (job_turn h now name job)"
  unfolding job_turn_def by (intro steps_rules steps_su_with steps_service steps_rollback driven_ops)

lemma steps_job_turns: "steps (job_turns h now names jp)"
  by (induction names arbitrary: jp) (simp_all, (intro steps_rules steps_job_turn; assumption)+)

lemma runs_job_passes: "runs (job_passes n h now job)"
proof (induction n arbitrary: job)
  case 0
  then show ?case by (simp add: runs_def)
next
  case (Suc n)
  show ?case
    unfolding runs_def
  proof (intro allI impI)
    fix st r st'
    assume a: "job_passes (Suc n) h now job st = Some (r, st')"
    obtain r1 st1 where t: "job_turns h now (job_selected job) (job, False) st = (r1, st1)"
      by (cases "job_turns h now (job_selected job) (job, False) st")
    have one: "R st st1" by (rule stepsD[OF steps_job_turns t])
    show "R st st'"
    proof (cases r1)
      case (Inl e)
      then show ?thesis using a t one by simp
    next
      case (Inr jp)
      obtain job' progress where jp: "jp = (job', progress)" by fastforce
      have roll: "R st1 (snd (rollback_start_job h job' now st1))" by (rule steps_run[OF steps_rollback])
      show ?thesis
      proof (cases "required_dependency_failed (h_platform h (snd st1)) (fst st1) job'")
        case True
        then have "st' = snd (rollback_start_job h job' now st1)"
          using a t Inr jp by (auto split: prod.splits sum.splits)
        then show ?thesis using one roll R_trans by blast
      next
        case False
        then have "st' = st1 \<or> job_passes n h now job' st1 = Some (r, st')"
          using a t Inr jp by (auto split: if_splits)
        then have "R st1 st'" using runsD[OF Suc.IH] R_refl by blast
        with one show ?thesis by (rule R_trans)
      qed
    qed
  qed
qed

lemma runs_progress_job: "runs (progress_start_job h now job)"
  unfolding progress_start_job_def by (intro runs_rules runs_prog runs_job_passes steps_timeout steps_su_read)

lemma runs_progress_jobs: "runs (progress_jobs h now jobs)"
  by (induction jobs) (simp_all, (intro runs_rules runs_progress_job; assumption)+)

end

section \<open>The relation\<close>

definition su_step :: "supervisor \<times> 'w \<Rightarrow> supervisor \<times> 'w \<Rightarrow> bool" where
  "su_step st st' \<longleftrightarrow>
     su_aliases (fst st') = su_aliases (fst st) \<and>
     (bmap_inv (su_services (fst st)) \<longrightarrow> bmap_inv (su_services (fst st'))) \<and>
     (\<forall>name. rel_option (\<lambda>m m'. evolves (ms_record m) (ms_record m')) (su_get name (fst st)) (su_get name (fst st')))"

lemma su_step_refl: "su_step st st"
  by (simp add: su_step_def option.rel_refl unchanged)

lemma su_step_trans: "su_step a b \<Longrightarrow> su_step b c \<Longrightarrow> su_step a c"
proof -
  assume a: "su_step a b" "su_step b c"
  have "rel_option (\<lambda>m m'. evolves (ms_record m) (ms_record m')) (su_get name (fst a)) (su_get name (fst c))" for name
  proof -
    have "rel_option (\<lambda>m m'. evolves (ms_record m) (ms_record m')) (su_get name (fst a)) (su_get name (fst b))"
      and "rel_option (\<lambda>m m'. evolves (ms_record m) (ms_record m')) (su_get name (fst b)) (su_get name (fst c))"
      using a by (simp_all add: su_step_def)
    then show ?thesis
      by (cases "su_get name (fst a)"; cases "su_get name (fst b)"; cases "su_get name (fst c)")
        (auto intro: evolves_trans)
  qed
  then show ?thesis using a by (simp add: su_step_def)
qed

interpretation sup: step_contract su_step
  by unfold_locales (auto intro: su_step_refl su_step_trans)

named_theorems su_ops \<comment> \<open>methods that keep the services and the aliases\<close>
named_theorems run_ops \<comment> \<open>runs that keep the services and the aliases\<close>

lemma su_get_put: "su_get n (su_put name m s) = (if n = name then Some m else su_get n s)"
  by (simp add: su_get_def su_put_def)

lemma su_put_fields [simp]:
  "su_aliases (su_put name m s) = su_aliases s" "su_start_jobs (su_put name m s) = su_start_jobs s"
  "su_pending_manager_action (su_put name m s) = su_pending_manager_action s"
  "su_progressing_socket_activation (su_put name m s) = su_progressing_socket_activation s"
  by (simp_all add: su_put_def)

lemma sup_read [su_ops]: "sup.steps (su_read f)"
  unfolding su_read_def by (rule sup.steps_read)

lemma sup_io [su_ops]: "sup.steps (su_io op)"
  by (rule sup.stepsI) (simp add: su_io_def su_step_def option.rel_refl unchanged split: prod.split)

lemma sup_with [su_ops]: "(\<And>s pf. sup.steps (f s pf)) \<Longrightarrow> sup.steps (su_with h f)"
  unfolding sup.steps_def by (simp add: su_with_def split: prod.split)

lemma sup_lift [su_ops]: "sup.steps (lift_res r)"
  unfolding lift_res_def by (intro sup.steps_rules)

lemma sup_update: "(\<And>s. su_services (f s) = su_services s \<and> su_aliases (f s) = su_aliases s) \<Longrightarrow> sup.steps (su_update f)"
  by (rule sup.stepsI)
    (simp add: su_update_def prog_defs su_step_def su_get_def option.rel_refl unchanged split: prod.split)

lemma sup_with_service [su_ops]:
  fixes p :: "('w, 'a) ms_prog"
  assumes "driven.steps p" and "sup.steps (absent :: ('w, 'a) su_prog)"
  shows "sup.steps (with_service name absent p)"
proof (rule sup.stepsI)
  fix st :: "supervisor \<times> 'w"
  obtain s w where st: "st = (s, w)" by fastforce
  show "su_step st (snd (with_service name absent p st))"
  proof (cases "su_get name s")
    case None
    then show ?thesis using assms(2) by (simp add: st with_service_def sup.steps_def)
  next
    case (Some m)
    obtain r m' w' where p: "p (m, w) = (r, m', w')" by (metis prod_cases3)
    have "evolves (ms_record m) (ms_record m')"
      using driven.stepsD[OF assms(1) p] by (simp add: driven_step_def)
    then have "rel_option (\<lambda>m m'. evolves (ms_record m) (ms_record m')) (su_get n s) (su_get n (su_put name m' s))" for n
      using Some by (simp add: su_get_put option.rel_refl unchanged)
    then show ?thesis using Some p by (simp add: st with_service_def su_step_def su_put_def)
  qed
qed

lemma sup_service_mut [su_ops]: "driven.steps p \<Longrightarrow> sup.steps (service_mut name p)"
  unfolding service_mut_def by (intro sup_with_service sup.steps_raise)

lemma sup_with_graph [su_ops]: "(\<And>g. sup.steps (f g)) \<Longrightarrow> sup.steps (with_graph f)"
  unfolding with_graph_def by (intro sup.steps_rules su_ops)

section \<open>Methods\<close>

lemma sup_singles [su_ops]:
  "sup.steps (su_reload_service h name)" "sup.steps (su_reset_failed h name)" "sup.steps (su_reset_failed_all h)"
  "sup.steps (refresh_lost_mount h name)"
  unfolding su_reload_service_def su_reset_failed_def su_reset_failed_all_def refresh_lost_mount_def
  by (intro sup.steps_rules su_ops driven_ops)+

lemma request_manager_action_fields [simp]:
  "su_services (request_manager_action a s) = su_services s" "su_aliases (request_manager_action a s) = su_aliases s"
  "su_start_jobs (request_manager_action a s) = su_start_jobs s"
  by (simp_all add: request_manager_action_def)

interpretation sup_jobs: job_contract su_step
proof unfold_locales
  fix p :: "('w, unit) ms_prog" and st :: "supervisor \<times> 'w" and name
  assume "driven.steps p"
  then show "su_step st (snd (service_mut name p st))" by (intro sup.steps_run sup_service_mut)
next
  fix st :: "supervisor \<times> 'w" and action
  show "su_step st (request_manager_action action (fst st), snd st)"
    by (simp add: su_step_def su_get_def option.rel_refl unchanged)
qed

lemmas sup_job_steps [su_ops] = sup_jobs.steps_rollback sup_jobs.steps_timeout sup_jobs.steps_job_turn sup_jobs.steps_job_turns

lemmas sup_job_runs [run_ops] = sup_jobs.runs_job_passes sup_jobs.runs_progress_job sup_jobs.runs_progress_jobs

lemma sup_cancel [su_ops]: "sup.steps (cancel_jobs h cancel)"
  unfolding cancel_jobs_def by (intro sup.steps_rules su_ops sup_update) simp_all

lemma sup_cancels [su_ops]: "sup.steps (cancel_start_jobs h name)" "sup.steps (cancel_isolation_jobs h keep)"
  unfolding cancel_start_jobs_def cancel_isolation_jobs_def by (rule sup_cancel)+

lemma sup_stop_dependents [su_ops]: "sup.steps (stop_dependents h source part_of now)"
  unfolding stop_dependents_def by (intro sup.steps_rules su_ops driven_ops)

lemma sup_bindings [su_ops]: "sup.steps (propagate_bindings h before now)"
  unfolding propagate_bindings_def by (intro sup.steps_rules su_ops)

lemma sup_due_targets [su_ops]: "sup.steps (due_targets h now names)"
  by (induction names) (simp_all, (intro sup.steps_rules su_ops driven_ops; assumption)+)

lemma sup_stop_unneeded [su_ops]: "sup.steps (stop_unneeded h now names)"
  unfolding stop_unneeded_def by (intro sup.steps_rules su_ops driven_ops)

lemma sup_stop_conflicts [su_ops]: "sup.steps (stop_conflicts h now conflicts)"
  unfolding stop_conflicts_def by (intro sup.steps_rules su_ops driven_ops)

lemma sup_stops [su_ops]: "sup.steps (su_stop h name)" "sup.steps (su_stop_for_reconfigure h name)"
  unfolding su_stop_def su_stop_for_reconfigure_def Let_def by (intro sup.steps_rules su_ops driven_ops)+

section \<open>Runs\<close>

lemma sup_run [run_ops]: "sup.steps p \<Longrightarrow> sup.runs (run_prog p)"
  by (rule sup.runs_prog)

lemma runs_env [run_ops]: "sup.runs (env_of h)"
  unfolding env_of_def by (intro sup_run su_ops sup.steps_return)

lemma runs_graph [run_ops]: "sup.runs graph_run"
  unfolding graph_run_def by (intro sup_run su_ops sup.steps_return)

lemma runs_activate: "(\<And>n. sup.runs (launch n)) \<Longrightarrow> sup.runs (activate launch h target)"
  unfolding activate_def by (intro sup.runs_rules run_ops su_ops driven_ops sup.steps_return)

lemma runs_accept [run_ops]: "sup.runs (accept_connection h socket)"
  unfolding accept_connection_def by (intro sup.runs_rules run_ops su_ops)

lemma runs_activate_sockets: "(\<And>n. sup.runs (launch n)) \<Longrightarrow> sup.runs (activate_sockets launch h acts ordinary)"
  by (induction acts arbitrary: ordinary)
    (simp_all, (intro sup.runs_rules run_ops su_ops driven_ops sup.steps_return runs_activate; assumption)+)

lemma runs_sockets_inner: "(\<And>n. sup.runs (launch n)) \<Longrightarrow> sup.runs (progress_socket_activation_inner launch h)"
  unfolding progress_socket_activation_inner_def
  by (intro sup.runs_rules run_ops su_ops driven_ops sup.steps_return runs_activate runs_activate_sockets)

lemma runs_sockets: "(\<And>n. sup.runs (launch n)) \<Longrightarrow> sup.runs (progress_socket_activation launch h)"
  unfolding progress_socket_activation_def
  by (intro sup.runs_rules run_ops su_ops sup_update runs_sockets_inner) simp_all

lemma runs_triggers: "(\<And>n. sup.runs (launch n)) \<Longrightarrow> sup.runs (progress_trigger_activation launch h now)"
  unfolding progress_trigger_activation_def by (intro sup.runs_rules run_ops su_ops)

lemma runs_jobs: "(\<And>n. sup.runs (launch n)) \<Longrightarrow> sup.runs (progress_start_jobs launch h now)"
  unfolding progress_start_jobs_def
  by (intro sup.runs_rules run_ops su_ops sup_update runs_sockets runs_triggers) simp_all

lemma runs_outcomes: "(\<And>n. sup.runs (launch n)) \<Longrightarrow> sup.runs (propagate_outcomes launch outcomes)"
  unfolding propagate_outcomes_def
  by (intro sup.runs_rules run_ops su_ops sup_update) simp_all

lemma runs_reap_loop [run_ops]: "sup.runs (reap_loop n h now)"
  by (induction n) (simp_all, (intro sup.runs_rules run_ops su_ops; assumption)+)

lemma runs_reap [run_ops]: "sup.runs (reap_unneeded h now)"
  unfolding reap_unneeded_def by (intro sup.runs_rules run_ops su_ops)

lemma runs_plan_job [run_ops]: "sup.runs (plan_job h name manual)"
  unfolding plan_job_def by (intro sup.runs_rules run_ops su_ops)

lemma runs_start_body: "(\<And>n. sup.runs (launch n)) \<Longrightarrow> sup.runs (start_body launch h wanted manual)"
  unfolding start_body_def
  by (intro sup.runs_rules run_ops su_ops sup_update runs_jobs runs_outcomes) simp_all

lemma runs_start [run_ops]: "sup.runs (start_with_origin fuel h name manual)"
  by (induction fuel arbitrary: name manual) (simp_all add: sup.runs_none runs_start_body)

lemma runs_keep_ignored [run_ops]: "sup.runs (keep_ignored env g candidates keep)"
  by (induction candidates arbitrary: keep) (simp_all, (intro sup.runs_rules run_ops; assumption)+)

lemma runs_isolate [run_ops]: "sup.runs (su_isolate fuel h wanted)"
  unfolding su_isolate_def Let_def by (intro sup.runs_rules run_ops su_ops sup.steps_rules driven_ops)

lemma runs_restart [run_ops]: "sup.runs (su_restart fuel h wanted)"
  unfolding su_restart_def restart_body_def
  by (intro sup.runs_rules run_ops su_ops driven_ops runs_outcomes)

lemma runs_stop_all [run_ops]: "sup.runs (su_stop_all h)"
proof -
  have "sup.runs (case plan of Some (Err (Cycle c)) \<Rightarrow> planned n (alt c) | p \<Rightarrow> planned n p)" for plan n alt
    by (simp add: sup.runs_planned split: option.split sum.split graph_error.split)
  then show ?thesis
    unfolding su_stop_all_def
    by (intro sup.runs_bind run_ops su_ops sup_update sup.steps_rules driven_ops) simp_all
qed

lemma runs_poll [run_ops]: "sup.runs (su_poll fuel h)"
  unfolding su_poll_def Let_def
  by (intro sup.runs_rules run_ops su_ops sup.steps_rules driven_ops runs_jobs runs_outcomes)

end
