(* ===== verification/Supervisor_Properties.thy ===== *)
theory Supervisor_Properties
  imports Supervisor_Contracts
begin

text \<open>
  Properties of the supervisor that hold whatever its callers do: the consistency of services, names and
  aliases, the graph that can always be built, distinct dynamic identities; and of its two ways to load
  services: \<open>reload\<close> never touches an active service.
\<close>

section \<open>Calls of the manager\<close>

datatype manager_call =
  McAdd service_spec | McReload "service_spec list" | McStart string | McIsolate string | McStop string
| McReconfigure string | McRestart string | McStopAll | McPoll | McReloadService string
| McResetFailed string | McResetFailedAll | McTakeAction

text \<open>A call that fails leaves the state it has made so far; \<open>add\<close> and \<open>reload\<close> leave the old one.\<close>

definition load_call :: "supervisor_error + supervisor \<Rightarrow> supervisor \<times> 'w \<Rightarrow> (supervisor \<times> 'w) option" where
  "load_call r st = Some (case r of Err _ \<Rightarrow> st | Ok s \<Rightarrow> (s, snd st))"

fun run_manager :: "nat \<Rightarrow> 'w host \<Rightarrow> manager_call \<Rightarrow> supervisor \<times> 'w \<Rightarrow> (supervisor \<times> 'w) option" where
  "run_manager fuel h (McAdd spec) st =
     load_call (su_add (h_platform h (snd st)) (h_name_hash h) spec (fst st)) st"
| "run_manager fuel h (McReload specs) st =
     load_call (su_reload (h_platform h (snd st)) (h_name_hash h) specs (fst st)) st"
| "run_manager fuel h (McStart name) st = map_option snd (su_start fuel h name st)"
| "run_manager fuel h (McIsolate name) st = map_option snd (su_isolate fuel h name st)"
| "run_manager fuel h (McStop name) st = Some (snd (su_stop h name st))"
| "run_manager fuel h (McReconfigure name) st = Some (snd (su_stop_for_reconfigure h name st))"
| "run_manager fuel h (McRestart name) st = map_option snd (su_restart fuel h name st)"
| "run_manager fuel h McStopAll st = map_option snd (su_stop_all h st)"
| "run_manager fuel h McPoll st = map_option snd (su_poll fuel h st)"
| "run_manager fuel h (McReloadService name) st = Some (snd (su_reload_service h name st))"
| "run_manager fuel h (McResetFailed name) st = Some (snd (su_reset_failed h name st))"
| "run_manager fuel h McResetFailedAll st = Some (snd (su_reset_failed_all h st))"
| "run_manager fuel h McTakeAction st = Some (snd (take_manager_action (fst st)), snd st)"

primrec run_managers ::
    "nat \<Rightarrow> 'w host \<Rightarrow> manager_call list \<Rightarrow> supervisor \<times> 'w \<Rightarrow> (supervisor \<times> 'w) option" where
  "run_managers fuel h [] st = Some st"
| "run_managers fuel h (call # calls) st = Option.bind (run_manager fuel h call st) (run_managers fuel h calls)"

lemma run_result: "sup.runs m \<Longrightarrow> map_option snd (m st) = Some st' \<Longrightarrow> su_step st st'"
  using sup.runsD[of m st] by (cases "m st") auto

text \<open>Every call other than \<open>add\<close> and \<open>reload\<close> is a \<open>su_step\<close>.\<close>

lemma run_manager_cases:
  assumes "run_manager fuel h call st = Some st'"
  obtains (add) spec where "call = McAdd spec"
      "su_add (h_platform h (snd st)) (h_name_hash h) spec (fst st) = Ok (fst st')"
  | (reload) specs where "call = McReload specs"
      "su_reload (h_platform h (snd st)) (h_name_hash h) specs (fst st) = Ok (fst st')"
  | (step) "su_step st st'"
proof (cases call)
  case (McAdd spec)
  then show ?thesis using assms that(1,3) su_step_refl[of st]
    by (cases "su_add (h_platform h (snd st)) (h_name_hash h) spec (fst st)") (auto simp: load_call_def)
next
  case (McReload specs)
  then show ?thesis using assms that(2,3) su_step_refl[of st]
    by (cases "su_reload (h_platform h (snd st)) (h_name_hash h) specs (fst st)") (auto simp: load_call_def)
next
  case McTakeAction
  have "su_step st (snd (take_manager_action (fst st)), snd st)"
    by (simp add: su_step_def take_manager_action_def su_get_def option.rel_refl unchanged)
  then show ?thesis using assms McTakeAction that(3) by simp
next
  case (McStart name)
  then show ?thesis using assms by (intro that(3) run_result[OF runs_start]) (simp add: su_start_def)
next
  case (McIsolate name)
  then show ?thesis using assms by (intro that(3) run_result[OF runs_isolate]) simp
next
  case (McRestart name)
  then show ?thesis using assms by (intro that(3) run_result[OF runs_restart]) simp
next
  case McStopAll
  then show ?thesis using assms by (intro that(3) run_result[OF runs_stop_all]) simp
next
  case McPoll
  then show ?thesis using assms by (intro that(3) run_result[OF runs_poll]) simp
next
  case (McStop name)
  then show ?thesis using assms by (intro that(3)) (auto intro: sup.steps_run[OF sup_stops(1)])
next
  case (McReconfigure name)
  then show ?thesis using assms by (intro that(3)) (auto intro: sup.steps_run[OF sup_stops(2)])
next
  case (McReloadService name)
  then show ?thesis using assms by (intro that(3)) (auto intro: sup.steps_run[OF sup_singles(1)])
next
  case (McResetFailed name)
  then show ?thesis using assms by (intro that(3)) (auto intro: sup.steps_run[OF sup_singles(2)])
next
  case McResetFailedAll
  then show ?thesis using assms by (intro that(3)) (auto intro: sup.steps_run[OF sup_singles(3)])
qed

section \<open>Consistency\<close>

definition services_inv :: "(string, managed_service) bmap \<Rightarrow> bool" where
  "services_inv services \<longleftrightarrow>
     bmap_inv services \<and>
     (\<forall>name m. map_of services name = Some m \<longrightarrow> sp_name (ms_spec m) = name \<and> reachable_record (ms_record m))"

definition su_inv :: "supervisor \<Rightarrow> bool" where
  "su_inv s \<longleftrightarrow>
     services_inv (su_services s) \<and>
     (\<forall>alias name. map_of (su_aliases s) alias = Some name \<longrightarrow> su_get alias s = None \<and> su_get name s \<noteq> None)"

lemma su_step_get:
  assumes "su_step st st'" and "su_get name (fst st') = Some m'"
  obtains m where "su_get name (fst st) = Some m" and "evolves (ms_record m) (ms_record m')"
  using assms(1)[unfolded su_step_def, THEN conjunct2, THEN conjunct2, rule_format, of name] assms(2) that
  by (cases "su_get name (fst st)") auto

lemma su_step_absent: "su_step st st' \<Longrightarrow> su_get name (fst st') = None \<longleftrightarrow> su_get name (fst st) = None"
  unfolding su_step_def by (metis option.rel_distinct(1) option.rel_distinct(2) option.exhaust)

lemma su_step_inv:
  assumes "su_step st st'" and "su_inv (fst st)"
  shows "su_inv (fst st')"
proof -
  have "sp_name (ms_spec m') = name \<and> reachable_record (ms_record m')" if got: "su_get name (fst st') = Some m'" for name m'
  proof -
    obtain m where m: "su_get name (fst st) = Some m" "evolves (ms_record m) (ms_record m')"
      by (rule su_step_get[OF assms(1) got])
    then have "sp_name (ms_spec m) = name \<and> reachable_record (ms_record m)"
      using assms(2) by (simp add: su_inv_def services_inv_def su_get_def)
    then show ?thesis using evolves_spec[OF m(2)] evolves_reachable[OF m(2)] by simp
  qed
  moreover have "bmap_inv (su_services (fst st'))"
    using assms by (simp add: su_step_def su_inv_def services_inv_def)
  ultimately have "services_inv (su_services (fst st'))" by (simp add: services_inv_def su_get_def)
  moreover have "su_aliases (fst st') = su_aliases (fst st)" using assms(1) by (simp add: su_step_def)
  ultimately show ?thesis using assms(2) su_step_absent[OF assms(1)] by (simp add: su_inv_def)
qed

lemma ms_new_ok:
  assumes "ms_new spec identity = Ok m"
  shows "reachable_record (ms_record m)"
    and "ms_spec m = (if sp_dynamic_user spec then with_identity (the identity) spec else spec)"
    and "sp_dynamic_user spec \<Longrightarrow> identity \<noteq> None"
proof -
  show "reachable_record (ms_record m)" by (rule ms_new_record[OF assms])
  obtain sp where sp: "(if sp_dynamic_user spec then (case identity of
        None \<Rightarrow> Err (ServiceProblem NoDynamicIdentity (sp_name spec)) | Some i \<Rightarrow> Ok (with_identity i spec))
      else Ok spec) = Ok sp"
    and m: "(case record_new sp of Err e \<Rightarrow> Err (InvalidSpecificationOf e) | Ok r \<Rightarrow> Ok (ms_of_record r)) = Ok m"
    using assms by (auto simp: ms_new_def bind_res_eq_Inr)
  have "ms_spec m = sp"
    using m by (cases "record_new sp") (auto simp: record_new_def bind_res_eq_Inr)
  then show "ms_spec m = (if sp_dynamic_user spec then with_identity (the identity) spec else spec)"
    and "sp_dynamic_user spec \<Longrightarrow> identity \<noteq> None"
    using sp by (auto split: if_splits option.splits)
qed

lemma ms_new_name: "ms_new spec identity = Ok m \<Longrightarrow> sp_name (ms_spec m) = sp_name spec"
  using ms_new_ok(2)[of spec identity m] by (simp add: with_identity_def)

lemma services_inv_insert:
  "services_inv services \<Longrightarrow> reachable_record (ms_record m) \<Longrightarrow> sp_name (ms_spec m) = name \<Longrightarrow>
    services_inv (bmap_insert name m services)"
  by (simp add: services_inv_def)

text \<open>The aliases that \<open>add\<close> registers.\<close>

lemma add_aliases:
  "map_of (fold (\<lambda>alias m. if alias \<noteq> name then bmap_insert alias name m else m) aliases m) a =
     (if a \<in> set aliases \<and> a \<noteq> name then Some name else map_of m a)"
  by (induction aliases arbitrary: m) auto

lemma su_add_ok:
  assumes "su_add pf hash spec s = Ok s'"
  obtains identity service where
    "(if sp_dynamic_user spec then map_res Some (allocate_dynamic_identity pf (hash (sp_name spec)) (dynamic_user_ids s))
      else Ok None) = Ok identity"
    and "ms_new spec identity = Ok service" and "\<not> taken s (sp_name spec)"
    and "\<forall>alias \<in> set (map native_service_name (sp_aliases spec)). alias = sp_name spec \<or> \<not> taken s alias"
    and "su_services s' = bmap_insert (sp_name spec) service (su_services s)"
    and "\<And>a. map_of (su_aliases s') a =
      (if a \<in> set (map native_service_name (sp_aliases spec)) \<and> a \<noteq> sp_name spec then Some (sp_name spec)
       else map_of (su_aliases s) a)"
  using assms
  by (auto simp: su_add_def Let_def bind_res_eq_Inr find_None_iff su_put_def add_aliases split: if_splits option.splits)

lemma su_add_inv:
  assumes "su_add pf hash spec s = Ok s'" and "su_inv s"
  shows "su_inv s'"
proof -
  obtain identity service where a:
    "ms_new spec identity = Ok service" "\<not> taken s (sp_name spec)"
    "\<forall>alias \<in> set (map native_service_name (sp_aliases spec)). alias = sp_name spec \<or> \<not> taken s alias"
    "su_services s' = bmap_insert (sp_name spec) service (su_services s)"
    "\<And>a. map_of (su_aliases s') a =
      (if a \<in> set (map native_service_name (sp_aliases spec)) \<and> a \<noteq> sp_name spec then Some (sp_name spec)
       else map_of (su_aliases s) a)"
    by (rule su_add_ok[OF assms(1)], rule that)
  have "services_inv (su_services s')"
    using assms(2) a(1,4) by (simp add: services_inv_insert su_inv_def ms_new_ok(1) ms_new_name)
  moreover have "su_get a s' = None \<and> su_get name s' \<noteq> None" if "map_of (su_aliases s') a = Some name" for a name
    using that a(2,3) assms(2) by (auto simp: a(4,5) su_get_def taken_def su_inv_def split: if_splits)
  ultimately show ?thesis by (simp add: su_inv_def)
qed

section \<open>Reloading\<close>

lemma map_of_map_entry: "map_of (map (\<lambda>(k, v). (k, f k v)) m) k = map_option (f k) (map_of m k)"
  by (induction m) auto

lemma collect_alias_ok:
  "collect_alias canonical alias aliases = Ok aliases' \<Longrightarrow>
     map_of aliases' = (if alias = canonical then map_of aliases else (map_of aliases)(alias \<mapsto> canonical))"
  by (auto simp: collect_alias_def split: if_splits option.splits)

lemma collect_aliases_ok:
  assumes "collect_aliases services = Ok aliases" and "map_of aliases alias = Some name"
  shows "name \<in> fst ` set services" and "alias \<notin> fst ` set services"
proof -
  let ?P = "\<lambda>aliases. \<forall>a c. map_of aliases a = Some c \<longrightarrow> c \<in> fst ` set services"
  have a: "fold_try (\<lambda>(canonical, m). fold_try (collect_alias canonical) (sp_aliases (ms_spec m))) services [] = Ok aliases"
    and none: "\<forall>canonical \<in> set (bmap_keys services). map_of aliases canonical = None"
    using assms(1) by (auto simp: collect_aliases_def bind_res_eq_Inr find_None_iff split: option.splits)
  have "?P aliases"
  proof (rule fold_try_invariant[OF a, where P = ?P])
    fix x :: "string \<times> managed_service" and s s'
    assume x: "x \<in> set services" and s: "?P s"
      and f: "(case x of (canonical, m) \<Rightarrow> fold_try (collect_alias canonical) (sp_aliases (ms_spec m))) s = Ok s'"
    obtain canonical m where cm: "x = (canonical, m)" by fastforce
    from f have f': "fold_try (collect_alias canonical) (sp_aliases (ms_spec m)) s = Ok s'" by (simp add: cm)
    show "?P s'"
    proof (rule fold_try_invariant[OF f', where P = ?P, OF s])
      fix y t t' assume t: "?P t" and c: "collect_alias canonical y t = Ok t'"
      have "canonical \<in> fst ` set services" using x cm by force
      then show "?P t'" using t unfolding collect_alias_ok[OF c] by (auto split: if_splits)
    qed
  qed simp
  with assms(2) show "name \<in> fst ` set services" by blast
  show "alias \<notin> fst ` set services" using none assms(2) by (auto simp: bmap_keys_def)
qed

lemma first_some_None: "first_some f xs = None \<longleftrightarrow> (\<forall>x \<in> set xs. f x = None)"
  by (auto simp: first_some_def find_None_iff find_Some_iff split: option.splits)

lemma su_reload_ok:
  assumes "su_reload pf hash specs s = Ok s'"
  obtains incoming reserved where "fold_try (reload_spec pf hash s) specs ([], dynamic_user_ids s) = Ok (incoming, reserved)"
    and "collect_aliases incoming = Ok (su_aliases s')"
    and "\<And>name m. (name, m) \<in> set (su_services s) \<Longrightarrow> reload_keeps_active incoming (name, m) = None"
    and "su_services s' = map (\<lambda>(name, replacement).
                 (name, case su_get name s of
                          Some existing \<Rightarrow> if ms_spec existing = ms_spec replacement then existing else replacement
                        | None \<Rightarrow> replacement)) incoming"
    and "su_start_jobs s' = su_start_jobs s"
  using assms
  by (auto simp: su_reload_def bind_res_eq_Inr first_some_None split: option.splits intro!: that)

lemma reload_spec_ok:
  assumes "reload_spec pf hash s spec (incoming, reserved) = Ok (incoming', reserved')"
  obtains identity service where
    "(if sp_dynamic_user spec then (case dynamic_identity_for s (sp_name spec) of
        Some identity \<Rightarrow> Ok (Some identity)
      | None \<Rightarrow> map_res Some (allocate_dynamic_identity pf (hash (sp_name spec)) reserved)) else Ok None) = Ok identity"
    and "reserved' = (case identity of None \<Rightarrow> reserved | Some i \<Rightarrow> bset_insert (di_uid i) reserved)"
    and "ms_new spec identity = Ok service" and "map_of incoming (sp_name spec) = None"
    and "incoming' = bmap_insert (sp_name spec) service incoming"
  using assms by (auto simp: reload_spec_def Let_def bind_res_eq_Inr split: if_splits)

lemma reload_incoming_inv:
  assumes "fold_try (reload_spec pf hash s) specs ([], r) = Ok (incoming, reserved)"
  shows "services_inv incoming"
proof -
  have "services_inv (fst (incoming, reserved))"
  proof (rule fold_try_invariant[OF assms, where P = "\<lambda>p. services_inv (fst p)"])
    show "services_inv (fst ([], r))" by (simp add: services_inv_def)
  next
    fix spec p p' assume p: "services_inv (fst p)" and f: "reload_spec pf hash s spec p = Ok p'"
    obtain i1 r1 i2 r2 where pp: "p = (i1, r1)" "p' = (i2, r2)" by fastforce
    obtain identity service where
      "ms_new spec identity = Ok service" "i2 = bmap_insert (sp_name spec) service i1"
      by (rule reload_spec_ok[OF f[unfolded pp]], rule that)
    then show "services_inv (fst p')"
      using p by (simp add: pp services_inv_insert ms_new_ok(1) ms_new_name)
  qed
  then show ?thesis by simp
qed

lemma su_reload_inv:
  assumes "su_reload pf hash specs s = Ok s'" and "su_inv s"
  shows "su_inv s'"
proof -
  obtain incoming reserved where r:
    "fold_try (reload_spec pf hash s) specs ([], dynamic_user_ids s) = Ok (incoming, reserved)"
    "collect_aliases incoming = Ok (su_aliases s')"
    "su_services s' = map (\<lambda>(name, replacement).
                 (name, case su_get name s of
                          Some existing \<Rightarrow> if ms_spec existing = ms_spec replacement then existing else replacement
                        | None \<Rightarrow> replacement)) incoming"
    by (rule su_reload_ok[OF assms(1)], rule that)
  have inc: "services_inv incoming" by (rule reload_incoming_inv[OF r(1)])
  have keys: "map fst (su_services s') = map fst incoming" unfolding r(3) by (simp add: case_prod_unfold)
  have get: "map_of (su_services s') name = map_option (\<lambda>replacement. case su_get name s of
      Some existing \<Rightarrow> if ms_spec existing = ms_spec replacement then existing else replacement
    | None \<Rightarrow> replacement) (map_of incoming name)" for name
    unfolding r(3) by (rule map_of_map_entry)
  have "services_inv (su_services s')"
    unfolding services_inv_def
  proof (intro conjI allI impI)
    show "bmap_inv (su_services s')" using inc keys by (simp add: services_inv_def bmap_inv_def)
    fix name m assume "map_of (su_services s') name = Some m"
    then obtain rep where rep: "map_of incoming name = Some rep"
      and m: "m = (case su_get name s of
          Some existing \<Rightarrow> if ms_spec existing = ms_spec rep then existing else rep | None \<Rightarrow> rep)"
      by (auto simp: get)
    have ok: "sp_name (ms_spec rep) = name \<and> reachable_record (ms_record rep)"
      using inc rep by (simp add: services_inv_def)
    moreover have "reachable_record (ms_record existing)" if "su_get name s = Some existing" for existing
      using that assms(2) by (simp add: su_inv_def services_inv_def su_get_def)
    ultimately show "sp_name (ms_spec m) = name" and "reachable_record (ms_record m)"
      by (auto simp: m split: option.split)
  qed
  moreover have "su_get a s' = None \<and> su_get name s' \<noteq> None" if "map_of (su_aliases s') a = Some name" for a name
    using collect_aliases_ok[OF r(2) that] keys unfolding su_get_def map_of_eq_None_iff
    by (metis list.set_map)
  ultimately show ?thesis by (simp add: su_inv_def)
qed

section \<open>Every run\<close>

lemma supervisor_new_inv: "su_inv supervisor_new"
  by (simp add: su_inv_def services_inv_def supervisor_new_def)

lemma run_manager_inv: "run_manager fuel h call st = Some st' \<Longrightarrow> su_inv (fst st) \<Longrightarrow> su_inv (fst st')"
  by (erule run_manager_cases) (auto intro: su_add_inv su_reload_inv su_step_inv)

text \<open>What every call keeps is kept by the whole run.\<close>

lemma run_managers_keep:
  assumes "run_managers fuel h calls st = Some st'" and "P (fst st)"
    and "\<And>call st st'. run_manager fuel h call st = Some st' \<Longrightarrow> P (fst st) \<Longrightarrow> P (fst st')"
  shows "P (fst st')"
  using assms(1,2)
proof (induction calls arbitrary: st)
  case Nil
  then show ?case by simp
next
  case (Cons call calls)
  obtain st1 where st1: "run_manager fuel h call st = Some st1" "run_managers fuel h calls st1 = Some st'"
    using Cons.prems(1) by (auto simp: bind_eq_Some_conv)
  show ?case by (rule Cons.IH[OF st1(2) assms(3)[OF st1(1) Cons.prems(2)]])
qed

lemma bmap_insert_last: "bmap_inv (m @ [(k, v)]) \<Longrightarrow> bmap_insert k v m = m @ [(k, v)]"
  by (induction k v m rule: bmap_insert.induct) (auto simp: bmap_inv_def)

lemma graph_of_services:
  assumes "bmap_inv services" and "\<forall>(name, m) \<in> set services. sp_name (ms_spec m) = name"
  shows "fold_try (\<lambda>(_, m). graph_add (ms_spec m)) services graph_default =
    Ok \<lparr>dg_services = map (\<lambda>(name, m). (name, ms_spec m)) services\<rparr>"
  using assms
proof (induction services rule: rev_induct)
  case Nil
  then show ?case by (simp add: graph_default_def)
next
  case (snoc x services)
  obtain name m where x: "x = (name, m)" by fastforce
  let ?specs = "map (\<lambda>(name, m). (name, ms_spec m))"
  have inv: "bmap_inv services" using snoc.prems(1) by (simp add: bmap_inv_def sorted_wrt_append)
  have keys: "map fst (?specs (services @ [x])) = map fst (services @ [x])" by (simp add: case_prod_unfold)
  have "bmap_inv (?specs services @ [(name, ms_spec m)])"
    using snoc.prems(1) unfolding bmap_inv_def keys[symmetric] by (simp add: x)
  note put = bmap_insert_last[OF this]
  have "name \<notin> fst ` set services"
    using bmap_keys_distinct[OF snoc.prems(1)] by (simp add: x)
  then have new: "map_of (?specs services) name = None"
    unfolding map_of_eq_None_iff by (simp add: image_image case_prod_unfold)
  have "sp_name (ms_spec m) = name" using snoc.prems(2) by (simp add: x)
  then have "graph_add (ms_spec m) \<lparr>dg_services = ?specs services\<rparr> = Ok \<lparr>dg_services = ?specs (services @ [x])\<rparr>"
    using new put by (simp add: graph_add_def x)
  then show ?case using snoc.IH[OF inv] snoc.prems(2) by (simp add: fold_try_append x)
qed

lemma su_graph_ok:
  assumes "su_inv s"
  shows "su_graph s = Ok \<lparr>dg_services = map (\<lambda>(name, m). (name, ms_spec m)) (su_services s)\<rparr>"
proof -
  have inv: "bmap_inv (su_services s)" using assms by (simp add: su_inv_def services_inv_def)
  have "\<forall>(name, m) \<in> set (su_services s). sp_name (ms_spec m) = name"
    using assms by (auto simp: su_inv_def services_inv_def bmap_entry[OF inv])
  then show ?thesis by (simp add: su_graph_def graph_of_services[OF inv])
qed

text \<open>
  C2. Whatever calls are made on a new supervisor, whatever they return and the host answers: services
  are registered under their own names in ascending order, the record of each is one the lifecycle
  reaches, every alias belongs to a registered service and hides none; so the dependency graph can always
  be built and holds exactly the registered descriptors.
\<close>

theorem supervisor_stays_consistent:
  assumes "run_managers fuel h calls (supervisor_new, w) = Some (s, w')"
  shows "su_inv s \<and> su_graph s = Ok \<lparr>dg_services = map (\<lambda>(name, m). (name, ms_spec m)) (su_services s)\<rparr>"
proof -
  have "su_inv s"
    using run_managers_keep[where P = su_inv, OF assms] supervisor_new_inv run_manager_inv
    by (metis fst_conv)
  then show ?thesis using su_graph_ok by blast
qed

definition demo_spec :: service_spec where
  "demo_spec = service_spec_new ''demo'' ''/bin/demo''"

lemma demo_spec_fields [simp]:
  "sp_name demo_spec = ''demo''" "sp_aliases demo_spec = []" "\<not> sp_dynamic_user demo_spec"
  by (simp_all add: demo_spec_def service_spec_new_def)

lemma demo_add:
  "run_manager fuel demo_host (McAdd demo_spec) (supervisor_new, w) = Some (su_put ''demo'' demo_managed supervisor_new, w)"
proof -
  have "ms_new demo_spec None = Ok demo_managed" using demo_managed_new by (simp add: demo_spec_def)
  then show ?thesis
    by (simp add: su_add_def taken_def su_get_def supervisor_new_def su_put_def bset_of_def bset_extend_def load_call_def)
qed

theorem supervisor_stays_consistent_witness:
  "\<exists>s w'. run_managers 0 demo_host [McAdd demo_spec, McStop ''demo'', McResetFailedAll] (supervisor_new, 1) = Some (s, w') \<and>
    su_get ''demo'' s \<noteq> None \<and> su_inv s"
proof -
  let ?s = "su_put ''demo'' demo_managed supervisor_new"
  obtain r s1 w1 where s1: "su_stop demo_host ''demo'' (?s, 1) = (r, s1, w1)" by (metis prod_cases3)
  obtain r2 s2 w2 where s2: "su_reset_failed_all demo_host (s1, w1) = (r2, s2, w2)" by (metis prod_cases3)
  have run: "run_managers 0 demo_host [McAdd demo_spec, McStop ''demo'', McResetFailedAll] (supervisor_new, 1) = Some (s2, w2)"
    using s1 s2 by (simp add: demo_add del: run_manager.simps(1))
  have "su_step (?s, 1) (s1, w1)" by (rule sup.stepsD[OF sup_stops(1) s1])
  from su_step_absent[OF this] have "su_get ''demo'' s1 = None \<longleftrightarrow> su_get ''demo'' ?s = None" by simp
  moreover have "su_step (s1, w1) (s2, w2)" by (rule sup.stepsD[OF sup_singles(3) s2])
  from su_step_absent[OF this] have "su_get ''demo'' s2 = None \<longleftrightarrow> su_get ''demo'' s1 = None" by simp
  ultimately have "su_get ''demo'' s2 \<noteq> None" by (simp add: su_get_def su_put_def)
  then show ?thesis using run supervisor_stays_consistent[OF run] by blast
qed

section \<open>Dynamic identities\<close>

lemma rotated_range: "(\<lambda>offset. (first + offset) mod n) ` {0..<n} = {0..<(n::nat)}"
proof (intro equalityI subsetI)
  fix k assume k: "k \<in> {0..<n}"
  have "(first + (k + n - first mod n) mod n) mod n = (first mod n + (k + n - first mod n)) mod n"
    by (simp add: mod_simps)
  also have "first mod n + (k + n - first mod n) = k + n"
    by (rule le_add_diff_inverse) (use k mod_less_divisor[of n first] in \<open>simp add: trans_le_add2\<close>)
  finally have "(first + (k + n - first mod n) mod n) mod n = k" using k by simp
  moreover have "(k + n - first mod n) mod n \<in> {0..<n}" using k by auto
  ultimately show "k \<in> (\<lambda>offset. (first + offset) mod n) ` {0..<n}" by (metis image_eqI)
qed auto

lemma dynamic_span_value: "dynamic_span = 4336"
  by (simp add: dynamic_span_def dynamic_user_min_def dynamic_user_max_def)

definition in_dynamic_range :: "32 word \<Rightarrow> bool" where
  "in_dynamic_range u \<longleftrightarrow> dynamic_user_min \<le> u \<and> u \<le> dynamic_user_max"

lemma dynamic_candidates:
  "set (map (\<lambda>offset. dynamic_user_min + of_nat ((first + offset) mod dynamic_span)) [0..<dynamic_span]) =
    {u. in_dynamic_range u}"
proof -
  have "(\<lambda>offset. dynamic_user_min + of_nat ((first + offset) mod dynamic_span)) ` {0..<dynamic_span} =
    (\<lambda>k. dynamic_user_min + of_nat k) ` {0..<dynamic_span}"
    by (subst (2) rotated_range[of first dynamic_span, symmetric]) (simp add: image_image)
  also have "\<dots> = {u. in_dynamic_range u}"
  proof (intro equalityI subsetI)
    fix u assume "u \<in> (\<lambda>k. dynamic_user_min + of_nat k) ` {0..<dynamic_span}"
    then obtain k where k: "k < 4336" "u = dynamic_user_min + of_nat k" by (auto simp: dynamic_span_value)
    have "unat (of_nat k :: 32 word) = k" using k(1) by (simp add: unat_of_nat take_bit_eq_mod)
    then have "unat u = 61184 + k"
      using k by (simp add: dynamic_user_min_def unat_word_ariths)
    then show "u \<in> {u. in_dynamic_range u}"
      using k(1) by (simp add: in_dynamic_range_def dynamic_user_min_def dynamic_user_max_def word_le_nat_alt)
  next
    fix u assume "u \<in> {u. in_dynamic_range u}"
    then have u: "61184 \<le> unat u" "unat u \<le> 65519"
      by (simp_all add: in_dynamic_range_def dynamic_user_min_def dynamic_user_max_def word_le_nat_alt)
    have "of_nat (unat u) = (of_nat (61184 + (unat u - 61184)) :: 32 word)" using u by simp
    then have "u = dynamic_user_min + of_nat (unat u - 61184)"
      by (simp add: dynamic_user_min_def)
    then show "u \<in> (\<lambda>k. dynamic_user_min + of_nat k) ` {0..<dynamic_span}"
      using u by (auto simp: dynamic_span_value image_iff intro!: bexI[of _ "unat u - 61184"])
  qed
  finally show ?thesis by simp
qed

text \<open>An identity is found whenever there is one.\<close>

lemma allocate_dynamic_identity_cases:
  "case allocate_dynamic_identity pf hash reserved of
     Ok i \<Rightarrow> di_gid i = di_uid i \<and> in_dynamic_range (di_uid i) \<and> di_uid i \<notin> set reserved \<and>
       \<not> system_identity_occupied pf (di_uid i)
   | Err e \<Rightarrow> e = DynamicRangeExhausted \<and>
       (\<forall>u. in_dynamic_range u \<longrightarrow> u \<in> set reserved \<or> system_identity_occupied pf u)"
proof -
  let ?cs = "map (\<lambda>offset. dynamic_user_min + of_nat ((unat hash mod dynamic_span + offset) mod dynamic_span)) [0..<dynamic_span]"
  let ?P = "\<lambda>ident. ident \<notin> set reserved \<and> \<not> system_identity_occupied pf ident"
  have eq: "allocate_dynamic_identity pf hash reserved =
      (case List.find ?P ?cs of Some ident \<Rightarrow> Ok \<lparr>di_uid = ident, di_gid = ident\<rparr> | None \<Rightarrow> Err DynamicRangeExhausted)"
    by (simp add: allocate_dynamic_identity_def Let_def)
  have cs: "set ?cs = {u. in_dynamic_range u}" by (rule dynamic_candidates)
  show ?thesis
  proof (cases "List.find ?P ?cs")
    case None
    then have "\<forall>u \<in> set ?cs. \<not> ?P u" unfolding find_None_iff by blast
    then show ?thesis unfolding eq None cs by auto
  next
    case (Some u)
    then have "u \<in> set ?cs \<and> ?P u" unfolding find_Some_iff by (metis nth_mem)
    then show ?thesis unfolding eq Some cs by simp
  qed
qed

text \<open>The identities of a service set: one of the range for every dynamic service, none twice.\<close>

abbreviation identity_of :: "managed_service \<Rightarrow> dynamic_identity option" where
  "identity_of m \<equiv> dynamic_identity_from_spec (ms_spec m)"

definition identity_ok :: "managed_service \<Rightarrow> bool" where
  "identity_ok m \<longleftrightarrow>
     (sp_dynamic_user (ms_spec m) \<longrightarrow> (\<exists>u. in_dynamic_range u \<and> identity_of m = Some \<lparr>di_uid = u, di_gid = u\<rparr>))"

definition identities_inv :: "(string \<rightharpoonup> managed_service) \<Rightarrow> bool" where
  "identities_inv services \<longleftrightarrow>
     (\<forall>name m. services name = Some m \<longrightarrow> identity_ok m) \<and>
     (\<forall>name m name' m' i. services name = Some m \<and> services name' = Some m' \<and> identity_of m = Some i \<and>
        identity_of m' = Some i \<longrightarrow> name = name')"

lemma identity_not_dynamic: "\<not> sp_dynamic_user (ms_spec m) \<Longrightarrow> identity_of m = None"
  by (simp add: dynamic_identity_from_spec_def)

lemma identity_same_uid:
  "identity_ok m \<Longrightarrow> identity_ok m' \<Longrightarrow> identity_of m = Some i \<Longrightarrow> identity_of m' = Some j \<Longrightarrow> di_uid i = di_uid j \<Longrightarrow> i = j"
  by (auto simp: identity_ok_def dest: identity_not_dynamic)

lemma identities_insert:
  assumes "identities_inv services" and "identity_ok m"
    and "\<And>name' m' i. identity_of m = Some i \<Longrightarrow> services name' = Some m' \<Longrightarrow> identity_of m' = Some i \<Longrightarrow> name' = name"
  shows "identities_inv (services(name \<mapsto> m))"
  using assms by (auto simp: identities_inv_def)

text \<open>Only the descriptors matter.\<close>

lemma identities_specs:
  assumes "identities_inv services"
    and "\<And>name m'. services' name = Some m' \<Longrightarrow> \<exists>m. services name = Some m \<and> ms_spec m' = ms_spec m"
  shows "identities_inv services'"
  unfolding identities_inv_def
proof (intro conjI allI impI; (elim conjE)?)
  fix name m' assume "services' name = Some m'"
  with assms(2) obtain m where "services name = Some m" "ms_spec m' = ms_spec m" by blast
  then show "identity_ok m'" using assms(1) by (simp add: identities_inv_def identity_ok_def)
next
  fix name1 m1 name2 m2 i
  assume "services' name1 = Some m1" "services' name2 = Some m2" and i: "identity_of m1 = Some i" "identity_of m2 = Some i"
  then obtain n1 n2 where "services name1 = Some n1" "ms_spec m1 = ms_spec n1" "services name2 = Some n2" "ms_spec m2 = ms_spec n2"
    using assms(2) by blast
  then show "name1 = name2" using i assms(1) by (simp add: identities_inv_def)
qed

lemma with_identity_id [simp]:
  "dynamic_identity_from_spec (with_identity i spec) = (if sp_dynamic_user spec then Some i else None)"
  by (simp add: dynamic_identity_from_spec_def with_identity_def)

lemma with_identity_dynamic [simp]: "sp_dynamic_user (with_identity i spec) = sp_dynamic_user spec"
  by (simp add: with_identity_def)

text \<open>The service made for a specification and an identity.\<close>

lemma ms_new_identity:
  assumes "ms_new spec identity = Ok m" and "\<not> sp_dynamic_user spec \<Longrightarrow> identity = None"
    and "\<And>i. identity = Some i \<Longrightarrow> in_dynamic_range (di_uid i) \<and> di_gid i = di_uid i"
  shows "identity_of m = identity" and "identity_ok m"
proof -
  show i: "identity_of m = identity"
  proof (cases "sp_dynamic_user spec")
    case True
    then show ?thesis using ms_new_ok(2,3)[OF assms(1)] by auto
  next
    case False
    then show ?thesis using ms_new_ok(2)[OF assms(1)] assms(2) by (simp add: dynamic_identity_from_spec_def)
  qed
  show "identity_ok m"
  proof (cases "sp_dynamic_user spec")
    case True
    then obtain j where "identity = Some j" using ms_new_ok(3)[OF assms(1)] by blast
    moreover have "j = \<lparr>di_uid = di_uid j, di_gid = di_uid j\<rparr>" using assms(3)[OF calculation] by simp
    ultimately show ?thesis using assms(3)[OF \<open>identity = Some j\<close>] i by (auto simp: identity_ok_def)
  next
    case False
    then show ?thesis using ms_new_ok(2)[OF assms(1)] by (simp add: identity_ok_def)
  qed
qed

lemma dynamic_user_ids_set:
  "services_inv (su_services s) \<Longrightarrow>
    set (dynamic_user_ids s) = {u. \<exists>name m i. su_get name s = Some m \<and> identity_of m = Some i \<and> (u = di_uid i \<or> u = di_gid i)}"
  by (auto simp: dynamic_user_ids_def services_inv_def su_get_def bmap_entry[symmetric] split: option.splits) force+

lemma su_step_identities:
  assumes "su_step st st'" and "identities_inv (\<lambda>name. su_get name (fst st))"
  shows "identities_inv (\<lambda>name. su_get name (fst st'))"
proof -
  have spec: "\<exists>m. su_get name (fst st) = Some m \<and> ms_spec m' = ms_spec m" if got: "su_get name (fst st') = Some m'" for name m'
  proof -
    obtain m where "su_get name (fst st) = Some m" "evolves (ms_record m) (ms_record m')"
      by (rule su_step_get[OF assms(1) got])
    then show ?thesis using evolves_spec by fastforce
  qed
  show ?thesis by (rule identities_specs[OF assms(2) spec])
qed

lemma new_identity:
  assumes "(if dynamic then map_res Some (allocate_dynamic_identity pf hash reserved) else Ok None) = Ok identity"
  shows "\<not> dynamic \<Longrightarrow> identity = None"
    and "identity = Some i \<Longrightarrow> in_dynamic_range (di_uid i) \<and> di_gid i = di_uid i \<and> di_uid i \<notin> set reserved"
  using assms allocate_dynamic_identity_cases[where pf = pf and hash = hash and reserved = reserved]
  by (auto simp: map_res_def split: if_splits sum.splits)

lemma su_add_identities:
  assumes "su_add pf hash spec s = Ok s'" and "su_inv s" and "identities_inv (\<lambda>name. su_get name s)"
  shows "identities_inv (\<lambda>name. su_get name s')"
proof -
  obtain identity service where a:
    "(if sp_dynamic_user spec then map_res Some (allocate_dynamic_identity pf (hash (sp_name spec)) (dynamic_user_ids s))
      else Ok None) = Ok identity"
    "ms_new spec identity = Ok service"
    "su_services s' = bmap_insert (sp_name spec) service (su_services s)"
    by (rule su_add_ok[OF assms(1)], rule that)
  note fresh = new_identity[OF a(1)]
  note ids = dynamic_user_ids_set[of s]
  have m: "identity_of service = identity" "identity_ok service"
    using ms_new_identity[OF a(2)] fresh by auto
  have "name' = sp_name spec" if "identity_of service = Some i" "su_get name' s = Some m'" "identity_of m' = Some i" for name' m' i
  proof -
    have "di_uid i \<in> set (dynamic_user_ids s)"
      using that(2,3) assms(2) unfolding su_inv_def by (subst ids) blast+
    then show ?thesis using fresh(2)[of i] that(1) m(1) by simp
  qed
  from identities_insert[OF assms(3) m(2) this] show ?thesis by (simp add: su_get_def a(3) fun_upd_def)
qed

text \<open>The loop of \<open>reload\<close> keeps the identity of a service it knows and takes a fresh one otherwise.\<close>

definition reload_ids :: "supervisor \<Rightarrow> (string, managed_service) bmap \<times> 32 word list \<Rightarrow> bool" where
  "reload_ids s p \<longleftrightarrow>
     identities_inv (map_of (fst p)) \<and> set (dynamic_user_ids s) \<subseteq> set (snd p) \<and>
     (\<forall>name m i. map_of (fst p) name = Some m \<and> identity_of m = Some i \<longrightarrow>
        di_uid i \<in> set (snd p) \<and> (dynamic_identity_for s name = Some i \<or> di_uid i \<notin> set (dynamic_user_ids s)))"

lemma reload_ids_step:
  assumes "reload_spec pf hash s spec p = Ok p'" and "reload_ids s p"
    and "services_inv (su_services s)" and "identities_inv (\<lambda>name. su_get name s)"
  shows "reload_ids s p'"
proof -
  let ?name = "sp_name spec"
  obtain incoming reserved incoming' reserved' where p: "p = (incoming, reserved)" "p' = (incoming', reserved')"
    by fastforce
  obtain identity service where r:
    "(if sp_dynamic_user spec then (case dynamic_identity_for s ?name of
        Some identity \<Rightarrow> Ok (Some identity)
      | None \<Rightarrow> map_res Some (allocate_dynamic_identity pf (hash ?name) reserved)) else Ok None) = Ok identity"
    "reserved' = (case identity of None \<Rightarrow> reserved | Some i \<Rightarrow> bset_insert (di_uid i) reserved)"
    "ms_new spec identity = Ok service" "incoming' = bmap_insert ?name service incoming"
    by (rule reload_spec_ok[OF assms(1)[unfolded p]], rule that)
  have known: "\<exists>m. su_get ?name s = Some m \<and> identity_of m = Some i \<and> identity_ok m"
    if "dynamic_identity_for s ?name = Some i" for i
    using that assms(4) by (auto simp: dynamic_identity_for_def bind_eq_Some_conv identities_inv_def)
  have fresh: "in_dynamic_range (di_uid i) \<and> di_gid i = di_uid i \<and>
      (dynamic_identity_for s ?name = Some i \<or> di_uid i \<notin> set reserved)" if "identity = Some i" for i
  proof (cases "dynamic_identity_for s ?name")
    case None
    then show ?thesis using r(1) that new_identity(2)[of "sp_dynamic_user spec"] by (auto split: if_splits)
  next
    case (Some j)
    then have "i = j" using r(1) that by (auto split: if_splits)
    then show ?thesis using known[OF Some] Some identity_not_dynamic by (fastforce simp: identity_ok_def)
  qed
  have "\<not> sp_dynamic_user spec \<Longrightarrow> identity = None" using r(1) by simp
  then have m: "identity_of service = identity" "identity_ok service"
    using ms_new_identity[OF r(3)] fresh by auto
  have used: "di_uid i \<in> set (dynamic_user_ids s)" if "dynamic_identity_for s ?name = Some i" for i
    using known[OF that] dynamic_user_ids_set[OF assms(3)] by blast
  have once: "name' = ?name"
    if i: "identity_of service = Some i" and m': "map_of incoming name' = Some m'" "identity_of m' = Some i" for name' m' i
  proof -
    have "di_uid i \<in> set reserved" "dynamic_identity_for s name' = Some i \<or> di_uid i \<notin> set (dynamic_user_ids s)"
      using assms(2) m' by (auto simp: reload_ids_def p)
    moreover from this have "dynamic_identity_for s ?name = Some i" using fresh[of i] i m(1) by auto
    ultimately have "dynamic_identity_for s name' = Some i" "dynamic_identity_for s ?name = Some i" using used by auto
    then show ?thesis using assms(4) unfolding dynamic_identity_for_def identities_inv_def bind_eq_Some_conv by blast
  qed
  have "identities_inv (map_of incoming')"
    unfolding r(4) map_of_bmap_insert
  proof (rule identities_insert[OF _ m(2)])
    show "identities_inv (map_of incoming)" using assms(2) by (simp add: reload_ids_def p)
  qed (rule once)
  moreover have old: "set (dynamic_user_ids s) \<subseteq> set reserved"
    using assms(2) by (simp add: reload_ids_def p)
  moreover have more: "set reserved \<subseteq> set reserved'" by (auto simp: r(2) split: option.split)
  moreover have "di_uid i \<in> set reserved' \<and> (dynamic_identity_for s name' = Some i \<or> di_uid i \<notin> set (dynamic_user_ids s))"
    if got: "map_of incoming' name' = Some m'" "identity_of m' = Some i" for name' m' i
  proof (cases "name' = ?name")
    case True
    then have "identity = Some i" using got m(1) by (simp add: r(4))
    then show ?thesis using fresh[of i] old True by (auto simp: r(2))
  next
    case False
    then have "map_of incoming name' = Some m'" using got(1) by (simp add: r(4))
    then show ?thesis using assms(2) got(2) more unfolding reload_ids_def p fst_conv snd_conv by blast
  qed
  ultimately show ?thesis unfolding reload_ids_def p fst_conv snd_conv by blast
qed

lemma su_reload_identities:
  assumes "su_reload pf hash specs s = Ok s'" and "su_inv s" and "identities_inv (\<lambda>name. su_get name s)"
  shows "identities_inv (\<lambda>name. su_get name s')"
proof -
  obtain incoming reserved where r:
    "fold_try (reload_spec pf hash s) specs ([], dynamic_user_ids s) = Ok (incoming, reserved)"
    "su_services s' = map (\<lambda>(name, replacement).
                 (name, case su_get name s of
                          Some existing \<Rightarrow> if ms_spec existing = ms_spec replacement then existing else replacement
                        | None \<Rightarrow> replacement)) incoming"
    by (rule su_reload_ok[OF assms(1)], rule that)
  have "reload_ids s (incoming, reserved)"
  proof (rule fold_try_invariant[OF r(1), where P = "reload_ids s"])
    show "reload_ids s ([], dynamic_user_ids s)" by (simp add: reload_ids_def identities_inv_def)
  qed (use assms(2,3) reload_ids_step in \<open>auto simp: su_inv_def\<close>)
  then have inc: "identities_inv (map_of incoming)" by (simp add: reload_ids_def)
  have spec: "\<exists>m. map_of incoming name = Some m \<and> ms_spec m' = ms_spec m" if "su_get name s' = Some m'" for name m'
    using that unfolding su_get_def r(2) map_of_map_entry by (auto split: option.splits if_splits)
  show ?thesis by (rule identities_specs[OF inc spec])
qed

text \<open>
  C8. Dynamic identities: whatever calls are made, every service with \<open>DynamicUser=\<close> has a user and a
  group of its own, the same number between 61184 and 65519, and no two services share it; reloading
  keeps the ones in use.
\<close>

theorem dynamic_identities_unique:
  assumes "run_managers fuel h calls (supervisor_new, w) = Some (s, w')"
  shows "(\<forall>name m. su_get name s = Some m \<and> sp_dynamic_user (ms_spec m) \<longrightarrow>
      (\<exists>u. in_dynamic_range u \<and> dynamic_identity_from_spec (ms_spec m) = Some \<lparr>di_uid = u, di_gid = u\<rparr>)) \<and>
    (\<forall>name m name' m' i. su_get name s = Some m \<and> su_get name' s = Some m' \<and>
      dynamic_identity_from_spec (ms_spec m) = Some i \<and> dynamic_identity_from_spec (ms_spec m') = Some i \<longrightarrow> name = name')"
proof -
  let ?P = "\<lambda>s. su_inv s \<and> identities_inv (\<lambda>name. su_get name s)"
  have "?P s'" if "run_manager fuel h call st = Some st'" "?P (fst st)" "s' = fst st'" for call st st' s'
    using that(1)
  proof (cases rule: run_manager_cases)
    case (add spec)
    then show ?thesis using that(2,3) su_add_identities su_add_inv by blast
  next
    case (reload specs)
    then show ?thesis using that(2,3) su_reload_identities su_reload_inv by blast
  next
    case step
    then show ?thesis using that(2,3) su_step_identities su_step_inv by blast
  qed
  moreover have "?P supervisor_new"
    using supervisor_new_inv by (simp add: identities_inv_def su_get_def supervisor_new_def)
  ultimately have "?P s" using run_managers_keep[where P = ?P, OF assms] by simp
  then show ?thesis unfolding identities_inv_def identity_ok_def by blast
qed

theorem dynamic_identities_unique_witness:
  "\<exists>s w' m u. run_managers 0 demo_host [McAdd (demo_spec\<lparr>sp_dynamic_user := True\<rparr>)] (supervisor_new, 1) = Some (s, w') \<and>
    su_get ''demo'' s = Some m \<and> in_dynamic_range u \<and>
    dynamic_identity_from_spec (ms_spec m) = Some \<lparr>di_uid = u, di_gid = u\<rparr>"
proof -
  let ?spec = "demo_spec\<lparr>sp_dynamic_user := True\<rparr>"
  let ?call = "McAdd ?spec"
  have free: "\<not> system_identity_occupied empty_platform u" for u
    by (simp add: system_identity_occupied_def empty_platform_def identity_files_def)
  have "in_dynamic_range dynamic_user_min" by (simp add: in_dynamic_range_def dynamic_user_min_def dynamic_user_max_def)
  then obtain i where i: "allocate_dynamic_identity empty_platform 0 [] = Ok i"
    using allocate_dynamic_identity_cases[where pf = empty_platform and hash = 0 and reserved = "[]"] free
    by (auto split: sum.splits)
  have "spec_wf (with_identity i ?spec)"
    using demo_spec_wf by (simp add: spec_wf_def with_identity_def demo_spec_def)
  then obtain m where m: "ms_new ?spec (Some i) = Ok m"
    by (simp add: ms_new_def record_new_def validate_iff_spec_wf[THEN iffD2])
  let ?s = "su_put ''demo'' m supervisor_new"
  have call: "run_manager 0 demo_host ?call (supervisor_new, 1) = Some (?s, 1)"
    using i m by (simp add: su_add_def taken_def su_get_def supervisor_new_def su_put_def bset_of_def bset_extend_def
      load_call_def dynamic_user_ids_def demo_host_def)
  have run: "run_managers 0 demo_host [?call] (supervisor_new, 1) = Some (?s, 1)"
    by (simp add: call del: run_manager.simps(1))
  have "su_get ''demo'' ?s = Some m" by (simp add: su_get_def su_put_def)
  moreover have "sp_dynamic_user (ms_spec m)" using ms_new_ok(2)[OF m] by simp
  ultimately show ?thesis using run dynamic_identities_unique[OF run] by blast
qed

section \<open>What a reload does\<close>

definition loaded_as :: "service_spec \<Rightarrow> managed_service \<Rightarrow> bool" where
  "loaded_as spec m \<longleftrightarrow> (if sp_dynamic_user spec then \<exists>i. ms_spec m = with_identity i spec else ms_spec m = spec)"

lemma reload_fold:
  assumes "fold_try (reload_spec pf hash s) specs (incoming, reserved) = Ok (incoming', reserved')"
  shows "(\<forall>n. n \<notin> sp_name ` set specs \<longrightarrow> map_of incoming' n = map_of incoming n)
      \<and> (\<forall>spec \<in> set specs. \<exists>m. map_of incoming' (sp_name spec) = Some m \<and> loaded_as spec m)
      \<and> distinct (map sp_name specs) \<and> (\<forall>spec \<in> set specs. map_of incoming (sp_name spec) = None)"
  using assms
proof (induction specs arbitrary: incoming reserved)
  case Nil
  then show ?case by simp
next
  case (Cons spec specs)
  obtain i1 r1 where step: "reload_spec pf hash s spec (incoming, reserved) = Ok (i1, r1)"
    and rest: "fold_try (reload_spec pf hash s) specs (i1, r1) = Ok (incoming', reserved')"
    using Cons.prems by (auto simp: bind_res_eq_Inr)
  obtain identity service where new: "ms_new spec identity = Ok service" "map_of incoming (sp_name spec) = None"
      "i1 = bmap_insert (sp_name spec) service incoming"
    by (rule reload_spec_ok[OF step], rule that)
  note IH = Cons.IH[OF rest]
  have fresh: "\<forall>sp \<in> set specs. map_of i1 (sp_name sp) = None" using IH by blast
  then have later: "sp_name spec \<notin> sp_name ` set specs" by (force simp: new(3))
  have "map_of incoming' (sp_name spec) = Some service" using IH later by (simp add: new(3))
  moreover have "loaded_as spec service" using ms_new_ok(2)[OF new(1)] by (auto simp: loaded_as_def)
  ultimately have "\<forall>sp \<in> set (spec # specs). \<exists>m. map_of incoming' (sp_name sp) = Some m \<and> loaded_as sp m"
    using IH by simp
  moreover have "\<forall>sp \<in> set (spec # specs). map_of incoming (sp_name sp) = None"
    using fresh new(2) by (auto simp: new(3) split: if_splits)
  moreover have "\<forall>n. n \<notin> sp_name ` set (spec # specs) \<longrightarrow> map_of incoming' n = map_of incoming n"
    using IH by (simp add: new(3))
  moreover have "distinct (map sp_name (spec # specs))" using IH later by simp
  ultimately show ?case by blast
qed

text \<open>
  C10. A reload that succeeds loads exactly the given descriptors, no name twice, each under its own
  name (with the identity it was given, if dynamic), touches no service that is not stopped, keeps
  every service whose descriptor did not change, and leaves the start jobs alone.
\<close>

theorem reload_keeps_active_services:
  assumes "su_reload pf hash specs s = Ok s'"
  shows "(\<forall>name m. su_get name s = Some m \<and> \<not> ms_is_stopped m \<longrightarrow> su_get name s' = Some m) \<and>
    distinct (map sp_name specs) \<and> set (su_names s') = sp_name ` set specs \<and>
    (\<forall>spec \<in> set specs. \<exists>m. su_get (sp_name spec) s' = Some m \<and> loaded_as spec m) \<and>
    (\<forall>name m m'. su_get name s = Some m \<and> su_get name s' = Some m' \<and> ms_spec m' = ms_spec m \<longrightarrow> m' = m) \<and>
    su_start_jobs s' = su_start_jobs s"
proof -
  obtain incoming reserved where r:
    "fold_try (reload_spec pf hash s) specs ([], dynamic_user_ids s) = Ok (incoming, reserved)"
    "\<And>name m. (name, m) \<in> set (su_services s) \<Longrightarrow> reload_keeps_active incoming (name, m) = None"
    "su_services s' = map (\<lambda>(name, replacement).
                 (name, case su_get name s of
                          Some existing \<Rightarrow> if ms_spec existing = ms_spec replacement then existing else replacement
                        | None \<Rightarrow> replacement)) incoming"
    "su_start_jobs s' = su_start_jobs s"
    by (rule su_reload_ok[OF assms], rule that)
  note load = reload_fold[OF r(1)]
  have get: "su_get name s' = map_option (\<lambda>replacement. case su_get name s of
      Some existing \<Rightarrow> if ms_spec existing = ms_spec replacement then existing else replacement
    | None \<Rightarrow> replacement) (map_of incoming name)" for name
    unfolding su_get_def r(3) by (rule map_of_map_entry)
  have keys: "set (su_names s') = {n. map_of incoming n \<noteq> None}"
    unfolding su_names_def set_bmap_keys using get by (simp add: su_get_def)
  have "su_get name s' = Some m" if "su_get name s = Some m" "\<not> ms_is_stopped m" for name m
    using r(2)[OF map_of_SomeD[OF that(1)[unfolded su_get_def]]] that by (auto simp: get reload_keeps_active_def split: option.splits if_splits)
  moreover have "set (su_names s') = sp_name ` set specs"
    using load unfolding keys by force
  moreover have "\<exists>m. su_get (sp_name spec) s' = Some m \<and> loaded_as spec m" if "spec \<in> set specs" for spec
    using load that by (fastforce simp: get loaded_as_def split: option.splits)
  moreover have "m' = m" if "su_get name s = Some m" "su_get name s' = Some m'" "ms_spec m' = ms_spec m" for name m m'
    using that by (auto simp: get split: if_splits)
  ultimately show ?thesis using load r(4) by blast
qed

theorem reload_keeps_active_services_witness:
  "\<exists>s'. su_reload empty_platform (\<lambda>_. 0) [demo_spec] (su_put ''demo'' demo_managed supervisor_new) = Ok s' \<and>
    su_get ''demo'' s' = Some demo_managed \<and> su_names s' = [''demo'']"
proof -
  let ?s = "su_put ''demo'' demo_managed supervisor_new"
  have new: "ms_new demo_spec None = Ok demo_managed" using demo_managed_new by (simp add: demo_spec_def)
  have spec: "ms_spec demo_managed = demo_spec" using ms_new_ok(2)[OF new] by simp
  have run: "su_reload empty_platform (\<lambda>_. 0) [demo_spec] ?s = Ok ?s"
    by (simp add: su_reload_def reload_spec_def new collect_aliases_def spec first_some_def reload_keeps_active_def
      su_put_def su_get_def supervisor_new_def bmap_keys_def)
  have "su_get ''demo'' ?s = Some demo_managed" by (simp add: su_get_def su_put_def)
  then show ?thesis using run reload_keeps_active_services[OF run]
    by (auto simp: su_put_def supervisor_new_def su_names_def bmap_keys_def)
qed

section \<open>Aliases with a suffix\<close>

text \<open>An alias of the result is listed by its service, letter by letter.\<close>

lemma collect_aliases_listed:
  assumes "collect_aliases services = Ok aliases" and "map_of aliases alias = Some name"
  shows "\<exists>m. (name, m) \<in> set services \<and> alias \<in> set (sp_aliases (ms_spec m))"
proof -
  let ?P = "\<lambda>aliases. \<forall>a c. map_of aliases a = Some c \<longrightarrow> (\<exists>m. (c, m) \<in> set services \<and> a \<in> set (sp_aliases (ms_spec m)))"
  have a: "fold_try (\<lambda>(canonical, m). fold_try (collect_alias canonical) (sp_aliases (ms_spec m))) services [] = Ok aliases"
    using assms(1) by (auto simp: collect_aliases_def bind_res_eq_Inr split: option.splits)
  have "?P aliases"
  proof (rule fold_try_invariant[OF a, where P = ?P])
    fix x :: "string \<times> managed_service" and s s'
    assume x: "x \<in> set services" and s: "?P s"
      and f: "(case x of (canonical, m) \<Rightarrow> fold_try (collect_alias canonical) (sp_aliases (ms_spec m))) s = Ok s'"
    obtain canonical m where cm: "x = (canonical, m)" by fastforce
    from f have f': "fold_try (collect_alias canonical) (sp_aliases (ms_spec m)) s = Ok s'" by (simp add: cm)
    show "?P s'"
    proof (rule fold_try_invariant[OF f', where P = ?P, OF s])
      fix y t t' assume y: "y \<in> set (sp_aliases (ms_spec m))" and t: "?P t" and c: "collect_alias canonical y t = Ok t'"
      show "?P t'" using x y t unfolding collect_alias_ok[OF c] cm by auto
    qed
  qed simp
  with assms(2) show ?thesis by blast
qed

text \<open>
  \<open>add\<close> registers an alias without its suffix \<open>.svc\<close>, \<open>reload\<close> with it: a service added with
  the alias \<open>x.svc\<close> can be named \<open>x\<close>, and cannot any more after a successful reload of the same
  descriptors.
\<close>

theorem reload_loses_plain_alias:
  assumes "su_add pf hash spec s = Ok s1" and "alias @ ''.svc'' \<in> set (sp_aliases spec)" and "alias \<noteq> sp_name spec"
    and "su_reload pf hash specs s1 = Ok s2" and "native_service_name alias = alias"
    and "\<forall>sp \<in> set specs. alias \<notin> set (sp_aliases sp) \<and> sp_name sp \<noteq> alias \<and> sp_name sp \<noteq> alias @ ''.svc''"
  shows "resolve_name s1 alias = Some (sp_name spec) \<and> resolve_name s2 alias = None"
proof
  have stripped: "native_service_name (alias @ ''.svc'') = alias"
    by (simp add: native_service_name_def)
  then have mem: "alias \<in> set (map native_service_name (sp_aliases spec))" using assms(2) by force
  obtain service where a: "\<forall>alias \<in> set (map native_service_name (sp_aliases spec)). alias = sp_name spec \<or> \<not> taken s alias"
    "su_services s1 = bmap_insert (sp_name spec) service (su_services s)"
    "\<And>a. map_of (su_aliases s1) a =
      (if a \<in> set (map native_service_name (sp_aliases spec)) \<and> a \<noteq> sp_name spec then Some (sp_name spec)
       else map_of (su_aliases s) a)"
    by (rule su_add_ok[OF assms(1)], rule that)
  have "su_get alias s1 = None" using a(1,2) mem assms(3) by (auto simp: su_get_def taken_def)
  then show "resolve_name s1 alias = Some (sp_name spec)"
    using a(3)[of "alias"] mem assms(3) by (simp add: resolve_name_def find_name_def)
next
  obtain incoming reserved where r:
    "fold_try (reload_spec pf hash s1) specs ([], dynamic_user_ids s1) = Ok (incoming, reserved)"
    "collect_aliases incoming = Ok (su_aliases s2)"
    "su_services s2 = map (\<lambda>(name, replacement).
                 (name, case su_get name s1 of
                          Some existing \<Rightarrow> if ms_spec existing = ms_spec replacement then existing else replacement
                        | None \<Rightarrow> replacement)) incoming"
    by (rule su_reload_ok[OF assms(4)], rule that)
  note load = reload_fold[OF r(1)]
  have inc: "bmap_inv incoming" using reload_incoming_inv[OF r(1)] by (simp add: services_inv_def)
  have origin: "\<exists>spec \<in> set specs. sp_name spec = n \<and> loaded_as spec m" if "map_of incoming n = Some m" for n m
  proof -
    have "n \<in> sp_name ` set specs" using load that by (metis map_of.simps(1) option.distinct(1))
    then obtain sp where sp: "sp \<in> set specs" "n = sp_name sp" by blast
    then obtain m1 where "map_of incoming n = Some m1" "loaded_as sp m1" using load by blast
    then show ?thesis using sp that by auto
  qed
  have names: "su_names s2 = map fst incoming" by (simp add: su_names_def bmap_keys_def r(3) case_prod_unfold)
  have keys: "n \<in> set (su_names s2) \<Longrightarrow> n \<noteq> alias \<and> n \<noteq> alias @ ''.svc''" for n
  proof -
    assume "n \<in> set (su_names s2)"
    then obtain m where "map_of incoming n = Some m"
      unfolding names by (metis list.set_map map_of_eq_None_iff not_None_eq)
    then show ?thesis using origin assms(6) by blast
  qed
  have "map_of (su_aliases s2) alias = None"
  proof (rule ccontr)
    assume "map_of (su_aliases s2) alias \<noteq> None"
    then obtain name where "map_of (su_aliases s2) alias = Some name" by blast
    from collect_aliases_listed[OF r(2) this] obtain m where
      m: "(name, m) \<in> set incoming" "alias \<in> set (sp_aliases (ms_spec m))" by blast
    have "map_of incoming name = Some m" using m(1) bmap_entry[OF inc] by blast
    then obtain sp where sp: "sp \<in> set specs" "loaded_as sp m" using origin by blast
    have "sp_aliases (ms_spec m) = sp_aliases sp"
      using sp(2) by (auto simp: loaded_as_def with_identity_def split: if_splits)
    then show False using m(2) sp(1) assms(6) by auto
  qed
  moreover have "su_get alias s2 = None"
    using keys[of "alias"] unfolding su_names_def set_bmap_keys su_get_def by blast
  ultimately have find: "find_name s2 alias = None" by (simp add: find_name_def)
  have "List.find (\<lambda>candidate. strip_suffix ''.svc'' candidate = Some alias) (su_names s2) = None"
    unfolding find_None_iff
  proof
    assume "\<exists>n. n \<in> set (su_names s2) \<and> strip_suffix ''.svc'' n = Some alias"
    then obtain n where n: "n \<in> set (su_names s2)" "strip_suffix ''.svc'' n = Some alias" by blast
    then have "n = alias @ ''.svc''" by (simp add: strip_suffix_Some)
    then show False using keys[OF n(1)] by simp
  qed
  then show "resolve_name s2 alias = None" using find assms(5) by (simp add: resolve_name_def)
qed

theorem reload_loses_plain_alias_witness:
  "\<exists>s1 s2. su_add empty_platform (\<lambda>_. 0) (demo_spec\<lparr>sp_aliases := [''web.svc'']\<rparr>) supervisor_new = Ok s1 \<and>
     su_reload empty_platform (\<lambda>_. 0) [demo_spec\<lparr>sp_aliases := [''web.svc'']\<rparr>] s1 = Ok s2 \<and>
     resolve_name s1 ''web'' = Some ''demo'' \<and> resolve_name s2 ''web'' = None"
proof -
  let ?spec = "demo_spec\<lparr>sp_aliases := [''web.svc'']\<rparr>"
  have fields: "sp_name ?spec = ''demo''" "sp_aliases ?spec = [''web.svc'']" "\<not> sp_dynamic_user ?spec" by simp_all
  have "safe_name ''web.svc''"
    by (simp add: safe_name_def has_space_or_control_def is_cont_def char_is_whitespace_single char_is_control_single)
  then have "spec_wf ?spec" using demo_spec_wf by (simp add: spec_wf_def demo_spec_def)
  then obtain m where m: "ms_new ?spec None = Ok m"
    by (simp add: ms_new_def record_new_def validate_iff_spec_wf[THEN iffD2])
  have spec: "ms_spec m = ?spec" using ms_new_ok(2)[OF m] fields(3) by simp
  have strip: "native_service_name ''web.svc'' = ''web''" "native_service_name ''web'' = ''web''"
    by (simp_all add: native_service_name_def strip_suffix_def ends_with_iff)
  let ?s1 = "(su_put ''demo'' m supervisor_new)\<lparr>su_aliases := [(''web'', ''demo'')]\<rparr>"
  let ?s2 = "?s1\<lparr>su_aliases := [(''web.svc'', ''demo'')]\<rparr>"
  have add: "su_add empty_platform (\<lambda>_. 0) ?spec supervisor_new = Ok ?s1"
    by (simp add: su_add_def Let_def m strip taken_def su_get_def supervisor_new_def su_put_def bset_of_def bset_extend_def)
  have reload: "su_reload empty_platform (\<lambda>_. 0) [?spec] ?s1 = Ok ?s2"
    by (simp add: su_reload_def reload_spec_def m collect_aliases_def collect_alias_def spec first_some_def
      reload_keeps_active_def su_put_def su_get_def supervisor_new_def bmap_keys_def)
  have "resolve_name ?s1 ''web'' = Some (sp_name ?spec) \<and> resolve_name ?s2 ''web'' = None"
    by (rule reload_loses_plain_alias[OF add _ _ reload strip(2)]) simp_all
  then show ?thesis using add reload fields(1) by metis
qed

end
