(* ===== verification/Supervisor_Jobs.thy ===== *)
theory Supervisor_Jobs
  imports Supervisor_Properties
begin

text \<open>
  Properties of start jobs, conflicts and the services that nothing needs: the loop of a job ends and
  leaves nothing that could still be started, conflicts are the symmetric closure of what services
  declare, the loop that stops unneeded services ends, and what an error does to the other jobs.
\<close>

section \<open>The loop of a start job\<close>

text \<open>A turn attempts at most its name, and changes nothing unless it made progress.\<close>

lemma job_turn_result:
  assumes "job_turn h now name job st = (Ok (job', progress), st')"
  shows "job_selected job' = job_selected job \<and> job_root job' = job_root job \<and> job_required job' = job_required job \<and>
    set (job_attempted job') = (if progress then insert name (set (job_attempted job)) else set (job_attempted job)) \<and>
    (progress \<longrightarrow> name \<notin> set (job_attempted job)) \<and>
    (\<not> progress \<longrightarrow> job' = job \<and> st' = st \<and>
      (name \<in> set (job_attempted job) \<or>
       (name = job_root job \<or> \<not> is_ready_without_start (fst st) name) \<and>
       \<not> start_dependencies_ready (h_platform h (snd st)) (fst st) job name))"
  using assms
  by (cases st) (auto simp: job_turn_def su_with_def prog_defs job_attempt_def split: if_splits prod.splits sum.splits)

text \<open>What a pass over some names has done; without progress it has looked at every name in vain.\<close>

definition stuck :: "platform \<Rightarrow> supervisor \<Rightarrow> start_job \<Rightarrow> string \<Rightarrow> bool" where
  "stuck pf s job name \<longleftrightarrow>
     name \<in> set (job_attempted job) \<or>
     (name = job_root job \<or> \<not> is_ready_without_start s name) \<and> \<not> start_dependencies_ready pf s job name"

lemma job_turns_result:
  assumes "job_turns h now names (job, p) st = (Ok (job', p'), st')"
  shows "job_selected job' = job_selected job \<and> job_root job' = job_root job \<and> job_required job' = job_required job \<and>
    set (job_attempted job) \<subseteq> set (job_attempted job') \<and>
    set (job_attempted job') \<subseteq> set (job_attempted job) \<union> set names \<and>
    (if p' \<and> \<not> p then \<exists>name \<in> set names. name \<notin> set (job_attempted job) \<and> name \<in> set (job_attempted job')
     else p' = p) \<and>
    (\<not> p' \<longrightarrow> job' = job \<and> st' = st \<and> (\<forall>name \<in> set names. stuck (h_platform h (snd st)) (fst st) job name))"
  using assms
proof (induction names arbitrary: job p st)
  case Nil
  then show ?case by (simp add: return_prog_ok)
next
  case (Cons name names)
  obtain job1 q st1 where t: "job_turn h now name job st = (Ok (job1, q), st1)"
    and r: "job_turns h now names (job1, p \<or> q) st1 = (Ok (job', p'), st')"
    using Cons.prems by (auto simp: bind_prog_ok)
  note one = job_turn_result[OF t]
  note more = Cons.IH[OF r]
  show ?case
  proof (cases q)
    case True
    then have "p'" using more by (auto split: if_splits)
    then show ?thesis using one more True by auto
  next
    case False
    then have same: "job1 = job" "st1 = st" and "stuck (h_platform h (snd st)) (fst st) job name"
      using one by (simp_all add: stuck_def)
    then show ?thesis using more False by (auto split: if_splits)
  qed
qed

text \<open>The names that a job can still attempt.\<close>

definition open_names :: "start_job \<Rightarrow> string set" where
  "open_names job = set (job_selected job) - set (job_attempted job)"

lemma job_pass_shrinks:
  assumes "job_turns h now (job_selected job) (job, False) st = (Ok (job', True), st')"
  shows "card (open_names job') < card (open_names job)"
proof (rule psubset_card_mono)
  show "finite (open_names job)" by (simp add: open_names_def)
  show "open_names job' \<subset> open_names job"
    using job_turns_result[OF assms] by (auto simp: open_names_def)
qed

lemma job_passes_return: "card (open_names job) < n \<Longrightarrow> \<exists>r. job_passes n h now job st = Some r"
proof (induction n arbitrary: job st)
  case (Suc n)
  obtain r st1 where t: "job_turns h now (job_selected job) (job, False) st = (r, st1)"
    by (cases "job_turns h now (job_selected job) (job, False) st")
  show ?case
  proof (cases r)
    case (Inr jp)
    obtain job1 p where jp: "jp = (job1, p)" by fastforce
    show ?thesis
    proof (cases p)
      case True
      then have "card (open_names job1) < card (open_names job)"
        using t Inr jp by (intro job_pass_shrinks) simp
      then have "card (open_names job1) < n" using Suc.prems by simp
      from Suc.IH[OF this] show ?thesis
        using t Inr jp by (auto split: prod.split sum.split)
    qed (use t Inr jp in \<open>auto split: prod.split sum.split\<close>)
  qed (use t in simp)
qed simp

lemma job_passes_result:
  assumes "job_passes n h now job st = Some (Ok (Some job'), st')"
  shows "job_selected job' = job_selected job \<and> set (job_attempted job) \<subseteq> set (job_attempted job') \<and>
    set (job_attempted job') \<subseteq> set (job_attempted job) \<union> set (job_selected job) \<and>
    \<not> required_dependency_failed (h_platform h (snd st')) (fst st') job' \<and>
    (\<forall>name \<in> set (job_selected job'). stuck (h_platform h (snd st')) (fst st') job' name)"
  using assms
proof (induction n arbitrary: job st)
  case (Suc n)
  obtain r st1 where t: "job_turns h now (job_selected job) (job, False) st = (r, st1)"
    by (cases "job_turns h now (job_selected job) (job, False) st")
  obtain job1 p where r: "r = Ok (job1, p)" using Suc.prems t by (cases r) auto
  note one = job_turns_result[OF t[unfolded r]]
  have ok: "\<not> required_dependency_failed (h_platform h (snd st1)) (fst st1) job1"
    using Suc.prems t r by (auto split: if_splits prod.splits sum.splits)
  show ?case
  proof (cases p)
    case True
    then have "job_passes n h now job1 st1 = Some (Ok (Some job'), st')" using Suc.prems t r ok by simp
    from Suc.IH[OF this] show ?thesis using one by auto
  next
    case False
    then have "job' = job1" "st' = st1" using Suc.prems t r ok by simp_all
    then show ?thesis using one ok False by auto
  qed
qed simp

text \<open>
  C7. The loop of a start job ends after at most one more pass than it has services, whatever the
  services and the host do; when it leaves the job pending, no required service that was started is
  unavailable, and every service not attempted yet waits for one of its dependencies: neither it is
  ready as it is (unless it is the root) nor are its blockers.
\<close>

theorem start_job_loop_settles:
  "\<exists>r st'. job_passes (Suc (length (job_selected job))) h now job st = Some (r, st') \<and>
    (case r of
       Ok (Some job') \<Rightarrow>
         job_selected job' = job_selected job \<and> set (job_attempted job) \<subseteq> set (job_attempted job') \<and>
         \<not> required_dependency_failed (h_platform h (snd st')) (fst st') job' \<and>
         (\<forall>name \<in> set (job_selected job) - set (job_attempted job').
            (name = job_root job' \<or> \<not> is_ready_without_start (fst st') name) \<and>
            \<not> start_dependencies_ready (h_platform h (snd st')) (fst st') job' name)
     | _ \<Rightarrow> True)"
proof -
  define n where "n = Suc (length (job_selected job))"
  have "card (open_names job) \<le> card (set (job_selected job))" by (simp add: open_names_def card_mono)
  also have "\<dots> \<le> length (job_selected job)" by (rule card_length)
  finally have "card (open_names job) < n" by (simp add: n_def)
  from job_passes_return[OF this] obtain r st' where run: "job_passes n h now job st = Some (r, st')" by fastforce
  moreover have "case r of
       Ok (Some job') \<Rightarrow>
         job_selected job' = job_selected job \<and> set (job_attempted job) \<subseteq> set (job_attempted job') \<and>
         \<not> required_dependency_failed (h_platform h (snd st')) (fst st') job' \<and>
         (\<forall>name \<in> set (job_selected job) - set (job_attempted job').
            (name = job_root job' \<or> \<not> is_ready_without_start (fst st') name) \<and>
            \<not> start_dependencies_ready (h_platform h (snd st')) (fst st') job' name)
     | _ \<Rightarrow> True"
  proof (cases r)
    case (Inr pending)
    show ?thesis
    proof (cases pending)
      case (Some job')
      have "job_passes n h now job st = Some (Ok (Some job'), st')" using run Inr Some by simp
      from job_passes_result[OF this] show ?thesis using Inr Some by (auto simp: stuck_def)
    qed (simp add: Inr)
  qed simp
  ultimately show ?thesis unfolding n_def by blast
qed

text \<open>The services of \<open>demo_graph\<close>, none of them started; \<open>net\<close> was started and is not up yet.\<close>

definition demo_unit :: "service_spec \<Rightarrow> managed_service" where
  "demo_unit spec = ms_of_record (demo_record\<lparr>rc_spec := spec\<rparr>)"

definition demo_su :: supervisor where
  "demo_su = supervisor_new\<lparr>su_services := map (\<lambda>(name, spec). (name, demo_unit spec)) (dg_services demo_graph)\<rparr>"

lemma demo_unit_fields [simp]:
  "ms_spec (demo_unit spec) = spec" "ms_state (demo_unit spec) = StDefined" "ready_for_dependency (demo_unit spec) = False"
  by (simp_all add: demo_unit_def demo_record_def ready_for_dependency_def)

lemma demo_su_get [simp]: "su_get name demo_su = map_option demo_unit (map_of (dg_services demo_graph) name)"
  by (simp add: su_get_def demo_su_def map_of_map_entry)

lemma demo_su_graph: "su_graph demo_su = Ok demo_graph"
proof -
  have "bmap_inv (su_services demo_su)" by (simp add: demo_su_def demo_graph_def bmap_inv_def)
  moreover have "\<forall>(name, m) \<in> set (su_services demo_su). sp_name (ms_spec m) = name"
    by (simp add: demo_su_def demo_graph_def)
  ultimately have "su_graph demo_su = Ok \<lparr>dg_services = map (\<lambda>(name, m). (name, ms_spec m)) (su_services demo_su)\<rparr>"
    by (simp add: su_graph_def graph_of_services)
  then show ?thesis by (simp add: demo_su_def demo_graph_def)
qed

definition demo_job :: start_job where
  "demo_job = \<lparr>job_root = ''web'', job_selected = [''db'', ''net'', ''web''], job_required = [''db'', ''web''],
     job_order = [''net'', ''db'', ''web''], job_conflicts = [], job_attempted = [''net''], job_started = [''net''],
     job_deadline = None, job_timeout_action = ActionNone\<rparr>"

lemma demo_job_fields [simp]:
  "job_selected demo_job = [''db'', ''net'', ''web'']" "job_attempted demo_job = [''net'']" "job_root demo_job = ''web''"
  "job_required demo_job = [''db'', ''web'']"
  by (simp_all add: demo_job_def)

lemma demo_job_run: "job_passes 4 demo_host 0 demo_job (demo_su, 1) = Some (Ok (Some demo_job), demo_su, 1)"
proof -
  have blocked: "\<not> start_dependencies_ready pf demo_su demo_job ''web''" "\<not> start_dependencies_ready pf demo_su demo_job ''db''" for pf
    by (simp_all add: start_dependencies_ready_def required_blockers_def demo_su_graph graph_eval
        is_ready_without_start_def service_start_complete_def)
  have turn: "job_turn demo_host 0 name demo_job (demo_su, 1) = (Ok (demo_job, False), demo_su, 1)"
    if "name \<in> {''db'', ''net'', ''web''}" for name
    using that blocked by (auto simp: job_turn_def su_with_def prog_defs is_ready_without_start_def demo_graph_map)
  have "job_turns demo_host 0 [''db'', ''net'', ''web''] (demo_job, False) (demo_su, 1) = (Ok (demo_job, False), demo_su, 1)"
    by (simp add: turn prog_defs)
  then show ?thesis by (simp add: eval_nat_numeral required_dependency_failed_def)
qed

theorem start_job_loop_settles_witness:
  "\<not> start_dependencies_ready (h_platform demo_host 1) demo_su demo_job ''web'' \<and>
   job_passes 4 demo_host 0 demo_job (demo_su, 1) = Some (Ok (Some demo_job), demo_su, 1)"
proof -
  have n: "Suc (length (job_selected demo_job)) = 4" by simp
  show ?thesis
    using start_job_loop_settles[where job = demo_job and h = demo_host and now = 0 and st = "(demo_su, 1)",
      unfolded n demo_job_run] demo_job_run by simp
qed

section \<open>Conflicts\<close>

definition declares_conflict :: "supervisor \<Rightarrow> dependency_graph \<Rightarrow> string \<Rightarrow> string \<Rightarrow> bool" where
  "declares_conflict s g a b \<longleftrightarrow>
     a \<in> set (su_names s) \<and> (\<exists>d \<in> set (conflict_dependencies g a). resolve_name s d = Some b)"

lemma declared_conflicts_set:
  "c \<in> set (declared_conflicts s g selected candidate) \<longleftrightarrow>
    (\<exists>name. (\<exists>d \<in> set (conflict_dependencies g candidate). resolve_name s d = Some name) \<and>
      (if candidate \<in> set selected then c = name else name \<in> set selected \<and> c = candidate))"
proof -
  have one: "c \<in> set (case resolve_name s d of None \<Rightarrow> []
       | Some name \<Rightarrow> if candidate \<in> set selected then [name] else if name \<in> set selected then [candidate] else []) \<longleftrightarrow>
      (\<exists>name. resolve_name s d = Some name \<and>
        (if candidate \<in> set selected then c = name else name \<in> set selected \<and> c = candidate))" for d
    by (cases "resolve_name s d") auto
  show ?thesis unfolding declared_conflicts_def set_concat set_map UN_iff bex_simps one by blast
qed

lemma conflicts_set:
  "c \<in> set (bset_of (concat (map (declared_conflicts s g selected) (su_names s)))) \<longleftrightarrow>
    (\<exists>a \<in> set selected. declares_conflict s g a c) \<or>
    c \<notin> set selected \<and> (\<exists>b \<in> set selected. declares_conflict s g c b)"
  by (auto simp: declared_conflicts_set declares_conflict_def split: if_splits)


definition rival_su :: supervisor where
  "rival_su = supervisor_new\<lparr>su_services :=
     [(''a'', demo_unit (demo_service ''a'' [] [])),
      (''b'', demo_unit ((demo_service ''b'' [] [])\<lparr>sp_dependencies := dependency_set_default\<lparr>dep_conflicts := [''a'']\<rparr>\<rparr>))]\<rparr>"

lemma rival_su_graph: "su_graph rival_su = Ok \<lparr>dg_services =
    [(''a'', demo_service ''a'' [] []),
     (''b'', (demo_service ''b'' [] [])\<lparr>sp_dependencies := dependency_set_default\<lparr>dep_conflicts := [''a'']\<rparr>\<rparr>)]\<rparr>"
proof -
  have "bmap_inv (su_services rival_su)" "\<forall>(name, m) \<in> set (su_services rival_su). sp_name (ms_spec m) = name"
    by (simp_all add: rival_su_def bmap_inv_def)
  then have "su_graph rival_su = Ok \<lparr>dg_services = map (\<lambda>(name, m). (name, ms_spec m)) (su_services rival_su)\<rparr>"
    by (simp add: su_graph_def graph_of_services)
  then show ?thesis by (simp add: rival_su_def)
qed


section \<open>Services that nothing needs\<close>

definition up_services :: "supervisor \<Rightarrow> string set" where
  "up_services s = {name. \<exists>m. su_get name s = Some m \<and> service_was_up (ms_state m)}"

lemma up_services_finite: "finite (up_services s)" "card (up_services s) \<le> length (su_services s)"
proof -
  have sub: "up_services s \<subseteq> fst ` set (su_services s)"
    by (force simp: up_services_def su_get_def dest!: map_of_SomeD)
  then show "finite (up_services s)" by (rule finite_subset) simp
  have "card (up_services s) \<le> card (fst ` set (su_services s))" by (rule card_mono[OF _ sub]) simp
  also have "\<dots> \<le> length (su_services s)" using card_length[of "map fst (su_services s)"] by simp
  finally show "card (up_services s) \<le> length (su_services s)" .
qed

text \<open>Without start jobs there is nothing to cancel.\<close>

lemma cancel_no_jobs:
  assumes "su_start_jobs s = []"
  shows "\<exists>w'. cancel_start_jobs h name (s, w) = (Ok (), s, w')"
proof -
  have same: "s\<lparr>su_start_jobs := []\<rparr> = s" using assms by (cases s) simp
  show ?thesis
    by (simp add: cancel_start_jobs_def cancel_jobs_def su_read_def su_update_def su_io_def prog_defs assms same
        split: prod.split)
qed

lemma stop_given_up: "ms_stop h now (m, w) = (Ok u, m', w') \<Longrightarrow> given_up m'"
  by (auto simp: ms_stop_def ms_read_def bind_prog_ok read_prog_ok dest!: stop_with_signal_result)

lemma service_stop_down:
  assumes "service_mut name (ms_stop h now) (s, w) = (Ok (), s', w')"
  shows "up_services s' = up_services s - {name}" and "su_start_jobs s' = su_start_jobs s"
proof -
  obtain m where m: "su_get name s = Some m"
    using assms by (auto simp: service_mut_def with_service_def raise_prog_ok split: option.splits)
  obtain m' where m': "ms_stop h now (m, w) = (Ok (), m', w')" "s' = su_put name m' s"
    using assms m by (auto simp: service_mut_def with_service_def split: prod.splits)
  have "\<not> service_was_up (ms_state m')" using stop_given_up[OF m'(1)] by (simp add: given_up_def service_is_down_def)
  then show "up_services s' = up_services s - {name}"
    by (auto simp: up_services_def m'(2) su_get_put split: if_splits)
  show "su_start_jobs s' = su_start_jobs s" by (simp add: m'(2))
qed

text \<open>A round stops every service it has found.\<close>

lemma stop_unneeded_down:
  assumes "stop_unneeded h now names (s, w) = (Ok (), s', w')" and "su_start_jobs s = []"
    and "\<And>name m. name \<in> set names \<Longrightarrow> su_get name s = Some m \<Longrightarrow> sp_stop_when_unneeded (ms_spec m)"
    and "\<And>name. name \<in> set names \<Longrightarrow> su_get name s \<noteq> None"
  shows "up_services s' = up_services s - set names \<and> su_start_jobs s' = []"
  using assms
proof (induction names arbitrary: s w)
  case Nil
  then show ?case by (simp add: stop_unneeded_def return_prog_ok)
next
  case (Cons name names)
  obtain m where m: "su_get name s = Some m" "sp_stop_when_unneeded (ms_spec m)"
    using Cons.prems(3,4)[of name] by fastforce
  obtain w1 where c: "cancel_start_jobs h name (s, w) = (Ok (), s, w1)"
    using cancel_no_jobs[OF Cons.prems(2), of h name w] by blast
  from Cons.prems(1) c m obtain s2 w2 where
    one: "service_mut name (ms_stop h now) (s, w1) = (Ok (), s2, w2)"
    and rest: "stop_unneeded h now names (s2, w2) = (Ok (), s', w')"
    by (auto simp: stop_unneeded_def su_read_def bind_prog_ok seq_prog_ok_Cons return_prog_ok read_prog_ok)
  note down = service_stop_down[OF one]
  have step: "su_step (s, w1) (s2, w2)" by (rule sup.stepsD[where m = "service_mut name (ms_stop h now)"], intro su_ops driven_ops, rule one)
  have spec: "\<exists>m1. su_get n s = Some m1 \<and> ms_spec m2 = ms_spec m1" if got: "su_get n s2 = Some m2" for n m2
  proof -
    obtain m1 where "su_get n s = Some m1" "evolves (ms_record m1) (ms_record m2)"
      using su_step_get[OF step, of n m2] got by auto
    then show ?thesis using evolves_spec by fastforce
  qed
  have "up_services s' = up_services s2 - set names \<and> su_start_jobs s' = []"
  proof (rule Cons.IH[OF rest])
    show "su_start_jobs s2 = []" using down(2) Cons.prems(2) by simp
    show "sp_stop_when_unneeded (ms_spec m2)" if "n \<in> set names" "su_get n s2 = Some m2" for n m2
      using spec[OF that(2)] Cons.prems(3)[of n] that(1) by auto
    show "su_get n s2 \<noteq> None" if "n \<in> set names" for n
      using su_step_absent[OF step, of n] Cons.prems(4)[of n] that by simp
  qed
  then show ?case using down(1) by auto
qed

lemma unneeded_up:
  assumes "bmap_inv (su_services s)" and "name \<in> set (unneeded_services env s g)"
  shows "\<exists>m. su_get name s = Some m \<and> sp_stop_when_unneeded (ms_spec m) \<and> service_was_up (ms_state m)"
  using assms(2) by (auto simp: unneeded_services_def su_get_def bmap_entry[OF assms(1)])

lemma reap_loop_ends:
  assumes "card (up_services s) < n" and "su_inv s" and "su_start_jobs s = []"
  shows "\<exists>r s' w'. reap_loop n h now (s, w) = Some (r, s', w') \<and>
    (r = Ok () \<longrightarrow> (\<exists>g. su_graph s' = Ok g \<and> unneeded_services (pf_env (h_platform h w')) s' g = []))"
  using assms
proof (induction n arbitrary: s w)
  case 0
  then show ?case by simp
next
  case (Suc n)
  obtain g where g: "su_graph s = Ok g" using su_graph_ok[OF Suc.prems(2)] by blast
  have inv: "bmap_inv (su_services s)" using Suc.prems(2) by (simp add: su_inv_def services_inv_def)
  let ?names = "unneeded_services (pf_env (h_platform h w)) s g"
  have round: "reap_loop (Suc n) h now (s, w) =
      (if ?names = [] then Some (Ok (), s, w)
       else (case stop_unneeded h now ?names (s, w) of
               (Err e, st) \<Rightarrow> Some (Err e, st) | (Ok _, st) \<Rightarrow> reap_loop n h now st))"
    by (simp add: run_defs bind_run_def graph_run_def env_of_def with_graph_def su_with_def su_read_def prog_defs g
        return_run_def raise_run_def split: prod.split sum.split)
  show ?case
  proof (cases "?names = []")
    case True
    then show ?thesis using round g by auto
  next
    case False
    obtain r1 s1 w1 where one: "stop_unneeded h now ?names (s, w) = (r1, s1, w1)" by (metis prod_cases3)
    show ?thesis
    proof (cases r1)
      case (Inl e)
      then show ?thesis using round one False by simp
    next
      case (Inr u)
      have ok: "stop_unneeded h now ?names (s, w) = (Ok (), s1, w1)" using one Inr by simp
      have down: "up_services s1 = up_services s - set ?names \<and> su_start_jobs s1 = []"
        using unneeded_up[OF inv] by (intro stop_unneeded_down[OF ok Suc.prems(3)]) force+
      obtain name where "name \<in> set ?names" using False by (cases ?names) auto
      moreover from this have "name \<in> up_services s" using unneeded_up[OF inv, of name] unfolding up_services_def by blast
      ultimately have "up_services s1 \<subset> up_services s" using down by blast
      from psubset_card_mono[OF up_services_finite(1) this] Suc.prems(1)
      have "card (up_services s1) < n" by simp
      moreover have "su_inv s1"
        using su_step_inv[OF sup.stepsD[OF sup_stop_unneeded one]] Suc.prems(2) by simp
      ultimately show ?thesis using Suc.IH[of s1 w1] down round ok False by simp
    qed
  qed
qed



section \<open>An error in one job\<close>

definition jobs_kept :: "supervisor \<times> 'w \<Rightarrow> supervisor \<times> 'w \<Rightarrow> bool" where
  "jobs_kept st st' \<longleftrightarrow> su_start_jobs (fst st') = su_start_jobs (fst st)"

interpretation kept: job_contract jobs_kept
proof unfold_locales
  fix p :: "('w, unit) ms_prog" and st :: "supervisor \<times> 'w" and name
  show "jobs_kept st (snd (service_mut name p st))"
    by (cases st) (simp add: jobs_kept_def service_mut_def with_service_def raise_prog_def split: option.split prod.split)
qed (simp_all add: jobs_kept_def)

text \<open>
  An error in one start job drops them all: \<open>progress_start_jobs\<close> takes the jobs out of the
  supervisor and puts back the pending ones only if no job failed, so the jobs that were waiting, before
  and after the failing one, are forgotten without being rolled back, cancelled or timed out.
\<close>

theorem job_error_drops_pending:
  assumes "progress_jobs h now (su_start_jobs s) (s\<lparr>su_start_jobs := []\<rparr>, w) = Some (Err e, s', w')"
  shows "progress_start_jobs launch h now (s, w) = Some (Err e, s', w') \<and> su_start_jobs s' = []"
proof
  show "progress_start_jobs launch h now (s, w) = Some (Err e, s', w')"
    using assms by (simp add: progress_start_jobs_def bind_run_def run_defs su_read_def su_update_def prog_defs raise_run_def)
  show "su_start_jobs s' = []"
    using kept.runsD[OF kept.runs_progress_jobs assms] by (simp add: jobs_kept_def)
qed

lemma demo_job_waits: "progress_start_job demo_host 0 demo_job (demo_su, 1) = Some (Ok (Some demo_job), demo_su, 1)"
proof -
  have n: "Suc (length (job_selected demo_job)) = 4" by simp
  have incomplete: "\<not> job_complete demo_su demo_job" by (simp add: job_complete_def)
  have "job_deadline demo_job = None" "job_conflicts demo_job = []" by (simp_all add: demo_job_def)
  then show ?thesis
    unfolding progress_start_job_def bind_run_def match_run_def run_prog_def su_read_def read_prog_def n
    using incomplete demo_job_run
    by (simp add: reached_def has_live_conflict_def return_run_def run_prog_def return_prog_def)
qed

theorem job_error_drops_pending_witness:
  "\<exists>orphan e s'. progress_start_jobs (\<lambda>_. return_run ()) demo_host 0 (demo_su\<lparr>su_start_jobs := [demo_job, orphan]\<rparr>, 1) =
     Some (Err e, s', 1) \<and> su_start_jobs s' = []"
proof -
  let ?orphan = "demo_job\<lparr>job_root := ''gone'', job_deadline := Some 0\<rparr>"
  let ?s = "demo_su\<lparr>su_start_jobs := [demo_job, ?orphan]\<rparr>"
  have empty: "?s\<lparr>su_start_jobs := []\<rparr> = demo_su" by (simp add: demo_su_def supervisor_new_def)
  have "progress_start_job demo_host 0 ?orphan (demo_su, 1) = Some (Err (ServiceProblem UnknownService ''gone''), demo_su, 1)"
    by (simp add: progress_start_job_def bind_run_def run_defs su_read_def prog_defs job_complete_def reached_def
      timeout_start_job_def service_mut_def with_service_def demo_graph_map raise_run_def)
  then have "progress_jobs demo_host 0 (su_start_jobs ?s) (?s\<lparr>su_start_jobs := []\<rparr>, 1) =
      Some (Err (ServiceProblem UnknownService ''gone''), demo_su, 1)"
    unfolding empty using demo_job_waits
    by (simp add: bind_run_def run_defs prog_defs return_run_def raise_run_def)
  from job_error_drops_pending[OF this] show ?thesis by blast
qed

end
