(* ===== verification/Supervisor_Stops.thy ===== *)
theory Supervisor_Stops
  imports Supervisor_Jobs
begin

text \<open>
  What stopping does to the supervisor: a service that was given up stays given up whatever else is
  stopped or cancelled, so a stop takes its dependents down with it and a complete shutdown leaves no
  service up.
\<close>

section \<open>Stops keep what is given up\<close>

definition sunk_step :: "managed_service \<times> 'w \<Rightarrow> managed_service \<times> 'w \<Rightarrow> bool" where
  "sunk_step st st' \<longleftrightarrow> (given_up (fst st) \<longrightarrow> given_up (fst st'))"

interpretation sunk: step_contract sunk_step
  by unfold_locales (auto simp: sunk_step_def)

interpretation quiet_sunk: coarser_contract quiet_step sunk_step
  by unfold_locales (auto simp: quiet_step_def sunk_step_def intro: given_up_calm)

lemmas sunk_quiet = quiet_sunk.steps_coarser

lemma sunk_update: "(\<And>m. given_up m \<Longrightarrow> given_up (f m)) \<Longrightarrow> sunk.steps (ms_update f)"
  by (rule sunk.stepsI) (simp add: ms_update_def prog_defs sunk_step_def split: prod.split)

lemma sunk_stop_requested: "sunk.steps (ms_transition label StopRequested)"
proof (rule sunk.stepsI)
  fix st :: "managed_service \<times> 'w"
  obtain m w where st: "st = (m, w)" by fastforce
  obtain r m' w' where run: "ms_transition label StopRequested (m, w) = (r, m', w')" by (metis prod_cases3)
  show "sunk_step st (snd (ms_transition label StopRequested st))"
  proof (cases r)
    case (Inl e)
    have "given_up m \<Longrightarrow> given_up m'"
      using run Inl by (cases "rc_state (ms_record m)")
        (auto simp: ms_transition_def given_up_def stop_def stop_live_def Let_def service_is_down_def service_was_up_def
          split: if_splits)
    then show ?thesis using run by (simp add: st sunk_step_def)
  next
    case (Inr actions)
    then have "transition StopRequested (ms_record m) = (Ok actions, ms_record m')" "ms_wants_running m' = ms_wants_running m"
      using ms_transition_ok[of label StopRequested m w actions m' w'] run by simp_all
    then have "given_up m \<Longrightarrow> given_up m'" using stop_requested_down by (simp add: given_up_def)
    then show ?thesis using run by (simp add: st sunk_step_def)
  qed
qed

lemma sunk_stop_completed: "sunk.steps (ms_step label StopCompleted)"
  by (rule sunk.stepsI)
    (auto simp: ms_step_def ms_transition_def prog_defs sunk_step_def given_up_def stop_completed_def service_is_down_def
      service_was_up_def split: prod.split sum.split)

lemma sunk_stop: "sunk.steps (ms_stop h now)"
proof -
  have "sunk.steps (stop_without_process h)"
    unfolding stop_without_process_def
    by (intro sunk.steps_rules sunk_stop_completed sunk_update sunk_quiet quiet_ops) (simp add: given_up_def)
  moreover have "sunk.steps clear_wants"
    unfolding clear_wants_def by (intro sunk_update) (simp add: given_up_def)
  ultimately show ?thesis
    unfolding ms_stop_def stop_with_signal_def
    by (intro sunk.steps_rules sunk_stop_requested sunk_update)
      (simp_all add: sunk_quiet quiet_ops quiet_stop_parts given_up_def stop_timer_def)
qed

section \<open>The supervisor\<close>

definition gone :: "string \<Rightarrow> supervisor \<Rightarrow> bool" where
  "gone name s \<longleftrightarrow> (\<exists>m. su_get name s = Some m \<and> given_up m)"

definition gone_step :: "supervisor \<times> 'w \<Rightarrow> supervisor \<times> 'w \<Rightarrow> bool" where
  "gone_step st st' \<longleftrightarrow> (\<forall>name. gone name (fst st) \<longrightarrow> gone name (fst st'))"

interpretation gone: step_contract gone_step
  by unfold_locales (auto simp: gone_step_def)

lemma gone_service:
  assumes "sunk.steps p"
  shows "gone.steps (service_mut name p)"
proof (rule gone.stepsI)
  fix st :: "supervisor \<times> 'a"
  obtain s w where st: "st = (s, w)" by fastforce
  show "gone_step st (snd (service_mut name p st))"
  proof (cases "su_get name s")
    case None
    then show ?thesis by (simp add: st service_mut_def with_service_def gone_step_def raise_prog_def)
  next
    case (Some m)
    obtain r m' w' where p: "p (m, w) = (r, m', w')" by (metis prod_cases3)
    have "given_up m \<longrightarrow> given_up m'" using sunk.stepsD[OF assms p] by (simp add: sunk_step_def)
    then show ?thesis
      using Some p by (simp add: st service_mut_def with_service_def gone_step_def gone_def su_get_put)
  qed
qed

lemma gone_update: "(\<And>s. su_services (f s) = su_services s) \<Longrightarrow> gone.steps (su_update f)"
  by (rule gone.stepsI) (simp add: su_update_def prog_defs gone_step_def gone_def su_get_def split: prod.split)

lemma gone_io: "gone.steps (su_io op)"
  by (rule gone.stepsI) (simp add: su_io_def gone_step_def split: prod.split)

lemma gone_read: "gone.steps (su_read f)"
  unfolding su_read_def by (rule gone.steps_read)

lemma gone_cancel: "gone.steps (cancel_start_jobs h name)"
  unfolding cancel_start_jobs_def cancel_jobs_def rollback_start_job_def
  by (intro gone.steps_rules gone_read gone_io gone_update gone_service sunk_stop) simp_all

lemma gone_stop_dependents: "gone.steps (stop_dependents h source part_of now)"
  unfolding stop_dependents_def by (intro gone.steps_rules gone_read gone_cancel gone_service sunk_stop)

lemma stop_makes_gone: "service_mut name (ms_stop h now) st = (Ok (), st') \<Longrightarrow> gone name (fst st')"
  by (cases st) (auto simp: service_mut_def with_service_def raise_prog_def gone_def su_get_put
    split: option.splits prod.splits intro: stop_given_up)

context step_contract
begin

text \<open>A loop establishes for each element what its step establishes and \<open>R\<close> keeps.\<close>

lemma each_establishes:
  assumes "each_prog f xs st = (Ok u, st')" and "\<And>x. steps (f x)"
    and "\<And>x st st'. f x st = (Ok (), st') \<Longrightarrow> P x st'" and "\<And>x st st'. R st st' \<Longrightarrow> P x st \<Longrightarrow> P x st'"
  shows "\<forall>x \<in> set xs. P x st'"
  using assms(1)
proof (induction xs arbitrary: st)
  case Nil
  then show ?case by simp
next
  case (Cons x xs)
  obtain st1 where one: "f x st = (Ok (), st1)" and rest: "each_prog f xs st1 = (Ok u, st')"
    using Cons.prems by (auto simp: bind_prog_ok)
  have "steps (each_prog f xs)" by (intro steps_each assms(2))
  from steps_run[OF this, of st1] have "R st1 st'" by (simp add: rest)
  then show ?case using Cons.IH[OF rest] assms(3)[OF one] assms(4) by auto
qed

end

lemma gone_kept: "gone_step st st' \<Longrightarrow> gone name (fst st) \<Longrightarrow> gone name (fst st')"
  by (simp add: gone_step_def)

text \<open>A stop loop that succeeds leaves every one of its services given up.\<close>

lemma stop_dependents_gone:
  assumes "stop_dependents h source part_of now (s, w) = (Ok (), st')"
  shows "\<forall>name \<in> set (dependent_names s source part_of). gone name (fst st')"
proof -
  let ?step = "\<lambda>dependent. seq_prog [cancel_start_jobs h dependent, service_mut dependent (ms_stop h now)]"
  have run: "each_prog ?step (dependent_names s source part_of) (s, w) = (Ok (), st')"
    using assms by (simp add: stop_dependents_def bind_prog_def su_read_def read_prog_def)
  show ?thesis
  proof (rule gone.each_establishes[OF run, where P = "\<lambda>name st. gone name (fst st)"])
    show "gone.steps (?step name)" for name
      by (intro gone.steps_rules gone_cancel gone_service sunk_stop)
    show "gone name (fst st')" if "?step name st = (Ok (), st')" for name and st st' :: "supervisor \<times> 'a"
      using that stop_makes_gone[of name h now] by (auto simp: seq_prog_ok_Cons return_prog_ok bind_prog_ok)
  qed (rule gone_kept)
qed

section \<open>Names and dependents do not change\<close>

text \<open>The names and descriptors of the services, in order.\<close>

definition su_specs :: "supervisor \<Rightarrow> (string \<times> service_spec) list" where
  "su_specs s = map (\<lambda>(name, m). (name, ms_spec m)) (su_services s)"

lemma bmap_eqI:
  assumes "bmap_inv a" and "bmap_inv b" and "map_of a = map_of b"
  shows "a = b"
proof (rule map_sorted_distinct_set_unique)
  show same: "set a = set b" using bmap_entry[OF assms(1)] bmap_entry[OF assms(2)] assms(3) by auto
  show "inj_on fst (set a \<union> set b)"
    using bmap_keys_distinct[OF assms(1)] same by (simp add: distinct_map)
qed (use assms(1,2) in \<open>simp_all add: bmap_inv_def strict_sorted_iff\<close>)

lemma su_step_specs:
  assumes "su_step st st'" and "su_inv (fst st)"
  shows "su_specs (fst st') = su_specs (fst st)"
proof (rule bmap_eqI)
  have inv: "bmap_inv (su_specs s)" if "su_inv s" for s
  proof -
    have "map fst (su_specs s) = map fst (su_services s)" by (simp add: su_specs_def case_prod_unfold)
    then show ?thesis using that by (simp add: bmap_inv_def su_inv_def services_inv_def)
  qed
  show "bmap_inv (su_specs (fst st'))" "bmap_inv (su_specs (fst st))"
    using inv assms(2) su_step_inv[OF assms] by blast+
  have specs: "map_of (su_specs s) name = map_option ms_spec (su_get name s)" for s name
    unfolding su_specs_def su_get_def by (rule map_of_map_entry)
  show "map_of (su_specs (fst st')) = map_of (su_specs (fst st))"
  proof
    fix name
    show "map_of (su_specs (fst st')) name = map_of (su_specs (fst st)) name"
    proof (cases "su_get name (fst st')")
      case None
      then show ?thesis using su_step_absent[OF assms(1), of name] by (simp add: specs)
    next
      case (Some m')
      then obtain m where "su_get name (fst st) = Some m" "evolves (ms_record m) (ms_record m')"
        by (rule su_step_get[OF assms(1)])
      then show ?thesis using Some evolves_spec by (fastforce simp: specs)
    qed
  qed
qed

lemma resolve_name_same:
  assumes "su_specs s' = su_specs s" and "su_aliases s' = su_aliases s"
  shows "resolve_name s' = resolve_name s"
proof -
  have "map fst (su_specs s') = map fst (su_specs s)" by (simp add: assms(1))
  then have names: "su_names s' = su_names s" by (simp add: su_specs_def su_names_def bmap_keys_def case_prod_unfold comp_def)
  have "su_get name t \<noteq> None \<longleftrightarrow> name \<in> set (su_names t)" for name t
    unfolding su_names_def set_bmap_keys by (simp add: su_get_def)
  then have "find_name s' = find_name s" using names assms(2) by (auto simp: find_name_def fun_eq_iff)
  then show ?thesis using names by (intro ext) (simp add: resolve_name_def Let_def split: option.split)
qed

lemma dependent_names_specs:
  "dependent_names s source include = map fst (filter (\<lambda>(name, spec).
       name \<noteq> source \<and>
       (list_ex (\<lambda>d. resolve_name s d = Some source) (dep_binds_to (sp_dependencies spec)) \<or>
        include \<and> list_ex (\<lambda>d. resolve_name s d = Some source) (dep_part_of (sp_dependencies spec)))) (su_specs s))"
  by (simp add: dependent_names_def su_specs_def filter_map comp_def case_prod_unfold)

lemma dependents_same:
  "su_specs s' = su_specs s \<Longrightarrow> su_aliases s' = su_aliases s \<Longrightarrow> dependent_names s' = dependent_names s"
  using resolve_name_same[of s' s] by (intro ext) (simp add: dependent_names_specs)

lemma su_step_dependents:
  assumes "su_step st st'" and "su_inv (fst st)"
  shows "dependent_names (fst st') = dependent_names (fst st)"
  using su_step_specs[OF assms] assms(1) by (intro dependents_same) (simp_all add: su_step_def)

section \<open>Stopping a service\<close>

text \<open>A supervisor with a running service: its record is reached by a start and a spawned process.\<close>

definition demo_live :: managed_service where
  "demo_live = (ms_of_record (snd (transition (Spawned 7 1) (snd (transition StartRequested demo_record)))))
     \<lparr>ms_child := Some 7, ms_wants_running := True\<rparr>"

lemma demo_live_record:
  "ms_record demo_live = demo_record\<lparr>rc_state := StRunning, rc_generation := 1, rc_pid := Some 7\<rparr>"
  by (simp add: demo_live_def demo_record_def start_def spawned_def advance_generation_def service_spec_new_def Let_def
      checked_add_def)

lemma demo_live_fields:
  "ms_stop_pid demo_live = None" "ms_stop_pidfd demo_live = None" "ms_stop_child demo_live = None"
  "ms_dbus_probe demo_live = None" "ms_process_group demo_live = None" "ms_pidfd demo_live = None"
  "ms_cgroup_path demo_live = None" "rc_spec demo_record = service_spec_new ''demo'' ''/bin/demo''"
  by (simp_all add: demo_live_def ms_of_record_def demo_record_def)

lemma demo_live_stops: "\<exists>m. ms_stop demo_host 0 (demo_live, 1) = (Ok (), m, 1)"
  by (simp add: stop_eval demo_eval demo_live_record demo_live_fields)

definition live_su :: supervisor where
  "live_su = su_put ''demo'' demo_live supervisor_new"

lemma live_su_inv: "su_inv live_su"
proof -
  have "reachable_record (ms_record demo_live)"
    unfolding demo_live_def using demo_record_reachable by (simp add: stepped del: transition.simps)
  moreover have "sp_name (ms_spec demo_live) = ''demo''"
    by (simp add: demo_live_record demo_record_def service_spec_new_def)
  ultimately show ?thesis
    by (simp add: su_inv_def services_inv_def live_su_def su_put_def supervisor_new_def bmap_inv_def)
qed

lemma live_su_get [simp]: "su_get name live_su = (if name = ''demo'' then Some demo_live else None)"
  by (simp add: live_su_def su_get_def su_put_def supervisor_new_def)

lemma live_su_stops:
  "\<exists>s. service_mut ''demo'' (ms_stop demo_host 0) (live_su, 1) = (Ok (), s, 1) \<and> su_start_jobs s = [] \<and>
    stop_dependents demo_host ''demo'' True 0 (s, 1) = (Ok (), s, 1)"
proof -
  obtain m where m: "ms_stop demo_host 0 (demo_live, 1) = (Ok (), m, 1)" using demo_live_stops by blast
  let ?s = "su_put ''demo'' m live_su"
  have one: "service_mut ''demo'' (ms_stop demo_host 0) (live_su, 1) = (Ok (), ?s, 1)"
    using m by (simp add: service_mut_def with_service_def)
  have "dependent_names ?s ''demo'' True = []"
    by (simp add: dependent_names_def live_su_def su_put_def supervisor_new_def)
  then have "stop_dependents demo_host ''demo'' True 0 (?s, 1) = (Ok (), ?s, 1)"
    by (simp add: stop_dependents_def su_read_def prog_defs)
  then show ?thesis using one by (auto simp: live_su_def supervisor_new_def)
qed



section \<open>Shutdown\<close>

lemma registered_of: "registered \<lparr>dg_services = su_specs s\<rparr> name \<longleftrightarrow> su_get name s \<noteq> None"
  by (simp add: registered_def su_get_def su_specs_def map_of_map_entry)

lemma su_graph_inv:
  assumes "su_inv s"
  shows "su_graph s = Ok \<lparr>dg_services = su_specs s\<rparr>" and "graph_inv \<lparr>dg_services = su_specs s\<rparr>"
proof -
  show "su_graph s = Ok \<lparr>dg_services = su_specs s\<rparr>" using su_graph_ok[OF assms] by (simp add: su_specs_def)
  have inv: "bmap_inv (su_services s)" using assms by (simp add: su_inv_def services_inv_def)
  have "sp_name (ms_spec m) = name" if "(name, m) \<in> set (su_services s)" for name m
    using assms that by (simp add: su_inv_def services_inv_def bmap_entry[OF inv])
  then show "graph_inv \<lparr>dg_services = su_specs s\<rparr>"
    using inv by (auto simp: graph_inv_def su_specs_def bmap_inv_def case_prod_unfold comp_def)
qed

text \<open>
  C18. Shutdown always returns, with or without dependency cycles, and when it returns without an error
  no service is left up: each registered service was stopped for good, and no start job is pending.
\<close>

theorem stop_all_leaves_nothing_up:
  assumes "su_inv s"
  shows "\<exists>r s' w'. su_stop_all h (s, w) = Some (r, s', w') \<and>
    (r = Ok () \<longrightarrow> (\<forall>name m. su_get name s' = Some m \<longrightarrow>
       \<not> ms_wants_running m \<and> ms_state m \<notin> {StStarting, StRunning, StActive, StBackoff}))"
proof -
  let ?s = "s\<lparr>su_start_jobs := []\<rparr>"
  let ?g = "\<lparr>dg_services = su_specs s\<rparr>"
  let ?env = "pf_env (h_platform h w)"
  have inv: "su_inv ?s" using assms by (simp add: su_inv_def su_get_def)
  have graph: "su_graph ?s = Ok ?g" using su_graph_inv(1)[OF inv] by (simp add: su_specs_def)
  have ginv: "graph_inv ?g" using su_graph_inv(2)[OF assms] .
  obtain names where names: "set names = Collect (registered ?g)"
    and plan: "(case plan_all_stop ?env ?g of
         Some (Err (Cycle _)) \<Rightarrow> planned ''shutdown'' (map_option Ok (plan_all_stop_best_effort ?env ?g))
       | plan \<Rightarrow> planned ''shutdown'' plan) = (return_run names :: (supervisor \<times> 'a, string list) run)"
  proof (cases rule: all_stop_cases[OF ginv, of ?env])
    case (1 order)
    then show ?thesis using that[of order] by (simp add: planned_def fun_eq_iff)
  next
    case (2 ns)
    then show ?thesis using that best_effort_order[OF ginv, of ?env] by (auto simp: planned_def fun_eq_iff)
  qed
  obtain now w1 where now: "h_now h w = (now, w1)" by fastforce
  let ?step = "\<lambda>name. seq_prog [service_mut name (ms_stop h now), stop_dependents h name True now]"
  obtain r s' w' where run: "each_prog ?step names (?s, w1) = (r, s', w')"
    by (cases "each_prog ?step names (?s, w1)")
  have result: "su_stop_all h (s, w) = Some (r, s', w')"
    using graph plan now run
    by (simp add: su_stop_all_def bind_run_def run_defs su_update_def graph_run_def with_graph_def su_read_def env_of_def
        su_with_def su_io_def prog_defs return_run_def)
  have "\<not> ms_wants_running m \<and> ms_state m \<notin> {StStarting, StRunning, StActive, StBackoff}"
    if ok: "r = Ok ()" and got: "su_get name s' = Some m" for name m
  proof -
    have stop: "gone.steps (?step n)" for n by (intro gone.steps_rules gone_service gone_stop_dependents sunk_stop)
    have made: "gone n (fst st')" if "?step n st = (Ok (), st')" for n and st st' :: "supervisor \<times> 'a"
    proof -
      from that obtain st1 where one: "service_mut n (ms_stop h now) st = (Ok (), st1)"
        and two: "stop_dependents h n True now st1 = (Ok (), st')"
        by (auto simp: seq_prog_ok_Cons return_prog_ok bind_prog_ok)
      show ?thesis by (rule gone_kept[OF gone.stepsD[OF gone_stop_dependents two] stop_makes_gone[OF one]])
    qed
    have each: "each_prog ?step names (?s, w1) = (Ok (), s', w')" using run ok by simp
    have all: "\<forall>n \<in> set names. gone n (fst (s', w'))"
      by (rule gone.each_establishes[OF each, where P = "\<lambda>n st. gone n (fst st)"]) (rule stop, erule made, erule gone_kept)
    have "sup.steps (each_prog ?step names)" by (intro sup.steps_rules su_ops driven_ops)
    from sup.steps_run[OF this, of "(?s, w1)", unfolded run snd_conv] have "su_step (?s, w1) (s', w')" .
    from su_step_absent[OF this, of name] got have "su_get name s \<noteq> None" by (simp add: su_get_def)
    then have "name \<in> set names" by (simp add: names registered_of)
    then show ?thesis using all got
      by (auto simp: gone_def given_up_def service_is_down_def service_was_up_def)
  qed
  then show ?thesis using result by blast
qed

theorem stop_all_leaves_nothing_up_witness:
  "\<exists>s w. su_stop_all demo_host (live_su, 1) = Some (Ok (), s, w) \<and>
    (\<forall>name m. su_get name s = Some m \<longrightarrow> ms_state m \<noteq> StRunning)"
proof -
  obtain r s' w' where run: "su_stop_all demo_host (live_su, 1) = Some (r, s', w')"
    and down: "r = Ok () \<longrightarrow> (\<forall>name m. su_get name s' = Some m \<longrightarrow>
       \<not> ms_wants_running m \<and> ms_state m \<notin> {StStarting, StRunning, StActive, StBackoff})"
    using stop_all_leaves_nothing_up[OF live_su_inv, of demo_host 1] by blast
  have jobs: "live_su\<lparr>su_start_jobs := []\<rparr> = live_su"
    by (simp add: live_su_def supervisor_new_def su_put_def)
  let ?g = "\<lparr>dg_services = [(''demo'', ms_spec demo_live)]\<rparr>"
  have graph: "su_graph live_su = Ok ?g"
    using su_graph_inv(1)[OF live_su_inv] by (simp add: su_specs_def live_su_def su_put_def supervisor_new_def)
  have plan: "plan_all_stop env ?g = Some (Ok [''demo''])" for env
    by (simp add: demo_live_record demo_record_def service_spec_new_def plan_all_stop_def plan_all_start_def graph_eval)
  obtain s where s: "service_mut ''demo'' (ms_stop demo_host 0) (live_su, 1) = (Ok (), s, 1)"
      "stop_dependents demo_host ''demo'' True 0 (s, 1) = (Ok (), s, 1)"
    using live_su_stops by blast
  have "su_stop_all demo_host (live_su, 1) = Some (Ok (), s, 1)"
    using graph plan s jobs
    by (simp add: su_stop_all_def bind_run_def run_defs su_update_def graph_run_def with_graph_def su_read_def env_of_def
        su_with_def su_io_def prog_defs return_run_def planned_def demo_host_def)
  then show ?thesis using run down by auto
qed

end
