(* ===== verification/Event_Journal.thy ===== *)
theory Event_Journal
  imports Supervisor Config_Sections Rust_Utf8 "HOL-Library.Sublist"
begin

text \<open>
  The event log of the manager, \<open>EventJournal\<close> in \<open>crates/fractald/src/main.rs\<close>: a line for every change
  of a service's snapshot, numbered in one sequence that goes on across restarts of the manager, and
  compacted to the newest lines. The file is a part of the state, absent or its bytes; of the failures
  of the file system the model keeps the one the log itself causes, text that is not UTF-8. The clock is
  a function of the sequence number.
\<close>

datatype journal_error = LogNotUtf8

record event_journal =
  ej_log :: "string option"
  ej_next :: "64 word"
  ej_count :: nat
  ej_max :: nat
  ej_last :: "(string, service_snapshot) bmap"

definition default_event_log_events :: nat where
  "default_event_log_events = 4096"

definition max_event_log_events :: nat where
  "max_event_log_events = 1000000"

section \<open>Lines\<close>

fun show_exit :: "exit_reason \<Rightarrow> string" where
  "show_exit (Exited code) = ''exit:'' @ show_int code"
| "show_exit (Signaled signal) = ''signal:'' @ show_int signal"
| "show_exit (CoreDumped signal) = ''core:'' @ show_int signal"

fun service_state_name :: "service_state \<Rightarrow> string" where
  "service_state_name StDefined = ''defined''"
| "service_state_name StStarting = ''starting''"
| "service_state_name StRunning = ''running''"
| "service_state_name StActive = ''active''"
| "service_state_name StStopping = ''stopping''"
| "service_state_name StBackoff = ''backoff''"
| "service_state_name StExited = ''exited''"
| "service_state_name StSkipped = ''skipped''"
| "service_state_name StFailed = ''failed''"

definition show_or_dash :: "('a \<Rightarrow> string) \<Rightarrow> 'a option \<Rightarrow> string" where
  "show_or_dash f v = (case v of None \<Rightarrow> ''-'' | Some x \<Rightarrow> f x)"

definition event_words :: "64 word \<Rightarrow> 64 word \<Rightarrow> service_snapshot \<Rightarrow> string list" where
  "event_words sequence time s =
     [''seq='' @ show_nat (unat sequence), ''time_ms='' @ show_nat (unat time), ''service='' @ service_snapshot.ss_name s,
      ''state='' @ service_state_name (service_snapshot.ss_state s),
      ''pid='' @ show_or_dash (\<lambda>p. show_nat (unat p)) (service_snapshot.ss_pid s),
      ''generation='' @ show_nat (unat (service_snapshot.ss_generation s)),
      ''restarts='' @ show_nat (unat (service_snapshot.ss_restart_count s)),
      ''exit='' @ show_or_dash show_exit (ss_last_exit s)]"

definition format_event :: "64 word \<Rightarrow> 64 word \<Rightarrow> service_snapshot \<Rightarrow> string" where
  "format_event sequence time s = join '' '' (event_words sequence time s) @ [CHR 0x0A]"

definition event_sequence :: "string \<Rightarrow> 64 word option" where
  "event_sequence line =
     (case split_whitespace line of
        [] \<Rightarrow> None
      | field # _ \<Rightarrow> Option.bind (strip_prefix ''seq='' field) parse_u64)"

definition saturating_succ :: "64 word \<Rightarrow> 64 word" where
  "saturating_succ n = (if n = - 1 then n else n + 1)"

section \<open>The log\<close>

definition log_text :: "event_journal \<Rightarrow> string" where
  "log_text j = (case ej_log j of None \<Rightarrow> [] | Some contents \<Rightarrow> contents)"

definition unlines :: "string list \<Rightarrow> string" where
  "unlines ls = concat (map (\<lambda>l. l @ [CHR 0x0A]) ls)"

definition compact_if_needed :: "event_journal \<Rightarrow> journal_error + event_journal" where
  "compact_if_needed j =
     (case ej_log j of
        None \<Rightarrow> Ok (j\<lparr>ej_count := 0\<rparr>)
      | Some contents \<Rightarrow>
          if \<not> valid_utf8 contents then Err LogNotUtf8
          else
            (let ls = lines contents
             in if \<not> ej_max j < length ls \<and> \<not> ej_max j * 1024 < length contents
                then Ok (j\<lparr>ej_count := length ls\<rparr>)
                else
                  (let retained = drop (length ls - ej_max j) ls
                   in Ok (j\<lparr>ej_log := Some (unlines retained), ej_count := length retained\<rparr>))))"

definition journal_open :: "string option \<Rightarrow> string option \<Rightarrow> journal_error + event_journal" where
  "journal_open limit file =
     (let max_events = (case Option.bind limit parse_u64 of
            Some n \<Rightarrow> max 1 (min max_event_log_events (unat n)) | None \<Rightarrow> default_event_log_events)
      in bind_res
           (case file of
              None \<Rightarrow> Ok (0, 0)
            | Some contents \<Rightarrow>
                if \<not> valid_utf8 contents then Err LogNotUtf8
                else Ok (fold (\<lambda>line next_sequence. case event_sequence line of
                         None \<Rightarrow> next_sequence
                       | Some sequence \<Rightarrow> max next_sequence (saturating_succ sequence)) (lines contents) 0,
                     length (lines contents))) (\<lambda>(next_sequence, count).
         compact_if_needed
           \<lparr>ej_log = file, ej_next = next_sequence, ej_count = count, ej_max = max_events, ej_last = []\<rparr>))"

definition journal_append :: "string \<Rightarrow> event_journal \<Rightarrow> event_journal" where
  "journal_append line j =
     (let contents = log_text j;
          separator = (if contents \<noteq> [] \<and> \<not> ends_with contents [CHR 0x0A] then [CHR 0x0A] else [])
      in j\<lparr>ej_log := Some (contents @ separator @ line), ej_count := ej_count j + 1\<rparr>)"

definition observe_one :: "(64 word \<Rightarrow> 64 word) \<Rightarrow> service_snapshot \<Rightarrow> string list \<times> event_journal \<Rightarrow> string list \<times> event_journal" where
  "observe_one clock s = (\<lambda>(events, j).
     if map_of (ej_last j) (service_snapshot.ss_name s) = Some s then (events, j)
     else
       (let line = format_event (ej_next j) (clock (ej_next j)) s
        in (events @ [line],
            (journal_append line (j\<lparr>ej_next := saturating_succ (ej_next j)\<rparr>))
              \<lparr>ej_last := bmap_insert (service_snapshot.ss_name s) s (ej_last j)\<rparr>)))"

definition observe_snapshots ::
    "(64 word \<Rightarrow> 64 word) \<Rightarrow> service_snapshot list \<Rightarrow> event_journal \<Rightarrow> journal_error + string list \<times> event_journal" where
  "observe_snapshots clock snaps j =
     (let (events, j') = fold (observe_one clock) snaps ([], j)
      in map_res (\<lambda>j''. (events, j'')) (compact_if_needed j'))"

definition journal_observe ::
    "(64 word \<Rightarrow> 64 word) \<Rightarrow> supervisor \<Rightarrow> event_journal \<Rightarrow> journal_error + string list \<times> event_journal" where
  "journal_observe clock s j = observe_snapshots clock (snapshots s) j"

definition since_lines :: "64 word \<Rightarrow> string list \<Rightarrow> string list" where
  "since_lines since ls = filter (\<lambda>line. case event_sequence line of None \<Rightarrow> False | Some n \<Rightarrow> since \<le> n) ls"

definition events_since :: "event_journal \<Rightarrow> 64 word \<Rightarrow> journal_error + string list" where
  "events_since j since =
     (case ej_log j of
        None \<Rightarrow> Ok []
      | Some contents \<Rightarrow> if \<not> valid_utf8 contents then Err LogNotUtf8 else Ok (since_lines since (lines contents)))"

end
