(* ===== verification/Journal_Properties.thy ===== *)
theory Journal_Properties
  imports Event_Journal
begin

text \<open>
  What the event log promises its readers: numbers ascend, the log stays within its limit, and what a
  reader finds later is what was there, followed by what was reported, less the oldest lines.
\<close>

section \<open>Lines of a log\<close>

definition log_lines :: "event_journal \<Rightarrow> string list" where
  "log_lines j = lines (log_text j)"

definition line_ok :: "string \<Rightarrow> bool" where
  "line_ok l \<longleftrightarrow> CHR 0x0A \<notin> set l \<and> strip_cr l = l \<and> valid_utf8 l"

lemma lines_from_no_newline: "l \<in> set (lines_from acc s) \<Longrightarrow> CHR 0x0A \<notin> set acc \<Longrightarrow> CHR 0x0A \<notin> set l"
proof (induction s arbitrary: acc)
  case (Cons c s)
  have "set (strip_cr acc) \<subseteq> set acc" by (auto simp: strip_cr_def strip_suffix_def dest: in_set_takeD)
  then show ?case using Cons.IH[of "[]"] Cons.IH[of "acc @ [c]"] Cons.prems by (auto split: if_splits)
qed (simp split: if_splits)

lemma lines_length_unlines:
  "(\<And>l. l \<in> set ls \<Longrightarrow> CHR 0x0A \<notin> set l) \<Longrightarrow> length (lines (unlines ls)) = length ls"
  unfolding lines_def unlines_def by (induction ls) (simp_all add: lines_from_line)

lemma lines_unlines_ok: "list_all line_ok ls \<Longrightarrow> lines (unlines ls) = ls"
  unfolding unlines_def by (rule lines_unlines) (auto simp: line_ok_def list_all_iff)

lemma unlines_valid: "list_all line_ok ls \<Longrightarrow> valid_utf8 (unlines ls)"
  unfolding unlines_def by (induction ls) (auto simp: line_ok_def intro!: valid_utf8_append)

lemma unlines_snoc: "unlines ls @ l @ [CHR 0x0A] = unlines (ls @ [l])"
  by (simp add: unlines_def)

lemma unlines_ends: "unlines ls = [] \<or> ends_with (unlines ls) [CHR 0x0A]"
  by (cases ls rule: rev_cases) (auto simp: unlines_def ends_with_def)

section \<open>Numbers of events\<close>

definition event_text :: "64 word \<Rightarrow> 64 word \<Rightarrow> service_snapshot \<Rightarrow> string" where \<comment> \<open>without its newline\<close>
  "event_text sequence time s = join '' '' (event_words sequence time s)"

definition snapshot_ok :: "service_snapshot \<Rightarrow> bool" where
  "snapshot_ok s \<longleftrightarrow> value_ok (service_snapshot.ss_name s) \<and> valid_utf8 (service_snapshot.ss_name s) \<and> CHR 0x0A \<notin> set (service_snapshot.ss_name s)"

lemma plain_token: "v \<noteq> [] \<Longrightarrow> list_all (byte_in 33 126) v \<Longrightarrow> is_ascii v \<and> token v"
proof -
  assume v: "v \<noteq> []" "list_all (byte_in 33 126) v"
  then have "is_ascii v" by (auto simp: is_ascii_def is_ascii_byte_def list_all_iff byte_in_def)
  then show ?thesis using v
    by (cases v) (auto simp: token_def no_whitespace_ascii starts_char_def ascii_not_cont list_all_iff byte_in_def)
qed

lemma digits_plain [simp]: "list_all (byte_in 33 126) (show_nat n)"
  by (auto simp: list_all_iff is_ascii_digit_def byte_in_def dest!: show_nat_digits)

lemma state_name_plain [simp]: "list_all (byte_in 33 126) (service_state_name st)"
  by (cases st) (simp_all add: byte_in_def)

lemma exit_plain [simp]: "list_all (byte_in 33 126) (show_exit e)"
  by (cases e) (simp_all add: show_int_def byte_in_def)

lemma event_words_ok:
  assumes "snapshot_ok s" and "w \<in> set (event_words n t s)"
  shows "token w \<and> valid_utf8 w \<and> CHR 0x0A \<notin> set w"
proof (cases "w = ''service='' @ service_snapshot.ss_name s")
  case True
  have p: "is_ascii ''service='' \<and> token ''service=''" by (rule plain_token) (simp_all add: byte_in_def)
  have name: "value_ok (service_snapshot.ss_name s)" "valid_utf8 (service_snapshot.ss_name s)"
    "CHR 0x0A \<notin> set (service_snapshot.ss_name s)"
    using assms(1) by (simp_all add: snapshot_ok_def)
  have "no_whitespace (''service='' @ service_snapshot.ss_name s)"
    using p name(1) no_whitespace_append[of "service_snapshot.ss_name s" "''service=''"] by (simp only: token_def value_ok_def)
  then show ?thesis using name unfolding True by (simp add: token_def is_cont_def)
next
  case False
  then have "w \<noteq> [] \<and> list_all (byte_in 33 126) w"
    using assms(2) by (auto simp: event_words_def show_or_dash_def byte_in_def split: option.splits)
  moreover from this have "CHR 0x0A \<notin> set w" by (auto simp: list_all_iff byte_in_def)
  ultimately show ?thesis using plain_token ascii_valid_utf8 by blast
qed

lemma event_text_ok:
  assumes "snapshot_ok s"
  shows "line_ok (event_text n t s)" "event_sequence (event_text n t s) = Some n"
proof -
  note words = event_words_ok[OF assms]
  have tokens: "token w" if "w \<in> set (event_words n t s)" for w using words[OF that] by simp
  have split: "split_whitespace (event_text n t s) = event_words n t s"
    unfolding event_text_def by (rule split_whitespace_join) (rule tokens)
  then show "event_sequence (event_text n t s) = Some n"
    by (simp add: event_sequence_def event_words_def strip_prefix_Cons)
  have "trimmed (event_text n t s)"
    unfolding event_text_def by (rule trimmed_join) (simp add: event_words_def, rule tokens)
  moreover have "CHR 0x0A \<notin> set (event_text n t s)"
  proof -
    have "set (join '' '' ws) \<subseteq> insert CHR '' '' (\<Union> (set ` set ws))" for ws :: "string list"
      by (induction "'' ''" ws rule: join.induct) auto
    then show ?thesis using words unfolding event_text_def by fastforce
  qed
  moreover have "valid_utf8 (join '' '' ws)" if "\<And>w. w \<in> set ws \<Longrightarrow> valid_utf8 w" for ws
    using that by (induction "'' ''" ws rule: join.induct) (auto simp: valid_utf8_append)
  then have "valid_utf8 (event_text n t s)" unfolding event_text_def using words by blast
  ultimately show "line_ok (event_text n t s)" by (simp add: line_ok_def strip_cr_trimmed)
qed

section \<open>Observing\<close>

definition numbers :: "string list \<Rightarrow> 64 word list" where
  "numbers ls = List.map_filter event_sequence ls"

definition journal_ok :: "event_journal \<Rightarrow> bool" where
  "journal_ok j \<longleftrightarrow>
     log_text j = unlines (log_lines j) \<and> list_all line_ok (log_lines j) \<and>
     sorted_wrt (<) (numbers (log_lines j)) \<and> (\<forall>n \<in> set (numbers (log_lines j)). n < ej_next j)"

fun number_from :: "64 word \<Rightarrow> 'a list \<Rightarrow> (64 word \<times> 'a) list" where
  "number_from n [] = []"
| "number_from n (x # xs) = (n, x) # number_from (n + 1) xs"

definition changed :: "event_journal \<Rightarrow> service_snapshot \<Rightarrow> bool" where
  "changed j s \<longleftrightarrow> map_of (ej_last j) (service_snapshot.ss_name s) \<noteq> Some s"

definition reported :: "(64 word \<Rightarrow> 64 word) \<Rightarrow> event_journal \<Rightarrow> service_snapshot list \<Rightarrow> (64 word \<times> service_snapshot) list" where
  "reported clock j snaps = number_from (ej_next j) (filter (changed j) snaps)"

lemma number_from_length [simp]: "length (number_from n xs) = length xs"
  by (induction n xs rule: number_from.induct) simp_all

lemma numbers_append [simp]: "numbers (xs @ ys) = numbers xs @ numbers ys"
  by (simp add: numbers_def map_filter_def)

lemma word_succ:
  fixes n :: "64 word"
  assumes "unat n + Suc k < 2 ^ 64"
  shows "saturating_succ n = n + 1" "unat (n + 1) = Suc (unat n)" "n < n + 1"
proof -
  have "n \<noteq> - 1"
  proof
    assume "n = - 1"
    then have "unat n = 2 ^ 64 - 1" by (simp add: unsigned_minus_1_eq_mask mask_eq_exp_minus_1)
    with assms show False by simp
  qed
  then show "saturating_succ n = n + 1" by (simp add: saturating_succ_def)
  have "unat n + unat (1 :: 64 word) < 2 ^ LENGTH(64)" using assms by simp
  then show s: "unat (n + 1) = Suc (unat n)" by (simp add: unat_add_lem[THEN iffD1])
  show "n < n + 1" by (simp add: word_less_nat_alt s)
qed

lemma observe_one_unchanged: "\<not> changed j s \<Longrightarrow> observe_one clock s (events, j) = (events, j)"
  by (simp add: observe_one_def changed_def)

lemma observe_one_changed:
  assumes "changed j s"
  shows "\<exists>j'. observe_one clock s (events, j) = (events @ [format_event (ej_next j) (clock (ej_next j)) s], j') \<and>
    ej_next j' = saturating_succ (ej_next j) \<and> ej_max j' = ej_max j \<and>
    ej_last j' = bmap_insert (service_snapshot.ss_name s) s (ej_last j) \<and>
    (\<forall>ls. log_text j = unlines ls \<longrightarrow>
      log_text j' = unlines (ls @ [event_text (ej_next j) (clock (ej_next j)) s]))"
  using assms unlines_ends
  by (auto simp: observe_one_def changed_def Let_def journal_append_def log_text_def format_event_def event_text_def
      unlines_snoc[symmetric] split: option.splits)

lemma observe_fold:
  assumes "fold (observe_one clock) snaps (events, j) = (events', j')"
    and "distinct (map service_snapshot.ss_name snaps)" "unat (ej_next j) + length snaps < 2 ^ 64"
  shows "events' = events @ map (\<lambda>(n, s). format_event n (clock n) s) (reported clock j snaps) \<and>
    ej_next j' = ej_next j + of_nat (length (reported clock j snaps)) \<and> ej_max j' = ej_max j \<and>
    (\<forall>s \<in> set snaps. \<not> changed j' s) \<and>
    (\<forall>name. name \<notin> service_snapshot.ss_name ` set snaps \<longrightarrow> map_of (ej_last j') name = map_of (ej_last j) name) \<and>
    (\<forall>ls. log_text j = unlines ls \<longrightarrow>
      log_text j' = unlines (ls @ map (\<lambda>(n, s). event_text n (clock n) s) (reported clock j snaps)))"
  using assms
proof (induction snaps arbitrary: events j)
  case Nil
  then show ?case by (simp add: reported_def)
next
  case (Cons s snaps)
  let ?name = "service_snapshot.ss_name"
  have dist: "distinct (map ?name snaps)" "?name s \<notin> ?name ` set snaps" using Cons.prems(2) by auto
  show ?case
  proof (cases "changed j s")
    case False
    have fold: "fold (observe_one clock) snaps (events, j) = (events', j')"
      using Cons.prems(1) observe_one_unchanged[OF False] by simp
    from Cons.IH[OF fold dist(1)] Cons.prems(3) False dist(2) show ?thesis
      by (auto simp: reported_def changed_def)
  next
    case True
    obtain j1 where j1: "observe_one clock s (events, j) = (events @ [format_event (ej_next j) (clock (ej_next j)) s], j1)"
      "ej_next j1 = saturating_succ (ej_next j)" "ej_max j1 = ej_max j" "ej_last j1 = bmap_insert (?name s) s (ej_last j)"
      and written: "\<And>ls. log_text j = unlines ls \<Longrightarrow>
        log_text j1 = unlines (ls @ [event_text (ej_next j) (clock (ej_next j)) s])"
      using observe_one_changed[OF True] by metis
    have next1: "ej_next j1 = ej_next j + 1" "unat (ej_next j1) = Suc (unat (ej_next j))"
      using word_succ[of "ej_next j" "length snaps"] Cons.prems(3) j1(2) by simp_all
    have fold: "fold (observe_one clock) snaps (events @ [format_event (ej_next j) (clock (ej_next j)) s], j1) = (events', j')"
      using Cons.prems(1) j1(1) by simp
    have "?name x \<noteq> ?name s" if "x \<in> set snaps" for x using dist(2) that by (metis imageI)
    then have same: "filter (changed j1) snaps = filter (changed j) snaps"
      by (intro filter_cong) (simp_all add: changed_def j1(4))
    have reported: "reported clock j (s # snaps) = (ej_next j, s) # reported clock j1 snaps"
      using True same by (simp add: reported_def next1(1))
    have "unat (ej_next j1) + length snaps < 2 ^ 64" using Cons.prems(3) next1(2) by simp
    note IH = Cons.IH[OF fold dist(1) this]
    have "log_text j' = unlines (ls @ map (\<lambda>(n, s). event_text n (clock n) s) (reported clock j (s # snaps)))"
      if "log_text j = unlines ls" for ls
      using IH[THEN conjunct2, THEN conjunct2, THEN conjunct2, THEN conjunct2, THEN conjunct2, rule_format, OF written[OF that]]
      by (simp add: reported)
    then show ?thesis using IH dist(2) unfolding reported
      by (auto simp: next1 j1(3,4) changed_def add.assoc)
  qed
qed

section \<open>Compaction\<close>

lemma log_text_written: "log_text j = unlines ls \<Longrightarrow> list_all line_ok ls \<Longrightarrow> log_lines j = ls"
  by (simp add: log_lines_def lines_unlines_ok)

text \<open>Compaction drops lines at the front, and leaves no more than the limit.\<close>

lemma compact_lines:
  assumes "compact_if_needed j = Ok j'"
  shows "length (log_lines j') \<le> ej_max j \<and> ej_max j' = ej_max j \<and> ej_next j' = ej_next j \<and> ej_last j' = ej_last j \<and>
    ej_count j' = length (log_lines j') \<and>
    (\<forall>ls. log_text j = unlines ls \<longrightarrow> list_all line_ok ls \<longrightarrow>
      log_text j' = unlines (drop (length ls - ej_max j) ls) \<and> log_lines j' = drop (length ls - ej_max j) ls)"
proof (cases "ej_log j")
  case None
  then show ?thesis using assms
    by (auto simp: compact_if_needed_def log_lines_def log_text_def lines_def unlines_def list_all_iff concat_eq_Nil_conv)
next
  case (Some contents)
  let ?ls = "lines contents" and ?kept = "drop (length (lines contents) - ej_max j) (lines contents)"
  have valid: "valid_utf8 contents" using assms Some by (simp add: compact_if_needed_def split: if_splits)
  have ll: "log_lines j = ?ls" by (simp add: log_lines_def log_text_def Some)
  show ?thesis
  proof (cases "\<not> ej_max j < length ?ls \<and> \<not> ej_max j * 1024 < length contents")
    case True
    then have j': "j' = j\<lparr>ej_count := length ?ls\<rparr>"
      using assms Some valid by (simp add: compact_if_needed_def Let_def)
    have same: "log_text j' = log_text j" "log_lines j' = ?ls" by (simp_all add: j' log_lines_def log_text_def Some)
    show ?thesis using True ll same log_text_written[of j] by (auto simp: j' not_less)
  next
    case False
    then have j': "j' = j\<lparr>ej_log := Some (unlines ?kept), ej_count := length ?kept\<rparr>"
      using assms Some valid by (auto simp: compact_if_needed_def Let_def split: if_splits)
    have newline: "CHR 0x0A \<notin> set l" if "l \<in> set ?kept" for l
      using that lines_from_no_newline[of l "[]" contents] by (auto simp: lines_def dest: in_set_dropD)
    have same: "log_text j' = unlines ?kept" "log_lines j' = lines (unlines ?kept)"
      by (simp_all add: j' log_lines_def log_text_def)
    have len: "length (log_lines j') = length ?kept" unfolding same by (rule lines_length_unlines) (rule newline)
    have "log_lines j' = ?kept" if "list_all line_ok ?ls"
      unfolding same by (rule lines_unlines_ok) (use that in \<open>auto simp: list_all_iff dest: in_set_dropD\<close>)
    with len same(1) show ?thesis using ll log_text_written[of j] by (auto simp: j')
  qed
qed

lemma compact_ok: "list_all line_ok ls \<Longrightarrow> log_text j = unlines ls \<Longrightarrow> \<exists>j'. compact_if_needed j = Ok j'"
  using unlines_valid[of ls] by (auto simp: compact_if_needed_def log_text_def Let_def split: option.splits)

text \<open>
  The event log stays small: after every observation, and after it has been opened, it holds at most
  the configured number of lines, whatever it held before.
\<close>

theorem journal_stays_small:
  "(case observe_snapshots clock snaps j of Err _ \<Rightarrow> True | Ok (_, j') \<Rightarrow>
      length (log_lines j') \<le> ej_max j' \<and> ej_count j' = length (log_lines j')) \<and>
   (case journal_open limit file of Err _ \<Rightarrow> True | Ok j' \<Rightarrow>
      length (log_lines j') \<le> ej_max j' \<and> ej_count j' = length (log_lines j') \<and>
      1 \<le> ej_max j' \<and> ej_max j' \<le> max_event_log_events)"
proof (intro conjI)
  show "case observe_snapshots clock snaps j of Err _ \<Rightarrow> True | Ok (_, j') \<Rightarrow>
      length (log_lines j') \<le> ej_max j' \<and> ej_count j' = length (log_lines j')"
    by (auto simp: observe_snapshots_def map_res_eq_Inr dest!: compact_lines split: sum.split prod.splits)
  show "case journal_open limit file of Err _ \<Rightarrow> True | Ok j' \<Rightarrow>
      length (log_lines j') \<le> ej_max j' \<and> ej_count j' = length (log_lines j') \<and>
      1 \<le> ej_max j' \<and> ej_max j' \<le> max_event_log_events"
    by (auto simp: journal_open_def bind_res_eq_Inr Let_def max_event_log_events_def default_event_log_events_def
        dest!: compact_lines split: sum.split option.splits)
qed

section \<open>Readers\<close>

lemma observe_ok:
  assumes "observe_snapshots clock snaps j = Ok (events, j')"
    and "distinct (map service_snapshot.ss_name snaps)" "unat (ej_next j) + length snaps < 2 ^ 64"
  shows "events = map (\<lambda>(n, s). format_event n (clock n) s) (reported clock j snaps)"
    and "\<forall>s \<in> set snaps. \<not> changed j' s"
    and "ej_next j' = ej_next j + of_nat (length (reported clock j snaps))"
    and "log_text j = unlines ls \<Longrightarrow> list_all line_ok ls \<Longrightarrow> list_all snapshot_ok snaps \<Longrightarrow>
      \<exists>k. log_lines j' = drop k (ls @ map (\<lambda>(n, s). event_text n (clock n) s) (reported clock j snaps)) \<and>
        log_text j' = unlines (log_lines j') \<and> list_all line_ok (log_lines j')"
proof -
  obtain events1 j1 where j1: "fold (observe_one clock) snaps ([], j) = (events1, j1)" by fastforce
  with assms(1) have c: "compact_if_needed j1 = Ok j'" "events = events1"
    by (auto simp: observe_snapshots_def map_res_eq_Inr)
  note f = observe_fold[OF j1 assms(2,3)] and k = compact_lines[OF c(1)]
  show "events = map (\<lambda>(n, s). format_event n (clock n) s) (reported clock j snaps)" using f c(2) by simp
  show "\<forall>s \<in> set snaps. \<not> changed j' s" using f k by (simp add: changed_def)
  show "ej_next j' = ej_next j + of_nat (length (reported clock j snaps))" using f k by simp
  assume ls: "log_text j = unlines ls" "list_all line_ok ls" "list_all snapshot_ok snaps"
  let ?new = "map (\<lambda>(n, s). event_text n (clock n) s) (reported clock j snaps)"
  have "set (map snd (number_from n xs)) \<subseteq> set xs" for n and xs :: "service_snapshot list"
    by (induction n xs rule: number_from.induct) auto
  then have "snapshot_ok s" if "(n, s) \<in> set (reported clock j snaps)" for n s
    using that ls(3) unfolding reported_def by (fastforce simp: list_all_iff)
  then have "list_all line_ok (ls @ ?new)" using ls(2) event_text_ok(1) by (auto simp: list_all_iff)
  moreover have "log_text j1 = unlines (ls @ ?new)" using f ls(1) by blast
  ultimately have lines: "log_text j' = unlines (drop (length (ls @ ?new) - ej_max j1) (ls @ ?new)) \<and>
      log_lines j' = drop (length (ls @ ?new) - ej_max j1) (ls @ ?new)"
    using k by blast
  moreover have "list_all line_ok (drop m (ls @ ?new))" for m
    using \<open>list_all line_ok (ls @ ?new)\<close> by (auto simp: list_all_iff dest: in_set_dropD)
  ultimately show "\<exists>k. log_lines j' = drop k (ls @ ?new) \<and> log_text j' = unlines (log_lines j') \<and> list_all line_ok (log_lines j')"
    by metis
qed

text \<open>
  An observation reports exactly the changes: one event for every service whose snapshot differs
  from the last one seen of it, in the order of the services and numbered from the next number on; the
  snapshots are remembered, so that the same observation again reports nothing.
\<close>

theorem observe_reports_changes:
  assumes "observe_snapshots clock snaps j = Ok (events, j')"
    and "distinct (map service_snapshot.ss_name snaps)" "unat (ej_next j) + length snaps < 2 ^ 64"
  shows "events = map (\<lambda>(n, s). format_event n (clock n) s) (number_from (ej_next j) (filter (changed j) snaps)) \<and>
    (\<forall>s \<in> set snaps. \<not> changed j' s)"
  using observe_ok(1,2)[OF assms] by (simp add: reported_def)

definition demo_snapshot :: service_snapshot where
  "demo_snapshot = \<lparr>service_snapshot.ss_name = ''web'', service_snapshot.ss_state = StActive, service_snapshot.ss_pid = Some 7,
     service_snapshot.ss_generation = 1, service_snapshot.ss_restart_count = 0, ss_last_exit = None\<rparr>"

definition demo_journal :: event_journal where
  "demo_journal = \<lparr>ej_log = None, ej_next = 5, ej_count = 0, ej_max = 100, ej_last = []\<rparr>"

lemma demo_snapshot_ok: "snapshot_ok demo_snapshot"
proof -
  have "is_ascii ''web'' \<and> token ''web''" by (rule plain_token) (simp_all add: byte_in_def)
  then show ?thesis by (simp add: snapshot_ok_def demo_snapshot_def value_ok_def token_def ascii_valid_utf8)
qed

lemma demo_observe: "\<exists>events j'. observe_snapshots clock [demo_snapshot] demo_journal = Ok (events, j')"
proof -
  obtain events1 j1 where j1: "fold (observe_one clock) [demo_snapshot] ([], demo_journal) = (events1, j1)" by fastforce
  have "unat (ej_next demo_journal) + length [demo_snapshot] < 2 ^ 64" by (simp add: demo_journal_def)
  moreover have "log_text demo_journal = unlines []" by (simp add: demo_journal_def log_text_def unlines_def)
  moreover have "changed demo_journal demo_snapshot" by (simp add: demo_journal_def changed_def)
  ultimately have "log_text j1 = unlines [event_text 5 (clock 5) demo_snapshot]"
    using observe_fold[OF j1] by (simp add: reported_def demo_journal_def)
  moreover have "list_all line_ok [event_text 5 (clock 5) demo_snapshot]"
    using event_text_ok(1)[OF demo_snapshot_ok] by simp
  ultimately have "\<exists>j'. compact_if_needed j1 = Ok j'" by (intro compact_ok)
  then show ?thesis using j1 by (auto simp: observe_snapshots_def)
qed

theorem observe_reports_changes_witness:
  "\<exists>j'. observe_snapshots (\<lambda>_. 9) [demo_snapshot] demo_journal = Ok ([format_event 5 9 demo_snapshot], j')"
proof -
  obtain events j' where o: "observe_snapshots (\<lambda>_. 9) [demo_snapshot] demo_journal = Ok (events, j')"
    using demo_observe by blast
  from observe_reports_changes[OF o] o show ?thesis by (simp add: demo_journal_def changed_def)
qed

lemma reported_numbers:
  "unat n + length xs < 2 ^ 64 \<Longrightarrow>
    sorted_wrt (<) (map fst (number_from n xs)) \<and>
    (\<forall>m \<in> fst ` set (number_from n xs). n \<le> m \<and> m < n + of_nat (length xs)) \<and>
    unat (n + of_nat (length xs)) = unat n + length xs"
proof (induction n xs rule: number_from.induct)
  case (2 n x xs)
  note n = word_succ[of n "length xs"]
  have step: "n < n + 1" "unat (n + 1) = Suc (unat n)" using n 2(2) by simp_all
  have "unat (n + 1) + length xs < 2 ^ 64" using 2(2) unfolding step(2) by simp
  note hyp = 2(1)[OF this]
  have IH: "sorted_wrt (<) (map fst (number_from (n + 1) xs))"
    "unat (n + 1 + of_nat (length xs)) = unat (n + 1) + length xs"
    and between: "\<And>m. m \<in> fst ` set (number_from (n + 1) xs) \<Longrightarrow> n + 1 \<le> m \<and> m < n + 1 + of_nat (length xs)"
    using hyp by blast+
  have len: "n + of_nat (length (x # xs)) = n + 1 + of_nat (length xs)" by simp
  have "n < n + 1 + of_nat (length xs)" unfolding word_less_nat_alt IH(2) step(2) by simp
  moreover have "unat (n + of_nat (length (x # xs))) = unat n + length (x # xs)" unfolding len IH(2) step(2) by simp
  moreover have "n < m" if "m \<in> fst ` set (number_from (n + 1) xs)" for m
    using between[OF that] step(1) by (blast intro: less_le_trans)
  ultimately show ?case
    using IH(1) between unfolding len number_from.simps by (auto simp del: of_nat_Suc simp: less_imp_le)
qed simp

lemma numbers_reported:
  "(\<And>n s. (n, s) \<in> set xs \<Longrightarrow> snapshot_ok s) \<Longrightarrow> numbers (map (\<lambda>(n, s). event_text n (clock n) s) xs) = map fst xs"
proof (induction xs)
  case (Cons x xs)
  obtain n s where x: "x = (n, s)" by (cases x)
  have "event_sequence (event_text n (clock n) s) = Some n" using Cons.prems[of n s] event_text_ok(2) by (simp add: x)
  moreover have "numbers (map (\<lambda>(n, s). event_text n (clock n) s) xs) = map fst xs"
    by (rule Cons.IH) (use Cons.prems in auto)
  ultimately show ?case by (simp add: x numbers_def map_filter_simps)
qed (simp add: numbers_def map_filter_simps)

lemma numbers_drop: "\<exists>i. numbers (drop k ls) = drop i (numbers ls)"
proof -
  have "numbers ls = numbers (take k ls) @ numbers (drop k ls)" by (simp flip: numbers_append)
  then show ?thesis by (metis append_eq_conv_conj)
qed

definition take_number :: "string \<Rightarrow> 64 word \<Rightarrow> 64 word" where
  "take_number line next_sequence =
     (case event_sequence line of None \<Rightarrow> next_sequence | Some n \<Rightarrow> max next_sequence (saturating_succ n))"

lemma take_number_grows: "k \<le> fold take_number ls k"
proof (induction ls arbitrary: k)
  case (Cons l ls)
  have "k \<le> take_number l k" by (simp add: take_number_def split: option.split)
  with Cons.IH[of "take_number l k"] show ?case by simp
qed simp

lemma succ_above: "(n :: 64 word) < m \<Longrightarrow> n < saturating_succ n"
proof -
  assume "n < m"
  moreover have "unat m < 2 ^ 64" using unsigned_less[of m, where ?'a = nat] by simp
  ultimately have "unat n + Suc 0 < 2 ^ 64" by (simp add: word_less_nat_alt)
  from word_succ(1,3)[OF this] show ?thesis by simp
qed

lemma next_after: "n \<in> set (numbers ls) \<Longrightarrow> n < m \<Longrightarrow> n < fold take_number ls k"
proof (induction ls arbitrary: k)
  case (Cons l ls)
  show ?case
  proof (cases "event_sequence l = Some n")
    case True
    then have "n < take_number l k" using succ_above[OF Cons.prems(2)] by (simp add: take_number_def less_max_iff_disj)
    with take_number_grows[of "take_number l k" ls] show ?thesis by simp
  next
    case False
    then show ?thesis using Cons by (auto simp: numbers_def map_filter_simps split: option.splits)
  qed
qed (simp add: numbers_def map_filter_simps)

lemma snapshots_reported: "list_all snapshot_ok snaps \<Longrightarrow> (n, s) \<in> set (reported clock j snaps) \<Longrightarrow> snapshot_ok s"
proof -
  have "set (map snd (number_from m xs)) \<subseteq> set xs" for m and xs :: "service_snapshot list"
    by (induction m xs rule: number_from.induct) auto
  then show "list_all snapshot_ok snaps \<Longrightarrow> (n, s) \<in> set (reported clock j snaps) \<Longrightarrow> snapshot_ok s"
    unfolding reported_def by (fastforce simp: list_all_iff)
qed

text \<open>A log that has been compacted is as good as before.\<close>

lemma journal_ok_drop:
  assumes "log_text j = unlines ls" "list_all line_ok ls" "sorted_wrt (<) (numbers ls)"
    and "\<forall>n \<in> set (numbers ls). n < ej_next j" and "compact_if_needed j = Ok j'"
  shows "journal_ok j'"
proof -
  obtain k where k: "log_text j' = unlines (drop k ls)" "log_lines j' = drop k ls" and "ej_next j' = ej_next j"
    using compact_lines[OF assms(5)] assms(1,2) by blast
  moreover obtain i where "numbers (drop k ls) = drop i (numbers ls)" using numbers_drop by blast
  moreover have "list_all line_ok (drop k ls)" using assms(2) by (auto simp: list_all_iff dest: in_set_dropD)
  ultimately show ?thesis
    using assms(3,4) by (auto simp: journal_ok_def sorted_wrt_drop dest: in_set_dropD)
qed

lemma open_ok:
  assumes "journal_ok j"
  shows "\<exists>j'. journal_open limit (ej_log j) = Ok j' \<and> journal_ok j'"
proof -
  let ?ls = "log_lines j"
  have ok: "log_text j = unlines ?ls" "list_all line_ok ?ls" "sorted_wrt (<) (numbers ?ls)"
    "\<forall>n \<in> set (numbers ?ls). n < ej_next j"
    using assms by (simp_all add: journal_ok_def)
  have step: "take_number = (\<lambda>line next_sequence. case event_sequence line of
      None \<Rightarrow> next_sequence | Some n \<Rightarrow> max next_sequence (saturating_succ n))"
    by (simp add: take_number_def fun_eq_iff)
  obtain j0 where open0: "journal_open limit (ej_log j) = compact_if_needed j0"
    and j0: "ej_log j0 = ej_log j" "ej_next j0 = fold take_number ?ls 0"
  proof (cases "ej_log j")
    case None
    then show ?thesis using that[of "\<lparr>ej_log = None, ej_next = 0, ej_count = 0, ej_max = _, ej_last = []\<rparr>"]
      by (simp add: journal_open_def Let_def log_lines_def log_text_def lines_def)
  next
    case (Some contents)
    then have "valid_utf8 contents" using unlines_valid[OF ok(2)] ok(1) by (simp add: log_text_def)
    then show ?thesis
      using Some that[of "\<lparr>ej_log = Some contents, ej_next = fold take_number ?ls 0, ej_count = length ?ls, ej_max = _, ej_last = []\<rparr>"]
      by (simp add: journal_open_def Let_def log_lines_def log_text_def step)
  qed
  have written: "log_text j0 = unlines ?ls" using ok(1) j0(1) by (simp add: log_text_def)
  obtain j' where j': "compact_if_needed j0 = Ok j'" using compact_ok[OF ok(2) written] by blast
  have "\<forall>n \<in> set (numbers ?ls). n < ej_next j0" using ok(4) next_after unfolding j0(2) by blast
  from journal_ok_drop[OF written ok(2,3) this j'] j' show ?thesis by (auto simp: open0)
qed


lemma demo_journal_ok: "journal_ok demo_journal"
  by (simp add: journal_ok_def demo_journal_def log_lines_def log_text_def lines_def unlines_def numbers_def map_filter_simps)


text \<open>
  C40: followers miss nothing but what the limit drops: what a client reads from the log after an
  observation, from any number on, is what it would have read before followed by the events just
  broadcast, less lines at the front.
\<close>

theorem readers_follow:
  assumes "journal_ok j" and "list_all snapshot_ok snaps"
    and "observe_snapshots clock snaps j = Ok (events, j')"
    and "distinct (map service_snapshot.ss_name snaps)" "unat (ej_next j) + length snaps < 2 ^ 64"
    and "events_since j since = Ok before" "events_since j' since = Ok after"
  shows "suffix after (before @ since_lines since (concat (map lines events)))"
proof -
  let ?new = "map (\<lambda>(n, s). event_text n (clock n) s) (reported clock j snaps)"
  have since: "events_since i since = Ok ls \<Longrightarrow> ls = since_lines since (log_lines i)" for i ls
    by (auto simp: events_since_def log_lines_def log_text_def lines_def since_lines_def split: option.splits if_splits)
  obtain k where k: "log_lines j' = drop k (log_lines j @ ?new)"
    using observe_ok(4)[OF assms(3-5) _ _ assms(2)] assms(1) unfolding journal_ok_def by blast
  have "events = map (\<lambda>(n, s). format_event n (clock n) s) (reported clock j snaps)" by (rule observe_ok(1)[OF assms(3-5)])
  moreover have "lines (format_event n (clock n) s) = [event_text n (clock n) s]" if "(n, s) \<in> set (reported clock j snaps)" for n s
  proof -
    from snapshots_reported[OF assms(2) that] have "snapshot_ok s" .
    from lines_unlines_ok[of "[event_text n (clock n) s]"] event_text_ok(1)[OF \<open>snapshot_ok s\<close>]
    show ?thesis by (simp add: unlines_def format_event_def event_text_def)
  qed
  moreover have "concat (map (\<lambda>(n, s). lines (format_event n (clock n) s)) xs) = map (\<lambda>(n, s). event_text n (clock n) s) xs"
    if "\<And>n s. (n, s) \<in> set xs \<Longrightarrow> lines (format_event n (clock n) s) = [event_text n (clock n) s]" for xs
    using that by (induction xs) (auto simp: case_prod_unfold)
  ultimately have "concat (map lines events) = ?new" by (simp add: comp_def case_prod_unfold)
  moreover have "suffix (filter P (drop k xs)) (filter P xs)" for P and xs :: "string list"
    unfolding suffix_def by (metis append_take_drop_id filter_append)
  ultimately show ?thesis
    unfolding since[OF assms(6)] since[OF assms(7)] k since_lines_def by (metis filter_append)
qed

lemma demo_observed:
  "\<exists>events j'. observe_snapshots clock [demo_snapshot] demo_journal = Ok (events, j') \<and> (\<exists>ls. events_since j' since = Ok ls)"
proof -
  obtain events j' where o: "observe_snapshots clock [demo_snapshot] demo_journal = Ok (events, j')"
    using demo_observe by blast
  from observe_ok(4)[OF o, of "[]"] have "log_text j' = unlines (log_lines j') \<and> list_all line_ok (log_lines j')"
    by (simp add: demo_journal_def demo_snapshot_ok log_text_def unlines_def)
  then have "\<exists>ls. events_since j' since = Ok ls"
    using unlines_valid[of "log_lines j'"] by (auto simp: events_since_def log_text_def split: option.splits)
  with o show ?thesis by blast
qed

theorem readers_follow_witness:
  "\<exists>events j' after. observe_snapshots (\<lambda>_. 9) [demo_snapshot] demo_journal = Ok (events, j') \<and>
    events_since j' 5 = Ok after \<and> suffix after ([] @ since_lines 5 (concat (map lines events)))"
proof -
  obtain events j' after where o: "observe_snapshots (\<lambda>_. 9) [demo_snapshot] demo_journal = Ok (events, j')"
    and after: "events_since j' 5 = Ok after"
    using demo_observed by blast
  have "events_since demo_journal 5 = Ok []" by (simp add: events_since_def demo_journal_def)
  from readers_follow[OF demo_journal_ok _ o _ _ this after] o after show ?thesis
    by (simp add: demo_snapshot_ok) (simp add: demo_journal_def)
qed

end
