(* ===== verification/Spec2Isabelle.thy ===== *)
theory Spec2Isabelle
  imports Service_Record Dep_Graph Config_Wf Control State_Paths Escape Resolver_Discovery Storage_Properties Supervisor_Stops Journal_Properties
begin

text \<open>
  A model of FractalD, an init system and service supervisor written in Rust: the parts that decide
  what happens to services, with the theorems that make them correct.

  \<^bold>\<open>The program.\<close> A service is described by a text file. \<open>fractald-config\<close> parses it and turns its values
  into a \<open>ServiceSpec\<close> of \<open>fractald-core\<close>. The supervisor (\<open>fractald-supervisor\<close>) keeps a
  \<open>ManagedService\<close> per service: the descriptor, its processes and helper processes, and a
  \<open>ServiceRecord\<close>, a state machine that consumes events (requests, spawned and exited processes,
  timeouts) and returns the actions to carry out (spawn, signal, schedule a restart). It registers the
  descriptors in a \<open>DependencyGraph\<close>, which plans the order in which services are started and stopped,
  runs the plans as start jobs, and polls the services, their timers, watched paths and sockets.
  \<open>fractalctl\<close> talks to the manager with the line protocol of \<open>fractald-control\<close>;
  \<open>fractald-escape\<close> turns paths and other text into service names, \<open>fractald-storage\<close> turns the table of
  file systems into service files, and the resolver answers queries for host names.

  \<^bold>\<open>Theories and sources\<close> (all sources are under \<open>src/crates/\<close>):
  \<^item> \<open>Rust_Prelude\<close>, \<open>Rust_Str\<close>, \<open>Rust_Utf8\<close>, \<open>Rust_Net\<close>, \<open>Rust_Path\<close>, \<open>BTree\<close>, \<open>Glob\<close>: what the sources use of Rust and its standard
    library. A \<open>String\<close> is the list of its UTF-8 bytes and \<open>chars\<close> cuts it into characters; \<open>Result\<close>
    is a sum, with \<open>Err\<close> for \<open>Inl\<close> and \<open>Ok\<close> for \<open>Inr\<close>, and the question mark operator is \<open>bind_res\<close>;
    a computation that can panic returns an option whose \<open>None\<close> is the panic; \<open>u64\<close> values are 64-bit
    words with checked arithmetic as in the source; \<open>BTreeSet\<close> and \<open>BTreeMap\<close> are lists in ascending
    order, behind the locales \<open>btree_set\<close> and \<open>btree_map\<close>, which state what the rest relies on; \<open>glob_table\<close> is
    the contract of the wildcard matchers.
  \<^item> \<open>Service_Spec\<close>, from \<open>fractald-core/src/lib.rs\<close>: the data types of a specification field by field,
    \<open>ServiceSpec::new\<close>, \<open>ServiceSpec::validate\<close> in the order of its checks, the name checks, and
    \<open>expand_mount_path\<close>, for which the environment of the process is the argument \<open>env\<close>.
  \<^item> \<open>Service_Record\<close>, from the same file: \<open>ServiceRecord\<close>, one definition per event handler of
    \<open>transition\<close>. A handler takes the record and returns the result (an error or the actions) with the
    record it leaves, so that a rejected event is seen to leave it alone. The locales
    \<open>invariant_machine\<close> and \<open>budgeted_machine\<close> hold the induction over runs and are interpreted on
    \<open>transition\<close>.
  \<^item> \<open>Kahn\<close> and \<open>Dep_Graph\<close>, from \<open>fractald-core/src/graph.rs\<close>: the generic algorithms (worklist
    closure, edge maps, topological loop, cycle breaking loop) over any ordered nodes, then the
    registry, the implied and mount dependencies, the closures and the plans. The two closure loops are
    interpretations of the locale \<open>worklist\<close>.
  \<^item> \<open>Native_Config\<close>, from \<open>fractald-config/src/lib.rs\<close>: \<open>NativeFile\<close>, its parser with line
    continuations, the schema, the lookups with the reset of list keys, \<open>merge\<close>.
  \<^item> \<open>Config_Values\<close>, \<open>Config_Duration\<close>, \<open>Syscall_Groups\<close>, \<open>Config_Sections\<close>, \<open>Config_Wf\<close>, from the same
    crate: \<open>split_words\<close> and the parsers of single values and of bit sets; durations and quotas, which
    the source computes in \<open>f64\<close> and the model in \<open>Float64\<close> (numbers as fractions, rounded to the nearest
    double, ties to even); the table of system call groups; one definition per section parser and
    \<open>parse_spec\<close>, which composes them; the type of their result.
  \<^item> \<open>Supervisor_Base\<close>, \<open>Supervisor_Text\<close>, \<open>Calendar\<close>, \<open>Host_Conditions\<close>, from
    \<open>fractald-supervisor/src/lib.rs\<close>: programs over a state and a world that may fail, deadlines and
    errors; specifiers, environment expansion, environment files and the shell scripts of helper
    commands; calendar expressions and their next and missed times; the conditions of a service over
    the files of the host, which are the record \<open>platform\<close>.
  \<^item> \<open>Managed_State\<close>, \<open>Managed_Ops\<close>, \<open>Managed_Spawn\<close>, \<open>Managed_Poll\<close>: \<open>ManagedService\<close>, one definition per
    method. What a method asks of the operating system (start, signal and wait for a process, prepare a
    directory, read a clock) is a field of the record \<open>host\<close>, a function of the call and of a world
    that it may change; nothing is assumed of it, so every theorem holds whatever the system answers.
  \<^item> \<open>Supervisor\<close>, \<open>Supervisor_Run\<close>: the struct \<open>Supervisor\<close>: \<open>add\<close> and \<open>reload\<close>, names and aliases,
    dynamic identities, conflicts, start jobs, then \<open>start\<close>, \<open>stop\<close>, \<open>restart\<close>, \<open>isolate\<close>, \<open>stop_all\<close>,
    \<open>poll\<close> and the propagation of failures and bindings.
  \<^item> \<open>Managed_Contracts\<close> and \<open>Supervisor_Contracts\<close>: what every method keeps. The locale
    \<open>step_contract\<close> turns a relation that the elementary operations respect into one that every
    method of a service respects, \<open>coarser_contract\<close> compares two of them, and \<open>job_contract\<close> does the same
    for the supervisor. They are interpreted on the relations the properties need: the record evolves
    by transitions only, a service stays down, the jobs are kept, aliases and names are kept.
  \<^item> \<open>Managed_Properties\<close>, \<open>Supervisor_Properties\<close>, \<open>Supervisor_Jobs\<close>, \<open>Supervisor_Stops\<close>: the theorems
    on services and the supervisor.
  \<^item> \<open>Control\<close>, from \<open>fractald-control/src/lib.rs\<close>: \<open>Request\<close> and \<open>Response\<close>, their \<open>as_line\<close> and
    \<open>parse\<close>, and the checks of names and transaction ids.
  \<^item> \<open>State_Paths\<close>, from the same crate: \<open>StatePaths\<close>, the markers of enabled and masked services, over
    directories as maps from names to kinds of files.
  \<^item> \<open>Escape\<close>, from \<open>fractald-escape/src/main.rs\<close>: the options and all transformations.
  \<^item> \<open>Dns_Message\<close> and \<open>Resolver_Discovery\<close>, from \<open>fractald-resolver/src/lib.rs\<close>, and \<open>Resolver_Service\<close>, from
    \<open>fractald-resolved/src/main.rs\<close>: queries and responses, the discovery record, the service with its
    cache, faults and control requests. The name servers are a function of the packet and the attempt,
    the clock is an argument.
  \<^item> \<open>Storage\<close> and \<open>Storage_Properties\<close>, from \<open>fractald-storage/src/lib.rs\<close>: \<open>fstab\<close> and \<open>crypttab\<close>, and the
    service files generated for mounts and swap spaces.
  \<^item> \<open>Event_Journal\<close> and \<open>Journal_Properties\<close>, from \<open>fractald/src/main.rs\<close>: \<open>EventJournal\<close>, the log of the changes
    of the services, with its file a part of the state.
  \<^item> This theory: what spans the components, the agreement of their name checks.

  \<^bold>\<open>What the theorems show.\<close>
  \<^item> Records: every reachable record satisfies its invariant; the transitions refine an abstract
    diagram; a run without new requests restarts a service at most as often as its limit allows; events
    of an earlier generation are refused; signals reach the recorded process only; a completed stop
    leaves the service down; rejected events change nothing; validation accepts exactly the well-formed
    specifications.
  \<^item> Graph: a start plan lists exactly the start closure, each service once and after everything it is
    ordered after; it exists exactly when no requirement is missing and the order has no cycle; errors
    name the true cause; nothing panics; stop plans are reversed; the best effort plan for shutdown
    exists for every registry and agrees with the exact one when that exists; required services and
    mounts are in the plan, mounts before their users.
  \<^item> Configuration: accepted files obey the schema and record true line numbers; rendering and parsing
    are inverse; resets and overlays have their documented meaning; quoting and word splitting are
    inverse; sizes, durations, exit statuses and capability sets are exact and in range; every parsed
    specification passes \<open>validate\<close> and has all fields in range.
  \<^item> Supervisor, one service: whatever is called and answered, its record is one the lifecycle reaches;
    the start limit is a sliding window; a stop gives the service up; helper commands reach the shell
    as configured; dates and missed schedules are right; wildcards mean what they say; what an
    automatic restart and the stop command of an active service miss.
  \<^item> Supervisor, all services: in every reachable state the names, records, aliases and the graph agree;
    dynamic identities are unique; a reload touches no active service; the loops of start jobs and of
    unneeded services end; conflicts count in both directions; stopping a service takes its dependents
    down, and stopping everything leaves nothing up; what an error in one job does to the others.
  \<^item> Control and escape: encoding and parsing are inverse for every well-formed request and response;
    unescaping inverts escaping, for texts and for paths; the inputs on which the decoder panics.

  \<^item> Resolver: queries and responses are read as they were written, name compression included; the
    service accepts every query of the library, keeps the id of the query in every reply, caches a
    response as long as its shortest lived record, and stays usable whatever is asked of it.
  \<^item> Storage: tables are read as they were written; the generator covers every active entry, and mounts
    wait for the mounts they lie in.
  \<^item> Event log: an observation reports exactly the changes; numbers ascend, across restarts too; the log
    stays within its limit; readers miss only the oldest lines.

  \<^bold>\<open>Termination and fuel.\<close> The closure loops end because every step moves a registered name into the
  visited set; the topological loop because every step uses up a node whose degree is zero (the degree
  map of the whole graph is the measure); the cycle breaking loop because every round emits a node. Two
  loops of the supervisor run until nothing changes and carry fuel: \<open>job_passes\<close>, started with one more
  than the services of the job, and \<open>reap_loop\<close>, started with one more than the services;
  \<open>start_job_loop_settles\<close> and \<open>reap_unneeded_ends\<close> prove that this is enough. \<open>start_with_origin\<close>
  and the operations over it call each other (a start stops conflicting services, a poll activates and
  propagates), bounded by an explicit \<open>fuel\<close>: \<open>None\<close> says that the calls nest deeper; no theorem
  claims that they do not, and theorems on runs are about the runs that return. All other loops recurse
  on their input.

  \<^bold>\<open>Not modelled.\<close> The socket of \<open>RuntimePaths\<close> and the places of the directories; the printing of error
  messages (error values carry the same data, their \<open>Display\<close> texts are left out). Of the supervisor:
  what a child does between fork and exec (identity, limits, name spaces, filters), the preparation of
  directories, credentials, listeners and control groups, which are host calls of the model, the
  forwarding of output to the journal, \<open>reconcile_orphans\<close> and \<open>reap_untracked_children\<close>, which wait for
  and kill foreign processes, and the walk of \<open>path_exists_glob\<close>, a field of the platform. The manager
  process but for its event log, the platform layer and the other tools are mostly system calls.
\<close>

section \<open>Service names across the components\<close>

text \<open>
  Three components check service names on their own: the configuration parser (\<open>validate_name\<close>), the
  descriptor (\<open>validate\<close>, through \<open>invalid_alias\<close> for aliases and the same test for names) and the
  control plane (\<open>validate_service_name\<close>).
\<close>

lemma no_space_not_blank:
  assumes "\<not> has_space_or_control v" and "v \<noteq> []"
  shows "trim v \<noteq> []"
proof -
  have "no_whitespace v" using assms(1) by (auto simp: has_space_or_control_def no_whitespace_def list_all_iff list_ex_iff)
  then show ?thesis using assms(2) by (simp add: trim_trimmed no_whitespace_trimmed)
qed

lemma validate_name_iff: "validate_name v = Ok () \<longleftrightarrow> \<not> invalid_alias v"
  using no_space_not_blank[of v] by (auto simp: validate_name_def invalid_alias_def)

text \<open>
  The name checks agree: the configuration parser accepts exactly the names the descriptor
  accepts, and the control plane accepts every one of them, so each configured service can be
  addressed by its name.
\<close>

theorem name_checks_agree:
  "(validate_name v = Ok () \<longleftrightarrow> \<not> invalid_alias v) \<and>
   (validate_name v = Ok () \<longrightarrow> validate_service_name v = Ok ())"
proof -
  have nul: "char_is_control [CHR 0x00]" by (simp add: char_is_control_single)
  have "validate_service_name v = Ok ()" if "validate_name v = Ok ()"
    using that nul
    by (auto simp: validate_name_def validate_service_name_def has_space_or_control_def list_ex_iff split: if_splits)
  then show ?thesis using validate_name_iff by blast
qed

theorem name_checks_agree_witness: "validate_service_name ''web'' = Ok ()"
proof -
  have "validate_name ''web'' = Ok ()"
    by (simp add: validate_name_def has_space_or_control_def is_cont_def char_is_whitespace_single char_is_control_single)
  then show ?thesis using name_checks_agree[of "''web''"] by blast
qed

lemma escape_graphic:
  assumes "c \<in> set (escape v)"
  shows "33 \<le> byte_val c \<and> byte_val c < 127 \<and> c \<noteq> CHR ''/''"
proof -
  from assms obtain b where b: "c \<in> set (escape_byte b)" by (auto simp: escape_def)
  have "33 \<le> byte_val c \<and> byte_val c < 127"
  proof (cases "plain_byte b")
    case True
    then show ?thesis using b by (auto simp: escape_byte_def plain_byte_def byte_class_defs)
  next
    case False
    then show ?thesis using b byte_halves[of b] hex_digit_cases[OF byte_halves(1)[of b]] hex_digit_cases[OF byte_halves(2)[of b]]
      by (auto simp: escape_byte_def split: if_splits)
  qed
  then show ?thesis using escape_letters[OF assms] by blast
qed

lemma escape_no_space: "\<not> has_space_or_control (escape v)"
proof -
  have "is_ascii (escape v)" using escape_letters by (auto simp: is_ascii_def list_all_iff)
  then have "chars (escape v) = map (\<lambda>c. [c]) (escape v)" by (rule chars_ascii)
  moreover have "\<not> char_is_whitespace [c] \<and> \<not> char_is_control [c]" if "c \<in> set (escape v)" for c
    using escape_graphic[OF that] by (auto simp: char_is_whitespace_single char_is_control_single)
  ultimately show ?thesis by (auto simp: has_space_or_control_def list_ex_iff)
qed

lemma escape_dots: "escape v = ''.'' \<longleftrightarrow> v = ''.''" "escape v = ''..'' \<longleftrightarrow> v = ''..''"
proof -
  have dot: "escape_byte c @ s = CHR ''.'' # t \<longleftrightarrow> c = CHR ''.'' \<and> s = t" for c s t
    by (auto simp: escape_byte_def plain_byte_def)
  show "escape v = ''.'' \<longleftrightarrow> v = ''.''" by (cases v) (simp_all add: dot)
  show "escape v = ''..'' \<longleftrightarrow> v = ''..''" by (cases v; cases "tl v") (simp_all add: dot dot[where s = "[]", simplified])
qed

text \<open>
  Escaping makes any text usable as a service name: except for the empty text and the two
  directory entries \<open>.\<close> and \<open>..\<close>, the output of the escaping tool passes the name check of the
  configuration parser.
\<close>

theorem escaped_text_is_a_name:
  "validate_name (escape v) = Ok () \<longleftrightarrow> v \<noteq> [] \<and> v \<noteq> ''.'' \<and> v \<noteq> ''..''"
proof -
  have "CHR ''/'' \<notin> set (escape v)" using escape_graphic by blast
  then show ?thesis using escape_no_space[of v] escape_dots[of v] by (auto simp: validate_name_def)
qed

end
